(* ===== verification/Prelude.thy ===== *)
theory Prelude
  imports Main "HOL-Library.Word" "HOL-Library.Monad_Syntax" "HOL-Library.Code_Target_Nat"
begin

section \<open>Prelude: Rust values, results and slices\<close>

text \<open>
  What the components share.  Conventions of the whole development:
  \<^item> fixed-width integers (\<open>u8\<close>, \<open>u16\<close>, \<open>u32\<close>, \<open>u64\<close>) are words of that width; \<open>usize\<close> is a
    natural number together with the 64-bit operations below, which write out overflow;
  \<^item> \<open>Option\<close> is \<open>option\<close>, \<open>Result<T, E>\<close> is \<open>'e + 't\<close> with \<open>Inl\<close> for \<open>Err\<close>;
  \<^item> a panic (a failed \<open>assert!\<close>, \<open>unwrap\<close>, index or overflow) of a function that has no error
    type of its own is \<open>None\<close>;
  \<^item> a byte slice is a list of bytes, \<open>slice.get(i)\<close> is \<open>slice_get\<close>.
\<close>

type_synonym byte = "8 word"
type_synonym u8 = "8 word"
type_synonym u16 = "16 word"
type_synonym u32 = "32 word"
type_synonym u64 = "64 word"
type_synonym bytes = "byte list"
type_synonym hash = bytes

named_theorems result_simps

subsection \<open>Slices\<close>

definition slice_get :: "'a list \<Rightarrow> nat \<Rightarrow> 'a option" where
  "slice_get xs i = (if i < length xs then Some (xs ! i) else None)"

definition slice_range :: "'a list \<Rightarrow> nat \<Rightarrow> nat \<Rightarrow> 'a list option" where
  \<comment> \<open>\<open>slice.get(a..b)\<close>: \<open>None\<close> when \<open>a > b\<close> or \<open>b > len\<close>\<close>
  "slice_range xs a b =
     (if a \<le> b \<and> b \<le> length xs then Some (take (b - a) (drop a xs)) else None)"

definition slice_from :: "'a list \<Rightarrow> nat \<Rightarrow> 'a list option" where
  \<comment> \<open>\<open>slice.get(a..)\<close>\<close>
  "slice_from xs a = (if a \<le> length xs then Some (drop a xs) else None)"

lemma slice_get_Some [simp]: "i < length xs \<Longrightarrow> slice_get xs i = Some (xs ! i)"
  by (simp add: slice_get_def)

lemma slice_get_eq_Some: "slice_get xs i = Some x \<longleftrightarrow> i < length xs \<and> xs ! i = x"
  by (auto simp: slice_get_def)

lemma slice_get_eq_None: "slice_get xs i = None \<longleftrightarrow> length xs \<le> i"
  by (auto simp: slice_get_def)

lemma slice_range_eq_Some:
  "slice_range xs a b = Some ys \<longleftrightarrow> a \<le> b \<and> b \<le> length xs \<and> ys = take (b - a) (drop a xs)"
  by (auto simp: slice_range_def)

lemma slice_range_length: "slice_range xs a b = Some ys \<Longrightarrow> length ys = b - a"
  by (auto simp: slice_range_def split: if_splits)

subsection \<open>Results\<close>

definition and_then :: "'e + 'a \<Rightarrow> ('a \<Rightarrow> 'e + 'b) \<Rightarrow> 'e + 'b" where
  "and_then r f = (case r of Inl e \<Rightarrow> Inl e | Inr x \<Rightarrow> f x)"

definition ok_or :: "'a option \<Rightarrow> 'e \<Rightarrow> 'e + 'a" where
  "ok_or x e = (case x of None \<Rightarrow> Inl e | Some a \<Rightarrow> Inr a)"

definition is_ok :: "'e + 'a \<Rightarrow> bool" where
  "is_ok r = (case r of Inl _ \<Rightarrow> False | Inr _ \<Rightarrow> True)"

lemma and_then_simps [simp]: "and_then (Inl e) f = Inl e" "and_then (Inr x) f = f x"
  by (simp_all add: and_then_def)

lemma ok_or_simps [simp]: "ok_or None e = Inl e" "ok_or (Some a) e = Inr a"
  by (simp_all add: ok_or_def)

lemma is_ok_simps [simp]: "\<not> is_ok (Inl e)" "is_ok (Inr a)"
  by (simp_all add: is_ok_def)

lemma and_then_eq_Inr [result_simps]:
  "and_then r f = Inr y \<longleftrightarrow> (\<exists>x. r = Inr x \<and> f x = Inr y)"
  by (cases r) simp_all

lemma and_then_eq_Inl [result_simps]:
  "and_then r f = Inl e \<longleftrightarrow> r = Inl e \<or> (\<exists>x. r = Inr x \<and> f x = Inl e)"
  by (cases r) simp_all

lemma ok_or_eq_Inr [result_simps]: "ok_or x e = Inr a \<longleftrightarrow> x = Some a"
  by (cases x) simp_all

lemma ok_or_eq_Inl [result_simps]: "ok_or x e = Inl e' \<longleftrightarrow> x = None \<and> e' = e"
  by (cases x) auto

subsection \<open>\<open>usize\<close> arithmetic\<close>

definition usize_max :: nat where
  "usize_max = 2 ^ 64 - 1"

definition checked_add :: "nat \<Rightarrow> nat \<Rightarrow> nat option" where
  "checked_add a b = (if a + b \<le> usize_max then Some (a + b) else None)"

definition checked_mul :: "nat \<Rightarrow> nat \<Rightarrow> nat option" where
  "checked_mul a b = (if a * b \<le> usize_max then Some (a * b) else None)"

definition checked_sub :: "nat \<Rightarrow> nat \<Rightarrow> nat option" where
  "checked_sub a b = (if b \<le> a then Some (a - b) else None)"

definition saturating_add :: "nat \<Rightarrow> nat \<Rightarrow> nat" where
  "saturating_add a b = min (a + b) usize_max"

definition saturating_sub :: "nat \<Rightarrow> nat \<Rightarrow> nat" where
  "saturating_sub a b = a - b"

lemma checked_add_eq_Some: "checked_add a b = Some c \<longleftrightarrow> c = a + b \<and> a + b \<le> usize_max"
  by (auto simp: checked_add_def)

lemma checked_mul_eq_Some: "checked_mul a b = Some c \<longleftrightarrow> c = a * b \<and> a * b \<le> usize_max"
  by (auto simp: checked_mul_def)

lemma checked_sub_eq_Some: "checked_sub a b = Some c \<longleftrightarrow> c = a - b \<and> b \<le> a"
  by (auto simp: checked_sub_def)

lemmas checked_eq_Some = checked_add_eq_Some checked_mul_eq_Some checked_sub_eq_Some


subsection \<open>\<open>u64\<close> arithmetic\<close>

text \<open>Plain \<open>+\<close> and \<open>-\<close> on \<open>u64\<close> panic on overflow where overflow checks are on and wrap where
  they are off.  The model takes the panic (\<open>None\<close>); a theorem that a function does not return
  \<open>None\<close> therefore holds for both builds.\<close>

definition u64_max :: u64 where
  "u64_max = 2 ^ 64 - 1"

definition u64_add :: "u64 \<Rightarrow> u64 \<Rightarrow> u64 option" where
  "u64_add a b = (if unat a + unat b < 2 ^ 64 then Some (a + b) else None)"

definition u64_sub :: "u64 \<Rightarrow> u64 \<Rightarrow> u64 option" where
  "u64_sub a b = (if b \<le> a then Some (a - b) else None)"

definition u64_mul :: "u64 \<Rightarrow> u64 \<Rightarrow> u64 option" where
  "u64_mul a b = (if unat a * unat b < 2 ^ 64 then Some (a * b) else None)"

definition u64_saturating_sub :: "u64 \<Rightarrow> u64 \<Rightarrow> u64" where
  "u64_saturating_sub a b = (if b \<le> a then a - b else 0)"

definition u64_saturating_add :: "u64 \<Rightarrow> u64 \<Rightarrow> u64" where
  "u64_saturating_add a b = (if unat a + unat b < 2 ^ 64 then a + b else u64_max)"

lemma unat_u64_max [simp]: "unat u64_max = 2 ^ 64 - 1"
  by (simp add: u64_max_def)

lemma unat_u64_less: "unat (a :: u64) < 2 ^ 64"
  using unsigned_less[of a, where ?'a = nat] by simp

lemma unat_u64_of_nat: "n < 2 ^ 64 \<Longrightarrow> unat (word_of_nat n :: u64) = n"
  by (simp add: unat_of_nat)

lemma u64_add_eq_Some: "u64_add a b = Some c \<longleftrightarrow> unat c = unat a + unat b"
proof
  assume "unat c = unat a + unat b"
  moreover from this have "unat a + unat b < 2 ^ 64" using unat_u64_less[of c] by simp
  moreover from this have "unat (a + b) = unat a + unat b" by (simp add: unat_word_ariths)
  ultimately show "u64_add a b = Some c" by (simp add: u64_add_def word_unat_eq_iff)
qed (auto simp: u64_add_def unat_word_ariths split: if_splits)

lemma u64_sub_eq_Some: "u64_sub a b = Some c \<longleftrightarrow> unat a = unat c + unat b"
proof
  assume *: "unat a = unat c + unat b"
  then have "b \<le> a" by (simp add: word_le_nat_alt)
  moreover from this * have "unat (a - b) = unat c" by (simp add: unat_sub)
  ultimately show "u64_sub a b = Some c" by (simp add: u64_sub_def word_unat_eq_iff)
qed (auto simp: u64_sub_def unat_sub word_le_nat_alt split: if_splits)

lemmas u64_eq_Some = u64_add_eq_Some u64_sub_eq_Some

lemma u64_unat_iffs:
  "0 < (w :: u64) \<longleftrightarrow> 0 < unat w" "1 < w \<longleftrightarrow> 1 < unat w"
  "w = 1 \<longleftrightarrow> unat w = 1" "w = 0 \<longleftrightarrow> unat w = 0"
  by (simp_all add: word_less_nat_alt word_unat_eq_iff)

lemma u64_subE:
  assumes "unat b \<le> unat a"
  obtains c where "u64_sub a b = Some c" "unat c = unat a - unat b"
  using assms by (simp add: u64_sub_def word_le_nat_alt unat_sub)

lemma u64_addE:
  assumes "unat a + unat b < 2 ^ 64"
  obtains c where "u64_add a b = Some c" "unat c = unat a + unat b"
  using assms by (simp add: u64_add_def unat_word_ariths)

lemma unat_u64_saturating_sub [simp]: "unat (u64_saturating_sub a b) = unat a - unat b"
  by (auto simp: u64_saturating_sub_def unat_sub word_le_nat_alt)

lemma unat_u64_saturating_add [simp]:
  "unat (u64_saturating_add a b) = min (unat a + unat b) (2 ^ 64 - 1)"
  by (auto simp: u64_saturating_add_def unat_word_ariths)

lemma unat_min [simp]: "unat (min a b) = min (unat a) (unat b)"
  by (simp add: min_def word_le_nat_alt)

subsection \<open>Signed arithmetic\<close>

text \<open>\<open>i64\<close> and \<open>i128\<close> are integers with their range written out.\<close>

definition i64_clamp :: "int \<Rightarrow> int" where
  "i64_clamp x = max (- (2 ^ 63)) (min (2 ^ 63 - 1) x)"

definition i64_saturating_add :: "int \<Rightarrow> int \<Rightarrow> int" where
  "i64_saturating_add a b = i64_clamp (a + b)"

definition i64_saturating_sub :: "int \<Rightarrow> int \<Rightarrow> int" where
  "i64_saturating_sub a b = i64_clamp (a - b)"

definition usize_as_i64 :: "nat \<Rightarrow> int" where
  \<comment> \<open>\<open>n as i64\<close> for \<open>n < 2^64\<close>: two's complement\<close>
  "usize_as_i64 n = (if n < 2 ^ 63 then int n else int n - 2 ^ 64)"

definition i128_clamp :: "int \<Rightarrow> int" where
  "i128_clamp x = max (- (2 ^ 127)) (min (2 ^ 127 - 1) x)"

definition i128_saturating_sub :: "int \<Rightarrow> int \<Rightarrow> int" where
  "i128_saturating_sub a b = i128_clamp (a - b)"

definition i128_checked_add :: "int \<Rightarrow> int \<Rightarrow> int option" where
  "i128_checked_add a b = (if i128_clamp (a + b) = a + b then Some (a + b) else None)"

lemma i64_clamp_id: "- (2 ^ 63) \<le> x \<Longrightarrow> x < 2 ^ 63 \<Longrightarrow> i64_clamp x = x"
  by (simp add: i64_clamp_def)

lemma usize_as_i64_small: "n < 2 ^ 63 \<Longrightarrow> usize_as_i64 n = int n"
  by (simp add: usize_as_i64_def)

lemma i128_saturating_sub_u64 [simp]:
  "i128_saturating_sub (uint (a :: u64)) (uint (b :: u64)) = uint a - uint b"
proof -
  have "uint a < 2 ^ 64" "uint b < 2 ^ 64"
    using unsigned_less[of a, where ?'a = int] unsigned_less[of b, where ?'a = int] by simp_all
  moreover have "0 \<le> uint a" "0 \<le> uint b" by simp_all
  ultimately have "- (2 ^ 64) < uint a - uint b" "uint a - uint b < 2 ^ 64" by linarith+
  then show ?thesis by (simp add: i128_saturating_sub_def i128_clamp_def)
qed

lemma i128_checked_add_eq_Some: "i128_checked_add a b = Some c \<Longrightarrow> c = a + b"
  by (auto simp: i128_checked_add_def split: if_splits)

subsection \<open>Transition systems\<close>

text \<open>The contract of a component whose state changes by steps: the initial states satisfy the
  invariant and every step keeps it, so it holds after every run.\<close>

locale transition_invariant =
  fixes init :: "'s \<Rightarrow> bool"
    and step :: "'s \<Rightarrow> 's \<Rightarrow> bool"
    and inv :: "'s \<Rightarrow> bool"
  assumes init_inv: "init s \<Longrightarrow> inv s"
    and step_inv: "inv s \<Longrightarrow> step s t \<Longrightarrow> inv t"
begin

lemma steps_inv: "step\<^sup>*\<^sup>* s t \<Longrightarrow> inv s \<Longrightarrow> inv t"
  by (induction rule: rtranclp_induct) (auto intro: step_inv)

lemma reachable_inv: "init s \<Longrightarrow> step\<^sup>*\<^sup>* s t \<Longrightarrow> inv t"
  by (blast intro: steps_inv init_inv)

end

end
