(* ===== verification/Merkle_Tree.thy ===== *)
theory Merkle_Tree
  imports Prelude
begin

section \<open>Merkle trees (\<open>merkle-tree/src/merkle_tree.rs\<close>)\<close>

text \<open>
  The binary Merkle tree over a list of byte strings that the ledger uses to hash the
  signatures of an entry.  The tree is one flat vector of hashes, level after level; both
  loops of the code (building the levels, walking up a path) keep its index arithmetic, and
  every indexing that could panic is an \<open>option\<close>.  \<open>hashv\<close> (SHA-256 of the concatenation of
  its arguments, a third-party crate) is a parameter of every definition, and so is
  \<open>log2_raw\<close>, the truncated \<open>fast_math::log2_raw\<close> of the capacity estimate.  The capacity
  only preallocates the node vector, so \<open>MerkleTree_new\<close> does not take it; the theorem about
  it says the estimate is never exceeded.

  The reference tree is \<open>level_nodes\<close> (the levels one after another, each made by \<open>pair_up\<close>)
  with \<open>audit_path\<close> for the siblings on the way up; both loops are proved to compute it.
\<close>

definition LEAF_PREFIX :: bytes where
  "LEAF_PREFIX = [0]"

definition INTERMEDIATE_PREFIX :: bytes where
  "INTERMEDIATE_PREFIX = [1]"

definition hash_leaf :: "(bytes list \<Rightarrow> hash) \<Rightarrow> bytes \<Rightarrow> hash" where
  "hash_leaf hashv d = hashv [LEAF_PREFIX, d]"

definition hash_intermediate :: "(bytes list \<Rightarrow> hash) \<Rightarrow> hash \<Rightarrow> hash \<Rightarrow> hash" where
  "hash_intermediate hashv l r = hashv [INTERMEDIATE_PREFIX, l, r]"

record merkle_tree =
  leaf_count :: nat
  nodes :: "hash list"

datatype proof_entry = ProofEntry hash "hash option" "hash option"

definition ProofEntry_new :: "hash \<Rightarrow> hash option \<Rightarrow> hash option \<Rightarrow> proof_entry option" where
  "ProofEntry_new target left_sibling right_sibling =
     (if (left_sibling = None) \<noteq> (right_sibling = None)
      then Some (ProofEntry target left_sibling right_sibling)
      else None)"

type_synonym merkle_proof = "proof_entry list"

definition Proof_push :: "merkle_proof \<Rightarrow> proof_entry \<Rightarrow> merkle_proof" where
  "Proof_push p entry = p @ [entry]"

fun verify_step :: "(bytes list \<Rightarrow> hash) \<Rightarrow> hash \<Rightarrow> proof_entry \<Rightarrow> hash option" where
  "verify_step hashv candidate (ProofEntry target l r) =
     (let lsib = (case l of None \<Rightarrow> candidate | Some x \<Rightarrow> x);
          rsib = (case r of None \<Rightarrow> candidate | Some x \<Rightarrow> x);
          hash = hash_intermediate hashv lsib rsib
      in if hash = target then Some hash else None)"

fun verify_fold :: "(bytes list \<Rightarrow> hash) \<Rightarrow> hash \<Rightarrow> merkle_proof \<Rightarrow> hash option" where
  "verify_fold hashv candidate [] = Some candidate"
| "verify_fold hashv candidate (pe # pes) =
     do { candidate' \<leftarrow> verify_step hashv candidate pe; verify_fold hashv candidate' pes }"

definition Proof_verify :: "(bytes list \<Rightarrow> hash) \<Rightarrow> merkle_proof \<Rightarrow> hash \<Rightarrow> bool" where
  "Proof_verify hashv p candidate = (verify_fold hashv candidate p \<noteq> None)"

definition next_level_len :: "nat \<Rightarrow> nat" where
  "next_level_len level_len = (if level_len = 1 then 0 else (level_len + 1) div 2)"

definition calculate_vec_capacity :: "(nat \<Rightarrow> nat) \<Rightarrow> nat \<Rightarrow> nat" where
  "calculate_vec_capacity log2_raw n =
     (if 0 < n then log2_raw n + 2 * n + 1 else 0)"

text \<open>The \<open>for i in 0..level_len\<close> loop of \<open>MerkleTree::new\<close>: \<open>is\<close> are the values of \<open>i\<close> left.\<close>

fun push_level :: "(bytes list \<Rightarrow> hash) \<Rightarrow> nat \<Rightarrow> nat \<Rightarrow> nat list \<Rightarrow> hash list \<Rightarrow> hash list option" where
  "push_level hashv prev_level_start prev_level_len [] ns = Some ns"
| "push_level hashv prev_level_start prev_level_len (i # is) ns =
     do { let prev_level_idx = 2 * i;
          lsib \<leftarrow> slice_get ns (prev_level_start + prev_level_idx);
          rsib \<leftarrow> (if prev_level_idx + 1 < prev_level_len
                  then slice_get ns (prev_level_start + prev_level_idx + 1)
                  else slice_get ns (prev_level_start + prev_level_idx));
          push_level hashv prev_level_start prev_level_len is
            (ns @ [hash_intermediate hashv lsib rsib]) }"

text \<open>The \<open>while level_len > 0\<close> loop.\<close>

function push_levels ::
  "(bytes list \<Rightarrow> hash) \<Rightarrow> nat \<Rightarrow> nat \<Rightarrow> nat \<Rightarrow> nat \<Rightarrow> hash list \<Rightarrow> hash list option" where
  "push_levels hashv level_len level_start prev_level_len prev_level_start ns =
     (if 0 < level_len then
        do { ns' \<leftarrow> push_level hashv prev_level_start prev_level_len [0..<level_len] ns;
             push_levels hashv (next_level_len level_len) (level_start + level_len)
               level_len level_start ns' }
      else Some ns)"
  by pat_completeness auto
termination
  by (relation "measure (\<lambda>(hashv, level_len, _). level_len)") (auto simp: next_level_len_def)

declare push_levels.simps [simp del]

definition MerkleTree_new :: "(bytes list \<Rightarrow> hash) \<Rightarrow> bytes list \<Rightarrow> merkle_tree option" where
  "MerkleTree_new hashv items =
     do { ns \<leftarrow> push_levels hashv (next_level_len (length items)) (length items)
                 (length items) 0 (map (hash_leaf hashv) items);
          Some \<lparr>leaf_count = length items, nodes = ns\<rparr> }"

definition MerkleTree_get_root :: "merkle_tree \<Rightarrow> hash option" where
  "MerkleTree_get_root mt = (if nodes mt = [] then None else Some (last (nodes mt)))"

text \<open>The walk of \<open>find_path\<close>: the outer \<open>None\<close> is a panic (a slice or an index out of range, or
  the assertion of \<open>ProofEntry::new\<close>).\<close>

function find_path_loop ::
  "hash list \<Rightarrow> nat \<Rightarrow> nat \<Rightarrow> merkle_proof \<Rightarrow> nat \<Rightarrow> hash option \<Rightarrow> hash option
   \<Rightarrow> merkle_proof option" where
  "find_path_loop ns level_len level_start path node_index lsib rsib =
     (if 0 < level_len then
        do { level \<leftarrow> slice_range ns level_start (level_start + level_len);
             target \<leftarrow> slice_get level node_index;
             path' \<leftarrow> (if lsib \<noteq> None \<or> rsib \<noteq> None
                      then do { e \<leftarrow> ProofEntry_new target lsib rsib; Some (Proof_push path e) }
                      else Some path);
             (lsib', rsib') \<leftarrow>
               (if node_index mod 2 = 0
                then do { r \<leftarrow> (if node_index + 1 < length level
                               then slice_get level (node_index + 1)
                               else slice_get level node_index);
                          Some (None, Some r) }
                else do { l \<leftarrow> slice_get level (node_index - 1); Some (Some l, None) });
             find_path_loop ns (next_level_len level_len) (level_start + level_len) path'
               (node_index div 2) lsib' rsib' }
      else Some path)"
  by pat_completeness auto
termination
  by (relation "measure (\<lambda>(ns, level_len, _). level_len)") (auto simp: next_level_len_def)

declare find_path_loop.simps [simp del]

definition MerkleTree_find_path :: "merkle_tree \<Rightarrow> nat \<Rightarrow> merkle_proof option option" where
  \<comment> \<open>outer \<open>None\<close>: panic; inner: the \<open>Option<Proof>\<close> the code returns\<close>
  "MerkleTree_find_path mt index =
     (if index \<ge> leaf_count mt then Some None
      else map_option Some (find_path_loop (nodes mt) (leaf_count mt) 0 [] index None None))"

subsection \<open>Reference tree\<close>

fun pair_up :: "(bytes list \<Rightarrow> hash) \<Rightarrow> hash list \<Rightarrow> hash list" where
  "pair_up hashv [] = []"
| "pair_up hashv [x] = [hash_intermediate hashv x x]"
| "pair_up hashv (x # y # xs) = hash_intermediate hashv x y # pair_up hashv xs"

lemma length_pair_up [simp]: "length (pair_up hashv xs) = (length xs + 1) div 2"
  by (induction hashv xs rule: pair_up.induct) auto

lemma pair_up_eq_Nil [simp]: "pair_up hashv xs = [] \<longleftrightarrow> xs = []"
  by (induction hashv xs rule: pair_up.induct) auto

function level_nodes :: "(bytes list \<Rightarrow> hash) \<Rightarrow> hash list \<Rightarrow> hash list" where
  "level_nodes hashv xs =
     (if length xs \<le> 1 then xs else xs @ level_nodes hashv (pair_up hashv xs))"
  by pat_completeness auto
termination
  by (relation "measure (\<lambda>(hashv, xs). length xs)") auto

declare level_nodes.simps [simp del]

function audit_path :: "(bytes list \<Rightarrow> hash) \<Rightarrow> hash list \<Rightarrow> nat \<Rightarrow> merkle_proof" where
  "audit_path hashv xs i =
     (if length xs \<le> 1 then []
      else ProofEntry (pair_up hashv xs ! (i div 2))
             (if even i then None else Some (xs ! (i - 1)))
             (if even i then Some (if i + 1 < length xs then xs ! (i + 1) else xs ! i) else None)
           # audit_path hashv (pair_up hashv xs) (i div 2))"
  by pat_completeness auto
termination
  by (relation "measure (\<lambda>(hashv, xs, i). length xs)") auto

declare audit_path.simps [simp del]

definition pair_node :: "(bytes list \<Rightarrow> hash) \<Rightarrow> hash list \<Rightarrow> nat \<Rightarrow> hash" where
  "pair_node hashv xs i =
     hash_intermediate hashv (xs ! (2 * i)) (if 2 * i + 1 < length xs then xs ! (2 * i + 1) else xs ! (2 * i))"

lemma pair_up_nth:
  "2 * i < length xs \<Longrightarrow> pair_up hashv xs ! i = pair_node hashv xs i"
proof (induction hashv xs arbitrary: i rule: pair_up.induct)
  case (3 hashv x y xs)
  show ?case
  proof (cases i)
    case (Suc j)
    with "3.prems" "3.IH"[of j] show ?thesis by (simp add: pair_node_def)
  qed (simp add: pair_node_def)
qed (auto simp: pair_node_def)

lemma pair_up_eq_map: "pair_up hashv xs = map (pair_node hashv xs) [0..<(length xs + 1) div 2]"
  by (rule nth_equalityI) (auto simp: pair_up_nth)

lemma push_level_refines:
  assumes "\<forall>i \<in> set is. 2 * i < length xs"
  shows "push_level hashv (length A) (length xs) is (A @ xs @ B)
         = Some (A @ xs @ B @ map (pair_node hashv xs) is)"
  using assms
proof (induction "is" arbitrary: B)
  case (Cons i "is")
  from Cons.prems have i: "2 * i < length xs" by simp
  have l: "slice_get (A @ xs @ B) (length A + 2 * i) = Some (xs ! (2 * i))"
    using i by (simp add: slice_get_def nth_append)
  have r: "slice_get (A @ xs @ B) (length A + 2 * i + 1) = Some (xs ! (2 * i + 1))"
    if "2 * i + 1 < length xs" using that by (simp add: slice_get_def nth_append)
  have "push_level hashv (length A) (length xs) (i # is) (A @ xs @ B)
      = push_level hashv (length A) (length xs) is (A @ xs @ (B @ [pair_node hashv xs i]))"
    using l r by (simp add: pair_node_def Let_def)
  also have "\<dots> = Some (A @ xs @ (B @ [pair_node hashv xs i]) @ map (pair_node hashv xs) is)"
    using Cons.prems by (intro Cons.IH) simp
  finally show ?case by simp
qed simp

lemma push_levels_refines:
  "push_levels hashv (next_level_len (length xs)) (length A + length xs) (length xs) (length A)
     (A @ xs) = Some (A @ level_nodes hashv xs)"
proof (induction hashv xs arbitrary: A rule: level_nodes.induct)
  case (1 hashv xs)
  show ?case
  proof (cases "length xs \<le> 1")
    case True
    then have "next_level_len (length xs) = 0" by (auto simp: next_level_len_def)
    with True show ?thesis by (simp add: push_levels.simps level_nodes.simps)
  next
    case False
    let ?n = "length (pair_up hashv xs)"
    from False have n: "next_level_len (length xs) = ?n" "0 < ?n"
      by (auto simp: next_level_len_def)
    have "push_level hashv (length A) (length xs) [0..<?n] (A @ xs)
        = Some (A @ xs @ pair_up hashv xs)"
    proof -
      have "\<forall>i \<in> set [0..<?n]. 2 * i < length xs" by auto
      from push_level_refines[OF this, of hashv A "[]"] show ?thesis by (simp add: pair_up_eq_map)
    qed
    with "1"[OF False, of "A @ xs"] n False show ?thesis
      by (simp add: push_levels.simps[of hashv "Suc (length xs) div 2"]
          level_nodes.simps[of hashv xs] add.assoc)
  qed
qed

lemma MerkleTree_new_eq:
  "MerkleTree_new hashv items =
     Some \<lparr>leaf_count = length items, nodes = level_nodes hashv (map (hash_leaf hashv) items)\<rparr>"
  using push_levels_refines[of hashv "map (hash_leaf hashv) items" "[]"]
  by (simp add: MerkleTree_new_def)


lemma slice_range_mid: "slice_range (A @ xs @ B) (length A) (length A + length xs) = Some xs"
  by (simp add: slice_range_def)

lemma level_nodes_prefix: "\<exists>B. level_nodes hashv xs = xs @ B"
  by (subst level_nodes.simps) auto

lemma find_path_refines:
  assumes "i < length xs" and "l = None \<or> r = None"
  shows "find_path_loop (A @ level_nodes hashv xs) (length xs) (length A) path i l r
       = Some (path @ (if l = None \<and> r = None then [] else [ProofEntry (xs ! i) l r])
               @ audit_path hashv xs i)"
  using assms
proof (induction hashv xs i arbitrary: A path l r rule: audit_path.induct)
  case (1 hashv xs i)
  obtain B where B: "level_nodes hashv xs = xs @ B" using level_nodes_prefix by blast
  let ?p = "path @ (if l = None \<and> r = None then [] else [ProofEntry (xs ! i) l r])"
  let ?l = "if even i then None else Some (xs ! (i - 1))"
  let ?r = "if even i then Some (if i + 1 < length xs then xs ! (i + 1) else xs ! i) else None"
  have step: "find_path_loop (A @ level_nodes hashv xs) (length xs) (length A) path i l r
      = find_path_loop (A @ level_nodes hashv xs) (next_level_len (length xs))
          (length A + length xs) ?p (i div 2) ?l ?r"
    using "1.prems"
    by (subst find_path_loop.simps)
      (auto simp: B slice_range_mid ProofEntry_new_def Proof_push_def even_iff_mod_2_eq_zero
         simp del: level_nodes.simps)
  show ?case
  proof (cases "length xs \<le> 1")
    case True
    then have "next_level_len (length xs) = 0" by (auto simp: next_level_len_def)
    with True show ?thesis unfolding step
      by (simp add: find_path_loop.simps audit_path.simps)
  next
    case False
    then have n: "next_level_len (length xs) = length (pair_up hashv xs)"
      by (auto simp: next_level_len_def)
    have lt: "i div 2 < length (pair_up hashv xs)" using "1.prems"(1) by auto
    have eq: "A @ level_nodes hashv xs = (A @ xs) @ level_nodes hashv (pair_up hashv xs)"
      using False by (simp add: level_nodes.simps[of hashv xs])
    have "find_path_loop (A @ level_nodes hashv xs) (length (pair_up hashv xs))
            (length A + length xs) ?p (i div 2) ?l ?r
        = Some (?p @ [ProofEntry (pair_up hashv xs ! (i div 2)) ?l ?r]
                @ audit_path hashv (pair_up hashv xs) (i div 2))"
      using "1.IH"[OF False lt, of ?l ?r "A @ xs" ?p] unfolding eq by simp
    then show ?thesis unfolding step n using False
      by (simp add: audit_path.simps[of hashv xs i])
  qed
qed

lemma MerkleTree_find_path_eq:
  assumes "MerkleTree_new hashv items = Some mt" and "index < length items"
  shows "MerkleTree_find_path mt index
       = Some (Some (audit_path hashv (map (hash_leaf hashv) items) index))"
  using assms find_path_refines[of index "map (hash_leaf hashv) items" None None "[]" hashv "[]"]
  by (auto simp: MerkleTree_new_eq MerkleTree_find_path_def)

lemma level_nodes_eq_Nil [simp]: "level_nodes hashv xs = [] \<longleftrightarrow> xs = []"
  by (subst level_nodes.simps) auto

lemma pair_up_parent:
  assumes "i < length xs"
  shows "pair_up hashv xs ! (i div 2)
       = hash_intermediate hashv (if even i then xs ! i else xs ! (i - 1))
           (if even i then if i + 1 < length xs then xs ! (i + 1) else xs ! i else xs ! i)"
proof -
  from assms have i2: "2 * (i div 2) < length xs" by auto
  show ?thesis
    using assms unfolding pair_up_nth[OF i2] pair_node_def
    by (cases "even i") (auto elim!: evenE oddE)
qed

lemma verify_audit_path:
  "i < length xs \<Longrightarrow> verify_fold hashv (xs ! i) (audit_path hashv xs i)
     = Some (last (level_nodes hashv xs))"
proof (induction hashv xs i rule: audit_path.induct)
  case (1 hashv xs i)
  show ?case
  proof (cases "length xs \<le> 1")
    case True
    with "1.prems" show ?thesis by (cases xs) (auto simp: audit_path.simps level_nodes.simps)
  next
    case False
    have lt: "i div 2 < length (pair_up hashv xs)" using "1.prems" by auto
    have ne: "xs \<noteq> []" using "1.prems" by auto
    from "1.IH"[OF False lt] False ne pair_up_parent[OF "1.prems", of hashv] show ?thesis
      by (auto simp: audit_path.simps[of hashv xs i] level_nodes.simps[of hashv xs] Let_def)
  qed
qed

lemma verify_audit_path_sound:
  assumes "1 < length xs" "i < length xs"
    and "verify_fold hashv c (audit_path hashv xs i) \<noteq> None"
  shows "c = xs ! i \<or> (\<exists>s \<in> set xs. hash_intermediate hashv c s = hash_intermediate hashv (xs ! i) s
                           \<or> hash_intermediate hashv s c = hash_intermediate hashv s (xs ! i))"
proof -
  note * = pair_up_parent[OF assms(2), of hashv]
  show ?thesis
  proof (cases "even i")
    case True
    let ?s = "if i + 1 < length xs then xs ! (i + 1) else xs ! i"
    have "?s \<in> set xs" using assms by auto
    moreover have "hash_intermediate hashv c ?s = hash_intermediate hashv (xs ! i) ?s"
      using assms True * by (auto simp: audit_path.simps[of hashv xs i] Let_def split: if_splits)
    ultimately show ?thesis by blast
  next
    case False
    have "xs ! (i - 1) \<in> set xs" using assms by auto
    moreover have "hash_intermediate hashv (xs ! (i - 1)) c = hash_intermediate hashv (xs ! (i - 1)) (xs ! i)"
      using assms False * by (auto simp: audit_path.simps[of hashv xs i] Let_def split: if_splits)
    ultimately show ?thesis by blast
  qed
qed

lemma pair_up_duplicate_last:
  "odd (length xs) \<Longrightarrow> pair_up hashv (xs @ [last xs]) = pair_up hashv xs"
  by (induction hashv xs rule: pair_up.induct) auto

lemma level_nodes_last: "1 < length xs \<Longrightarrow> last (level_nodes hashv xs) = last (level_nodes hashv (pair_up hashv xs))"
  by (subst level_nodes.simps) (auto simp: last_append)

lemma root_duplicate_last:
  assumes "odd (length xs)" "1 < length xs"
  shows "last (level_nodes hashv (xs @ [last xs])) = last (level_nodes hashv xs)"
  using assms pair_up_duplicate_last[OF assms(1), of hashv] level_nodes_last[of xs hashv]
    level_nodes_last[of "xs @ [last xs]" hashv] by (cases xs) simp_all

function tree_height :: "nat \<Rightarrow> nat" where
 "tree_height n = (if n \<le> 1 then 0 else Suc (tree_height ((n + 1) div 2)))"
  by pat_completeness auto
termination by (relation "measure id") auto
declare tree_height.simps [simp del]

lemma length_level_nodes: 
  "xs \<noteq> [] \<Longrightarrow> Suc (length (level_nodes hashv xs)) \<le> 2 * length xs + tree_height (length xs)"
proof (induction hashv xs rule: level_nodes.induct)
  case (1 hashv xs)
  show ?case
  proof (cases "length xs \<le> 1")
    case True with "1.prems" show ?thesis by (cases xs) (auto simp: level_nodes.simps)
  next
    case False
    then have "pair_up hashv xs \<noteq> []" by auto
    from "1.IH"[OF False this] False show ?thesis
      by (simp add: level_nodes.simps[of hashv xs] tree_height.simps[of "length xs"])
  qed
qed

lemma tree_height_le: "n \<le> 2 ^ k \<Longrightarrow> tree_height n \<le> k"
proof (induction n arbitrary: k rule: tree_height.induct)
  case (1 n)
  show ?case
  proof (cases "n \<le> 1")
    case True then show ?thesis by (simp add: tree_height.simps)
  next
    case False
    with "1.prems" obtain j where k: "k = Suc j" by (cases k) auto
    with "1.prems" have "(n + 1) div 2 \<le> 2 ^ j" by auto
    from "1.IH"[OF False this] False k show ?thesis by (simp add: tree_height.simps[of n])
  qed
qed

subsection \<open>The tree as a commitment\<close>

text \<open>What a client of the tree relies on (\<open>hash_transactions\<close> of the entries): a tree can be built
  from any items, and it has a root unless there were none.\<close>

locale commitment =
  fixes build :: "bytes list \<Rightarrow> 't option"
    and root :: "'t \<Rightarrow> hash option"
  assumes build_total: "\<exists>t. build items = Some t"
    and root_None_iff: "build items = Some t \<Longrightarrow> root t = None \<longleftrightarrow> items = []"
begin

lemma root_or_default_total:
  "\<exists>r. do { t \<leftarrow> build items; Some (case root t of Some x \<Rightarrow> x | None \<Rightarrow> d) } = Some r"
  using build_total[of items] by auto

lemma root_or_default_empty:
  "do { t \<leftarrow> build []; Some (case root t of Some x \<Rightarrow> x | None \<Rightarrow> d) } = Some d"
  using build_total[of "[]"] root_None_iff[of "[]"] by auto

lemma root_or_default_nonempty:
  "items \<noteq> [] \<Longrightarrow> \<exists>t r. build items = Some t \<and> root t = Some r
     \<and> do { t \<leftarrow> build items; Some (case root t of Some x \<Rightarrow> x | None \<Rightarrow> d) } = Some r"
  using build_total[of items] root_None_iff[of items] by auto

end

interpretation merkle: commitment "MerkleTree_new hashv" MerkleTree_get_root for hashv
  by unfold_locales (auto simp: MerkleTree_new_eq MerkleTree_get_root_def)

subsection \<open>Properties\<close>

text \<open>C6: Building a tree never panics, stores one hash per leaf and then every level made by
  pairing the one below (an odd last node is paired with itself), and the root is the last
  node: none exactly for the empty list.\<close>

theorem merkle_new_correct:
  "\<exists>mt. MerkleTree_new hashv items = Some mt \<and> leaf_count mt = length items
      \<and> nodes mt = level_nodes hashv (map (hash_leaf hashv) items)
      \<and> (MerkleTree_get_root mt = None \<longleftrightarrow> items = [])"
  by (auto simp: MerkleTree_new_eq MerkleTree_get_root_def)

text \<open>C21: Every leaf of a tree has a path, finding it never panics, and the path verifies the
  hash of that leaf, ending at the root of the tree.\<close>

theorem merkle_path_complete:
  assumes "MerkleTree_new hashv items = Some mt" and "index < length items"
  shows "\<exists>p. MerkleTree_find_path mt index = Some (Some p)
           \<and> Proof_verify hashv p (hash_leaf hashv (items ! index))
           \<and> verify_fold hashv (hash_leaf hashv (items ! index)) p = MerkleTree_get_root mt"
proof -
  let ?p = "audit_path hashv (map (hash_leaf hashv) items) index"
  from assms have "verify_fold hashv (hash_leaf hashv (items ! index)) ?p = MerkleTree_get_root mt"
    using verify_audit_path[of index "map (hash_leaf hashv) items" hashv]
    by (auto simp: MerkleTree_new_eq MerkleTree_get_root_def)
  moreover from assms have "MerkleTree_get_root mt \<noteq> None"
    by (auto simp: MerkleTree_new_eq MerkleTree_get_root_def)
  ultimately show ?thesis
    using MerkleTree_find_path_eq[OF assms] by (auto simp: Proof_verify_def)
qed

theorem merkle_path_complete_witness:
  "\<exists>mt p. MerkleTree_new concat [[7], [8], [9]] = Some mt
        \<and> MerkleTree_find_path mt 2 = Some (Some p)
        \<and> Proof_verify concat p (hash_leaf concat [9])"
proof -
  obtain mt where mt: "MerkleTree_new concat [[7], [8], [9 :: byte]] = Some mt"
    by (simp add: MerkleTree_new_eq)
  then show ?thesis using merkle_path_complete[OF mt, of 2] by auto
qed

text \<open>C22: In a tree of at least two leaves a path accepts no other candidate than the hash of
  its leaf, unless the candidate collides with it under the node hash next to a leaf hash of
  the tree.\<close>

theorem merkle_path_sound:
  assumes "MerkleTree_new hashv items = Some mt" and "MerkleTree_find_path mt index = Some (Some p)"
    and "2 \<le> length items" and "Proof_verify hashv p candidate"
    and "candidate \<noteq> hash_leaf hashv (items ! index)"
  shows "\<exists>s \<in> set (map (hash_leaf hashv) items).
           hash_intermediate hashv candidate s
             = hash_intermediate hashv (hash_leaf hashv (items ! index)) s
         \<or> hash_intermediate hashv s candidate
             = hash_intermediate hashv s (hash_leaf hashv (items ! index))"
proof -
  from assms(1,2) have i: "index < length items"
    by (auto simp: MerkleTree_new_eq MerkleTree_find_path_def split: if_splits)
  with assms(2) have p: "p = audit_path hashv (map (hash_leaf hashv) items) index"
    using MerkleTree_find_path_eq[OF assms(1) i] by simp
  show ?thesis
    using verify_audit_path_sound[of "map (hash_leaf hashv) items" index hashv candidate] i assms(3-)
    unfolding Proof_verify_def p by auto
qed

theorem merkle_path_sound_witness:
  "\<exists>s \<in> set (map (hash_leaf (\<lambda>_. [])) [[7], [8]]).
     hash_intermediate (\<lambda>_. []) [1] s = hash_intermediate (\<lambda>_. []) (hash_leaf (\<lambda>_. []) ([[7], [8]] ! 0)) s
   \<or> hash_intermediate (\<lambda>_. []) s [1] = hash_intermediate (\<lambda>_. []) s (hash_leaf (\<lambda>_. []) ([[7], [8]] ! 0))"
proof -
  obtain mt where mt: "MerkleTree_new (\<lambda>_. []) [[7], [8 :: byte]] = Some mt"
    by (simp add: MerkleTree_new_eq)
  obtain p where p: "MerkleTree_find_path mt 0 = Some (Some p)"
    using MerkleTree_find_path_eq[OF mt, of 0] by auto
  then have "Proof_verify (\<lambda>_. []) p [1]"
    using MerkleTree_find_path_eq[OF mt, of 0]
    by (auto simp: Proof_verify_def audit_path.simps hash_intermediate_def Let_def)
  then show ?thesis by (intro merkle_path_sound[OF mt p]) (simp_all add: hash_leaf_def)
qed

text \<open>The path of a tree with a single leaf is empty, so it verifies every candidate
  whatsoever.\<close>

theorem merkle_single_leaf_path_accepts_all:
  assumes "MerkleTree_new hashv [item] = Some mt"
  shows "\<exists>p. MerkleTree_find_path mt 0 = Some (Some p) \<and> (\<forall>candidate. Proof_verify hashv p candidate)"
  using MerkleTree_find_path_eq[OF assms, of 0] by (simp add: audit_path.simps Proof_verify_def)

theorem merkle_single_leaf_path_accepts_all_witness:
  "\<exists>mt p. MerkleTree_new concat [[7]] = Some mt \<and> MerkleTree_find_path mt 0 = Some (Some p)
        \<and> Proof_verify concat p [1, 2, 3]"
proof -
  obtain mt where mt: "MerkleTree_new concat [[7 :: byte]] = Some mt"
    by (simp add: MerkleTree_new_eq)
  then show ?thesis using merkle_single_leaf_path_accepts_all[OF mt] by auto
qed

text \<open>The root does not determine the leaves: a list of odd length above one has the root
  of the same list with its last element repeated, for every hash function.\<close>

theorem merkle_root_duplicate_last:
  assumes "odd (length items)" and "1 < length items"
  shows "map_option MerkleTree_get_root (MerkleTree_new hashv (items @ [last items]))
       = map_option MerkleTree_get_root (MerkleTree_new hashv items)"
proof -
  let ?xs = "map (hash_leaf hashv) items"
  from assms have "map (hash_leaf hashv) (items @ [last items]) = ?xs @ [last ?xs]"
    by (cases items) (auto simp: last_map)
  then show ?thesis
    using assms root_duplicate_last[of ?xs hashv]
    by (auto simp: MerkleTree_new_eq MerkleTree_get_root_def simp del: map_append)
qed

theorem merkle_root_duplicate_last_witness:
  "map_option MerkleTree_get_root (MerkleTree_new concat [[7], [8], [9], [9]])
     = map_option MerkleTree_get_root (MerkleTree_new concat [[7], [8], [9]])"
  using merkle_root_duplicate_last[of "[[7], [8], [9 :: byte]]" concat] by simp

text \<open>The preallocated capacity is never exceeded, if the approximate logarithm is at most
  one below the binary logarithm rounded down.\<close>

theorem merkle_capacity_suffices:
  assumes "MerkleTree_new hashv items = Some mt"
    and "length items < 2 ^ (log2_raw (length items) + 2)"
  shows "length (nodes mt) \<le> calculate_vec_capacity log2_raw (length items)"
proof (cases "items = []")
  case False
  from assms(2) have "tree_height (length items) \<le> log2_raw (length items) + 2"
    by (intro tree_height_le) simp
  with False length_level_nodes[of "map (hash_leaf hashv) items" hashv] assms(1) show ?thesis
    by (auto simp: MerkleTree_new_eq calculate_vec_capacity_def)
qed (use assms in \<open>auto simp: MerkleTree_new_eq calculate_vec_capacity_def\<close>)

theorem merkle_capacity_suffices_witness:
  "\<exists>mt. MerkleTree_new concat [[7], [8], [9]] = Some mt
      \<and> length (nodes mt) \<le> calculate_vec_capacity (\<lambda>_. 1) 3"
proof -
  obtain mt where mt: "MerkleTree_new concat [[7], [8], [9 :: byte]] = Some mt"
    by (simp add: MerkleTree_new_eq)
  have three: "length [[7], [8], [9 :: byte]] = 3" by simp
  from merkle_capacity_suffices[OF mt, of "\<lambda>_. 1"] mt show ?thesis unfolding three by simp
qed

end
