(* ===== verification/Poh.thy ===== *)
theory Poh
  imports Prelude
begin

section \<open>Proof of history (\<open>entry/src/poh.rs\<close>)\<close>

text \<open>
  The hash chain a leader extends: \<open>Poh_hash\<close> advances it, \<open>Poh_record\<close> mixes a value in and
  \<open>Poh_tick\<close> closes a tick.  Operations that take \<open>&mut self\<close> return the new state beside their
  result; \<open>None\<close> around both is a panic (a failed assertion or \<open>u64\<close> overflow).  \<open>hash_fn\<close> and
  \<open>hashv\<close> are SHA-256 (third party) and parameters; \<open>Instant::now()\<close> is the argument \<open>now\<close>.
\<close>

definition LOW_POWER_MODE :: u64 where
  "LOW_POWER_MODE = u64_max"

record poh =
  poh_hash :: hash
  num_hashes :: u64
  hashes_per_tick :: u64
  remaining_hashes :: u64
  tick_number :: u64
  slot_start_time :: nat

record poh_entry =
  pe_num_hashes :: u64
  pe_hash :: hash

definition Poh_new_with_slot_info :: "nat \<Rightarrow> hash \<Rightarrow> u64 option \<Rightarrow> u64 \<Rightarrow> poh option" where
  "Poh_new_with_slot_info now h hpt tick =
     (let hpt' = (case hpt of None \<Rightarrow> LOW_POWER_MODE | Some x \<Rightarrow> x)
      in if hpt' > 1
         then Some \<lparr>poh_hash = h, num_hashes = 0, hashes_per_tick = hpt', remaining_hashes = hpt',
                    tick_number = tick, slot_start_time = now\<rparr>
         else None)"

definition Poh_new :: "nat \<Rightarrow> hash \<Rightarrow> u64 option \<Rightarrow> poh option" where
  "Poh_new now h hpt = Poh_new_with_slot_info now h hpt 0"

definition Poh_hash :: "(bytes \<Rightarrow> hash) \<Rightarrow> poh \<Rightarrow> u64 \<Rightarrow> (bool \<times> poh) option" where
  "Poh_hash hash_fn p max_num_hashes =
     do { left \<leftarrow> u64_sub (remaining_hashes p) 1;
          let n = min left max_num_hashes;
          let h = (hash_fn ^^ unat n) (poh_hash p);
          num \<leftarrow> u64_add (num_hashes p) n;
          rem \<leftarrow> u64_sub (remaining_hashes p) n;
          if rem > 0
          then Some (rem = 1, p\<lparr>poh_hash := h, num_hashes := num, remaining_hashes := rem\<rparr>)
          else None }"

definition Poh_record ::
  "(bytes list \<Rightarrow> hash) \<Rightarrow> poh \<Rightarrow> hash \<Rightarrow> (poh_entry option \<times> poh) option" where
  "Poh_record hashv p mixin =
     (if remaining_hashes p = 1 then Some (None, p)
      else
        do { let h = hashv [poh_hash p, mixin];
             num \<leftarrow> u64_add (num_hashes p) 1;
             rem \<leftarrow> u64_sub (remaining_hashes p) 1;
             Some (Some \<lparr>pe_num_hashes = num, pe_hash = h\<rparr>,
                   p\<lparr>poh_hash := h, num_hashes := 0, remaining_hashes := rem\<rparr>) })"

definition Poh_tick :: "(bytes \<Rightarrow> hash) \<Rightarrow> poh \<Rightarrow> (poh_entry option \<times> poh) option" where
  "Poh_tick hash_fn p =
     do { let h = hash_fn (poh_hash p);
          num \<leftarrow> u64_add (num_hashes p) 1;
          rem \<leftarrow> u64_sub (remaining_hashes p) 1;
          if hashes_per_tick p \<noteq> LOW_POWER_MODE \<and> rem \<noteq> 0
          then Some (None, p\<lparr>poh_hash := h, num_hashes := num, remaining_hashes := rem\<rparr>)
          else
            do { tick \<leftarrow> u64_add (tick_number p) 1;
                 Some (Some \<lparr>pe_num_hashes = num, pe_hash = h\<rparr>,
                       p\<lparr>poh_hash := h, num_hashes := 0, remaining_hashes := hashes_per_tick p,
                         tick_number := tick\<rparr>) } }"

text \<open>\<open>compute_hash_time\<close> measures a wall-clock duration: the number of milliseconds it took is the
  argument \<open>hash_time_ms\<close>.  The \<open>as u64\<close> casts keep the low 64 bits.\<close>

definition compute_hashes_per_tick :: "(u64 \<Rightarrow> nat) \<Rightarrow> nat \<Rightarrow> u64 \<Rightarrow> u64 option" where
  "compute_hashes_per_tick hash_time_ms duration_ms hashes_sample_size =
     do { let elapsed_ms = (word_of_nat (hash_time_ms hashes_sample_size) :: u64);
          m \<leftarrow> u64_mul (word_of_nat duration_ms) hashes_sample_size;
          if elapsed_ms = 0 then None else Some (m div elapsed_ms) }"

subsection \<open>Runs of a generator\<close>

text \<open>A caller drives a \<open>Poh\<close> by any sequence of its three operations.  A run collects the entries
  they emit, each with the operation that made it.\<close>

datatype poh_op = OpHash u64 | OpRecord hash | OpTick

datatype poh_event = Recorded hash poh_entry | Ticked poh_entry

fun poh_step ::
  "(bytes \<Rightarrow> hash) \<Rightarrow> (bytes list \<Rightarrow> hash) \<Rightarrow> poh \<Rightarrow> poh_op \<Rightarrow> (poh_event list \<times> poh) option" where
  "poh_step hash_fn hashv p (OpHash n) = map_option (\<lambda>(_, p'). ([], p')) (Poh_hash hash_fn p n)"
| "poh_step hash_fn hashv p (OpRecord m) =
     map_option (\<lambda>(e, p'). (case e of None \<Rightarrow> [] | Some x \<Rightarrow> [Recorded m x], p')) (Poh_record hashv p m)"
| "poh_step hash_fn hashv p OpTick =
     map_option (\<lambda>(e, p'). (case e of None \<Rightarrow> [] | Some x \<Rightarrow> [Ticked x], p')) (Poh_tick hash_fn p)"

fun poh_run ::
  "(bytes \<Rightarrow> hash) \<Rightarrow> (bytes list \<Rightarrow> hash) \<Rightarrow> poh \<Rightarrow> poh_op list \<Rightarrow> (poh_event list \<times> poh) option" where
  "poh_run hash_fn hashv p [] = Some ([], p)"
| "poh_run hash_fn hashv p (x # xs) =
     do { (es, p') \<leftarrow> poh_step hash_fn hashv p x;
          (es', p'') \<leftarrow> poh_run hash_fn hashv p' xs;
          Some (es @ es', p'') }"

definition poh_inv :: "poh \<Rightarrow> bool" where
  "poh_inv p \<longleftrightarrow> 1 < unat (hashes_per_tick p) \<and> 1 \<le> unat (remaining_hashes p)
     \<and> unat (num_hashes p) + unat (remaining_hashes p) \<le> unat (hashes_per_tick p)"

text \<open>What a verifier of the ledger checks: starting from the previous entry's hash, the recorded
  number of hashes leads to the entry's hash.\<close>

fun event_follows ::
  "(bytes \<Rightarrow> hash) \<Rightarrow> (bytes list \<Rightarrow> hash) \<Rightarrow> hash \<Rightarrow> poh_event \<Rightarrow> bool" where
  "event_follows hash_fn hashv start (Ticked e) \<longleftrightarrow>
     1 \<le> unat (pe_num_hashes e) \<and> pe_hash e = (hash_fn ^^ unat (pe_num_hashes e)) start"
| "event_follows hash_fn hashv start (Recorded m e) \<longleftrightarrow>
     1 \<le> unat (pe_num_hashes e)
     \<and> pe_hash e = hashv [(hash_fn ^^ (unat (pe_num_hashes e) - 1)) start, m]"

fun event_entry :: "poh_event \<Rightarrow> poh_entry" where
  "event_entry (Ticked e) = e"
| "event_entry (Recorded m e) = e"

fun events_chain ::
  "(bytes \<Rightarrow> hash) \<Rightarrow> (bytes list \<Rightarrow> hash) \<Rightarrow> hash \<Rightarrow> poh_event list \<Rightarrow> bool" where
  "events_chain hash_fn hashv start [] \<longleftrightarrow> True"
| "events_chain hash_fn hashv start (e # es) \<longleftrightarrow>
     event_follows hash_fn hashv start e
     \<and> events_chain hash_fn hashv (pe_hash (event_entry e)) es"

text \<open>The number of hashes of the events since the last tick, and that every tick closes exactly
  \<open>n\<close> of them; \<open>acc\<close> is what had been counted before.\<close>

fun ticks_spaced :: "nat \<Rightarrow> nat \<Rightarrow> poh_event list \<Rightarrow> bool" where
  "ticks_spaced n acc [] \<longleftrightarrow> acc \<le> n"
| "ticks_spaced n acc (Ticked e # es) \<longleftrightarrow>
     acc + unat (pe_num_hashes e) = n \<and> ticks_spaced n 0 es"
| "ticks_spaced n acc (Recorded m e # es) \<longleftrightarrow>
     ticks_spaced n (acc + unat (pe_num_hashes e)) es"

text \<open>Two relations between a state and the last entry: its hash was \<open>start\<close>, and \<open>acc\<close> hashes had
  been counted since the last tick.\<close>

definition poh_since :: "(bytes \<Rightarrow> hash) \<Rightarrow> hash \<Rightarrow> poh \<Rightarrow> bool" where
  "poh_since f start p \<longleftrightarrow> poh_hash p = (f ^^ unat (num_hashes p)) start"

definition poh_counted :: "nat \<Rightarrow> poh \<Rightarrow> bool" where
  "poh_counted acc p \<longleftrightarrow>
     acc + unat (num_hashes p) + unat (remaining_hashes p) = unat (hashes_per_tick p)"

definition poh_init :: "poh \<Rightarrow> bool" where
  "poh_init p \<longleftrightarrow> (\<exists>now s hpt t. Poh_new_with_slot_info now s hpt t = Some p)"

definition poh_next :: "(bytes \<Rightarrow> hash) \<Rightarrow> (bytes list \<Rightarrow> hash) \<Rightarrow> poh \<Rightarrow> poh \<Rightarrow> bool" where
  "poh_next hash_fn hashv p p' \<longleftrightarrow> (\<exists>x es. poh_step hash_fn hashv p x = Some (es, p'))"

subsection \<open>One operation\<close>

lemma Poh_hashE:
  assumes "Poh_hash f p m = Some (b, p')"
  obtains n where "n = min (unat (remaining_hashes p) - 1) (unat m)" "b = (unat (remaining_hashes p') = 1)"
    "0 < unat (remaining_hashes p')"
    "poh_hash p' = (f ^^ n) (poh_hash p)"
    "unat (num_hashes p') = unat (num_hashes p) + n"
    "unat (remaining_hashes p) = unat (remaining_hashes p') + n"
    "hashes_per_tick p' = hashes_per_tick p" "tick_number p' = tick_number p"
proof -
  from assms obtain l num rem where *: "u64_sub (remaining_hashes p) 1 = Some l"
    "u64_add (num_hashes p) (min l m) = Some num" "u64_sub (remaining_hashes p) (min l m) = Some rem"
    "0 < rem" "b = (rem = 1)"
    "p' = p\<lparr>poh_hash := (f ^^ unat (min l m)) (poh_hash p), num_hashes := num, remaining_hashes := rem\<rparr>"
    by (auto simp: Poh_hash_def bind_eq_Some_conv Let_def split: if_splits)
  then show ?thesis
    by (intro that[of "unat (min l m)"]) (auto simp: u64_eq_Some u64_unat_iffs)
qed

lemma Poh_recordE:
  assumes "Poh_record h p m = Some (r, p')"
  obtains (full) "r = None" "p' = p" "unat (remaining_hashes p) = 1"
  | (entry) e where "r = Some e" "unat (remaining_hashes p) \<noteq> 1"
      "unat (pe_num_hashes e) = unat (num_hashes p) + 1" "pe_hash e = h [poh_hash p, m]"
      "unat (remaining_hashes p) = unat (remaining_hashes p') + 1"
      "num_hashes p' = 0" "poh_hash p' = pe_hash e"
      "hashes_per_tick p' = hashes_per_tick p" "tick_number p' = tick_number p"
proof (cases "remaining_hashes p = 1")
  case True
  with assms full show ?thesis by (simp add: Poh_record_def)
next
  case False
  with assms obtain num rem where "u64_add (num_hashes p) 1 = Some num" "u64_sub (remaining_hashes p) 1 = Some rem"
     "r = Some \<lparr>pe_num_hashes = num, pe_hash = h [poh_hash p, m]\<rparr>"
     "p' = p\<lparr>poh_hash := h [poh_hash p, m], num_hashes := 0, remaining_hashes := rem\<rparr>"
    by (auto simp: Poh_record_def bind_eq_Some_conv Let_def)
  with False show ?thesis by (intro entry) (auto simp: u64_eq_Some u64_unat_iffs)
qed

lemma Poh_tickE:
  assumes "Poh_tick f p = Some (r, p')"
  obtains (hashed) "r = None" "hashes_per_tick p \<noteq> LOW_POWER_MODE" "0 < unat (remaining_hashes p')"
      "unat (num_hashes p') = unat (num_hashes p) + 1"
      "unat (remaining_hashes p) = unat (remaining_hashes p') + 1"
      "poh_hash p' = f (poh_hash p)"
      "hashes_per_tick p' = hashes_per_tick p" "tick_number p' = tick_number p"
  | (ticked) e where "r = Some e"
      "hashes_per_tick p = LOW_POWER_MODE \<or> unat (remaining_hashes p) = 1"
      "unat (pe_num_hashes e) = unat (num_hashes p) + 1" "pe_hash e = f (poh_hash p)"
      "num_hashes p' = 0" "remaining_hashes p' = hashes_per_tick p" "poh_hash p' = pe_hash e"
      "hashes_per_tick p' = hashes_per_tick p"
      "unat (tick_number p') = unat (tick_number p) + 1"
proof -
  from assms obtain num rem where *: "u64_add (num_hashes p) 1 = Some num" "u64_sub (remaining_hashes p) 1 = Some rem"
    by (auto simp: Poh_tick_def bind_eq_Some_conv Let_def)
  show ?thesis
  proof (cases "hashes_per_tick p \<noteq> LOW_POWER_MODE \<and> rem \<noteq> 0")
    case True
    with assms * show ?thesis
      by (intro hashed) (auto simp: Poh_tick_def u64_eq_Some u64_unat_iffs Let_def)
  next
    case False
    with assms * obtain t where "u64_add (tick_number p) 1 = Some t" 
      "r = Some \<lparr>pe_num_hashes = num, pe_hash = f (poh_hash p)\<rparr>"
      "p' = p\<lparr>poh_hash := f (poh_hash p), num_hashes := 0, remaining_hashes := hashes_per_tick p,
                         tick_number := t\<rparr>"
      by (auto simp: Poh_tick_def bind_eq_Some_conv Let_def)
    with False * show ?thesis by (intro ticked) (auto simp: u64_eq_Some u64_unat_iffs)
  qed
qed

lemma Poh_hash_total:
  assumes "poh_inv p" shows "Poh_hash f p m \<noteq> None"
proof -
  from assms have b: "1 \<le> unat (remaining_hashes p)"
    "unat (num_hashes p) + unat (remaining_hashes p) < 2 ^ 64"
    using unat_u64_less[of "hashes_per_tick p"] by (auto simp: poh_inv_def)
  obtain l where l: "u64_sub (remaining_hashes p) 1 = Some l" "unat l = unat (remaining_hashes p) - 1"
    using b(1) u64_subE[of 1 "remaining_hashes p"] by auto
  let ?n = "min l m"
  have n: "unat ?n \<le> unat (remaining_hashes p) - 1" using l by simp
  have sum: "unat (num_hashes p) + unat ?n < 2 ^ 64" using b n by linarith
  have le: "unat ?n \<le> unat (remaining_hashes p)" using n by linarith
  obtain num where num: "u64_add (num_hashes p) ?n = Some num" 
    using u64_addE[of "num_hashes p" ?n] sum by blast
  obtain rem where rem: "u64_sub (remaining_hashes p) ?n = Some rem" "unat rem = unat (remaining_hashes p) - unat ?n"
    using u64_subE[of ?n "remaining_hashes p"] le by blast
  have "0 < rem" using b rem n by (simp add: u64_unat_iffs)
  with l num rem show ?thesis by (simp add: Poh_hash_def Let_def)
qed

lemma poh_step_total:
  assumes "poh_inv p" "unat (tick_number p) + 1 < 2 ^ 64"
  shows "poh_step f h p x \<noteq> None"
proof -
  from assms have b: "1 \<le> unat (remaining_hashes p)"
    "unat (num_hashes p) + unat (remaining_hashes p) < 2 ^ 64"
    using unat_u64_less[of "hashes_per_tick p"] by (auto simp: poh_inv_def)
  obtain num where num: "u64_add (num_hashes p) 1 = Some num"
    using b u64_addE[of "num_hashes p" 1] by auto
  obtain rem where rem: "u64_sub (remaining_hashes p) 1 = Some rem"
    using b u64_subE[of 1 "remaining_hashes p"] by auto
  obtain t where t: "u64_add (tick_number p) 1 = Some t"
    using assms u64_addE[of "tick_number p" 1] by auto
  show ?thesis
    using num rem t Poh_hash_total[OF assms(1), of f]
    by (cases x) (simp_all add: Poh_record_def Poh_tick_def Let_def)
qed

lemma poh_step_inv:
  assumes "poh_step f h p x = Some (es, p')" "poh_inv p"
  shows "poh_inv p' \<and> hashes_per_tick p' = hashes_per_tick p
    \<and> unat (tick_number p') \<le> unat (tick_number p) + 1"
proof (cases x)
  case (OpHash m)
  with assms show ?thesis by (auto simp: poh_inv_def elim!: Poh_hashE)
next
  case (OpRecord m)
  with assms show ?thesis by (auto simp: poh_inv_def elim!: Poh_recordE)
next
  case OpTick
  with assms show ?thesis by (auto simp: poh_inv_def elim!: Poh_tickE)
qed

lemma poh_step_chain:
  assumes "poh_step f h p x = Some (es, p')" "poh_since f start p"
  shows "(es = [] \<and> poh_since f start p')
       \<or> (\<exists>e. es = [e] \<and> event_follows f h start e \<and> poh_since f (pe_hash (event_entry e)) p')"
proof (cases x)
  case (OpHash m)
  with assms show ?thesis 
    by (auto simp: poh_since_def funpow_add add.commute[of "unat (num_hashes p)"] elim!: Poh_hashE)
next
  case (OpRecord m)
  with assms show ?thesis by (auto simp: poh_since_def elim!: Poh_recordE)
next
  case OpTick
  with assms show ?thesis by (auto simp: poh_since_def elim!: Poh_tickE)
qed

lemma poh_step_counted:
  assumes "poh_step f h p x = Some (es, p')" "poh_counted acc p" "hashes_per_tick p \<noteq> LOW_POWER_MODE"
  shows "\<exists>acc'. poh_counted acc' p' \<and>
     (\<forall>rest. ticks_spaced (unat (hashes_per_tick p)) acc (es @ rest)
        \<longleftrightarrow> ticks_spaced (unat (hashes_per_tick p)) acc' rest)"
proof (cases x)
  case (OpHash m)
  with assms show ?thesis
    by (intro exI[of _ acc]) (auto simp: poh_counted_def elim!: Poh_hashE)
next
  case (OpRecord m)
  then obtain r where r: "Poh_record h p m = Some (r, p')" "es = (case r of None \<Rightarrow> [] | Some x \<Rightarrow> [Recorded m x])"
    using assms(1) by auto
  from r(1) show ?thesis
  proof (cases rule: Poh_recordE)
    case (entry e) with assms(2) r show ?thesis
      by (intro exI[of _ "acc + unat (pe_num_hashes e)"]) (auto simp: poh_counted_def)
  qed (use assms r in auto)
next
  case OpTick
  then obtain r where r: "Poh_tick f p = Some (r, p')" "es = (case r of None \<Rightarrow> [] | Some x \<Rightarrow> [Ticked x])"
    using assms(1) by auto
  from r(1) show ?thesis
  proof (cases rule: Poh_tickE)
    case hashed with assms(2) r show ?thesis
      by (intro exI[of _ acc]) (auto simp: poh_counted_def)
  next
    case (ticked e) with assms(2,3) r show ?thesis
      by (intro exI[of _ 0]) (auto simp: poh_counted_def)
  qed
qed

lemma poh_run_ok:
  assumes "poh_inv p" "unat (tick_number p) + length xs < 2 ^ 64"
  shows "\<exists>es p'. poh_run f h p xs = Some (es, p') \<and> poh_inv p'"
  using assms
proof (induction xs arbitrary: p)
  case (Cons x xs)
  then obtain es p' where 1: "poh_step f h p x = Some (es, p')"
    using poh_step_total[of p f h x] by auto
  from Cons.IH[of p'] poh_step_inv[OF 1] Cons.prems 1 show ?case by fastforce
qed simp

lemma poh_run_chain:
  "poh_run f h p xs = Some (es, p') \<Longrightarrow> poh_since f start p \<Longrightarrow> events_chain f h start es"
proof (induction xs arbitrary: p es start)
  case (Cons x xs)
  then obtain es1 p1 es2 where 1: "poh_step f h p x = Some (es1, p1)" "poh_run f h p1 xs = Some (es2, p')"
      "es = es1 @ es2" by (auto simp: bind_eq_Some_conv)
  from poh_step_chain[OF 1(1) Cons.prems(2)] Cons.IH[OF 1(2)] 1(3) show ?case by auto
qed simp

lemma poh_run_spaced:
  "poh_run f h p xs = Some (es, p') \<Longrightarrow> poh_inv p \<Longrightarrow> poh_counted acc p \<Longrightarrow>
   hashes_per_tick p \<noteq> LOW_POWER_MODE \<Longrightarrow> ticks_spaced (unat (hashes_per_tick p)) acc es"
proof (induction xs arbitrary: p es acc)
  case Nil
  then show ?case by (auto simp: poh_counted_def)
next
  case (Cons x xs)
  then obtain es1 p1 es2 where 1: "poh_step f h p x = Some (es1, p1)" "poh_run f h p1 xs = Some (es2, p')"
      "es = es1 @ es2" by (auto simp: bind_eq_Some_conv)
  from poh_step_inv[OF 1(1) Cons.prems(2)] poh_step_counted[OF 1(1) Cons.prems(3,4)] Cons.IH[OF 1(2)]
    Cons.prems(4) 1(3) show ?case by auto
qed

lemma Poh_new_inv: "Poh_new_with_slot_info now s hpt t = Some p \<Longrightarrow>
  poh_inv p \<and> poh_since f s p \<and> poh_counted 0 p \<and> tick_number p = t \<and> 
  hashes_per_tick p = (case hpt of None \<Rightarrow> LOW_POWER_MODE | Some x \<Rightarrow> x)"
  by (auto simp: Poh_new_with_slot_info_def poh_inv_def poh_since_def poh_counted_def u64_unat_iffs Let_def split: if_splits)

interpretation poh_system: transition_invariant poh_init "poh_next hash_fn hashv" poh_inv
  for hash_fn hashv
proof unfold_locales
  fix p assume "poh_init p"
  then show "poh_inv p" by (auto simp: poh_init_def dest: Poh_new_inv)
next
  fix p p' assume "poh_inv p" "poh_next hash_fn hashv p p'"
  then show "poh_inv p'" by (auto simp: poh_next_def dest: poh_step_inv)
qed

subsection \<open>Properties\<close>

text \<open>C23: A generator made with a valid tick size never panics: any sequence of its operations runs
  through, as long as the tick counter cannot reach its 64-bit limit.\<close>

theorem poh_never_panics:
  assumes "Poh_new_with_slot_info now s hpt t = Some p" and "unat t + length ops < 2 ^ 64"
  shows "\<exists>es p'. poh_run hash_fn hashv p ops = Some (es, p')"
  using poh_run_ok[of p ops hash_fn hashv] Poh_new_inv[OF assms(1)] assms(2) by auto

theorem poh_never_panics_witness:
  "\<exists>p es p'. Poh_new_with_slot_info 0 [] (Some 3) 0 = Some p
     \<and> poh_run id concat p [OpHash 9, OpRecord [1], OpTick, OpRecord [2]] = Some (es, p')"
proof -
  obtain p where p: "Poh_new_with_slot_info 0 [] (Some 3) 0 = Some p"
    by (simp add: Poh_new_with_slot_info_def)
  then show ?thesis
    using poh_never_panics[OF p, of "[OpHash 9, OpRecord [1], OpTick, OpRecord [2]]" id concat] by auto
qed

text \<open>Every state a generator can reach is one the code relies on: the tick size is above one,
  at least one hash remains before the next tick, and the hashes since the last entry and those
  remaining never exceed the tick size.  So \<open>remaining_hashes - 1\<close> never underflows.\<close>

theorem poh_reachable_invariant:
  assumes "poh_init p" and "(poh_next hash_fn hashv)\<^sup>*\<^sup>* p p'"
  shows "1 < unat (hashes_per_tick p') \<and> 1 \<le> unat (remaining_hashes p')
       \<and> unat (num_hashes p') + unat (remaining_hashes p') \<le> unat (hashes_per_tick p')"
  using poh_system.reachable_inv[OF assms] by (auto simp: poh_inv_def)

theorem poh_reachable_invariant_witness:
  "\<exists>p'. (poh_next id concat)\<^sup>*\<^sup>*
          \<lparr>poh_hash = [], num_hashes = 0, hashes_per_tick = 3, remaining_hashes = 3,
           tick_number = 0, slot_start_time = 0\<rparr> p' \<and> 1 \<le> unat (remaining_hashes p')"
proof -
  let ?p = "\<lparr>poh_hash = [], num_hashes = 0, hashes_per_tick = 3, remaining_hashes = 3,
             tick_number = 0, slot_start_time = 0\<rparr>"
  have "Poh_new_with_slot_info 0 [] (Some 3) 0 = Some ?p" by (simp add: Poh_new_with_slot_info_def)
  then have "poh_init ?p" unfolding poh_init_def by blast
  from poh_reachable_invariant[OF this rtranclp.rtrancl_refl] show ?thesis by blast
qed

text \<open>C24: The entries a generator emits form a verifiable chain: a tick of \<open>n\<close> hashes is the \<open>n\<close>-fold
  hash of the entry before it, a record is \<open>n - 1\<close> hashes and then the hash with the mixed-in value.\<close>

theorem poh_entries_chain:
  assumes "Poh_new_with_slot_info now s hpt t = Some p"
    and "poh_run hash_fn hashv p ops = Some (es, p')"
  shows "events_chain hash_fn hashv s es"
  using poh_run_chain[OF assms(2)] Poh_new_inv[OF assms(1)] by blast

theorem poh_entries_chain_witness:
  "\<exists>p es p'. Poh_new_with_slot_info 0 [] (Some 3) 0 = Some p
     \<and> poh_run id concat p [OpHash 1, OpRecord [1], OpTick] = Some (es, p')
     \<and> events_chain id concat [] es"
proof -
  obtain p where p: "Poh_new_with_slot_info 0 [] (Some 3) 0 = Some p"
    by (simp add: Poh_new_with_slot_info_def)
  moreover from p obtain es p' where "poh_run id concat p [OpHash 1, OpRecord [1], OpTick] = Some (es, p')"
    using poh_run_ok[of p "[OpHash 1, OpRecord [1], OpTick]" id concat] Poh_new_inv[OF p] by auto
  ultimately show ?thesis using poh_entries_chain by blast
qed

text \<open>C12: Outside low power mode ticks are evenly spaced: the entries from one tick to the next
  account for exactly \<open>hashes_per_tick\<close> hashes, however the caller interleaves its operations.\<close>

theorem poh_ticks_evenly_spaced:
  assumes "Poh_new_with_slot_info now s (Some n) t = Some p" and "n \<noteq> LOW_POWER_MODE"
    and "poh_run hash_fn hashv p ops = Some (es, p')"
  shows "ticks_spaced (unat n) 0 es"
  using poh_run_spaced[OF assms(3)] Poh_new_inv[OF assms(1)] assms(2) by auto

theorem poh_ticks_evenly_spaced_witness:
  "\<exists>p es p'. Poh_new_with_slot_info 0 [] (Some 3) 0 = Some p
     \<and> poh_run id concat p [OpHash 1, OpRecord [1], OpTick] = Some (es, p')
     \<and> ticks_spaced (unat (3 :: u64)) 0 es"
proof -
  obtain p where p: "Poh_new_with_slot_info 0 [] (Some 3) 0 = Some p"
    by (simp add: Poh_new_with_slot_info_def)
  moreover from p obtain es p' where "poh_run id concat p [OpHash 1, OpRecord [1], OpTick] = Some (es, p')"
    using poh_run_ok[of p "[OpHash 1, OpRecord [1], OpTick]" id concat] Poh_new_inv[OF p] by auto
  moreover have "3 \<noteq> LOW_POWER_MODE" by (simp add: LOW_POWER_MODE_def u64_max_def)
  ultimately show ?thesis using poh_ticks_evenly_spaced by blast
qed

text \<open>\<open>hash\<close> advances the chain by the requested number of hashes but stops one short of the
  tick, and it returns true exactly when a record would now be refused until the caller ticks.\<close>

theorem poh_hash_signals_tick:
  assumes "poh_inv p" and "Poh_hash hash_fn p m = Some (b, p')"
  shows "(b \<longleftrightarrow> Poh_record hashv p' mixin = Some (None, p'))
       \<and> poh_hash p' = (hash_fn ^^ min (unat (remaining_hashes p) - 1) (unat m)) (poh_hash p)"
proof -
  from assms(2) obtain n where n: "n = min (unat (remaining_hashes p) - 1) (unat m)"
    "b = (unat (remaining_hashes p') = 1)" "poh_hash p' = (hash_fn ^^ n) (poh_hash p)"
    by (auto elim: Poh_hashE)
  moreover have "unat (remaining_hashes p') = 1 \<longleftrightarrow> Poh_record hashv p' mixin = Some (None, p')"
    by (auto simp: Poh_record_def u64_unat_iffs Let_def bind_eq_Some_conv)
  ultimately show ?thesis by simp
qed

theorem poh_hash_signals_tick_witness:
  "\<exists>b p'. Poh_hash id \<lparr>poh_hash = [], num_hashes = 0, hashes_per_tick = 3, remaining_hashes = 3,
             tick_number = 0, slot_start_time = 0\<rparr> 5 = Some (b, p')
        \<and> (b \<longleftrightarrow> Poh_record concat p' [] = Some (None, p'))"
proof -
  let ?p = "\<lparr>poh_hash = [], num_hashes = 0, hashes_per_tick = 3, remaining_hashes = 3,
             tick_number = 0, slot_start_time = 0\<rparr>"
  have inv: "poh_inv ?p" by (simp add: poh_inv_def)
  then obtain b p' where "Poh_hash id ?p 5 = Some (b, p')" using Poh_hash_total[of ?p id 5] by auto
  then show ?thesis using poh_hash_signals_tick[OF inv] by blast
qed

end
