(* ===== verification/Entry.thy ===== *)
theory Entry
  imports Merkle_Tree Poh
begin

section \<open>Ledger entries (\<open>entry/src/entry.rs\<close>)\<close>

text \<open>
  An entry is a number of hashes since the previous entry, the resulting hash and the
  transactions mixed into it.  Hashing the transactions of an entry is a client of the Merkle
  tree, the entry's hash a client of the proof-of-history generator.  A transaction is a
  third-party type of which only the signatures are read: the parameter \<open>sigs\<close>; \<open>into\<close> is its
  conversion from the legacy transaction type.  \<open>None\<close> is a panic (an \<open>unwrap\<close> of \<open>None\<close>).
\<close>

record 'tx entry =
  entry_num_hashes :: u64
  entry_hash :: hash
  transactions :: "'tx list"

definition Hash_default :: hash where
  "Hash_default = replicate 32 0"

definition hash_transactions ::
  "(bytes list \<Rightarrow> hash) \<Rightarrow> ('tx \<Rightarrow> bytes list) \<Rightarrow> 'tx list \<Rightarrow> hash option" where
  "hash_transactions hashv sigs txs =
     do { let signatures = concat (map sigs txs);
          merkle_tree \<leftarrow> MerkleTree_new hashv signatures;
          Some (case MerkleTree_get_root merkle_tree of
                  Some root_hash \<Rightarrow> root_hash
                | None \<Rightarrow> Hash_default) }"

definition next_hash ::
  "(bytes \<Rightarrow> hash) \<Rightarrow> (bytes list \<Rightarrow> hash) \<Rightarrow> ('tx \<Rightarrow> bytes list) \<Rightarrow> nat
   \<Rightarrow> hash \<Rightarrow> u64 \<Rightarrow> 'tx list \<Rightarrow> hash option" where
  "next_hash hash_fn hashv sigs now start_hash n txs =
     (if n = 0 \<and> txs = [] then Some start_hash
      else
        do { poh \<leftarrow> Poh_new now start_hash None;
             (_, poh) \<leftarrow> Poh_hash hash_fn poh (u64_saturating_sub n 1);
             if txs = []
             then do { (tick, _) \<leftarrow> Poh_tick hash_fn poh; e \<leftarrow> tick; Some (pe_hash e) }
             else do { mixin \<leftarrow> hash_transactions hashv sigs txs;
                       (recorded, _) \<leftarrow> Poh_record hashv poh mixin;
                       e \<leftarrow> recorded; Some (pe_hash e) } })"

definition Entry_new ::
  "(bytes \<Rightarrow> hash) \<Rightarrow> (bytes list \<Rightarrow> hash) \<Rightarrow> ('tx \<Rightarrow> bytes list) \<Rightarrow> ('legacy \<Rightarrow> 'tx) \<Rightarrow> nat
   \<Rightarrow> hash \<Rightarrow> u64 \<Rightarrow> 'legacy list \<Rightarrow> 'tx entry option" where
  "Entry_new hash_fn hashv sigs into now prev_hash n legacy_txs =
     do { let n = (if n = 0 \<and> legacy_txs \<noteq> [] then 1 else n);
          let txs = map into legacy_txs;
          h \<leftarrow> next_hash hash_fn hashv sigs now prev_hash n txs;
          Some \<lparr>entry_num_hashes = n, entry_hash = h, transactions = txs\<rparr> }"

definition next_entry_mut ::
  "(bytes \<Rightarrow> hash) \<Rightarrow> (bytes list \<Rightarrow> hash) \<Rightarrow> ('tx \<Rightarrow> bytes list) \<Rightarrow> ('legacy \<Rightarrow> 'tx) \<Rightarrow> nat
   \<Rightarrow> hash \<Rightarrow> u64 \<Rightarrow> 'legacy list \<Rightarrow> ('tx entry \<times> hash) option" where
  "next_entry_mut hash_fn hashv sigs into now start n legacy_txs =
     do { e \<leftarrow> Entry_new hash_fn hashv sigs into now start n legacy_txs;
          Some (e, entry_hash e) }"

text \<open>\<open>repeat_with(..).take(k).collect()\<close> with the hash it captures mutably.\<close>

fun take_entries ::
  "(bytes \<Rightarrow> hash) \<Rightarrow> (bytes list \<Rightarrow> hash) \<Rightarrow> ('tx \<Rightarrow> bytes list) \<Rightarrow> ('legacy \<Rightarrow> 'tx) \<Rightarrow> nat
   \<Rightarrow> nat \<Rightarrow> u64 \<Rightarrow> hash \<Rightarrow> 'tx entry list option" where
  "take_entries hash_fn hashv sigs into now 0 hpt h = Some []"
| "take_entries hash_fn hashv sigs into now (Suc k) hpt h =
     do { (e, h') \<leftarrow> next_entry_mut hash_fn hashv sigs into now h hpt [];
          es \<leftarrow> take_entries hash_fn hashv sigs into now k hpt h';
          Some (e # es) }"

definition create_ticks ::
  "(bytes \<Rightarrow> hash) \<Rightarrow> (bytes list \<Rightarrow> hash) \<Rightarrow> ('tx \<Rightarrow> bytes list) \<Rightarrow> ('legacy \<Rightarrow> 'tx) \<Rightarrow> nat
   \<Rightarrow> u64 \<Rightarrow> u64 \<Rightarrow> hash \<Rightarrow> 'tx entry list option" where
  "create_ticks hash_fn hashv sigs into now num_ticks hpt h =
     take_entries hash_fn hashv sigs into now (unat num_ticks) hpt h"

subsection \<open>What the operations compute\<close>

lemma hash_transactions_total: "\<exists>m. hash_transactions hashv sigs txs = Some m"
  unfolding hash_transactions_def Let_def by (rule merkle.root_or_default_total)

text \<open>A fresh low-power generator advanced by \<open>n - 1\<close> hashes.\<close>

lemma low_power_advance:
  obtains p b q where "Poh_new now start None = Some p"
    "Poh_hash hash_fn p (u64_saturating_sub n 1) = Some (b, q)"
    "poh_hash q = (hash_fn ^^ (unat n - 1)) start" "poh_inv q" "tick_number q = 0"
    "hashes_per_tick q = LOW_POWER_MODE" "unat (remaining_hashes q) = 2 ^ 64 - 1 - (unat n - 1)"
proof -
  obtain p where p: "Poh_new now start None = Some p"
    by (simp add: Poh_new_def Poh_new_with_slot_info_def LOW_POWER_MODE_def u64_max_def)
  then have inv: "poh_inv p" "hashes_per_tick p = LOW_POWER_MODE" "tick_number p = 0"
     and p0: "remaining_hashes p = LOW_POWER_MODE" "poh_hash p = start"
    using Poh_new_inv[of now start None 0 p]
    by (auto simp: Poh_new_def Poh_new_with_slot_info_def Let_def split: if_splits)
  from Poh_hash_total[OF inv(1)] obtain b q
    where q: "Poh_hash hash_fn p (u64_saturating_sub n 1) = Some (b, q)" by fastforce
  then have "poh_inv q" "tick_number q = 0"
    using poh_step_inv[of hash_fn undefined p "OpHash (u64_saturating_sub n 1)" "[]" q] inv
    by (auto elim: Poh_hashE)
  moreover from q p0 inv unat_u64_less[of n]
  have "poh_hash q = (hash_fn ^^ (unat n - 1)) start" "hashes_per_tick q = LOW_POWER_MODE"
    "unat (remaining_hashes q) = 2 ^ 64 - 1 - (unat n - 1)"
    by (auto simp: LOW_POWER_MODE_def elim!: Poh_hashE)
  ultimately show ?thesis using that[OF p q] by blast
qed

lemma next_hash_ticks:
  "next_hash hash_fn hashv sigs now start n [] = Some ((hash_fn ^^ unat n) start)"
proof (cases "n = 0")
  case False
  obtain p b q where q: "Poh_new now start None = Some p"
    "Poh_hash hash_fn p (u64_saturating_sub n 1) = Some (b, q)"
    "poh_hash q = (hash_fn ^^ (unat n - 1)) start" "poh_inv q" "tick_number q = 0"
    "hashes_per_tick q = LOW_POWER_MODE"
    using low_power_advance by metis
  from poh_step_total[OF q(4), of hash_fn hashv OpTick] q(5) obtain r q'
    where t: "Poh_tick hash_fn q = Some (r, q')" by auto
  with q obtain e where "r = Some e" "pe_hash e = hash_fn (poh_hash q)"
    by (auto elim: Poh_tickE)
  moreover have "hash_fn ((hash_fn ^^ (unat n - 1)) start) = (hash_fn ^^ unat n) start"
    using False by (cases "unat n") (auto simp: word_unat_eq_iff)
  ultimately show ?thesis using False q t by (simp add: next_hash_def)
qed (simp add: next_hash_def)

lemma next_hash_record:
  assumes "txs \<noteq> []" "hash_transactions hashv sigs txs = Some m"
  shows "next_hash hash_fn hashv sigs now start n txs =
    (if n = u64_max then None else Some (hashv [(hash_fn ^^ (unat n - 1)) start, m]))"
proof -
  obtain p b q where q: "Poh_new now start None = Some p"
    "Poh_hash hash_fn p (u64_saturating_sub n 1) = Some (b, q)"
    "poh_hash q = (hash_fn ^^ (unat n - 1)) start" "poh_inv q" "tick_number q = 0"
    "unat (remaining_hashes q) = 2 ^ 64 - 1 - (unat n - 1)"
    using low_power_advance by metis
  have one: "unat (remaining_hashes q) = 1 \<longleftrightarrow> n = u64_max"
    using q(6) unat_u64_less[of n] by (auto simp: word_unat_eq_iff)
  from poh_step_total[OF q(4), of hash_fn hashv "OpRecord m"] q(5) obtain r q'
    where t: "Poh_record hashv q m = Some (r, q')" by auto
  then have "(n = u64_max \<and> r = None) \<or>
     (n \<noteq> u64_max \<and> (\<exists>e. r = Some e \<and> pe_hash e = hashv [poh_hash q, m]))"
    by (rule Poh_recordE) (use one in auto)
  then show ?thesis using assms q t by (auto simp: next_hash_def)
qed

lemma take_entries_eq:
  "take_entries hash_fn hashv sigs into now k hpt h =
     Some (map (\<lambda>i. \<lparr>entry_num_hashes = hpt, entry_hash = (hash_fn ^^ (unat hpt * Suc i)) h,
                     transactions = []\<rparr>) [0..<k])"
proof (induction k arbitrary: h)
  case (Suc k)
  have "(hash_fn ^^ (unat hpt * Suc i)) ((hash_fn ^^ unat hpt) h) = (hash_fn ^^ (unat hpt * Suc (Suc i))) h" for i
    by (simp add: funpow_add[symmetric, THEN fun_cong, unfolded o_def] algebra_simps)
  then show ?case
    by (simp add: Suc next_entry_mut_def Entry_new_def next_hash_ticks map_upt_Suc del: upt_Suc)
qed simp

subsection \<open>Properties\<close>

text \<open>C25: The entry \<open>Entry::new\<close> builds, on every input.  Without transactions its hash is \<open>num_hashes\<close>
  iterations after the previous one; with transactions \<open>num_hashes\<close> is raised to at least one and
  the last iteration mixes in the hash of the transactions.  The single input on which it panics
  is \<open>num_hashes = u64::MAX\<close> with transactions, where the low-power generator has no hash left for
  the record.\<close>

theorem entry_new_correct:
  "Entry_new hash_fn hashv sigs into now prev n txs =
     (if txs = []
      then Some \<lparr>entry_num_hashes = n, entry_hash = (hash_fn ^^ unat n) prev, transactions = []\<rparr>
      else if n = u64_max then None
      else map_option (\<lambda>m. \<lparr>entry_num_hashes = max n 1,
              entry_hash = hashv [(hash_fn ^^ (unat (max n 1) - 1)) prev, m], transactions = map into txs\<rparr>)
             (hash_transactions hashv sigs (map into txs)))"
proof (cases "txs = []")
  case False
  obtain m where m: "hash_transactions hashv sigs (map into txs) = Some m"
    using hash_transactions_total by blast
  have n: "(if n = 0 then 1 else n) = max n 1"
    by (auto simp: max_def word_unat_eq_iff word_le_nat_alt)
  have "max n 1 = u64_max \<longleftrightarrow> n = u64_max"
    by (auto simp: max_def word_unat_eq_iff word_le_nat_alt)
  then show ?thesis
    using False m n by (simp add: Entry_new_def next_hash_record Let_def)
qed (simp add: Entry_new_def next_hash_ticks)

text \<open>The hash of an entry's transactions always exists, and it is the root of the reference tree
  over all their signatures, in order: transactions without signatures hash to the default hash.\<close>

theorem hash_transactions_correct:
  "hash_transactions hashv sigs txs =
     Some (let s = concat (map sigs txs)
           in if s = [] then Hash_default else last (level_nodes hashv (map (hash_leaf hashv) s)))"
  by (auto simp: hash_transactions_def MerkleTree_new_eq MerkleTree_get_root_def Let_def)

text \<open>\<open>create_ticks\<close> never panics: tick \<open>i\<close> carries \<open>hashes_per_tick\<close> hashes, no transactions, and the
  hash \<open>hashes_per_tick * (i + 1)\<close> iterations after the start.\<close>

theorem create_ticks_correct:
  "create_ticks hash_fn hashv sigs into now num_ticks hpt h =
     Some (map (\<lambda>i. \<lparr>entry_num_hashes = hpt, entry_hash = (hash_fn ^^ (unat hpt * Suc i)) h,
                     transactions = []\<rparr>) [0..<unat num_ticks])"
  by (simp add: create_ticks_def take_entries_eq)

end
