(* ===== verification/Tx_Accounts.thy ===== *)
theory Tx_Accounts
  imports Prelude
begin

section \<open>The accounts of a transaction (\<open>transaction-context/src/lib.rs\<close>, \<open>TransactionAccounts\<close>)\<close>

text \<open>
  The account store shared by all instructions of a transaction: one \<open>RefCell\<close> per account, a
  touched flag per account and the two running totals \<open>resize_delta\<close> (\<open>i64\<close>) and \<open>lamports_delta\<close>
  (\<open>i128\<close>).  A \<open>RefCell\<close> is its value and its borrow flag, as in the standard library.

  \<open>AccountSharedData\<close>, the rent calculation, the instructions sysvar and the well-known keys come
  from crates outside the repository: they are the fields of the parameter \<open>tx_env\<close>, over an
  abstract account type \<open>'acc\<close>.  \<open>account_laws\<close> is what the code relies on: each setter changes
  the field it names and no other.
\<close>

type_synonym pubkey = bytes

subsection \<open>Limits and errors\<close>

definition MAX_ACCOUNTS_PER_TRANSACTION :: nat where
  "MAX_ACCOUNTS_PER_TRANSACTION = 256"

definition MAX_ACCOUNTS_PER_INSTRUCTION :: nat where
  "MAX_ACCOUNTS_PER_INSTRUCTION = 255"

definition MAX_INSTRUCTION_DATA_LEN :: nat where
  "MAX_INSTRUCTION_DATA_LEN = 10 * 1024"

definition MAX_ACCOUNT_DATA_LEN :: nat where
  "MAX_ACCOUNT_DATA_LEN = 10 * 1024 * 1024"

definition MAX_ACCOUNT_DATA_GROWTH_PER_TRANSACTION :: int where
  "MAX_ACCOUNT_DATA_GROWTH_PER_TRANSACTION = int MAX_ACCOUNT_DATA_LEN * 2"

definition MAX_ACCOUNT_DATA_GROWTH_PER_INSTRUCTION :: nat where
  "MAX_ACCOUNT_DATA_GROWTH_PER_INSTRUCTION = 10 * 1024"

text \<open>The variants of \<open>InstructionError\<close> the module returns.\<close>

datatype instruction_error =
    NotEnoughAccountKeys | MissingAccount | AccountBorrowFailed | AccountBorrowOutstanding
  | InvalidRealloc | MaxAccountsDataAllocationsExceeded | ArithmeticOverflow | CallDepth
  | UnbalancedInstruction | MaxInstructionTraceLengthExceeded | InvalidAccountOwner
  | ModifiedProgramId | ExternalAccountLamportSpend | ReadonlyLamportChange
  | InvalidAccountData | GenericError | AccountDataTooSmall | ExecutableAccountNotRentExempt
  | ExecutableModified | ReadonlyDataModified | ExternalAccountDataModified
  | AccountDataSizeChanged

subsection \<open>The environment\<close>

record ('acc, 'rent) tx_env =
  lamports_of :: "'acc \<Rightarrow> u64"
  data_of :: "'acc \<Rightarrow> bytes"
  owner_of :: "'acc \<Rightarrow> pubkey"
  executable_of :: "'acc \<Rightarrow> bool"
  rent_epoch_of :: "'acc \<Rightarrow> u64"
  is_shared_of :: "'acc \<Rightarrow> bool"
  account_set_lamports :: "'acc \<Rightarrow> u64 \<Rightarrow> 'acc"
  account_copy_into_owner :: "'acc \<Rightarrow> bytes \<Rightarrow> 'acc option"
  account_set_data :: "'acc \<Rightarrow> bytes \<Rightarrow> 'acc"
  account_resize :: "'acc \<Rightarrow> nat \<Rightarrow> byte \<Rightarrow> 'acc"
  account_extend :: "'acc \<Rightarrow> bytes \<Rightarrow> 'acc"
  account_reserve :: "'acc \<Rightarrow> nat \<Rightarrow> 'acc"
  account_write :: "'acc \<Rightarrow> bytes \<Rightarrow> 'acc"
  account_set_executable :: "'acc \<Rightarrow> bool \<Rightarrow> 'acc"
  store_current_index_checked :: "bytes \<Rightarrow> u16 \<Rightarrow> instruction_error + bytes"
  is_exempt :: "'rent \<Rightarrow> u64 \<Rightarrow> nat \<Rightarrow> bool"
  instructions_id :: pubkey
  sysvar_id :: pubkey

text \<open>\<open>account_write a d\<close> is \<open>data_as_mut_slice\<close> followed by writing \<open>d\<close> over the whole slice, so the
  law has the lengths agree.  \<open>copy_into_owner_from_slice\<close> panics on a slice that is not a key.\<close>

definition account_view ::
  "('acc, 'rent) tx_env \<Rightarrow> 'acc \<Rightarrow> u64 \<times> bytes \<times> pubkey \<times> bool" where
  "account_view E a = (lamports_of E a, data_of E a, owner_of E a, executable_of E a)"

definition account_laws :: "('acc, 'rent) tx_env \<Rightarrow> bool" where
  "account_laws E \<longleftrightarrow>
     (\<forall>a l. account_view E (account_set_lamports E a l) =
        (l, data_of E a, owner_of E a, executable_of E a))
   \<and> (\<forall>a k a'. account_copy_into_owner E a k = Some a' \<longrightarrow> account_view E a' =
        (lamports_of E a, data_of E a, k, executable_of E a))
   \<and> (\<forall>a k. account_copy_into_owner E a k \<noteq> None \<longleftrightarrow> length k = 32)
   \<and> (\<forall>a d. account_view E (account_set_data E a d) =
        (lamports_of E a, d, owner_of E a, executable_of E a))
   \<and> (\<forall>a n b. account_view E (account_resize E a n b) =
        (lamports_of E a, take n (data_of E a) @ replicate (n - length (data_of E a)) b,
         owner_of E a, executable_of E a))
   \<and> (\<forall>a d. account_view E (account_extend E a d) =
        (lamports_of E a, data_of E a @ d, owner_of E a, executable_of E a))
   \<and> (\<forall>a n. account_view E (account_reserve E a n) = account_view E a)
   \<and> (\<forall>a d. length d = length (data_of E a) \<longrightarrow> account_view E (account_write E a d) =
        (lamports_of E a, d, owner_of E a, executable_of E a))
   \<and> (\<forall>a x. account_view E (account_set_executable E a x) =
        (lamports_of E a, data_of E a, owner_of E a, x))
   \<and> (\<forall>d i d'. store_current_index_checked E d i = Inr d' \<longrightarrow> length d' = length d)"

subsection \<open>Cells\<close>

datatype borrow_flag = Unused | Reading nat | Writing

record 'acc refcell =
  cell_value :: 'acc
  cell_flag :: borrow_flag

definition RefCell_new :: "'acc \<Rightarrow> 'acc refcell" where
  "RefCell_new a = \<lparr>cell_value = a, cell_flag = Unused\<rparr>"

fun cell_try_borrow :: "borrow_flag \<Rightarrow> borrow_flag option" where
  "cell_try_borrow Unused = Some (Reading 1)"
| "cell_try_borrow (Reading n) = Some (Reading (Suc n))"
| "cell_try_borrow Writing = None"

fun cell_drop_borrow :: "borrow_flag \<Rightarrow> borrow_flag" where
  "cell_drop_borrow (Reading (Suc (Suc n))) = Reading (Suc n)"
| "cell_drop_borrow _ = Unused"

subsection \<open>Operations\<close>

record 'acc transaction_accounts =
  cells :: "'acc refcell list"
  touched_flags :: "bool list"
  resize_delta :: int
  lamports_delta :: int

definition TransactionAccounts_new :: "'acc refcell list \<Rightarrow> 'acc transaction_accounts" where
  "TransactionAccounts_new cs =
     \<lparr>cells = cs, touched_flags = replicate (length cs) False, resize_delta = 0, lamports_delta = 0\<rparr>"

definition accounts_len :: "'acc transaction_accounts \<Rightarrow> nat" where
  "accounts_len ta = length (cells ta)"

definition touch ::
  "'acc transaction_accounts \<Rightarrow> u16 \<Rightarrow> instruction_error + 'acc transaction_accounts" where
  "touch ta index =
     (if unat index < length (touched_flags ta)
      then Inr (ta\<lparr>touched_flags := (touched_flags ta)[unat index := True]\<rparr>)
      else Inl NotEnoughAccountKeys)"

definition update_accounts_resize_delta ::
  "'acc transaction_accounts \<Rightarrow> nat \<Rightarrow> nat \<Rightarrow> instruction_error + 'acc transaction_accounts" where
  "update_accounts_resize_delta ta old_len new_len =
     Inr (ta\<lparr>resize_delta := i64_saturating_add (resize_delta ta)
                (i64_saturating_sub (usize_as_i64 new_len) (usize_as_i64 old_len))\<rparr>)"

definition accounts_can_data_be_resized ::
  "'acc transaction_accounts \<Rightarrow> nat \<Rightarrow> nat \<Rightarrow> instruction_error + unit" where
  "accounts_can_data_be_resized ta old_len new_len =
     (if new_len > MAX_ACCOUNT_DATA_LEN then Inl InvalidRealloc
      else
        let length_delta = i64_saturating_sub (usize_as_i64 new_len) (usize_as_i64 old_len)
        in if i64_saturating_add (resize_delta ta) length_delta
                > MAX_ACCOUNT_DATA_GROWTH_PER_TRANSACTION
           then Inl MaxAccountsDataAllocationsExceeded
           else Inr ())"

text \<open>A successful borrow returns the store with the cell's flag set; \<open>drop_mut\<close> and \<open>drop_ref\<close> are
  the destructors of \<open>RefMut\<close> and \<open>Ref\<close>.\<close>

definition set_flag :: "'acc transaction_accounts \<Rightarrow> nat \<Rightarrow> borrow_flag \<Rightarrow> 'acc transaction_accounts" where
  "set_flag ta i f = ta\<lparr>cells := (cells ta)[i := (cells ta ! i)\<lparr>cell_flag := f\<rparr>]\<rparr>"

definition try_borrow_mut ::
  "'acc transaction_accounts \<Rightarrow> u16 \<Rightarrow> instruction_error + 'acc transaction_accounts" where
  "try_borrow_mut ta index =
     and_then (ok_or (slice_get (cells ta) (unat index)) MissingAccount)
       (\<lambda>cell. if cell_flag cell = Unused then Inr (set_flag ta (unat index) Writing)
               else Inl AccountBorrowFailed)"

definition try_borrow ::
  "'acc transaction_accounts \<Rightarrow> u16 \<Rightarrow> instruction_error + 'acc transaction_accounts" where
  "try_borrow ta index =
     and_then (ok_or (slice_get (cells ta) (unat index)) MissingAccount)
       (\<lambda>cell. case cell_try_borrow (cell_flag cell) of
                 Some f \<Rightarrow> Inr (set_flag ta (unat index) f)
               | None \<Rightarrow> Inl AccountBorrowFailed)"

definition drop_mut :: "'acc transaction_accounts \<Rightarrow> nat \<Rightarrow> 'acc transaction_accounts" where
  "drop_mut ta i = set_flag ta i Unused"

definition drop_ref :: "'acc transaction_accounts \<Rightarrow> nat \<Rightarrow> 'acc transaction_accounts" where
  "drop_ref ta i = set_flag ta i (cell_drop_borrow (cell_flag (cells ta ! i)))"

definition account_at :: "'acc transaction_accounts \<Rightarrow> nat \<Rightarrow> 'acc" where
  "account_at ta i = cell_value (cells ta ! i)"

definition set_account :: "'acc transaction_accounts \<Rightarrow> nat \<Rightarrow> 'acc \<Rightarrow> 'acc transaction_accounts" where
  "set_account ta i a = ta\<lparr>cells := (cells ta)[i := (cells ta ! i)\<lparr>cell_value := a\<rparr>]\<rparr>"

definition add_lamports_delta ::
  "'acc transaction_accounts \<Rightarrow> int \<Rightarrow> instruction_error + 'acc transaction_accounts" where
  "add_lamports_delta ta balance =
     and_then (ok_or (i128_checked_add (lamports_delta ta) balance) ArithmeticOverflow)
       (\<lambda>d. Inr (ta\<lparr>lamports_delta := d\<rparr>))"

definition get_lamports_delta :: "'acc transaction_accounts \<Rightarrow> int" where
  "get_lamports_delta ta = lamports_delta ta"

end
