(* ===== verification/Tx_Context.thy ===== *)
theory Tx_Context
  imports Tx_Accounts
begin

section \<open>The transaction context (\<open>transaction-context/src/lib.rs\<close>, \<open>TransactionContext\<close>, \<open>InstructionContext\<close>)\<close>

text \<open>
  The stack and the trace of instructions of a transaction and the views on its instructions.  An
  operation on \<open>&mut self\<close> returns its result beside the new context, in every outcome: the code
  does not roll back what it wrote before an error.  \<open>debug_assert\<close> is not part of the model; that
  the conditions asserted hold is proved of the reachable contexts.
\<close>

subsection \<open>Instruction accounts\<close>

record instruction_account =
  index_in_transaction :: u16
  ia_is_signer :: u8
  ia_is_writable :: u8

definition bool_as_u8 :: "bool \<Rightarrow> u8" where
  "bool_as_u8 b = (if b then 1 else 0)"

definition InstructionAccount_new :: "u16 \<Rightarrow> bool \<Rightarrow> bool \<Rightarrow> instruction_account" where
  "InstructionAccount_new i signer writable =
     \<lparr>index_in_transaction = i, ia_is_signer = bool_as_u8 signer, ia_is_writable = bool_as_u8 writable\<rparr>"

definition InstructionAccount_is_signer :: "instruction_account \<Rightarrow> bool" where
  "InstructionAccount_is_signer ia \<longleftrightarrow> ia_is_signer ia \<noteq> 0"

definition InstructionAccount_is_writable :: "instruction_account \<Rightarrow> bool" where
  "InstructionAccount_is_writable ia \<longleftrightarrow> ia_is_writable ia \<noteq> 0"

definition set_is_signer :: "instruction_account \<Rightarrow> bool \<Rightarrow> instruction_account" where
  "set_is_signer ia b = ia\<lparr>ia_is_signer := bool_as_u8 b\<rparr>"

definition set_is_writable :: "instruction_account \<Rightarrow> bool \<Rightarrow> instruction_account" where
  "set_is_writable ia b = ia\<lparr>ia_is_writable := bool_as_u8 b\<rparr>"

subsection \<open>Contexts\<close>

record transaction_return_data =
  rd_program_id :: pubkey
  rd_data :: bytes

definition TransactionReturnData_default :: transaction_return_data where
  "TransactionReturnData_default = \<lparr>rd_program_id = replicate 32 0, rd_data = []\<rparr>"

record instruction_frame =
  nesting_level :: nat
  program_account_index_in_tx :: u16
  instruction_accounts :: "instruction_account list"
  dedup_map :: "u8 list"
  instruction_data :: bytes

definition InstructionFrame_default :: instruction_frame where
  "InstructionFrame_default = \<lparr>nesting_level = 0, program_account_index_in_tx = 0,
     instruction_accounts = [], dedup_map = [], instruction_data = []\<rparr>"

record ('acc, 'rent) transaction_context =
  account_keys :: "pubkey list"
  accounts :: "'acc transaction_accounts"
  instruction_stack_capacity :: nat
  instruction_trace_capacity :: nat
  instruction_stack :: "nat list"
  instruction_trace :: "instruction_frame list"
  top_level_instruction_index :: nat
  return_data :: transaction_return_data
  rent :: 'rent

type_synonym ('acc, 'rent, 'a) tx_result =
  "(instruction_error + 'a) \<times> ('acc, 'rent) transaction_context"

definition TransactionContext_new ::
  "(pubkey \<times> 'acc) list \<Rightarrow> 'rent \<Rightarrow> nat \<Rightarrow> nat \<Rightarrow> ('acc, 'rent) transaction_context" where
  "TransactionContext_new transaction_accounts r stack_cap trace_cap =
     \<lparr>account_keys = map fst transaction_accounts,
      accounts = TransactionAccounts_new (map (RefCell_new \<circ> snd) transaction_accounts),
      instruction_stack_capacity = stack_cap, instruction_trace_capacity = trace_cap,
      instruction_stack = [], instruction_trace = [InstructionFrame_default],
      top_level_instruction_index = 0, return_data = TransactionReturnData_default, rent = r\<rparr>"

text \<open>\<open>refs\<close> is the number of other \<open>Rc\<close> handles on the accounts (the access violation handlers that
  are still alive): unwrapping the \<open>Rc\<close> panics if there is one.\<close>

definition deconstruct_without_keys ::
  "nat \<Rightarrow> ('acc, 'rent) transaction_context \<Rightarrow> (instruction_error + 'acc list) option" where
  "deconstruct_without_keys refs tx =
     (if instruction_stack tx \<noteq> [] then Some (Inl CallDepth)
      else if refs \<noteq> 0 then None
      else Some (Inr (map cell_value (cells (accounts tx)))))"

definition get_number_of_accounts :: "('acc, 'rent) transaction_context \<Rightarrow> u16" where
  "get_number_of_accounts tx = word_of_nat (accounts_len (accounts tx))"

definition get_key_of_account_at_index ::
  "('acc, 'rent) transaction_context \<Rightarrow> u16 \<Rightarrow> instruction_error + pubkey" where
  "get_key_of_account_at_index tx i = ok_or (slice_get (account_keys tx) (unat i)) NotEnoughAccountKeys"

fun position :: "('a \<Rightarrow> bool) \<Rightarrow> 'a list \<Rightarrow> nat option" where
  "position P [] = None"
| "position P (x # xs) = (if P x then Some 0 else map_option Suc (position P xs))"

definition find_index_of_account :: "('acc, 'rent) transaction_context \<Rightarrow> pubkey \<Rightarrow> u16 option" where
  "find_index_of_account tx k = map_option word_of_nat (position (\<lambda>x. x = k) (account_keys tx))"

definition get_instruction_trace_length :: "('acc, 'rent) transaction_context \<Rightarrow> nat" where
  "get_instruction_trace_length tx = saturating_sub (length (instruction_trace tx)) 1"

definition get_instruction_stack_height :: "('acc, 'rent) transaction_context \<Rightarrow> nat" where
  "get_instruction_stack_height tx = length (instruction_stack tx)"

definition accounts_resize_delta :: "('acc, 'rent) transaction_context \<Rightarrow> int" where
  "accounts_resize_delta tx = resize_delta (accounts tx)"

definition get_return_data :: "('acc, 'rent) transaction_context \<Rightarrow> pubkey \<times> bytes" where
  "get_return_data tx = (rd_program_id (return_data tx), rd_data (return_data tx))"

definition set_return_data ::
  "('acc, 'rent) transaction_context \<Rightarrow> pubkey \<Rightarrow> bytes \<Rightarrow> ('acc, 'rent, unit) tx_result" where
  "set_return_data tx k d = (Inr (), tx\<lparr>return_data := \<lparr>rd_program_id = k, rd_data = d\<rparr>\<rparr>)"

text \<open>An \<open>InstructionContext\<close> is a frame of the trace seen through a reference to the context: the
  operations take the context and the frame.\<close>

definition get_instruction_context_at_index_in_trace ::
  "('acc, 'rent) transaction_context \<Rightarrow> nat \<Rightarrow> instruction_error + instruction_frame" where
  "get_instruction_context_at_index_in_trace tx i = ok_or (slice_get (instruction_trace tx) i) CallDepth"

definition get_instruction_context_at_nesting_level ::
  "('acc, 'rent) transaction_context \<Rightarrow> nat \<Rightarrow> instruction_error + instruction_frame" where
  "get_instruction_context_at_nesting_level tx level =
     and_then (ok_or (slice_get (instruction_stack tx) level) CallDepth)
       (get_instruction_context_at_index_in_trace tx)"

definition get_current_instruction_context ::
  "('acc, 'rent) transaction_context \<Rightarrow> instruction_error + instruction_frame" where
  "get_current_instruction_context tx =
     and_then (ok_or (checked_sub (get_instruction_stack_height tx) 1) CallDepth)
       (get_instruction_context_at_nesting_level tx)"

definition get_next_instruction_context ::
  "('acc, 'rent) transaction_context \<Rightarrow> instruction_error + instruction_frame" where
  "get_next_instruction_context tx =
     and_then (ok_or (checked_sub (length (instruction_trace tx)) 1) CallDepth)
       (get_instruction_context_at_index_in_trace tx)"

subsection \<open>Configuring, pushing and popping instructions\<close>

definition update_last :: "('a \<Rightarrow> 'a) \<Rightarrow> 'a list \<Rightarrow> 'a list" where
  "update_last f xs = butlast xs @ [f (last xs)]"

definition configure_next_instruction ::
  "('acc, 'rent) transaction_context \<Rightarrow> u16 \<Rightarrow> instruction_account list \<Rightarrow> u8 list \<Rightarrow> bytes
   \<Rightarrow> ('acc, 'rent, unit) tx_result" where
  "configure_next_instruction tx program_index ias dedup d =
     (if instruction_trace tx = [] then (Inl CallDepth, tx)
      else (Inr (), tx\<lparr>instruction_trace := update_last (\<lambda>f. f\<lparr>program_account_index_in_tx := program_index,
                instruction_accounts := ias, instruction_data := d, dedup_map := dedup\<rparr>)
              (instruction_trace tx)\<rparr>))"

fun build_dedup_map :: "nat \<Rightarrow> instruction_account list \<Rightarrow> u8 list \<Rightarrow> u8 list option" where
  "build_dedup_map idx [] dedup = Some dedup"
| "build_dedup_map idx (ia # ias) dedup =
     (if unat (index_in_transaction ia) < length dedup
      then build_dedup_map (Suc idx) ias
             (if dedup ! unat (index_in_transaction ia) = 255
              then dedup[unat (index_in_transaction ia) := word_of_nat idx]
              else dedup)
      else None)"

definition configure_next_instruction_for_tests ::
  "('acc, 'rent) transaction_context \<Rightarrow> u16 \<Rightarrow> instruction_account list \<Rightarrow> bytes
   \<Rightarrow> ('acc, 'rent, unit) tx_result option" where
  "configure_next_instruction_for_tests tx program_index ias d =
     do { dedup \<leftarrow> build_dedup_map 0 ias (replicate MAX_ACCOUNTS_PER_TRANSACTION 255);
          Some (configure_next_instruction tx program_index ias dedup d) }"

text \<open>The part of \<open>push\<close> after the frame is on the stack: the instructions sysvar, when it is among
  the accounts, is told the index of the running top-level instruction.\<close>

definition push_sysvar ::
  "('acc, 'rent) tx_env \<Rightarrow> ('acc, 'rent) transaction_context \<Rightarrow> ('acc, 'rent, unit) tx_result" where
  "push_sysvar E tx =
     (case find_index_of_account tx (instructions_id E) of
        None \<Rightarrow> (Inr (), tx)
      | Some index \<Rightarrow>
          (case try_borrow_mut (accounts tx) index of
             Inl e \<Rightarrow> (Inl e, tx)
           | Inr _ \<Rightarrow>
               let a = account_at (accounts tx) (unat index);
                   write = (\<lambda>d. tx\<lparr>accounts := set_account (accounts tx) (unat index) (account_write E a d)\<rparr>)
               in if owner_of E a \<noteq> sysvar_id E then (Inl InvalidAccountOwner, tx)
                  else
                    (case store_current_index_checked E (data_of E a)
                            (word_of_nat (top_level_instruction_index tx)) of
                       Inl e \<Rightarrow> (Inl e, write (data_of E a))
                     | Inr d \<Rightarrow> (Inr (), write d))))"

definition push ::
  "('acc, 'rent) tx_env \<Rightarrow> ('acc, 'rent) transaction_context \<Rightarrow> ('acc, 'rent, unit) tx_result" where
  "push E tx =
     (let level = get_instruction_stack_height tx
      in if instruction_stack tx \<noteq> [] \<and> get_lamports_delta (accounts tx) \<noteq> 0
         then (Inl UnbalancedInstruction, tx)
         else if instruction_trace tx = [] then (Inl CallDepth, tx)
         else
           let tx1 = tx\<lparr>instruction_trace :=
                        update_last (\<lambda>f. f\<lparr>nesting_level := level\<rparr>) (instruction_trace tx)\<rparr>;
               index_in_trace = get_instruction_trace_length tx1
           in if index_in_trace \<ge> instruction_trace_capacity tx1
              then (Inl MaxInstructionTraceLengthExceeded, tx1)
              else
                let tx2 = tx1\<lparr>instruction_trace := instruction_trace tx1 @ [InstructionFrame_default]\<rparr>
                in if level \<ge> instruction_stack_capacity tx2 then (Inl CallDepth, tx2)
                   else push_sysvar E (tx2\<lparr>instruction_stack := instruction_stack tx2 @ [index_in_trace]\<rparr>))"

definition get_index_of_program_account_in_transaction ::
  "instruction_frame \<Rightarrow> instruction_error + u16" where
  "get_index_of_program_account_in_transaction ic =
     (if program_account_index_in_tx ic = 65535 then Inl NotEnoughAccountKeys
      else Inr (program_account_index_in_tx ic))"

definition borrow_outstanding :: "instruction_error \<Rightarrow> instruction_error" where
  "borrow_outstanding e = (if e = AccountBorrowFailed then AccountBorrowOutstanding else e)"

definition pop_balanced ::
  "('acc, 'rent) transaction_context \<Rightarrow> instruction_error + bool" where
  "pop_balanced tx =
     and_then (get_current_instruction_context tx) (\<lambda>ic.
       and_then (get_index_of_program_account_in_transaction ic) (\<lambda>index.
         case try_borrow_mut (accounts tx) index of
           Inl e \<Rightarrow> Inl (borrow_outstanding e)
         | Inr _ \<Rightarrow> Inr (get_lamports_delta (accounts tx) \<noteq> 0)))"

definition pop ::
  "('acc, 'rent) transaction_context \<Rightarrow> ('acc, 'rent, unit) tx_result" where
  "pop tx =
     (if instruction_stack tx = [] then (Inl CallDepth, tx)
      else
        let detected_an_unbalanced_instruction = pop_balanced tx;
            tx1 = tx\<lparr>instruction_stack := butlast (instruction_stack tx)\<rparr>;
            tx2 = (if instruction_stack tx1 = []
                   then tx1\<lparr>top_level_instruction_index :=
                              saturating_add (top_level_instruction_index tx1) 1\<rparr>
                   else tx1)
        in (and_then detected_an_unbalanced_instruction
              (\<lambda>b. if b then Inl UnbalancedInstruction else Inr ()), tx2))"

subsection \<open>Views on an instruction\<close>

definition get_stack_height :: "instruction_frame \<Rightarrow> nat" where
  "get_stack_height ic = saturating_add (nesting_level ic) 1"

definition get_number_of_instruction_accounts :: "instruction_frame \<Rightarrow> u16" where
  "get_number_of_instruction_accounts ic = word_of_nat (length (instruction_accounts ic))"

definition check_number_of_instruction_accounts :: "instruction_frame \<Rightarrow> u16 \<Rightarrow> instruction_error + unit" where
  "check_number_of_instruction_accounts ic expected =
     (if get_number_of_instruction_accounts ic < expected then Inl NotEnoughAccountKeys else Inr ())"

definition find_index_of_instruction_account ::
  "('acc, 'rent) transaction_context \<Rightarrow> instruction_frame \<Rightarrow> pubkey \<Rightarrow> u16 option" where
  "find_index_of_instruction_account tx ic k =
     map_option word_of_nat
       (position (\<lambda>ia. slice_get (account_keys tx) (unat (index_in_transaction ia)) = Some k)
          (instruction_accounts ic))"

definition get_index_of_instruction_account_in_transaction ::
  "instruction_frame \<Rightarrow> u16 \<Rightarrow> instruction_error + u16" where
  "get_index_of_instruction_account_in_transaction ic i =
     and_then (ok_or (slice_get (instruction_accounts ic) (unat i)) NotEnoughAccountKeys)
       (\<lambda>ia. Inr (index_in_transaction ia))"

definition get_index_of_account_in_instruction ::
  "instruction_frame \<Rightarrow> u16 \<Rightarrow> instruction_error + u16" where
  "get_index_of_account_in_instruction ic i =
     ok_or (do { idx \<leftarrow> slice_get (dedup_map ic) (unat i);
                 if unat idx \<ge> length (instruction_accounts ic) then None else Some (ucast idx) })
       MissingAccount"

definition is_instruction_account_duplicate ::
  "instruction_frame \<Rightarrow> u16 \<Rightarrow> instruction_error + u16 option" where
  "is_instruction_account_duplicate ic i =
     and_then (get_index_of_instruction_account_in_transaction ic i) (\<lambda>tx_index.
       and_then (get_index_of_account_in_instruction ic tx_index) (\<lambda>first.
         Inr (if first = i then None else Some first)))"

definition get_program_key ::
  "('acc, 'rent) transaction_context \<Rightarrow> instruction_frame \<Rightarrow> instruction_error + pubkey" where
  "get_program_key tx ic =
     and_then (get_index_of_program_account_in_transaction ic) (get_key_of_account_at_index tx)"

definition get_program_owner ::
  "('acc, 'rent) tx_env \<Rightarrow> ('acc, 'rent) transaction_context \<Rightarrow> instruction_frame
   \<Rightarrow> instruction_error + pubkey" where
  "get_program_owner E tx ic =
     and_then (get_index_of_program_account_in_transaction ic) (\<lambda>i.
       and_then (try_borrow (accounts tx) i) (\<lambda>ta. Inr (owner_of E (account_at ta (unat i)))))"

definition is_instruction_account_signer :: "instruction_frame \<Rightarrow> u16 \<Rightarrow> instruction_error + bool" where
  "is_instruction_account_signer ic i =
     and_then (ok_or (slice_get (instruction_accounts ic) (unat i)) MissingAccount)
       (\<lambda>ia. Inr (InstructionAccount_is_signer ia))"

definition is_instruction_account_writable :: "instruction_frame \<Rightarrow> u16 \<Rightarrow> instruction_error + bool" where
  "is_instruction_account_writable ic i =
     and_then (ok_or (slice_get (instruction_accounts ic) (unat i)) MissingAccount)
       (\<lambda>ia. Inr (InstructionAccount_is_writable ia))"

fun collect_signers ::
  "('acc, 'rent) transaction_context \<Rightarrow> instruction_account list \<Rightarrow> pubkey set
   \<Rightarrow> instruction_error + pubkey set" where
  "collect_signers tx [] acc = Inr acc"
| "collect_signers tx (ia # ias) acc =
     (if InstructionAccount_is_signer ia
      then and_then (get_key_of_account_at_index tx (index_in_transaction ia))
             (\<lambda>k. collect_signers tx ias (insert k acc))
      else collect_signers tx ias acc)"

definition get_signers ::
  "('acc, 'rent) transaction_context \<Rightarrow> instruction_frame \<Rightarrow> instruction_error + pubkey set" where
  "get_signers tx ic = collect_signers tx (instruction_accounts ic) {}"

definition get_key_of_instruction_account ::
  "('acc, 'rent) transaction_context \<Rightarrow> instruction_frame \<Rightarrow> u16 \<Rightarrow> instruction_error + pubkey" where
  "get_key_of_instruction_account tx ic i =
     and_then (get_index_of_instruction_account_in_transaction ic i) (get_key_of_account_at_index tx)"

end
