(* ===== verification/Tx_Borrowed.thy ===== *)
theory Tx_Borrowed
  imports Tx_Context
begin

section \<open>Borrowed accounts (\<open>transaction-context/src/lib.rs\<close>, \<open>BorrowedAccount\<close>, \<open>ExecutionRecord\<close>)\<close>

text \<open>
  What a program may do to an account of its instruction.  A \<open>BorrowedAccount\<close> holds the only
  \<open>RefMut\<close> of its cell: the handle is the instruction account and the index of the running
  program, its account is the value of the cell, and every operation returns the context beside
  its result.  Further down: the access violation handler, through which the virtual machine
  grows accounts, the record of an executed transaction and \<open>is_zeroed\<close>.
\<close>

record borrowed_account =
  ba_instruction_account :: instruction_account
  index_in_transaction_of_instruction_program :: u16

definition try_borrow_instruction_account ::
  "('acc, 'rent) transaction_context \<Rightarrow> instruction_frame \<Rightarrow> u16
   \<Rightarrow> ('acc, 'rent, borrowed_account) tx_result" where
  "try_borrow_instruction_account tx ic i =
     (case slice_get (instruction_accounts ic) (unat i) of
        None \<Rightarrow> (Inl NotEnoughAccountKeys, tx)
      | Some ia \<Rightarrow>
          (case try_borrow_mut (accounts tx) (index_in_transaction ia) of
             Inl e \<Rightarrow> (Inl e, tx)
           | Inr ta \<Rightarrow>
               (Inr \<lparr>ba_instruction_account = ia,
                     index_in_transaction_of_instruction_program = program_account_index_in_tx ic\<rparr>,
                tx\<lparr>accounts := ta\<rparr>)))"

subsection \<open>Reading\<close>

definition get_index_in_transaction :: "borrowed_account \<Rightarrow> u16" where
  "get_index_in_transaction h = index_in_transaction (ba_instruction_account h)"

definition ba_index :: "borrowed_account \<Rightarrow> nat" where
  "ba_index h = unat (get_index_in_transaction h)"

definition ba_account :: "('acc, 'rent) transaction_context \<Rightarrow> borrowed_account \<Rightarrow> 'acc" where
  "ba_account tx h = account_at (accounts tx) (ba_index h)"

definition ba_update ::
  "('acc, 'rent) transaction_context \<Rightarrow> borrowed_account \<Rightarrow> 'acc \<Rightarrow> ('acc, 'rent) transaction_context" where
  "ba_update tx h a = tx\<lparr>accounts := set_account (accounts tx) (ba_index h) a\<rparr>"

definition get_key :: "('acc, 'rent) transaction_context \<Rightarrow> borrowed_account \<Rightarrow> pubkey option" where
  "get_key tx h =
     (case get_key_of_account_at_index tx (get_index_in_transaction h) of Inl _ \<Rightarrow> None | Inr k \<Rightarrow> Some k)"

definition get_owner ::
  "('acc, 'rent) tx_env \<Rightarrow> ('acc, 'rent) transaction_context \<Rightarrow> borrowed_account \<Rightarrow> pubkey" where
  "get_owner E tx h = owner_of E (ba_account tx h)"

definition get_lamports ::
  "('acc, 'rent) tx_env \<Rightarrow> ('acc, 'rent) transaction_context \<Rightarrow> borrowed_account \<Rightarrow> u64" where
  "get_lamports E tx h = lamports_of E (ba_account tx h)"

definition get_data ::
  "('acc, 'rent) tx_env \<Rightarrow> ('acc, 'rent) transaction_context \<Rightarrow> borrowed_account \<Rightarrow> bytes" where
  "get_data E tx h = data_of E (ba_account tx h)"

definition is_executable ::
  "('acc, 'rent) tx_env \<Rightarrow> ('acc, 'rent) transaction_context \<Rightarrow> borrowed_account \<Rightarrow> bool" where
  "is_executable E tx h = executable_of E (ba_account tx h)"

definition get_rent_epoch ::
  "('acc, 'rent) tx_env \<Rightarrow> ('acc, 'rent) transaction_context \<Rightarrow> borrowed_account \<Rightarrow> u64" where
  "get_rent_epoch E tx h = rent_epoch_of E (ba_account tx h)"

definition is_shared ::
  "('acc, 'rent) tx_env \<Rightarrow> ('acc, 'rent) transaction_context \<Rightarrow> borrowed_account \<Rightarrow> bool" where
  "is_shared E tx h = is_shared_of E (ba_account tx h)"

definition is_signer :: "borrowed_account \<Rightarrow> bool" where
  "is_signer h = InstructionAccount_is_signer (ba_instruction_account h)"

definition is_writable :: "borrowed_account \<Rightarrow> bool" where
  "is_writable h = InstructionAccount_is_writable (ba_instruction_account h)"

definition is_owned_by_current_program ::
  "('acc, 'rent) tx_env \<Rightarrow> ('acc, 'rent) transaction_context \<Rightarrow> borrowed_account \<Rightarrow> bool" where
  "is_owned_by_current_program E tx h =
     (case get_key_of_account_at_index tx (index_in_transaction_of_instruction_program h) of
        Inl _ \<Rightarrow> False
      | Inr program_key \<Rightarrow> program_key = get_owner E tx h)"

definition is_rent_exempt_at_data_length ::
  "('acc, 'rent) tx_env \<Rightarrow> ('acc, 'rent) transaction_context \<Rightarrow> borrowed_account \<Rightarrow> nat \<Rightarrow> bool" where
  "is_rent_exempt_at_data_length E tx h n = is_exempt E (rent tx) (get_lamports E tx h) n"

definition can_data_be_changed ::
  "('acc, 'rent) tx_env \<Rightarrow> ('acc, 'rent) transaction_context \<Rightarrow> borrowed_account
   \<Rightarrow> instruction_error + unit" where
  "can_data_be_changed E tx h =
     (if \<not> is_writable h then Inl ReadonlyDataModified
      else if \<not> is_owned_by_current_program E tx h then Inl ExternalAccountDataModified
      else Inr ())"

definition can_data_be_resized ::
  "('acc, 'rent) tx_env \<Rightarrow> ('acc, 'rent) transaction_context \<Rightarrow> borrowed_account \<Rightarrow> nat
   \<Rightarrow> instruction_error + unit" where
  "can_data_be_resized E tx h new_len =
     (let old_len = length (get_data E tx h)
      in if new_len \<noteq> old_len \<and> \<not> is_owned_by_current_program E tx h
         then Inl AccountDataSizeChanged
         else and_then (accounts_can_data_be_resized (accounts tx) old_len new_len)
                (\<lambda>_. can_data_be_changed E tx h))"

text \<open>\<open>is_zeroed\<close> compares 1024 bytes at a time: \<open>chunks_exact\<close> and its remainder are those of the
  standard library.\<close>

function chunks_exact :: "nat \<Rightarrow> 'a list \<Rightarrow> 'a list list" where
  "chunks_exact n xs = (if n = 0 \<or> length xs < n then [] else take n xs # chunks_exact n (drop n xs))"
  by pat_completeness auto
termination by (relation "measure (\<lambda>(n, xs). length xs)") auto

declare chunks_exact.simps [simp del]

definition chunks_remainder :: "nat \<Rightarrow> 'a list \<Rightarrow> 'a list" where
  "chunks_remainder n xs = drop (length xs div n * n) xs"

definition is_zeroed :: "bytes \<Rightarrow> bool" where
  "is_zeroed buf \<longleftrightarrow>
     (let zeros = replicate 1024 0
      in (\<forall>chunk \<in> set (chunks_exact 1024 buf). chunk = zeros)
       \<and> chunks_remainder 1024 buf = take (length (chunks_remainder 1024 buf)) zeros)"

subsection \<open>Writing\<close>

definition ba_touch ::
  "('acc, 'rent) transaction_context \<Rightarrow> borrowed_account
   \<Rightarrow> instruction_error + ('acc, 'rent) transaction_context" where
  "ba_touch tx h =
     and_then (touch (accounts tx) (get_index_in_transaction h)) (\<lambda>ta. Inr (tx\<lparr>accounts := ta\<rparr>))"

definition ba_update_accounts_resize_delta ::
  "('acc, 'rent) tx_env \<Rightarrow> ('acc, 'rent) transaction_context \<Rightarrow> borrowed_account \<Rightarrow> nat
   \<Rightarrow> instruction_error + ('acc, 'rent) transaction_context" where
  "ba_update_accounts_resize_delta E tx h new_len =
     and_then (update_accounts_resize_delta (accounts tx) (length (get_data E tx h)) new_len)
       (\<lambda>ta. Inr (tx\<lparr>accounts := ta\<rparr>))"

definition make_data_mut ::
  "('acc, 'rent) tx_env \<Rightarrow> ('acc, 'rent) transaction_context \<Rightarrow> borrowed_account
   \<Rightarrow> ('acc, 'rent) transaction_context" where
  "make_data_mut E tx h =
     (if is_shared E tx h
      then ba_update tx h (account_reserve E (ba_account tx h) MAX_ACCOUNT_DATA_GROWTH_PER_INSTRUCTION)
      else tx)"

text \<open>\<open>None\<close> is the panic of \<open>copy_into_owner_from_slice\<close>.\<close>

definition set_owner ::
  "('acc, 'rent) tx_env \<Rightarrow> ('acc, 'rent) transaction_context \<Rightarrow> borrowed_account \<Rightarrow> bytes
   \<Rightarrow> ('acc, 'rent, unit) tx_result option" where
  "set_owner E tx h pubkey =
     (if \<not> is_owned_by_current_program E tx h then Some (Inl ModifiedProgramId, tx)
      else if \<not> is_writable h then Some (Inl ModifiedProgramId, tx)
      else if \<not> is_zeroed (get_data E tx h) then Some (Inl ModifiedProgramId, tx)
      else if get_owner E tx h = pubkey then Some (Inr (), tx)
      else (case ba_touch tx h of
              Inl e \<Rightarrow> Some (Inl e, tx)
            | Inr tx1 \<Rightarrow>
                do { a \<leftarrow> account_copy_into_owner E (ba_account tx1 h) pubkey;
                     Some (Inr (), ba_update tx1 h a) }))"

definition set_lamports ::
  "('acc, 'rent) tx_env \<Rightarrow> ('acc, 'rent) transaction_context \<Rightarrow> borrowed_account \<Rightarrow> u64
   \<Rightarrow> ('acc, 'rent, unit) tx_result" where
  "set_lamports E tx h lamports =
     (if \<not> is_owned_by_current_program E tx h \<and> lamports < get_lamports E tx h
      then (Inl ExternalAccountLamportSpend, tx)
      else if \<not> is_writable h then (Inl ReadonlyLamportChange, tx)
      else
        let old_lamports = get_lamports E tx h
        in if old_lamports = lamports then (Inr (), tx)
           else
             (case add_lamports_delta (accounts tx) (i128_saturating_sub (uint lamports) (uint old_lamports)) of
                Inl e \<Rightarrow> (Inl e, tx)
              | Inr ta \<Rightarrow>
                  let tx1 = tx\<lparr>accounts := ta\<rparr>
                  in (case ba_touch tx1 h of
                        Inl e \<Rightarrow> (Inl e, tx1)
                      | Inr tx2 \<Rightarrow>
                          (Inr (), ba_update tx2 h (account_set_lamports E (ba_account tx2 h) lamports)))))"

definition checked_add_lamports ::
  "('acc, 'rent) tx_env \<Rightarrow> ('acc, 'rent) transaction_context \<Rightarrow> borrowed_account \<Rightarrow> u64
   \<Rightarrow> ('acc, 'rent, unit) tx_result" where
  "checked_add_lamports E tx h lamports =
     (case u64_add (get_lamports E tx h) lamports of
        None \<Rightarrow> (Inl ArithmeticOverflow, tx)
      | Some l \<Rightarrow> set_lamports E tx h l)"

definition checked_sub_lamports ::
  "('acc, 'rent) tx_env \<Rightarrow> ('acc, 'rent) transaction_context \<Rightarrow> borrowed_account \<Rightarrow> u64
   \<Rightarrow> ('acc, 'rent, unit) tx_result" where
  "checked_sub_lamports E tx h lamports =
     (case u64_sub (get_lamports E tx h) lamports of
        None \<Rightarrow> (Inl ArithmeticOverflow, tx)
      | Some l \<Rightarrow> set_lamports E tx h l)"

text \<open>\<open>get_data_mut\<close> returns the slice; the caller then writes it in place (\<open>write_data\<close>).\<close>

definition get_data_mut ::
  "('acc, 'rent) tx_env \<Rightarrow> ('acc, 'rent) transaction_context \<Rightarrow> borrowed_account
   \<Rightarrow> ('acc, 'rent, bytes) tx_result" where
  "get_data_mut E tx h =
     (case can_data_be_changed E tx h of
        Inl e \<Rightarrow> (Inl e, tx)
      | Inr _ \<Rightarrow>
          (case ba_touch tx h of
             Inl e \<Rightarrow> (Inl e, tx)
           | Inr tx1 \<Rightarrow>
               let tx2 = make_data_mut E tx1 h;
                   d = get_data E tx2 h
               in (Inr d, ba_update tx2 h (account_write E (ba_account tx2 h) d))))"

definition write_data ::
  "('acc, 'rent) tx_env \<Rightarrow> ('acc, 'rent) transaction_context \<Rightarrow> borrowed_account \<Rightarrow> bytes
   \<Rightarrow> ('acc, 'rent) transaction_context" where
  "write_data E tx h d = ba_update tx h (account_write E (ba_account tx h) d)"

definition set_data_from_slice ::
  "('acc, 'rent) tx_env \<Rightarrow> ('acc, 'rent) transaction_context \<Rightarrow> borrowed_account \<Rightarrow> bytes
   \<Rightarrow> ('acc, 'rent, unit) tx_result" where
  "set_data_from_slice E tx h d =
     (case can_data_be_resized E tx h (length d) of
        Inl e \<Rightarrow> (Inl e, tx)
      | Inr _ \<Rightarrow>
          (case ba_touch tx h of
             Inl e \<Rightarrow> (Inl e, tx)
           | Inr tx1 \<Rightarrow>
               (case ba_update_accounts_resize_delta E tx1 h (length d) of
                  Inl e \<Rightarrow> (Inl e, tx1)
                | Inr tx2 \<Rightarrow> (Inr (), ba_update tx2 h (account_set_data E (ba_account tx2 h) d)))))"

definition set_data_length ::
  "('acc, 'rent) tx_env \<Rightarrow> ('acc, 'rent) transaction_context \<Rightarrow> borrowed_account \<Rightarrow> nat
   \<Rightarrow> ('acc, 'rent, unit) tx_result" where
  "set_data_length E tx h new_length =
     (case can_data_be_resized E tx h new_length of
        Inl e \<Rightarrow> (Inl e, tx)
      | Inr _ \<Rightarrow>
          if length (get_data E tx h) = new_length then (Inr (), tx)
          else
            (case ba_touch tx h of
               Inl e \<Rightarrow> (Inl e, tx)
             | Inr tx1 \<Rightarrow>
                 (case ba_update_accounts_resize_delta E tx1 h new_length of
                    Inl e \<Rightarrow> (Inl e, tx1)
                  | Inr tx2 \<Rightarrow> (Inr (), ba_update tx2 h (account_resize E (ba_account tx2 h) new_length 0)))))"

definition extend_from_slice ::
  "('acc, 'rent) tx_env \<Rightarrow> ('acc, 'rent) transaction_context \<Rightarrow> borrowed_account \<Rightarrow> bytes
   \<Rightarrow> ('acc, 'rent, unit) tx_result" where
  "extend_from_slice E tx h d =
     (let new_len = saturating_add (length (get_data E tx h)) (length d)
      in case can_data_be_resized E tx h new_len of
           Inl e \<Rightarrow> (Inl e, tx)
         | Inr _ \<Rightarrow>
             if d = [] then (Inr (), tx)
             else
               (case ba_touch tx h of
                  Inl e \<Rightarrow> (Inl e, tx)
                | Inr tx1 \<Rightarrow>
                    (case ba_update_accounts_resize_delta E tx1 h new_len of
                       Inl e \<Rightarrow> (Inl e, tx1)
                     | Inr tx2 \<Rightarrow>
                         let tx3 = make_data_mut E tx2 h
                         in (Inr (), ba_update tx3 h (account_extend E (ba_account tx3 h) d)))))"

text \<open>The \<open>bincode\<close> functions are arguments: \<open>serialize_into\<close> gives whether it succeeded and the
  slice afterwards.\<close>

definition get_state ::
  "('acc \<Rightarrow> 'st option) \<Rightarrow> ('acc, 'rent) transaction_context \<Rightarrow> borrowed_account
   \<Rightarrow> instruction_error + 'st" where
  "get_state deserialize_data tx h = ok_or (deserialize_data (ba_account tx h)) InvalidAccountData"

definition set_state ::
  "('st \<Rightarrow> u64 option) \<Rightarrow> (bytes \<Rightarrow> 'st \<Rightarrow> bool \<times> bytes) \<Rightarrow> ('acc, 'rent) tx_env
   \<Rightarrow> ('acc, 'rent) transaction_context \<Rightarrow> borrowed_account \<Rightarrow> 'st \<Rightarrow> ('acc, 'rent, unit) tx_result" where
  "set_state serialized_size serialize_into E tx h state =
     (case get_data_mut E tx h of
        (Inl e, tx1) \<Rightarrow> (Inl e, tx1)
      | (Inr d, tx1) \<Rightarrow>
          (case serialized_size state of
             None \<Rightarrow> (Inl GenericError, tx1)
           | Some n \<Rightarrow>
               if n > word_of_nat (length d) then (Inl AccountDataTooSmall, tx1)
               else
                 let (ok, d') = serialize_into d state
                 in (if ok then Inr () else Inl GenericError, write_data E tx1 h d')))"

definition set_executable ::
  "('acc, 'rent) tx_env \<Rightarrow> ('acc, 'rent) transaction_context \<Rightarrow> borrowed_account \<Rightarrow> bool
   \<Rightarrow> ('acc, 'rent, unit) tx_result" where
  "set_executable E tx h x =
     (if \<not> is_exempt E (rent tx) (get_lamports E tx h) (length (get_data E tx h))
      then (Inl ExecutableAccountNotRentExempt, tx)
      else if \<not> is_owned_by_current_program E tx h then (Inl ExecutableModified, tx)
      else if \<not> is_writable h then (Inl ExecutableModified, tx)
      else if is_executable E tx h = x then (Inr (), tx)
      else
        (case ba_touch tx h of
           Inl e \<Rightarrow> (Inl e, tx)
         | Inr tx1 \<Rightarrow> (Inr (), ba_update tx1 h (account_set_executable E (ba_account tx1 h) x))))"

subsection \<open>The access violation handler\<close>

text \<open>The fields of the virtual machine's memory region the handler reads and writes.  \<open>data_ptr\<close> is
  the host address of an account's data.\<close>

record memory_region =
  region_host_addr :: u64
  region_vm_addr :: u64
  region_len :: u64
  region_writable :: bool
  access_violation_handler_payload :: "u16 option"

datatype access_type = Load | Store

definition handler_grow ::
  "('acc, 'rent) tx_env \<Rightarrow> 'acc transaction_accounts \<Rightarrow> u16 \<Rightarrow> memory_region \<Rightarrow> u64 \<Rightarrow> nat
   \<Rightarrow> (memory_region \<times> 'acc transaction_accounts)" where
  "handler_grow E ta index region reserved requested_length =
     (let remaining_allowed_growth =
            nat (max 0 (i64_saturating_sub MAX_ACCOUNT_DATA_GROWTH_PER_TRANSACTION (resize_delta ta)))
      in if requested_length > unat (region_len region)
         then
           let a = account_at ta (unat index);
               old_len = length (data_of E a);
               new_len = min (min (unat reserved) MAX_ACCOUNT_DATA_LEN)
                             (saturating_add old_len remaining_allowed_growth)
           in (case update_accounts_resize_delta ta old_len new_len of
                 Inl _ \<Rightarrow> (region, ta)
               | Inr ta1 \<Rightarrow>
                   (region\<lparr>region_len := word_of_nat new_len\<rparr>,
                    set_account ta1 (unat index) (account_resize E a new_len 0)))
         else (region, ta))"

definition handler_unshare ::
  "('acc \<Rightarrow> u64) \<Rightarrow> ('acc, 'rent) tx_env \<Rightarrow> bool \<Rightarrow> u16 \<Rightarrow> memory_region \<times> 'acc transaction_accounts
   \<Rightarrow> memory_region \<times> 'acc transaction_accounts" where
  "handler_unshare data_ptr E direct index s =
     (let (region, ta) = s;
          a = account_at ta (unat index);
          a' = account_write E a (data_of E a)
      in if direct
         then (region\<lparr>region_host_addr := data_ptr a', region_writable := True\<rparr>,
               set_account ta (unat index) a')
         else (region, ta))"

definition access_violation_handler ::
  "('acc \<Rightarrow> u64) \<Rightarrow> ('acc, 'rent) tx_env \<Rightarrow> bool \<Rightarrow> bool \<Rightarrow> 'acc transaction_accounts
   \<Rightarrow> memory_region \<Rightarrow> u64 \<Rightarrow> access_type \<Rightarrow> u64 \<Rightarrow> u64
   \<Rightarrow> memory_region \<times> 'acc transaction_accounts" where
  "access_violation_handler data_ptr E stricter direct_mapping ta region reserved access vm_addr len =
     (if access = Load then (region, ta)
      else case access_violation_handler_payload region of
        None \<Rightarrow> (region, ta)
      | Some index \<Rightarrow>
          let requested_length =
                unat (u64_saturating_sub (u64_saturating_add vm_addr len) (region_vm_addr region))
          in if requested_length > unat reserved then (region, ta)
             else
               (case try_borrow_mut ta index of
                  Inl _ \<Rightarrow> (region, ta)
                | Inr ta1 \<Rightarrow>
                    (case touch ta1 index of
                       Inl _ \<Rightarrow> (region, ta)
                     | Inr ta2 \<Rightarrow>
                         let (region', ta3) =
                               handler_unshare data_ptr E (stricter \<and> direct_mapping) index
                                 (handler_grow E ta2 index region reserved requested_length)
                         in (region', drop_mut ta3 (unat index)))))"

subsection \<open>The execution record\<close>

record 'acc execution_record =
  er_accounts :: "(pubkey \<times> 'acc) list"
  er_return_data :: transaction_return_data
  er_touched_account_count :: u64
  er_accounts_resize_delta :: int

definition ExecutionRecord_from ::
  "nat \<Rightarrow> ('acc, 'rent) transaction_context \<Rightarrow> 'acc execution_record option" where
  "ExecutionRecord_from refs tx =
     (if refs \<noteq> 0 then None
      else Some
        \<lparr>er_accounts = zip (account_keys tx) (map cell_value (cells (accounts tx))),
         er_return_data = return_data tx,
         er_touched_account_count =
           word_of_nat (foldl (\<lambda>n was_touched. saturating_add n (if was_touched then 1 else 0)) 0
                          (touched_flags (accounts tx))),
         er_accounts_resize_delta = resize_delta (accounts tx)\<rparr>)"

end
