(* ===== verification/Tx_Machine.thy ===== *)
theory Tx_Machine
  imports Tx_Borrowed
begin

section \<open>Runs of a transaction (\<open>transaction-context/src/lib.rs\<close>)\<close>

text \<open>
  The transaction context under every use the API allows: instructions are configured, pushed and
  popped, programs borrow accounts, mutate them through the handles and release them, the virtual
  machine calls the access violation handler.  A step relation over the context and the live
  borrows has one rule per operation, in any order and interleaving.  The invariants are what the
  bank relies on when it commits the accounts: lamports are conserved, data growth is bounded and
  counted, borrows never alias, and only an owner writes.
\<close>

subsection \<open>What the account laws give\<close>

lemma account_law_simps:
  assumes "account_laws E"
  shows "lamports_of E (account_set_lamports E a l) = l"
    "data_of E (account_set_lamports E a l) = data_of E a"
    "owner_of E (account_set_lamports E a l) = owner_of E a"
    "executable_of E (account_set_lamports E a l) = executable_of E a"
    "lamports_of E (account_set_data E a d) = lamports_of E a"
    "data_of E (account_set_data E a d) = d"
    "owner_of E (account_set_data E a d) = owner_of E a"
    "executable_of E (account_set_data E a d) = executable_of E a"
    "lamports_of E (account_resize E a n b) = lamports_of E a"
    "data_of E (account_resize E a n b) =
       take n (data_of E a) @ replicate (n - length (data_of E a)) b"
    "owner_of E (account_resize E a n b) = owner_of E a"
    "executable_of E (account_resize E a n b) = executable_of E a"
    "lamports_of E (account_extend E a d) = lamports_of E a"
    "data_of E (account_extend E a d) = data_of E a @ d"
    "owner_of E (account_extend E a d) = owner_of E a"
    "executable_of E (account_extend E a d) = executable_of E a"
    "lamports_of E (account_reserve E a n) = lamports_of E a"
    "data_of E (account_reserve E a n) = data_of E a"
    "owner_of E (account_reserve E a n) = owner_of E a"
    "executable_of E (account_reserve E a n) = executable_of E a"
    "lamports_of E (account_set_executable E a x) = lamports_of E a"
    "data_of E (account_set_executable E a x) = data_of E a"
    "owner_of E (account_set_executable E a x) = owner_of E a"
    "executable_of E (account_set_executable E a x) = x"
  using assms by (simp_all add: account_laws_def account_view_def)

lemma account_write_simps:
  assumes "account_laws E" "length d = length (data_of E a)"
  shows "lamports_of E (account_write E a d) = lamports_of E a"
    "data_of E (account_write E a d) = d"
    "owner_of E (account_write E a d) = owner_of E a"
    "executable_of E (account_write E a d) = executable_of E a"
  using assms by (simp_all add: account_laws_def account_view_def)

lemma account_copy_into_owner_simps:
  assumes "account_laws E" "account_copy_into_owner E a k = Some a'"
  shows "lamports_of E a' = lamports_of E a" "data_of E a' = data_of E a" "owner_of E a' = k"
    "executable_of E a' = executable_of E a"
  using assms by (simp_all add: account_laws_def account_view_def)

lemma store_current_index_length:
  "account_laws E \<Longrightarrow> store_current_index_checked E d i = Inr d' \<Longrightarrow> length d' = length d"
  by (simp add: account_laws_def)

subsection \<open>The operations of a handle\<close>

datatype account_op =
    SetOwner bytes | SetLamports u64 | AddLamports u64 | SubLamports u64 | WriteData bytes
  | SetDataFromSlice bytes | SetDataLength nat | ExtendFromSlice bytes | SetExecutable bool
  | SetState "u64 option" "bytes \<Rightarrow> bool \<times> bytes"

text \<open>A state is what \<open>bincode\<close> makes of it: its size, or \<open>None\<close>, and its serialization into a slice,
  which may fail after a part is written; a slice keeps its length.\<close>

definition in_place :: "(bytes \<Rightarrow> bool \<times> bytes) \<Rightarrow> bytes \<Rightarrow> bool \<times> bytes" where
  "in_place f d = (let (ok, d') = f d in (ok, if length d' = length d then d' else d))"

fun run_account_op ::
  "('acc, 'rent) tx_env \<Rightarrow> ('acc, 'rent) transaction_context \<Rightarrow> borrowed_account \<Rightarrow> account_op
   \<Rightarrow> ('acc, 'rent, unit) tx_result option" where
  "run_account_op E tx h (SetOwner k) = set_owner E tx h k"
| "run_account_op E tx h (SetLamports l) = Some (set_lamports E tx h l)"
| "run_account_op E tx h (AddLamports l) = Some (checked_add_lamports E tx h l)"
| "run_account_op E tx h (SubLamports l) = Some (checked_sub_lamports E tx h l)"
| "run_account_op E tx h (WriteData d) =
     Some (case get_data_mut E tx h of
             (Inl e, tx1) \<Rightarrow> (Inl e, tx1)
           | (Inr old, tx1) \<Rightarrow>
               (Inr (), if length d = length old then write_data E tx1 h d else tx1))"
| "run_account_op E tx h (SetDataFromSlice d) = Some (set_data_from_slice E tx h d)"
| "run_account_op E tx h (SetDataLength n) = Some (set_data_length E tx h n)"
| "run_account_op E tx h (ExtendFromSlice d) = Some (extend_from_slice E tx h d)"
| "run_account_op E tx h (SetExecutable x) = Some (set_executable E tx h x)"
| "run_account_op E tx h (SetState n f) = Some (set_state (\<lambda>_. n) (\<lambda>d _. in_place f d) E tx h ())"

text \<open>A handle made by \<open>try_borrow_instruction_account\<close> has its cell.\<close>

definition handle_ok :: "('acc, 'rent) transaction_context \<Rightarrow> borrowed_account \<Rightarrow> bool" where
  "handle_ok tx h \<longleftrightarrow> ba_index h < length (cells (accounts tx))
     \<and> length (touched_flags (accounts tx)) = length (cells (accounts tx))"

definition touched :: "'acc transaction_accounts \<Rightarrow> nat \<Rightarrow> 'acc transaction_accounts" where
  "touched ta i = ta\<lparr>touched_flags := (touched_flags ta)[i := True]\<rparr>"

definition resized :: "int \<Rightarrow> nat \<Rightarrow> nat \<Rightarrow> int" where
  "resized delta old_len new_len =
     i64_saturating_add delta (i64_saturating_sub (usize_as_i64 new_len) (usize_as_i64 old_len))"

lemma ba_touch_eq: "handle_ok tx h \<Longrightarrow> ba_touch tx h = Inr (tx\<lparr>accounts := touched (accounts tx) (ba_index h)\<rparr>)"
  by (simp add: ba_touch_def touch_def handle_ok_def ba_index_def touched_def)

lemma account_at_simps [simp]:
  "account_at (touched ta i) j = account_at ta j"
  "account_at (ta\<lparr>lamports_delta := d\<rparr>) j = account_at ta j"
  "account_at (ta\<lparr>resize_delta := z\<rparr>) j = account_at ta j"
  "account_at (ta\<lparr>touched_flags := fs\<rparr>) j = account_at ta j"
  "i < length (cells ta) \<Longrightarrow> account_at (set_account ta i a) i = a"
  "i \<noteq> j \<Longrightarrow> account_at (set_account ta i a) j = account_at ta j"
  by (simp_all add: account_at_def touched_def set_account_def)

lemma ba_account_simps [simp]:
  "ba_account (tx\<lparr>accounts := ta\<rparr>) h = account_at ta (ba_index h)"
  "ba_index h < length (cells (accounts tx)) \<Longrightarrow> ba_account (ba_update tx h a) h = a"
  by (simp_all add: ba_account_def ba_update_def)

lemma set_account_fields [simp]:
  "touched_flags (set_account ta i a) = touched_flags ta"
  "resize_delta (set_account ta i a) = resize_delta ta"
  "lamports_delta (set_account ta i a) = lamports_delta ta"
  "length (cells (set_account ta i a)) = length (cells ta)"
  "length (cells (touched ta i)) = length (cells ta)"
  "cells (touched ta i) = cells ta"
  "resize_delta (touched ta i) = resize_delta ta"
  "lamports_delta (touched ta i) = lamports_delta ta"
  by (simp_all add: set_account_def touched_def)

lemma touched_update [simp]:
  "touched (ta\<lparr>lamports_delta := d\<rparr>) i = (touched ta i)\<lparr>lamports_delta := d\<rparr>"
  "touched (ta\<lparr>resize_delta := r\<rparr>) i = (touched ta i)\<lparr>resize_delta := r\<rparr>"
  by (simp_all add: touched_def)

lemma set_account_set_account [simp]:
  "i < length (cells ta) \<Longrightarrow> set_account (set_account ta i a) i b = set_account ta i b"
  by (simp add: set_account_def)

text \<open>The shape of every successful mutation through a handle: the account gets a new value, the
  totals follow, the account is touched.\<close>

definition mutated ::
  "('acc, 'rent) tx_env \<Rightarrow> nat \<Rightarrow> 'acc transaction_accounts \<Rightarrow> 'acc \<Rightarrow> 'acc transaction_accounts \<Rightarrow> bool" where
  "mutated E i ta a' ta' \<longleftrightarrow> (\<exists>ld rd.
     ta' = set_account ((touched ta i)\<lparr>lamports_delta := ld, resize_delta := rd\<rparr>) i a'
   \<and> ld = lamports_delta ta + (uint (lamports_of E a') - uint (lamports_of E (account_at ta i)))
   \<and> (rd = resize_delta ta \<and> length (data_of E a') = length (data_of E (account_at ta i))
      \<or> rd = resized (resize_delta ta) (length (data_of E (account_at ta i))) (length (data_of E a'))
         \<and> length (data_of E a') \<le> MAX_ACCOUNT_DATA_LEN
         \<and> rd \<le> MAX_ACCOUNT_DATA_GROWTH_PER_TRANSACTION))"

text \<open>What the permission checks of the module allow a program to do to an account.\<close>

definition permitted ::
  "('acc, 'rent) tx_env \<Rightarrow> ('acc, 'rent) transaction_context \<Rightarrow> borrowed_account \<Rightarrow> 'acc \<Rightarrow> bool" where
  "permitted E tx h a' \<longleftrightarrow>
     is_writable h
   \<and> (lamports_of E a' < get_lamports E tx h \<longrightarrow> is_owned_by_current_program E tx h)
   \<and> (data_of E a' \<noteq> get_data E tx h \<longrightarrow> is_owned_by_current_program E tx h)
   \<and> (owner_of E a' \<noteq> get_owner E tx h \<longrightarrow>
        is_owned_by_current_program E tx h \<and> (\<forall>b \<in> set (get_data E tx h). b = 0))
   \<and> (executable_of E a' \<noteq> is_executable E tx h \<longrightarrow>
        is_owned_by_current_program E tx h
        \<and> is_exempt E (rent tx) (get_lamports E tx h) (length (get_data E tx h)))"

text \<open>The outcome of an operation: nothing happened, or a permitted mutation.\<close>

definition op_outcome ::
  "('acc, 'rent) tx_env \<Rightarrow> ('acc, 'rent) transaction_context \<Rightarrow> borrowed_account
   \<Rightarrow> ('acc, 'rent, unit) tx_result \<Rightarrow> bool" where
  "op_outcome E tx h res \<longleftrightarrow>
     (snd res = tx \<or>
      (\<exists>a' ta'. fst res = Inr () \<and> snd res = tx\<lparr>accounts := ta'\<rparr>
         \<and> mutated E (ba_index h) (accounts tx) a' ta' \<and> permitted E tx h a'))"

subsection \<open>\<open>is_zeroed\<close>\<close>

lemma chunks_exact_length: "c \<in> set (chunks_exact n xs) \<Longrightarrow> length c = n"
  by (induction n xs rule: chunks_exact.induct) (subst (asm) chunks_exact.simps, auto split: if_splits)

lemma chunks_exact_concat: "0 < n \<Longrightarrow> concat (chunks_exact n xs) @ chunks_remainder n xs = xs"
proof (induction n xs rule: chunks_exact.induct)
  case (1 n xs)
  show ?case
  proof (cases "length xs < n")
    case True
    then show ?thesis by (simp add: chunks_exact.simps[of n xs] chunks_remainder_def)
  next
    case False
    then have "chunks_remainder n xs = chunks_remainder n (drop n xs)"
      using 1(2) by (simp add: chunks_remainder_def le_div_geq not_less add.commute)
    then show ?thesis using 1 False by (simp add: chunks_exact.simps[of n xs])
  qed
qed

lemma eq_replicate_iff: "xs = replicate (length xs) x \<longleftrightarrow> (\<forall>y \<in> set xs. y = x)"
  by (metis in_set_replicate replicate_length_same)

lemma is_zeroed_iff: "is_zeroed buf \<longleftrightarrow> (\<forall>b \<in> set buf. b = 0)"
proof -
  let ?c = "chunks_exact 1024 buf" and ?r = "chunks_remainder 1024 buf"
  have "length ?r < 1024" by (simp add: chunks_remainder_def minus_div_mult_eq_mod)
  then have r: "?r = take (length ?r) (replicate 1024 0) \<longleftrightarrow> (\<forall>b \<in> set ?r. b = 0)"
    by (simp add: eq_replicate_iff)
  have c: "(\<forall>c \<in> set ?c. c = replicate 1024 0) \<longleftrightarrow> (\<forall>c \<in> set ?c. \<forall>b \<in> set c. b = 0)"
    using chunks_exact_length[of _ 1024 buf] eq_replicate_iff[of _ "0 :: byte"] by metis
  have "set buf = \<Union> (set ` set ?c) \<union> set ?r"
    using arg_cong[OF chunks_exact_concat[of 1024 buf], of set] by simp
  then show ?thesis unfolding is_zeroed_def Let_def r c by auto
qed

subsection \<open>One operation of a handle\<close>

lemma op_outcome_same: "op_outcome E tx h (r, tx)"
  by (simp add: op_outcome_def)

lemma op_outcome_mutated:
  "tx' = tx\<lparr>accounts := ta'\<rparr> \<Longrightarrow> mutated E (ba_index h) (accounts tx) a' ta' \<Longrightarrow> permitted E tx h a'
   \<Longrightarrow> op_outcome E tx h (Inr (), tx')"
  by (auto simp: op_outcome_def)

lemma mutated_plain:
  "lamports_of E a' = lamports_of E (account_at ta i) \<Longrightarrow>
   length (data_of E a') = length (data_of E (account_at ta i)) \<Longrightarrow>
   mutated E i ta a' (set_account (touched ta i) i a')"
  unfolding mutated_def
  by (rule exI[of _ "lamports_delta ta"], rule exI[of _ "resize_delta ta"]) (simp add: touched_def)

lemma set_owner_outcome:
  assumes "account_laws E" "handle_ok tx h" "set_owner E tx h k = Some res"
  shows "op_outcome E tx h res"
proof (cases "snd res = tx")
  case False
  with assms obtain a where a: "account_copy_into_owner E (ba_account tx h) k = Some a"
    "is_owned_by_current_program E tx h" "is_writable h" "is_zeroed (get_data E tx h)"
    "res = (Inr (), tx\<lparr>accounts := set_account (touched (accounts tx) (ba_index h)) (ba_index h) a\<rparr>)"
    by (auto simp: set_owner_def ba_touch_eq bind_eq_Some_conv ba_update_def ba_account_def
        split: if_splits)
  note * = account_copy_into_owner_simps[OF assms(1) a(1)]
  show ?thesis unfolding a(5)
    by (rule op_outcome_mutated[OF refl mutated_plain])
      (use a * in \<open>auto simp: permitted_def is_zeroed_iff get_data_def get_lamports_def get_owner_def
         is_executable_def ba_account_def\<close>)
qed (cases res, auto simp: op_outcome_same)

lemma set_executable_outcome:
  assumes "account_laws E" "handle_ok tx h"
  shows "op_outcome E tx h (set_executable E tx h x)"
proof (cases "snd (set_executable E tx h x) = tx")
  case True
  then show ?thesis by (metis op_outcome_same prod.collapse)
next
  case False
  let ?a = "account_set_executable E (ba_account tx h) x"
  from False assms(2) have
    "is_exempt E (rent tx) (get_lamports E tx h) (length (get_data E tx h))"
    "is_owned_by_current_program E tx h" "is_writable h"
    "set_executable E tx h x =
       (Inr (), tx\<lparr>accounts := set_account (touched (accounts tx) (ba_index h)) (ba_index h) ?a\<rparr>)"
    by (auto simp: set_executable_def ba_touch_eq ba_update_def ba_account_def split: if_splits)
  then show ?thesis
    by (simp add: op_outcome_mutated[OF refl mutated_plain] permitted_def account_law_simps[OF assms(1)]
        get_data_def get_lamports_def get_owner_def ba_account_def)
qed

lemma set_lamports_outcome:
  assumes "account_laws E" "handle_ok tx h"
  shows "op_outcome E tx h (set_lamports E tx h l)"
proof (cases "snd (set_lamports E tx h l) = tx")
  case True
  then show ?thesis by (metis op_outcome_same prod.collapse)
next
  case False
  let ?a = "account_set_lamports E (ba_account tx h) l" and ?i = "ba_index h"
  let ?d = "lamports_delta (accounts tx) + (uint l - uint (get_lamports E tx h))"
  let ?ta = "set_account ((touched (accounts tx) ?i)\<lparr>lamports_delta := ?d\<rparr>) ?i ?a"
  have ok: "handle_ok (tx\<lparr>accounts := (accounts tx)\<lparr>lamports_delta := d\<rparr>\<rparr>) h" for d
    using assms(2) by (simp add: handle_ok_def)
  from False obtain d where d: "is_writable h" "\<not> is_owned_by_current_program E tx h \<longrightarrow> get_lamports E tx h \<le> l"
    "i128_checked_add (lamports_delta (accounts tx)) (uint l - uint (get_lamports E tx h)) = Some d"
    "set_lamports E tx h l = (Inr (), tx\<lparr>accounts :=
       set_account ((touched (accounts tx) ?i)\<lparr>lamports_delta := d\<rparr>) ?i ?a\<rparr>)"
    using ok
    by (auto simp: set_lamports_def Let_def add_lamports_delta_def ba_touch_eq ba_update_def ba_account_def
        result_simps not_less split: if_splits sum.splits)
  then have *: "set_lamports E tx h l = (Inr (), tx\<lparr>accounts := ?ta\<rparr>)"
    using i128_checked_add_eq_Some[OF d(3)] by simp
  have "mutated E ?i (accounts tx) ?a ?ta"
    unfolding mutated_def
    by (rule exI[of _ ?d], rule exI[of _ "resize_delta (accounts tx)"])
      (simp add: account_law_simps[OF assms(1)] ba_account_def get_lamports_def touched_def)
  then show ?thesis unfolding *
    by (rule op_outcome_mutated[OF refl])
      (use d(1,2) in \<open>auto simp: permitted_def account_law_simps[OF assms(1)] get_data_def get_owner_def
         is_executable_def get_lamports_def\<close>)
qed

lemma can_data_be_changed_ok:
  "can_data_be_changed E tx h = Inr u \<longleftrightarrow> is_writable h \<and> is_owned_by_current_program E tx h"
  by (simp add: can_data_be_changed_def)

lemma can_data_be_resized_ok:
  "can_data_be_resized E tx h n = Inr u \<Longrightarrow>
     is_writable h \<and> is_owned_by_current_program E tx h \<and> n \<le> MAX_ACCOUNT_DATA_LEN
   \<and> resized (resize_delta (accounts tx)) (length (get_data E tx h)) n
       \<le> MAX_ACCOUNT_DATA_GROWTH_PER_TRANSACTION"
  by (auto simp: can_data_be_resized_def accounts_can_data_be_resized_def can_data_be_changed_ok
      resized_def Let_def result_simps not_less split: if_splits)

lemma set_account_same [simp]: "i < length (cells ta) \<Longrightarrow> set_account ta i (account_at ta i) = ta"
  by (simp add: set_account_def account_at_def)

text \<open>Making the data mutable only replaces the account by one with the same contents.\<close>

lemma make_data_mut_eq:
  assumes "account_laws E" "ba_index h < length (cells (accounts tx))"
  obtains a where "make_data_mut E tx h = ba_update tx h a"
    "account_view E a = account_view E (ba_account tx h)"
proof (cases "is_shared E tx h")
  case True
  then show ?thesis
    using that[of "account_reserve E (ba_account tx h) MAX_ACCOUNT_DATA_GROWTH_PER_INSTRUCTION"]
    by (simp add: make_data_mut_def account_view_def account_law_simps[OF assms(1)])
next
  case False
  then show ?thesis
    using that[of "ba_account tx h"] assms(2) by (simp add: make_data_mut_def ba_update_def ba_account_def)
qed

lemma mutated_resized:
  assumes "lamports_of E a' = lamports_of E (account_at ta i)"
    "rd = resized (resize_delta ta) (length (data_of E (account_at ta i))) (length (data_of E a'))"
    "length (data_of E a') \<le> MAX_ACCOUNT_DATA_LEN" "rd \<le> MAX_ACCOUNT_DATA_GROWTH_PER_TRANSACTION"
  shows "mutated E i ta a' (set_account ((touched ta i)\<lparr>resize_delta := rd\<rparr>) i a')"
  unfolding mutated_def
  by (rule exI[of _ "lamports_delta ta"], rule exI[of _ rd]) (use assms in \<open>simp add: touched_def\<close>)

lemma resize_outcome:
  assumes "can_data_be_resized E tx h (length (data_of E a')) = Inr ()"
    "lamports_of E a' = get_lamports E tx h" "owner_of E a' = get_owner E tx h"
    "executable_of E a' = is_executable E tx h"
    "rd = resized (resize_delta (accounts tx)) (length (get_data E tx h)) (length (data_of E a'))"
  shows "op_outcome E tx h (Inr (), tx\<lparr>accounts :=
    set_account ((touched (accounts tx) (ba_index h))\<lparr>resize_delta := rd\<rparr>) (ba_index h) a'\<rparr>)"
  by (rule op_outcome_mutated[OF refl mutated_resized])
    (use can_data_be_resized_ok[OF assms(1)] assms in
      \<open>auto simp: permitted_def get_lamports_def get_data_def ba_account_def\<close>)

lemma handle_ok_touched [simp]:
  "handle_ok tx h \<Longrightarrow> handle_ok (tx\<lparr>accounts := touched (accounts tx) (ba_index h)\<rparr>) h"
  by (simp add: handle_ok_def touched_def)

lemma set_data_from_slice_outcome:
  assumes "account_laws E" "handle_ok tx h"
  shows "op_outcome E tx h (set_data_from_slice E tx h d)"
proof (cases "can_data_be_resized E tx h (length d)")
  case (Inr u)
  let ?a = "account_set_data E (ba_account tx h) d"
  have "set_data_from_slice E tx h d = (Inr (), tx\<lparr>accounts := set_account
     ((touched (accounts tx) (ba_index h))\<lparr>resize_delta := resized (resize_delta (accounts tx))
         (length (get_data E tx h)) (length d)\<rparr>) (ba_index h) ?a\<rparr>)"
    using Inr assms(2)
    by (simp add: set_data_from_slice_def ba_touch_eq ba_update_accounts_resize_delta_def
        update_accounts_resize_delta_def ba_update_def resized_def get_data_def ba_account_def)
  then show ?thesis using Inr
    by (simp add: resize_outcome account_law_simps[OF assms(1)] get_lamports_def get_owner_def
        is_executable_def)
qed (simp add: set_data_from_slice_def op_outcome_same)

lemma set_data_length_outcome:
  assumes "account_laws E" "handle_ok tx h"
  shows "op_outcome E tx h (set_data_length E tx h n)"
proof (cases "can_data_be_resized E tx h n = Inr () \<and> length (get_data E tx h) \<noteq> n")
  case True
  let ?a = "account_resize E (ba_account tx h) n 0"
  have "set_data_length E tx h n = (Inr (), tx\<lparr>accounts := set_account
     ((touched (accounts tx) (ba_index h))\<lparr>resize_delta := resized (resize_delta (accounts tx))
         (length (get_data E tx h)) n\<rparr>) (ba_index h) ?a\<rparr>)"
    using True assms(2)
    by (simp add: set_data_length_def ba_touch_eq ba_update_accounts_resize_delta_def
        update_accounts_resize_delta_def ba_update_def resized_def get_data_def ba_account_def)
  moreover have "length (data_of E ?a) = n" by (simp add: account_law_simps[OF assms(1)])
  ultimately show ?thesis using True
    by (simp add: resize_outcome account_law_simps[OF assms(1)] get_lamports_def get_owner_def
        is_executable_def del: length_append)
qed (auto simp: set_data_length_def op_outcome_same split: sum.splits)

lemma extend_from_slice_outcome:
  assumes "account_laws E" "handle_ok tx h"
  shows "op_outcome E tx h (extend_from_slice E tx h d)"
proof (cases "can_data_be_resized E tx h (saturating_add (length (get_data E tx h)) (length d)) = Inr () \<and> d \<noteq> []")
  case True
  let ?n = "saturating_add (length (get_data E tx h)) (length d)"
  let ?rd = "resized (resize_delta (accounts tx)) (length (get_data E tx h)) ?n"
  let ?tx = "tx\<lparr>accounts := (touched (accounts tx) (ba_index h))\<lparr>resize_delta := ?rd\<rparr>\<rparr>"
  have i: "ba_index h < length (cells (accounts ?tx))" using assms(2) by (simp add: handle_ok_def)
  then obtain a where a: "make_data_mut E ?tx h = ba_update ?tx h a"
    "account_view E a = account_view E (ba_account ?tx h)"
    using make_data_mut_eq[OF assms(1), of h ?tx] by blast
  from True have n: "?n = length (get_data E tx h) + length d"
    using can_data_be_resized_ok[of E tx h ?n "()"]
    by (auto simp: saturating_add_def MAX_ACCOUNT_DATA_LEN_def usize_max_def)
  have "extend_from_slice E tx h d = (Inr (), tx\<lparr>accounts := set_account
     ((touched (accounts tx) (ba_index h))\<lparr>resize_delta := ?rd\<rparr>) (ba_index h) (account_extend E a d)\<rparr>)"
    using True assms(2) a(1) i
    by (simp add: extend_from_slice_def ba_touch_eq ba_update_accounts_resize_delta_def Let_def
        update_accounts_resize_delta_def ba_update_def resized_def get_data_def ba_account_def)
  moreover have "length (data_of E (account_extend E a d)) = ?n"
    using a(2) n by (simp add: account_law_simps[OF assms(1)] account_view_def get_data_def ba_account_def)
  ultimately show ?thesis using True a(2)
    by (simp add: resize_outcome account_law_simps[OF assms(1)] get_lamports_def get_owner_def
        is_executable_def account_view_def ba_account_def del: length_append)
qed (auto simp: extend_from_slice_def op_outcome_same Let_def split: sum.splits)

lemma write_data_outcome:
  assumes "account_laws E" "handle_ok tx h"
  shows "op_outcome E tx h (the (run_account_op E tx h (WriteData d)))"
proof (cases "can_data_be_changed E tx h")
  case (Inr u)
  let ?tx = "tx\<lparr>accounts := touched (accounts tx) (ba_index h)\<rparr>"
  have i: "ba_index h < length (cells (accounts ?tx))" using assms(2) by (simp add: handle_ok_def)
  then obtain a where a: "make_data_mut E ?tx h = ba_update ?tx h a"
    "account_view E a = account_view E (ba_account ?tx h)"
    using make_data_mut_eq[OF assms(1), of h ?tx] by blast
  let ?a = "account_write E a (data_of E a)"
  let ?b = "if length d = length (data_of E a) then account_write E ?a d else ?a"
  have "run_account_op E tx h (WriteData d) = Some (Inr (), tx\<lparr>accounts :=
      set_account (touched (accounts tx) (ba_index h)) (ba_index h) ?b\<rparr>)"
    using Inr assms(2) a(1) i
    by (simp add: get_data_mut_def write_data_def ba_touch_eq ba_update_def get_data_def Let_def ba_account_def)
  moreover have "mutated E (ba_index h) (accounts tx) ?b (set_account (touched (accounts tx) (ba_index h)) (ba_index h) ?b)"
    using a(2) by (intro mutated_plain) (auto simp: account_write_simps[OF assms(1)] account_view_def)
  moreover have "permitted E tx h ?b"
    using a(2) Inr by (auto simp: permitted_def can_data_be_changed_ok account_write_simps[OF assms(1)]
        account_view_def get_lamports_def get_owner_def is_executable_def ba_account_def)
  ultimately show ?thesis using op_outcome_mutated[OF refl] by fastforce
qed (simp add: get_data_mut_def op_outcome_same)

text \<open>The outcome of \<open>set_state\<close>, failure included, once the data may be changed: the account is
  touched and its data is replaced by data of the same length.\<close>

definition state_outcome ::
  "('acc, 'rent) tx_env \<Rightarrow> ('acc, 'rent) transaction_context \<Rightarrow> borrowed_account
   \<Rightarrow> ('acc, 'rent, unit) tx_result \<Rightarrow> 'acc \<Rightarrow> bool" where
  "state_outcome E tx h res a \<longleftrightarrow>
     snd res = tx\<lparr>accounts := set_account (touched (accounts tx) (ba_index h)) (ba_index h) a\<rparr>
   \<and> is_writable h \<and> is_owned_by_current_program E tx h
   \<and> lamports_of E a = get_lamports E tx h \<and> owner_of E a = get_owner E tx h
   \<and> executable_of E a = is_executable E tx h \<and> length (data_of E a) = length (get_data E tx h)
   \<and> (fst res = Inl AccountDataTooSmall \<longrightarrow> data_of E a = get_data E tx h)"

lemma state_outcome_permitted:
  assumes "state_outcome E tx h res a"
  shows "permitted E tx h a" "mutated E (ba_index h) (accounts tx) a (set_account (touched (accounts tx) (ba_index h)) (ba_index h) a)"
proof -
  show "permitted E tx h a" using assms by (simp add: state_outcome_def permitted_def)
  show "mutated E (ba_index h) (accounts tx) a (set_account (touched (accounts tx) (ba_index h)) (ba_index h) a)"
    using assms by (intro mutated_plain) (simp_all add: state_outcome_def get_lamports_def get_data_def ba_account_def)
qed

lemma set_state_outcome:
  assumes "account_laws E" "handle_ok tx h"
  shows "snd (set_state (\<lambda>_. n) (\<lambda>d _. in_place f d) E tx h ()) = tx
       \<or> (\<exists>a. state_outcome E tx h (set_state (\<lambda>_. n) (\<lambda>d _. in_place f d) E tx h ()) a)"
proof (cases "can_data_be_changed E tx h")
  case (Inr u)
  let ?tx = "tx\<lparr>accounts := touched (accounts tx) (ba_index h)\<rparr>"
  have i: "ba_index h < length (cells (accounts ?tx))" using assms(2) by (simp add: handle_ok_def)
  then obtain a where a: "make_data_mut E ?tx h = ba_update ?tx h a"
    "account_view E a = account_view E (ba_account ?tx h)"
    using make_data_mut_eq[OF assms(1), of h ?tx] by blast
  let ?d = "data_of E a" and ?a = "account_write E a (data_of E a)"
  let ?put = "\<lambda>b. tx\<lparr>accounts := set_account (touched (accounts tx) (ba_index h)) (ba_index h) b\<rparr>"
  have view: "lamports_of E a = get_lamports E tx h" "?d = get_data E tx h" "owner_of E a = get_owner E tx h"
    "executable_of E a = is_executable E tx h"
    using a(2) by (simp_all add: account_view_def get_lamports_def get_data_def get_owner_def is_executable_def ba_account_def)
  have g: "get_data_mut E tx h = (Inr ?d, ?put ?a)"
    using Inr assms(2) a(1) i by (simp add: get_data_mut_def ba_touch_eq ba_update_def get_data_def Let_def ba_account_def)
  have w: "write_data E (?put ?a) h d = ?put (account_write E ?a d)" for d
    using i by (simp add: write_data_def ba_update_def)
  have perm: "is_writable h" "is_owned_by_current_program E tx h" using Inr by (simp_all add: can_data_be_changed_ok)
  have same: "state_outcome E tx h (r, ?put ?a) ?a" for r
    using perm by (simp add: state_outcome_def account_write_simps[OF assms(1)] view)
  have written: "state_outcome E tx h (r, ?put (account_write E ?a d)) (account_write E ?a d)"
    if "length d = length ?d" "r \<noteq> Inl AccountDataTooSmall" for r d
    using perm that by (simp add: state_outcome_def account_write_simps[OF assms(1)] view)
  obtain ok d where d: "in_place f ?d = (ok, d)" by (cases "in_place f ?d")
  then have len: "length d = length ?d" by (auto simp: in_place_def split: prod.splits if_splits)
  have "\<exists>b. state_outcome E tx h (set_state (\<lambda>_. n) (\<lambda>d _. in_place f d) E tx h ()) b"
    using same written[OF len] by (cases n) (auto simp: set_state_def g d w intro!: exI)
  then show ?thesis by blast
qed (simp add: set_state_def get_data_mut_def)

lemma run_account_op_outcome:
  assumes "account_laws E" "handle_ok tx h" "run_account_op E tx h op = Some res"
  shows "op_outcome E tx h res \<or> (\<exists>n f a. op = SetState n f \<and> state_outcome E tx h res a)"
proof (cases op)
  case (WriteData d)
  with assms show ?thesis using write_data_outcome[OF assms(1,2), of d] by simp
next
  case (SetOwner k)
  with assms show ?thesis using set_owner_outcome[OF assms(1,2)] by simp
next
  case (SetState n f)
  with assms(3) show ?thesis using set_state_outcome[OF assms(1,2), of n f] by (auto simp: op_outcome_def)
qed (use assms set_lamports_outcome set_executable_outcome
      set_data_from_slice_outcome set_data_length_outcome extend_from_slice_outcome in
    \<open>auto simp: checked_add_lamports_def checked_sub_lamports_def op_outcome_same split: option.splits\<close>)

subsection \<open>The effect of a step on the accounts\<close>

text \<open>Everything that happens to the accounts in one step, whoever causes it: one account gets a new
  value, its cell keeps its flag, and the totals follow.\<close>

definition effect ::
  "('acc, 'rent) tx_env \<Rightarrow> 'acc transaction_accounts \<Rightarrow> 'acc transaction_accounts \<Rightarrow> bool" where
  "effect E ta ta' \<longleftrightarrow> ta' = ta \<or> (\<exists>i a'. i < length (cells ta)
   \<and> cells ta' = (cells ta)[i := (cells ta ! i)\<lparr>cell_value := a'\<rparr>]
   \<and> (touched_flags ta' = (touched_flags ta)[i := True]
      \<or> touched_flags ta' = touched_flags ta \<and> owner_of E a' = sysvar_id E)
   \<and> lamports_delta ta' - lamports_delta ta
       = uint (lamports_of E a') - uint (lamports_of E (account_at ta i))
   \<and> (resize_delta ta' = resize_delta ta \<and> length (data_of E a') = length (data_of E (account_at ta i))
      \<or> resize_delta ta' = resized (resize_delta ta) (length (data_of E (account_at ta i))) (length (data_of E a'))
         \<and> length (data_of E a') \<le> MAX_ACCOUNT_DATA_LEN
         \<and> (length (data_of E (account_at ta i)) < 2 ^ 62 \<longrightarrow>
            \<bar>resize_delta ta\<bar> < 2 ^ 62 \<longrightarrow>
            resize_delta ta \<le> MAX_ACCOUNT_DATA_GROWTH_PER_TRANSACTION \<longrightarrow>
            resize_delta ta' \<le> MAX_ACCOUNT_DATA_GROWTH_PER_TRANSACTION)))"

lemma mutated_effect:
  "mutated E i ta a' ta' \<Longrightarrow> i < length (cells ta) \<Longrightarrow> effect E ta ta'"
  unfolding mutated_def effect_def
  by (rule disjI2, rule exI[of _ i], rule exI[of _ a']) (auto simp: set_account_def touched_def)

lemma op_effect:
  assumes "account_laws E" "handle_ok tx h" "run_account_op E tx h op = Some (r, tx')"
  shows "effect E (accounts tx) (accounts tx') \<and> tx' = tx\<lparr>accounts := accounts tx'\<rparr>"
proof -
  have "tx' = tx \<or> (\<exists>a' ta'. tx' = tx\<lparr>accounts := ta'\<rparr> \<and> mutated E (ba_index h) (accounts tx) a' ta')"
    using run_account_op_outcome[OF assms] state_outcome_permitted(2)
    by (fastforce simp: op_outcome_def state_outcome_def)
  then consider "tx' = tx" | a' ta' where "tx' = tx\<lparr>accounts := ta'\<rparr>" "mutated E (ba_index h) (accounts tx) a' ta'"
    by blast
  then show ?thesis
    using assms(2) by cases (auto simp: effect_def[of E x x for x] handle_ok_def dest: mutated_effect)
qed

lemma try_borrow_mutE:
  assumes "try_borrow_mut ta index = Inr ta'"
  shows "unat index < length (cells ta)" "cell_flag (cells ta ! unat index) = Unused"
    "ta' = set_flag ta (unat index) Writing"
  using assms by (auto simp: try_borrow_mut_def result_simps slice_get_eq_Some split: if_splits)

lemma push_sysvar_effect:
  assumes "account_laws E" "push_sysvar E tx = (r, tx')"
  shows "effect E (accounts tx) (accounts tx') \<and> tx' = tx\<lparr>accounts := accounts tx'\<rparr>
       \<and> lamports_delta (accounts tx') = lamports_delta (accounts tx)"
proof (cases "tx' = tx")
  case False
  with assms(2) obtain index ta1 where b: "find_index_of_account tx (instructions_id E) = Some index"
    "try_borrow_mut (accounts tx) index = Inr ta1"
    by (auto simp: push_sysvar_def split: option.splits sum.splits)
  let ?a = "account_at (accounts tx) (unat index)"
  from False assms(2) b have "owner_of E ?a = sysvar_id E \<and> (\<exists>d. length d = length (data_of E ?a)
     \<and> tx' = tx\<lparr>accounts := set_account (accounts tx) (unat index) (account_write E ?a d)\<rparr>)"
    by (auto simp: push_sysvar_def Let_def split: sum.splits if_splits
        dest: store_current_index_length[OF assms(1)])
  then obtain d where i: "owner_of E ?a = sysvar_id E" "length d = length (data_of E ?a)"
    "tx' = tx\<lparr>accounts := set_account (accounts tx) (unat index) (account_write E ?a d)\<rparr>" by blast
  have "unat index < length (cells (accounts tx))" by (rule try_borrow_mutE(1)[OF b(2)])
  then show ?thesis using i
    unfolding effect_def
    by (auto intro!: exI[of _ "unat index"] 
      exI[of _ "account_write E ?a d"]
      simp: account_write_simps[OF assms(1)] set_account_def)
qed (simp add: effect_def)

text \<open>The bounds under which the growth arithmetic of the handler does not saturate.\<close>

lemma resized_exact:
  assumes "old < 2 ^ 62" "new \<le> MAX_ACCOUNT_DATA_LEN" "\<bar>delta\<bar> < 2 ^ 62"
  shows "resized delta old new = delta + (int new - int old)"
proof -
  have "new < 2 ^ 62" using assms(2) by (simp add: MAX_ACCOUNT_DATA_LEN_def)
  then have b: "int new < 2 ^ 62" "int old < 2 ^ 62" "0 \<le> int new" "0 \<le> int old"
    using assms(1) by (simp_all add: of_nat_less_iff[where 'a = int, of _ "2 ^ 62", symmetric, simplified])
  then have c: "usize_as_i64 new = int new" "usize_as_i64 old = int old"
    by (simp_all add: usize_as_i64_def)
  have p: "(2 :: int) ^ 63 = 2 * 2 ^ 62" by simp
  have "i64_saturating_sub (int new) (int old) = int new - int old"
    unfolding i64_saturating_sub_def by (rule i64_clamp_id) (use b p in linarith)+
  moreover have "new \<le> 2 ^ 30" using assms(2) by (simp add: MAX_ACCOUNT_DATA_LEN_def)
  then have "int new \<le> 2 ^ 30" by (metis of_nat_le_iff of_nat_numeral of_nat_power)
  then have "i64_saturating_add delta (int new - int old) = delta + (int new - int old)"
    unfolding i64_saturating_add_def by (intro i64_clamp_id) (use b assms(3) p in linarith)+
  ultimately show ?thesis by (simp add: resized_def c)
qed

definition handler_new_len :: "int \<Rightarrow> nat \<Rightarrow> nat \<Rightarrow> nat" where
  "handler_new_len delta reserved old_len =
     min (min reserved MAX_ACCOUNT_DATA_LEN)
       (saturating_add old_len
          (nat (max 0 (i64_saturating_sub MAX_ACCOUNT_DATA_GROWTH_PER_TRANSACTION delta))))"

lemma handler_new_len_bounds:
  "handler_new_len delta reserved old_len \<le> reserved"
  "handler_new_len delta reserved old_len \<le> MAX_ACCOUNT_DATA_LEN"
  by (simp_all add: handler_new_len_def)

lemma handler_growth_bounded:
  assumes "old < 2 ^ 62" "\<bar>delta\<bar> < 2 ^ 62" "delta \<le> MAX_ACCOUNT_DATA_GROWTH_PER_TRANSACTION"
  shows "resized delta old (handler_new_len delta reserved old) \<le> MAX_ACCOUNT_DATA_GROWTH_PER_TRANSACTION"
proof -
  let ?n = "handler_new_len delta reserved old"
  have m: "MAX_ACCOUNT_DATA_GROWTH_PER_TRANSACTION = 20971520"
    by (simp add: MAX_ACCOUNT_DATA_GROWTH_PER_TRANSACTION_def MAX_ACCOUNT_DATA_LEN_def)
  have "i64_saturating_sub MAX_ACCOUNT_DATA_GROWTH_PER_TRANSACTION delta
      = MAX_ACCOUNT_DATA_GROWTH_PER_TRANSACTION - delta"
    unfolding i64_saturating_sub_def m by (rule i64_clamp_id) (use assms(2) in simp_all)
  then have "?n \<le> old + nat (MAX_ACCOUNT_DATA_GROWTH_PER_TRANSACTION - delta)"
    using assms(3) by (simp add: handler_new_len_def saturating_add_def)
  then have "delta + (int ?n - int old) \<le> MAX_ACCOUNT_DATA_GROWTH_PER_TRANSACTION"
    using assms(3) by linarith
  then show ?thesis
    using resized_exact[OF assms(1) handler_new_len_bounds(2) assms(2)] by simp
qed

text \<open>What the handler may do to the account it holds.\<close>

definition grown ::
  "('acc, 'rent) tx_env \<Rightarrow> nat \<Rightarrow> 'acc transaction_accounts \<Rightarrow> 'acc \<Rightarrow> int \<Rightarrow> bool" where
  "grown E i ta a' rd \<longleftrightarrow>
     lamports_of E a' = lamports_of E (account_at ta i)
   \<and> (rd = resize_delta ta \<and> length (data_of E a') = length (data_of E (account_at ta i))
      \<or> (\<exists>reserved. length (data_of E a') =
             handler_new_len (resize_delta ta) reserved (length (data_of E (account_at ta i)))
          \<and> rd = resized (resize_delta ta) (length (data_of E (account_at ta i))) (length (data_of E a'))))"

lemma handler_grow_grown:
  assumes "account_laws E" "i = unat index" "i < length (cells ta)"
    "handler_grow E ta index region reserved n = (region', ta')"
  obtains a' rd where "ta' = set_account (ta\<lparr>resize_delta := rd\<rparr>) i a'" "grown E i ta a' rd"
proof (cases "n > unat (region_len region)")
  case True
  let ?old = "length (data_of E (account_at ta i))"
  let ?new = "handler_new_len (resize_delta ta) (unat reserved) ?old"
  let ?a = "account_resize E (account_at ta i) ?new 0"
  have "length (data_of E ?a) = ?new" by (simp add: account_law_simps[OF assms(1)])
  then have "grown E i ta ?a (resized (resize_delta ta) ?old ?new)"
    unfolding grown_def by (auto simp: account_law_simps[OF assms(1)])
  moreover have "ta' = set_account (ta\<lparr>resize_delta := resized (resize_delta ta) ?old ?new\<rparr>) i ?a"
    using True assms(2,4)
    by (simp add: handler_grow_def update_accounts_resize_delta_def Let_def handler_new_len_def resized_def)
  ultimately show ?thesis using that by blast
next
  case False
  then have "ta' = ta" using assms(4) by (simp add: handler_grow_def Let_def)
  then show ?thesis
    using that[of "resize_delta ta" "account_at ta i"] assms(3) by (simp add: grown_def)
qed

lemma handler_unshare_same:
  assumes "account_laws E" "i = unat index" "i < length (cells ta)"
    "handler_unshare data_ptr E direct index (region, ta) = (region', ta')"
  obtains a' where "ta' = set_account ta i a'" "lamports_of E a' = lamports_of E (account_at ta i)"
    "data_of E a' = data_of E (account_at ta i)"
proof (cases direct)
  case True
  then show ?thesis
    using assms that[of "account_write E (account_at ta i) (data_of E (account_at ta i))"]
    by (simp add: handler_unshare_def Let_def account_write_simps[OF assms(1)])
next
  case False
  then show ?thesis
    using assms that[of "account_at ta i"] by (simp add: handler_unshare_def Let_def)
qed

lemma grown_effect:
  assumes "grown E i ta a' rd" "i < length (cells ta)"
    "cells ta' = (cells ta)[i := (cells ta ! i)\<lparr>cell_value := a'\<rparr>]"
    "touched_flags ta' = (touched_flags ta)[i := True]" "lamports_delta ta' = lamports_delta ta"
    "resize_delta ta' = rd"
  shows "effect E ta ta'"
  using assms unfolding effect_def grown_def
  by (intro disjI2 exI[of _ i] exI[of _ a'])
    (auto simp: handler_new_len_bounds intro: handler_growth_bounded[simplified])

lemma handler_cases:
  assumes "access_violation_handler data_ptr E s d ta region reserved access vm_addr len = (region', ta')"
    "(region', ta') \<noteq> (region, ta)"
  obtains index ta1 ta2 n r3 ta3 ta4 where "try_borrow_mut ta index = Inr ta1" "touch ta1 index = Inr ta2"
    "handler_grow E ta2 index region reserved n = (r3, ta3)"
    "handler_unshare data_ptr E (s \<and> d) index (r3, ta3) = (region', ta4)" "ta' = drop_mut ta4 (unat index)"
    "access_violation_handler_payload region = Some index"
proof -
  let ?n = "unat (u64_saturating_sub (u64_saturating_add vm_addr len) (region_vm_addr region))"
  have "access \<noteq> Load" using assms by (auto simp: access_violation_handler_def)
  moreover from assms obtain index where "access_violation_handler_payload region = Some index"
    by (cases "access_violation_handler_payload region") (simp_all add: access_violation_handler_def split: if_splits)
  moreover from calculation have "\<not> ?n > unat reserved"
    using assms by (cases "?n > unat reserved") (simp_all add: access_violation_handler_def Let_def)
  ultimately have p: "access \<noteq> Load" "access_violation_handler_payload region = Some index"
    "\<not> ?n > unat reserved" by blast+
  from assms p obtain ta1 where b: "try_borrow_mut ta index = Inr ta1"
    by (cases "try_borrow_mut ta index") (simp_all add: access_violation_handler_def Let_def)
  from assms p b obtain ta2 where c: "touch ta1 index = Inr ta2"
    by (cases "touch ta1 index") (simp_all add: access_violation_handler_def Let_def)
  obtain r3 ta3 where g: "handler_grow E ta2 index region reserved ?n = (r3, ta3)" by fastforce
  obtain r4 ta4 where u: "handler_unshare data_ptr E (s \<and> d) index (r3, ta3) = (r4, ta4)" by fastforce
  have "access_violation_handler data_ptr E s d ta region reserved access vm_addr len
      = (r4, drop_mut ta4 (unat index))"
    using p b c g u by (simp add: access_violation_handler_def Let_def)
  then have "r4 = region'" "ta' = drop_mut ta4 (unat index)" using assms(1) by simp_all
  with u show ?thesis by (intro that[OF b c g _ _ p(2)]) simp_all
qed

lemma handler_effect:
  assumes "account_laws E" "length (touched_flags ta) = length (cells ta)"
    "access_violation_handler data_ptr E s d ta region reserved access vm_addr len = (region', ta')"
  shows "effect E ta ta'"
proof (cases "ta' = ta")
  case False
  then have ne: "(region', ta') \<noteq> (region, ta)" by simp
  obtain index ta1 ta2 n r3 ta3 ta4 where h: "try_borrow_mut ta index = Inr ta1" "touch ta1 index = Inr ta2"
    "handler_grow E ta2 index region reserved n = (r3, ta3)"
    "handler_unshare data_ptr E (s \<and> d) index (r3, ta3) = (region', ta4)" "ta' = drop_mut ta4 (unat index)"
    by (rule handler_cases[OF assms(3) ne])
  let ?i = "unat index"
  have i: "?i < length (cells ta)" "cell_flag (cells ta ! ?i) = Unused" 
     "ta2 = touched (set_flag ta ?i Writing) ?i"
    using try_borrow_mutE[OF h(1)] h(2) by (auto simp: touch_def touched_def split: if_splits)
  have at: "account_at ta2 ?i = account_at ta ?i" "?i < length (cells ta2)" "resize_delta ta2 = resize_delta ta"
    using i(1) by (simp_all add: i(3) account_at_def set_flag_def)
  from handler_grow_grown[OF assms(1) refl at(2) h(3)] obtain a rd
    where a: "ta3 = set_account (ta2\<lparr>resize_delta := rd\<rparr>) ?i a" "grown E ?i ta2 a rd" by blast
  have "?i < length (cells ta3)" "account_at ta3 ?i = a" using a(1) at(2) by simp_all
  with handler_unshare_same[OF assms(1) refl _ h(4)] obtain b
    where b: "ta4 = set_account ta3 ?i b" "lamports_of E b = lamports_of E a" "data_of E b = data_of E a"
    by metis
  have g: "grown E ?i ta b rd" using a(2) b(2,3) at(1,3) by (simp add: grown_def)
  have "(cells ta ! ?i)\<lparr>cell_flag := Writing, cell_value := b, cell_flag := Unused\<rparr>
      = (cells ta ! ?i)\<lparr>cell_value := b\<rparr>"
    using i(2) by simp
  then have "cells ta' = (cells ta)[?i := (cells ta ! ?i)\<lparr>cell_value := b\<rparr>]"
    "touched_flags ta' = (touched_flags ta)[?i := True]" "lamports_delta ta' = lamports_delta ta"
    "resize_delta ta' = rd"
    using i(1,3) h(5) a(1) b(1) by (simp_all add: drop_mut_def set_flag_def set_account_def touched_def)
  then show ?thesis by (rule grown_effect[OF g i(1)])
qed (simp add: effect_def)

end
