(* ===== verification/Tx_Runs.thy ===== *)
theory Tx_Runs
  imports Tx_Machine
begin

section \<open>Every run of a transaction keeps its invariants (\<open>transaction-context/src/lib.rs\<close>)\<close>

text \<open>
  The machine: a context, the live \<open>BorrowedAccount\<close> handles and the live shared \<open>Ref\<close>s.  A command
  is a call of the API; \<open>tx_exec\<close> gives the machine after it (\<open>None\<close> when the call is impossible or
  panics).  The invariant of the reachable machines is proved once, through the contract
  \<open>transition_invariant\<close> of the prelude; the properties follow from it.
\<close>

subsection \<open>The machine\<close>

record ('acc, 'rent) tx_machine =
  ctx :: "('acc, 'rent) transaction_context"
  writers :: "borrowed_account list"
  readers :: "nat list"

datatype tx_cmd =
    Borrow nat u16
  | Release nat
  | Share u16
  | Unshare nat
  | Operate nat account_op
  | Configure u16 "instruction_account list" "u8 list" bytes
  | Push
  | Pop
  | SetReturnData pubkey bytes
  | Violation bool bool memory_region u64 access_type u64 u64

fun tx_exec ::
  "('acc \<Rightarrow> u64) \<Rightarrow> ('acc, 'rent) tx_env \<Rightarrow> ('acc, 'rent) tx_machine \<Rightarrow> tx_cmd
   \<Rightarrow> ('acc, 'rent) tx_machine option" where
  "tx_exec data_ptr E m (Borrow index_in_trace i) =
     (case get_instruction_context_at_index_in_trace (ctx m) index_in_trace of
        Inl _ \<Rightarrow> None
      | Inr ic \<Rightarrow>
          (case try_borrow_instruction_account (ctx m) ic i of
             (Inl _, tx) \<Rightarrow> Some (m\<lparr>ctx := tx\<rparr>)
           | (Inr h, tx) \<Rightarrow> Some (m\<lparr>ctx := tx, writers := h # writers m\<rparr>)))"
| "tx_exec data_ptr E m (Release k) =
     (if k < length (writers m)
      then Some (m\<lparr>ctx := (ctx m)\<lparr>accounts := drop_mut (accounts (ctx m)) (ba_index (writers m ! k))\<rparr>,
                   writers := remove1 (writers m ! k) (writers m)\<rparr>)
      else None)"
| "tx_exec data_ptr E m (Share i) =
     (case try_borrow (accounts (ctx m)) i of
        Inl _ \<Rightarrow> Some m
      | Inr ta \<Rightarrow> Some (m\<lparr>ctx := (ctx m)\<lparr>accounts := ta\<rparr>, readers := unat i # readers m\<rparr>))"
| "tx_exec data_ptr E m (Unshare i) =
     (if i \<in> set (readers m)
      then Some (m\<lparr>ctx := (ctx m)\<lparr>accounts := drop_ref (accounts (ctx m)) i\<rparr>, readers := remove1 i (readers m)\<rparr>)
      else None)"
| "tx_exec data_ptr E m (Operate k op) =
     (if k < length (writers m)
      then map_option (\<lambda>(r, tx). m\<lparr>ctx := tx\<rparr>) (run_account_op E (ctx m) (writers m ! k) op)
      else None)"
| "tx_exec data_ptr E m (Configure p ias dedup d) =
     Some (m\<lparr>ctx := snd (configure_next_instruction (ctx m) p ias dedup d)\<rparr>)"
| "tx_exec data_ptr E m Push = Some (m\<lparr>ctx := snd (push E (ctx m))\<rparr>)"
| "tx_exec data_ptr E m Pop = Some (m\<lparr>ctx := snd (pop (ctx m))\<rparr>)"
| "tx_exec data_ptr E m (SetReturnData k d) = Some (m\<lparr>ctx := snd (set_return_data (ctx m) k d)\<rparr>)"
| "tx_exec data_ptr E m (Violation s d region reserved access vm_addr len) =
     Some (m\<lparr>ctx := (ctx m)\<lparr>accounts :=
        snd (access_violation_handler data_ptr E s d (accounts (ctx m)) region reserved access vm_addr len)\<rparr>\<rparr>)"

inductive tx_step ::
  "('acc \<Rightarrow> u64) \<Rightarrow> ('acc, 'rent) tx_env \<Rightarrow> ('acc, 'rent) tx_machine \<Rightarrow> ('acc, 'rent) tx_machine \<Rightarrow> bool"
  for data_ptr E where
  exec: "tx_exec data_ptr E m c = Some m' \<Longrightarrow> tx_step data_ptr E m m'"

inductive_cases tx_stepE: "tx_step data_ptr E m m'"

subsection \<open>The invariant\<close>

definition lamports_sum :: "('acc, 'rent) tx_env \<Rightarrow> 'acc list \<Rightarrow> int" where
  "lamports_sum E as = (\<Sum>a\<leftarrow>as. uint (lamports_of E a))"

definition data_sum :: "('acc, 'rent) tx_env \<Rightarrow> 'acc list \<Rightarrow> int" where
  "data_sum E as = (\<Sum>a\<leftarrow>as. int (length (data_of E a)))"

definition account_values :: "'acc transaction_accounts \<Rightarrow> 'acc list" where
  "account_values ta = map cell_value (cells ta)"

definition accounts_inv ::
  "('acc, 'rent) tx_env \<Rightarrow> 'acc list \<Rightarrow> 'acc transaction_accounts \<Rightarrow> bool" where
  "accounts_inv E as ta \<longleftrightarrow>
     length (cells ta) = length as \<and> length (touched_flags ta) = length as
   \<and> lamports_sum E (account_values ta) = lamports_sum E as + lamports_delta ta
   \<and> data_sum E (account_values ta) = data_sum E as + resize_delta ta
   \<and> resize_delta ta \<le> MAX_ACCOUNT_DATA_GROWTH_PER_TRANSACTION
   \<and> (\<forall>i < length as. length (data_of E (account_at ta i))
                        \<le> max MAX_ACCOUNT_DATA_LEN (length (data_of E (as ! i))))
   \<and> (\<forall>i < length as. \<not> touched_flags ta ! i \<longrightarrow>
         account_view E (account_at ta i) = account_view E (as ! i)
       \<or> owner_of E (account_at ta i) = sysvar_id E)"

definition borrow_state :: "borrowed_account list \<Rightarrow> nat list \<Rightarrow> nat \<Rightarrow> borrow_flag" where
  "borrow_state ws rs i =
     (if i \<in> ba_index ` set ws then Writing
      else if count_list rs i = 0 then Unused else Reading (count_list rs i))"

definition borrow_inv ::
  "borrowed_account list \<Rightarrow> nat list \<Rightarrow> borrow_flag list \<Rightarrow> bool" where
  "borrow_inv ws rs flags \<longleftrightarrow>
     distinct (map ba_index ws) \<and> ba_index ` set ws \<inter> set rs = {}
   \<and> (\<forall>i \<in> ba_index ` set ws \<union> set rs. i < length flags)
   \<and> (\<forall>i < length flags. flags ! i = borrow_state ws rs i)"

definition stack_inv :: "('acc, 'rent) transaction_context \<Rightarrow> bool" where
  "stack_inv tx \<longleftrightarrow>
     instruction_trace tx \<noteq> []
   \<and> length (instruction_stack tx) \<le> instruction_stack_capacity tx
   \<and> length (instruction_trace tx) \<le> Suc (instruction_trace_capacity tx)
   \<and> (\<forall>k < length (instruction_stack tx).
         instruction_stack tx ! k < length (instruction_trace tx) - 1
       \<and> nesting_level (instruction_trace tx ! (instruction_stack tx ! k)) = k)"

definition cell_flags :: "'acc transaction_accounts \<Rightarrow> borrow_flag list" where
  "cell_flags ta = map cell_flag (cells ta)"

text \<open>The accounts are loaded with less than \<open>2 ^ 61\<close> bytes of data, far more than memory holds, so
  that the \<open>i64\<close> total of the growth is exact.\<close>

definition tx_inv ::
  "('acc, 'rent) tx_env \<Rightarrow> (pubkey \<times> 'acc) list \<Rightarrow> ('acc, 'rent) tx_machine \<Rightarrow> bool" where
  "tx_inv E tas m \<longleftrightarrow>
     account_laws E \<and> data_sum E (map snd tas) < 2 ^ 61
   \<and> account_keys (ctx m) = map fst tas
   \<and> accounts_inv E (map snd tas) (accounts (ctx m))
   \<and> borrow_inv (writers m) (readers m) (cell_flags (accounts (ctx m)))
   \<and> stack_inv (ctx m)"

definition tx_init ::
  "('acc, 'rent) tx_env \<Rightarrow> (pubkey \<times> 'acc) list \<Rightarrow> ('acc, 'rent) tx_machine \<Rightarrow> bool" where
  "tx_init E tas m \<longleftrightarrow>
     account_laws E \<and> data_sum E (map snd tas) < 2 ^ 61
   \<and> (\<exists>r stack_cap trace_cap.
         m = \<lparr>ctx = TransactionContext_new tas r stack_cap trace_cap, writers = [], readers = []\<rparr>)"

subsection \<open>The accounts\<close>

lemma sum_list_map_update:
  "i < length xs \<Longrightarrow> (\<Sum>x\<leftarrow>xs[i := y]. f x) = (\<Sum>x\<leftarrow>xs. f x) - f (xs ! i) + (f y :: int)"
  by (induction xs arbitrary: i) (auto split: nat.splits)

lemma account_values_update:
  "cells ta' = (cells ta)[i := (cells ta ! i)\<lparr>cell_value := a\<rparr>] \<Longrightarrow>
   account_values ta' = (account_values ta)[i := a]"
  by (simp add: account_values_def map_update)

lemma account_at_values: "i < length (cells ta) \<Longrightarrow> account_at ta i = account_values ta ! i"
  by (simp add: account_at_def account_values_def)

lemma data_sum_nonneg: "0 \<le> data_sum E as"
  unfolding data_sum_def by (rule sum_list_nonneg) auto

lemma data_sum_member: "i < length as \<Longrightarrow> int (length (data_of E (as ! i))) \<le> data_sum E as"
  unfolding data_sum_def
  by (rule member_le_sum_list) (auto intro!: image_eqI[of _ _ "as ! i"])

text \<open>Within the invariant the growth arithmetic is exact.\<close>

lemma accounts_inv_bounds:
  assumes "accounts_inv E as ta" "data_sum E as < 2 ^ 61" "i < length as"
  shows "length (data_of E (account_at ta i)) < 2 ^ 62" "\<bar>resize_delta ta\<bar> < 2 ^ 62"
proof -
  have "int (length (data_of E (as ! i))) < 2 ^ 61"
    using data_sum_member[OF assms(3), of E] assms(2) by linarith
  then have "length (data_of E (as ! i)) < 2 ^ 62" by simp
  moreover have "length (data_of E (account_at ta i)) \<le> max MAX_ACCOUNT_DATA_LEN (length (data_of E (as ! i)))"
    using assms(1,3) by (simp add: accounts_inv_def)
  ultimately show "length (data_of E (account_at ta i)) < 2 ^ 62"
    by (simp add: MAX_ACCOUNT_DATA_LEN_def max_def split: if_splits)
  have "- data_sum E as \<le> resize_delta ta" "resize_delta ta \<le> 20971520"
    using assms(1) data_sum_nonneg[of E "account_values ta"]
    by (auto simp: accounts_inv_def MAX_ACCOUNT_DATA_GROWTH_PER_TRANSACTION_def MAX_ACCOUNT_DATA_LEN_def)
  then show "\<bar>resize_delta ta\<bar> < 2 ^ 62" using assms(2) by simp
qed

lemma effect_cells:
  assumes "effect E ta ta'"
  shows "cell_flags ta' = cell_flags ta" "length (cells ta') = length (cells ta)"
  using assms by (auto simp: effect_def cell_flags_def map_update intro!: nth_equalityI simp: nth_list_update)

lemma effect_accounts_inv:
  assumes "effect E ta ta'" "accounts_inv E as ta" "data_sum E as < 2 ^ 61"
  shows "accounts_inv E as ta'"
proof (cases "ta' = ta")
  case False
  with assms(1) obtain i a' where i: "i < length (cells ta)"
    and c: "cells ta' = (cells ta)[i := (cells ta ! i)\<lparr>cell_value := a'\<rparr>]"
    and t: "touched_flags ta' = (touched_flags ta)[i := True]
      \<or> touched_flags ta' = touched_flags ta \<and> owner_of E a' = sysvar_id E"
    and l: "lamports_delta ta' - lamports_delta ta
       = uint (lamports_of E a') - uint (lamports_of E (account_at ta i))"
    and r: "resize_delta ta' = resize_delta ta \<and> length (data_of E a') = length (data_of E (account_at ta i))
      \<or> resize_delta ta' = resized (resize_delta ta) (length (data_of E (account_at ta i))) (length (data_of E a'))
         \<and> length (data_of E a') \<le> MAX_ACCOUNT_DATA_LEN
         \<and> (length (data_of E (account_at ta i)) < 2 ^ 62 \<longrightarrow> \<bar>resize_delta ta\<bar> < 2 ^ 62 \<longrightarrow>
            resize_delta ta \<le> MAX_ACCOUNT_DATA_GROWTH_PER_TRANSACTION \<longrightarrow>
            resize_delta ta' \<le> MAX_ACCOUNT_DATA_GROWTH_PER_TRANSACTION)"
    unfolding effect_def by blast
  note inv = assms(2)[unfolded accounts_inv_def]
  have n: "i < length as" using i inv by simp
  note b = accounts_inv_bounds[OF assms(2,3) n]
  have v: "account_values ta' = (account_values ta)[i := a']" by (rule account_values_update[OF c])
  have iv: "i < length (account_values ta)" "account_values ta ! i = account_at ta i"
    using i by (simp_all add: account_values_def account_at_def)
  have at: "account_at ta' j = (if j = i then a' else account_at ta j)" if "j < length as" for j
    using i c that inv by (simp add: account_at_def)
  have rd: "resize_delta ta' = resize_delta ta + (int (length (data_of E a')) - int (length (data_of E (account_at ta i))))"
    "resize_delta ta' \<le> MAX_ACCOUNT_DATA_GROWTH_PER_TRANSACTION"
    "length (data_of E a') \<le> max MAX_ACCOUNT_DATA_LEN (length (data_of E (as ! i)))"
    using r b resized_exact[OF b(1) _ b(2)] inv n by (auto simp: le_max_iff_disj)
  have "lamports_sum E (account_values ta') = lamports_sum E as + lamports_delta ta'"
    using l inv unfolding v by (simp add: lamports_sum_def sum_list_map_update iv)
  moreover have "data_sum E (account_values ta') = data_sum E as + resize_delta ta'"
    using rd(1) inv unfolding v by (simp add: data_sum_def sum_list_map_update iv)
  moreover have "\<forall>j < length as. \<not> touched_flags ta' ! j \<longrightarrow>
       account_view E (account_at ta' j) = account_view E (as ! j) \<or> owner_of E (account_at ta' j) = sysvar_id E"
    using t inv at by (auto simp: nth_list_update split: if_splits)
  moreover have "\<forall>j < length as. length (data_of E (account_at ta' j))
                        \<le> max MAX_ACCOUNT_DATA_LEN (length (data_of E (as ! j)))"
    using rd(3) inv at by simp
  ultimately show ?thesis using rd(2) t c inv by (auto simp: accounts_inv_def)
qed (use assms in simp)

lemma account_at_drop_mut [simp]: "account_at (drop_mut ta i) j = account_at ta j"
  by (cases "i < length (cells ta)"; cases "i = j") (simp_all add: drop_mut_def set_flag_def account_at_def list_update_beyond)

lemma set_flag_accounts_inv [simp]: "i < length (cells ta) \<Longrightarrow> accounts_inv E as (set_flag ta i f) \<longleftrightarrow> accounts_inv E as ta"
proof -
  assume i: "i < length (cells ta)"
  have "account_values (set_flag ta i f) = account_values ta"
    using i by (auto simp: account_values_def set_flag_def nth_list_update intro!: nth_equalityI)
  moreover have "account_at (set_flag ta i f) j = account_at ta j" for j
    using i by (cases "i = j") (simp_all add: account_at_def set_flag_def)
  ultimately show ?thesis by (simp add: accounts_inv_def set_flag_def)
qed

subsection \<open>The borrows\<close>

lemma cell_flags_set_flag: "i < length (cells ta) \<Longrightarrow> cell_flags (set_flag ta i f) = (cell_flags ta)[i := f]"
  by (simp add: cell_flags_def set_flag_def map_update)

lemma borrow_inv_write:
  assumes "borrow_inv ws rs flags" "ba_index h < length flags" "flags ! ba_index h = Unused"
  shows "borrow_inv (h # ws) rs (flags[ba_index h := Writing])"
proof -
  from assms have "borrow_state ws rs (ba_index h) = Unused" by (simp add: borrow_inv_def)
  then have "ba_index h \<notin> ba_index ` set ws" "ba_index h \<notin> set rs"
    by (auto simp: borrow_state_def count_list_0_iff split: if_splits)
  with assms show ?thesis by (auto simp: borrow_inv_def borrow_state_def nth_list_update)
qed

lemma borrow_inv_release:
  assumes "borrow_inv ws rs flags" "h \<in> set ws"
  shows "borrow_inv (remove1 h ws) rs (flags[ba_index h := Unused])"
proof -
  from assms have d: "distinct ws" "inj_on ba_index (set ws)" by (auto simp: borrow_inv_def distinct_map)
  then have s: "ba_index ` set (remove1 h ws) = ba_index ` set ws - {ba_index h}"
    using assms(2) by (auto simp: inj_on_def)
  have "ba_index h \<notin> set rs" using assms by (auto simp: borrow_inv_def)
  moreover have "distinct (map ba_index (remove1 h ws))"
    using d by (auto simp: distinct_map inj_on_def)
  ultimately show ?thesis
    using assms by (auto simp: borrow_inv_def borrow_state_def s nth_list_update count_list_0_iff)
qed

lemma borrow_inv_share:
  assumes "borrow_inv ws rs flags" "i < length flags" "cell_try_borrow (flags ! i) = Some f"
  shows "borrow_inv ws (i # rs) (flags[i := f])"
proof -
  have "flags ! i = borrow_state ws rs i" using assms by (simp add: borrow_inv_def)
  with assms(3) have "i \<notin> ba_index ` set ws" "f = Reading (Suc (count_list rs i))"
    by (auto simp: borrow_state_def split: if_splits)
  with assms show ?thesis by (auto simp: borrow_inv_def borrow_state_def nth_list_update)
qed

lemma count_list_remove1: "count_list (remove1 i xs) j = (if i = j then count_list xs j - 1 else count_list xs j)"
  by (induction xs) auto

lemma borrow_inv_unshare:
  assumes "borrow_inv ws rs flags" "i \<in> set rs"
  shows "borrow_inv ws (remove1 i rs) (flags[i := cell_drop_borrow (flags ! i)])"
proof -
  have i: "i < length flags" "i \<notin> ba_index ` set ws" using assms by (auto simp: borrow_inv_def)
  then have f: "flags ! i = Reading (count_list rs i)" "0 < count_list rs i"
    using assms by (auto simp: borrow_inv_def borrow_state_def count_list_0_iff)
  then have "cell_drop_borrow (flags ! i) = borrow_state ws (remove1 i rs) i"
    using i(2) by (cases "count_list rs i" rule: nat.exhaust; cases "count_list rs i - 1")
      (auto simp: borrow_state_def count_list_remove1)
  then show ?thesis
    using assms i by (auto simp: borrow_inv_def borrow_state_def nth_list_update count_list_remove1
        dest: set_remove1_subset[THEN subsetD])
qed

subsection \<open>The stack and the trace\<close>

lemma length_update_last [simp]: "xs \<noteq> [] \<Longrightarrow> length (update_last f xs) = length xs"
  by (simp add: update_last_def)

lemma nth_update_last:
  "i < length xs \<Longrightarrow> update_last f xs ! i = (if i = length xs - 1 then f (xs ! i) else xs ! i)"
  by (cases xs rule: rev_cases) (auto simp: update_last_def nth_append)

lemma stack_inv_accounts [simp]: "stack_inv (tx\<lparr>accounts := ta\<rparr>) \<longleftrightarrow> stack_inv tx"
  by (simp add: stack_inv_def)

text \<open>The frames on the stack are below the last one, which is the only one rewritten.\<close>

lemma stack_inv_update_last:
  assumes "stack_inv tx"
  shows "stack_inv (tx\<lparr>instruction_trace := update_last f (instruction_trace tx)\<rparr>)"
proof -
  have "update_last f (instruction_trace tx) ! i = instruction_trace tx ! i"
    if "i < length (instruction_trace tx) - 1" for i
    using that by (simp add: nth_update_last)
  moreover have "update_last f (instruction_trace tx) \<noteq> []" by (simp add: update_last_def)
  ultimately show ?thesis using assms by (simp add: stack_inv_def)
qed

lemma stack_inv_extend:
  assumes "stack_inv tx" "length (instruction_trace tx) \<le> instruction_trace_capacity tx"
  shows "stack_inv (tx\<lparr>instruction_trace := instruction_trace tx @ [f]\<rparr>)"
  using assms by (auto simp: stack_inv_def nth_append)

lemma stack_inv_push:
  assumes "stack_inv (tx\<lparr>instruction_trace := tr\<rparr>)" "length (instruction_stack tx) < instruction_stack_capacity tx"
    "i < length tr - 1" "nesting_level (tr ! i) = length (instruction_stack tx)"
  shows "stack_inv (tx\<lparr>instruction_trace := tr, instruction_stack := instruction_stack tx @ [i]\<rparr>)"
  using assms by (auto simp: stack_inv_def nth_append less_Suc_eq)

lemma configure_stack_inv:
  "stack_inv tx \<Longrightarrow> stack_inv (snd (configure_next_instruction tx p ias dedup d))"
  by (simp add: configure_next_instruction_def stack_inv_update_last)

lemma pop_stack_inv:
  assumes "stack_inv tx"
  shows "stack_inv (snd (pop tx))"
  using assms by (auto simp: pop_def stack_inv_def Let_def nth_butlast)

text \<open>\<open>push\<close> up to the sysvar: the frame is marked, the trace is extended, the frame is pushed.\<close>

abbreviation marked_trace :: "('acc, 'rent) transaction_context \<Rightarrow> instruction_frame list" where
  "marked_trace tx \<equiv>
     update_last (\<lambda>f. f\<lparr>nesting_level := length (instruction_stack tx)\<rparr>) (instruction_trace tx)"

lemma push_cases:
  obtains (same) e where "push E tx = (Inl e, tx)"
  | (marked) e where "push E tx = (Inl e, tx\<lparr>instruction_trace := marked_trace tx\<rparr>)"
  | (extended) e where "length (instruction_trace tx) \<le> instruction_trace_capacity tx"
      "push E tx = (Inl e, tx\<lparr>instruction_trace := marked_trace tx @ [InstructionFrame_default]\<rparr>)"
  | (pushed) "instruction_stack tx \<noteq> [] \<longrightarrow> lamports_delta (accounts tx) = 0" "instruction_trace tx \<noteq> []"
      "length (instruction_trace tx) \<le> instruction_trace_capacity tx"
      "length (instruction_stack tx) < instruction_stack_capacity tx"
      "push E tx = push_sysvar E (tx\<lparr>instruction_trace := marked_trace tx @ [InstructionFrame_default],
                instruction_stack := instruction_stack tx @ [length (instruction_trace tx) - 1]\<rparr>)"
proof -
  note push_simps = push_def Let_def get_instruction_stack_height_def get_instruction_trace_length_def
      saturating_sub_def get_lamports_delta_def
  let ?n = "length (instruction_trace tx)"
  consider "instruction_stack tx \<noteq> [] \<and> lamports_delta (accounts tx) \<noteq> 0 \<or> instruction_trace tx = []"
    | "instruction_stack tx \<noteq> [] \<longrightarrow> lamports_delta (accounts tx) = 0" "instruction_trace tx \<noteq> []"
      "instruction_trace_capacity tx \<le> ?n - 1"
    | "instruction_stack tx \<noteq> [] \<longrightarrow> lamports_delta (accounts tx) = 0" "instruction_trace tx \<noteq> []"
      "\<not> instruction_trace_capacity tx \<le> ?n - 1"
      "instruction_stack_capacity tx \<le> length (instruction_stack tx)"
    | "instruction_stack tx \<noteq> [] \<longrightarrow> lamports_delta (accounts tx) = 0" "instruction_trace tx \<noteq> []"
      "\<not> instruction_trace_capacity tx \<le> ?n - 1"
      "\<not> instruction_stack_capacity tx \<le> length (instruction_stack tx)"
    by blast
  then show ?thesis
  proof cases
    case 1
    then have "push E tx = (Inl UnbalancedInstruction, tx) \<or> push E tx = (Inl CallDepth, tx)"
      by (auto simp: push_simps)
    then show ?thesis using same by blast
  next
    case 2
    then have "push E tx = (Inl MaxInstructionTraceLengthExceeded, tx\<lparr>instruction_trace := marked_trace tx\<rparr>)"
      by (auto simp: push_simps)
    then show ?thesis by (rule marked)
  next
    case 3
    then have "push E tx = (Inl CallDepth, tx\<lparr>instruction_trace := marked_trace tx @ [InstructionFrame_default]\<rparr>)"
      by (auto simp: push_simps)
    then show ?thesis using 3 by (intro extended) simp_all
  next
    case 4
    then have "push E tx = push_sysvar E (tx\<lparr>instruction_trace := marked_trace tx @ [InstructionFrame_default],
                instruction_stack := instruction_stack tx @ [length (instruction_trace tx) - 1]\<rparr>)"
      by (auto simp: push_simps)
    then show ?thesis using 4 by (intro pushed) simp_all
  qed
qed

lemma push_inv:
  assumes "account_laws E" "stack_inv tx"
  shows "stack_inv (snd (push E tx)) \<and> effect E (accounts tx) (accounts (snd (push E tx)))
    \<and> account_keys (snd (push E tx)) = account_keys tx"
proof (cases rule: push_cases[of E tx])
  case (marked e)
  then show ?thesis using stack_inv_update_last[OF assms(2)] by (simp add: effect_def)
next
  case (extended e)
  then show ?thesis
    using stack_inv_extend[OF stack_inv_update_last[OF assms(2)]] assms(2)
    by (simp add: effect_def stack_inv_def)
next
  case pushed
  let ?tr = "marked_trace tx @ [InstructionFrame_default]"
  let ?tx = "tx\<lparr>instruction_trace := ?tr, instruction_stack := instruction_stack tx @ [length (instruction_trace tx) - 1]\<rparr>"
  have "stack_inv (tx\<lparr>instruction_trace := ?tr\<rparr>)"
    using stack_inv_extend[OF stack_inv_update_last[OF assms(2)]] pushed(2,3) by simp
  moreover have "nesting_level (?tr ! (length (instruction_trace tx) - 1)) = length (instruction_stack tx)"
    using pushed(2) by (simp add: nth_append nth_update_last)
  ultimately have s: "stack_inv ?tx"
    using stack_inv_push[of ?tr tx "length (instruction_trace tx) - 1"] pushed(2,4) by simp
  obtain r tx' where p: "push_sysvar E ?tx = (r, tx')" by fastforce
  from push_sysvar_effect[OF assms(1) p] obtain ta where ta: "tx' = ?tx\<lparr>accounts := ta\<rparr>"
    "effect E (accounts ?tx) ta" by metis
  have "snd (push E tx) = ?tx\<lparr>accounts := ta\<rparr>" using pushed(5) p ta(1) by simp
  then show ?thesis using s ta(2) unfolding stack_inv_accounts[of _ ?tx, symmetric] by simp
qed (use assms in \<open>simp add: effect_def\<close>)

subsection \<open>Every command keeps the invariant\<close>

lemma length_cell_flags [simp]: "length (cell_flags ta) = length (cells ta)"
  by (simp add: cell_flags_def)

lemma tx_inv_effect:
  assumes "tx_inv E tas m" "effect E (accounts (ctx m)) ta" "accounts tx = ta"
    "account_keys tx = account_keys (ctx m)" "stack_inv tx"
  shows "tx_inv E tas (m\<lparr>ctx := tx\<rparr>)"
  using assms effect_accounts_inv[OF assms(2)] effect_cells(1)[OF assms(2)]
  by (simp add: tx_inv_def)

lemma tx_inv_handle:
  assumes "tx_inv E tas m" "h \<in> set (writers m)"
  shows "handle_ok (ctx m) h"
  using assms by (auto simp: tx_inv_def borrow_inv_def accounts_inv_def handle_ok_def)

lemma tx_exec_Borrow:
  assumes "tx_inv E tas m" "tx_exec data_ptr E m (Borrow k i) = Some m'"
  shows "tx_inv E tas m'"
proof -
  from assms(2) obtain ic where ic: "get_instruction_context_at_index_in_trace (ctx m) k = Inr ic"
    by (auto split: sum.splits)
  show ?thesis
  proof (cases "try_borrow_instruction_account (ctx m) ic i")
    case (Pair r tx)
    show ?thesis
    proof (cases r)
      case (Inl e)
      then have "tx = ctx m"
        using Pair by (auto simp: try_borrow_instruction_account_def split: option.splits sum.splits)
      then show ?thesis using assms ic Pair Inl by (auto simp: tx_inv_def)
    next
      case (Inr h)
      then have "try_borrow_mut (accounts (ctx m)) (get_index_in_transaction h) = Inr (accounts tx)"
         "tx = (ctx m)\<lparr>accounts := accounts tx\<rparr>"
        using Pair by (auto simp: try_borrow_instruction_account_def get_index_in_transaction_def
            split: option.splits sum.splits)
      note b = try_borrow_mutE[OF this(1), folded ba_index_def] this(2)
      have "borrow_inv (h # writers m) (readers m) (cell_flags (accounts tx))"
        using borrow_inv_write[of "writers m" "readers m" "cell_flags (accounts (ctx m))" h] assms(1) b
        by (simp add: cell_flags_set_flag tx_inv_def) (simp add: cell_flags_def)
      moreover have "m' = m\<lparr>ctx := tx, writers := h # writers m\<rparr>"
        using assms(2) ic Pair Inr by simp
      moreover have "stack_inv tx" "account_keys tx = account_keys (ctx m)"
        using assms(1) by (subst b(4), simp add: tx_inv_def)+
      ultimately show ?thesis using assms(1) b(1,3) by (simp add: tx_inv_def)
    qed
  qed
qed

lemma tx_exec_Release:
  assumes "tx_inv E tas m" "k < length (writers m)"
  shows "tx_inv E tas (the (tx_exec data_ptr E m (Release k)))"
proof -
  have h: "writers m ! k \<in> set (writers m)" using assms(2) by simp
  from tx_inv_handle[OF assms(1) h] have i: "ba_index (writers m ! k) < length (cells (accounts (ctx m)))"
    by (simp add: handle_ok_def)
  show ?thesis
    using assms i borrow_inv_release[OF _ h, of "readers m"]
    by (simp add: tx_inv_def drop_mut_def cell_flags_set_flag)
qed

lemma tx_exec_Share:
  assumes "tx_inv E tas m" "tx_exec data_ptr E m (Share i) = Some m'"
  shows "tx_inv E tas m'"
proof (cases "try_borrow (accounts (ctx m)) i")
  case (Inr ta)
  then obtain f where f: "unat i < length (cells (accounts (ctx m)))"
    "cell_try_borrow (cell_flag (cells (accounts (ctx m)) ! unat i)) = Some f"
    "ta = set_flag (accounts (ctx m)) (unat i) f"
    by (auto simp: try_borrow_def result_simps slice_get_eq_Some split: option.splits)
  then have "cell_try_borrow (cell_flags (accounts (ctx m)) ! unat i) = Some f"
    by (simp add: cell_flags_def)
  with assms Inr f borrow_inv_share[of "writers m" "readers m" "cell_flags (accounts (ctx m))" "unat i" f]
  show ?thesis by (auto simp: tx_inv_def cell_flags_set_flag)
qed (use assms in simp)

lemma tx_exec_Unshare:
  assumes "tx_inv E tas m" "i \<in> set (readers m)"
  shows "tx_inv E tas (the (tx_exec data_ptr E m (Unshare i)))"
proof -
  have i: "i < length (cells (accounts (ctx m)))" using assms by (auto simp: tx_inv_def borrow_inv_def)
  then have "cell_flags (accounts (ctx m)) ! i = cell_flag (cells (accounts (ctx m)) ! i)"
    by (simp add: cell_flags_def)
  with assms i borrow_inv_unshare[OF _ assms(2), of "writers m" "cell_flags (accounts (ctx m))"]
  show ?thesis by (simp add: tx_inv_def drop_ref_def cell_flags_set_flag)
qed

lemma tx_exec_Operate:
  assumes "tx_inv E tas m" "tx_exec data_ptr E m (Operate k op) = Some m'"
  shows "tx_inv E tas m'"
proof -
  from assms(2) obtain r tx where k: "k < length (writers m)"
    "run_account_op E (ctx m) (writers m ! k) op = Some (r, tx)" "m' = m\<lparr>ctx := tx\<rparr>"
    by (auto split: if_splits)
  have laws: "account_laws E" using assms(1) by (simp add: tx_inv_def)
  note e = op_effect[OF laws tx_inv_handle[OF assms(1)] k(2)]
  then have "effect E (accounts (ctx m)) (accounts tx)" "tx = (ctx m)\<lparr>accounts := accounts tx\<rparr>"
    using k(1) by auto
  moreover have "stack_inv tx" "account_keys tx = account_keys (ctx m)"
    using assms(1) by (subst calculation(2), simp add: tx_inv_def)+
  ultimately show ?thesis unfolding k(3) by (intro tx_inv_effect[OF assms(1)]) auto
qed

lemma tx_exec_inv:
  assumes "tx_inv E tas m" "tx_exec data_ptr E m c = Some m'"
  shows "tx_inv E tas m'"
proof -
  have laws: "account_laws E" and stack: "stack_inv (ctx m)"
    and len: "length (touched_flags (accounts (ctx m))) = length (cells (accounts (ctx m)))"
    using assms(1) by (auto simp: tx_inv_def accounts_inv_def)
  have refl: "effect E ta ta" for ta by (simp add: effect_def)
  show ?thesis
  proof (cases c)
    case (Release k)
    then show ?thesis using assms tx_exec_Release[OF assms(1), of k data_ptr] by (simp split: if_splits)
  next
    case (Unshare i)
    then show ?thesis using assms tx_exec_Unshare[OF assms(1), of i data_ptr] by (simp split: if_splits)
  next
    case (Configure p ias dedup d)
    then show ?thesis using assms configure_stack_inv[OF stack]
      by (auto intro!: tx_inv_effect[OF assms(1) refl] simp: configure_next_instruction_def)
  next
    case Push
    then show ?thesis using assms push_inv[OF laws stack]
      by (auto intro!: tx_inv_effect[OF assms(1)])
  next
    case Pop
    then show ?thesis using assms pop_stack_inv[OF stack]
      by (auto intro!: tx_inv_effect[OF assms(1) refl] simp: pop_def Let_def)
  next
    case (SetReturnData k d)
    then show ?thesis using assms stack
      by (auto intro!: tx_inv_effect[OF assms(1) refl] simp: set_return_data_def stack_inv_def)
  next
    case (Violation s d region reserved acc vm_addr len')
    then show ?thesis using assms(2) stack handler_effect[OF laws len prod.collapse[symmetric]]
      by (auto intro!: tx_inv_effect[OF assms(1)])
  qed (use assms tx_exec_Borrow tx_exec_Share tx_exec_Operate in blast)+
qed

lemma tx_init_inv: "tx_init E tas m \<Longrightarrow> tx_inv E tas m"
  by (auto simp: tx_init_def tx_inv_def TransactionContext_new_def TransactionAccounts_new_def
      accounts_inv_def account_values_def account_at_def RefCell_new_def o_def borrow_inv_def
      borrow_state_def stack_inv_def cell_flags_def le_max_iff_disj
      MAX_ACCOUNT_DATA_GROWTH_PER_TRANSACTION_def)

interpretation tx_system: transition_invariant "tx_init E tas" "tx_step data_ptr E" "tx_inv E tas"
  for data_ptr :: "'acc \<Rightarrow> u64" and E :: "('acc, 'rent) tx_env" and tas
  by unfold_locales (auto elim!: tx_stepE intro: tx_init_inv tx_exec_inv)

fun tx_exec_all ::
  "('acc \<Rightarrow> u64) \<Rightarrow> ('acc, 'rent) tx_env \<Rightarrow> ('acc, 'rent) tx_machine \<Rightarrow> tx_cmd list
   \<Rightarrow> ('acc, 'rent) tx_machine option" where
  "tx_exec_all data_ptr E m [] = Some m"
| "tx_exec_all data_ptr E m (c # cs) =
     do { m' \<leftarrow> tx_exec data_ptr E m c; tx_exec_all data_ptr E m' cs }"

lemma tx_exec_all_steps: "tx_exec_all data_ptr E m cs = Some m' \<Longrightarrow> (tx_step data_ptr E)\<^sup>*\<^sup>* m m'"
proof (induction cs arbitrary: m)
  case (Cons c cs)
  then obtain m1 where "tx_exec data_ptr E m c = Some m1" "tx_exec_all data_ptr E m1 cs = Some m'"
    by (auto simp: bind_eq_Some_conv)
  with Cons.IH show ?case by (meson converse_rtranclp_into_rtranclp tx_step.exec)
qed simp

lemma pop_ok: "pop_balanced tx = Inr b \<Longrightarrow> b \<longleftrightarrow> lamports_delta (accounts tx) \<noteq> 0"
  by (auto simp: pop_balanced_def and_then_def get_lamports_delta_def split: sum.splits)

subsection \<open>The deduplication map\<close>

lemma position_Some:
  "position P xs = Some j \<Longrightarrow> j < length xs \<and> P (xs ! j) \<and> (\<forall>k < j. \<not> P (xs ! k))"
proof (induction xs arbitrary: j)
  case (Cons x xs)
  then show ?case by (auto simp: less_Suc_eq_0_disj split: if_splits)
qed simp

lemma position_None: "position P xs = None \<longleftrightarrow> (\<forall>x \<in> set xs. \<not> P x)"
  by (induction xs) auto

lemma build_dedup_map_nth:
  assumes "\<forall>ia \<in> set ias. unat (index_in_transaction ia) < length dm" "idx + length ias \<le> 255"
  shows "\<exists>dm'. build_dedup_map idx ias dm = Some dm' \<and> length dm' = length dm
    \<and> (\<forall>t < length dm. dm' ! t = (if dm ! t \<noteq> 255 then dm ! t
         else case position (\<lambda>ia. unat (index_in_transaction ia) = t) ias of
                None \<Rightarrow> 255 | Some j \<Rightarrow> word_of_nat (idx + j)))"
  using assms
proof (induction ias arbitrary: idx dm)
  case (Cons ia ias)
  let ?t = "unat (index_in_transaction ia)"
  define dm1 where "dm1 = (if dm ! ?t = 255 then dm[?t := word_of_nat idx] else dm)"
  have len: "length dm1 = length dm" by (simp add: dm1_def)
  have idx: "(word_of_nat idx :: u8) \<noteq> 255"
  proof
    assume "(word_of_nat idx :: u8) = 255"
    then have "unat (word_of_nat idx :: u8) = 255" by simp
    then show False using Cons.prems(2) by (simp add: unat_of_nat)
  qed
  have "\<forall>ia \<in> set ias. unat (index_in_transaction ia) < length dm1" "Suc idx + length ias \<le> 255"
    using Cons.prems len by auto
  from Cons.IH[OF this] obtain dm' where d: "build_dedup_map (Suc idx) ias dm1 = Some dm'"
    "length dm' = length dm"
    "\<forall>t < length dm. dm' ! t = (if dm1 ! t \<noteq> 255 then dm1 ! t
         else case position (\<lambda>ia. unat (index_in_transaction ia) = t) ias of
                None \<Rightarrow> 255 | Some j \<Rightarrow> word_of_nat (Suc idx + j))" unfolding len by blast
  have "dm' ! t = (if dm ! t \<noteq> 255 then dm ! t
         else case position (\<lambda>ia. unat (index_in_transaction ia) = t) (ia # ias) of
                None \<Rightarrow> 255 | Some j \<Rightarrow> word_of_nat (idx + j))" if "t < length dm" for t
    using d(3)[rule_format, OF that] that idx
    by (cases "t = ?t") (auto simp: dm1_def nth_list_update split: option.splits if_splits)
  then show ?case using d(1,2) Cons.prems(1) by (simp add: dm1_def)
qed simp

lemma first_account_in_instruction:
  assumes "build_dedup_map 0 ias (replicate MAX_ACCOUNTS_PER_TRANSACTION 255) = Some dm"
    "length ias \<le> 255" "\<forall>ia \<in> set ias. unat (index_in_transaction ia) < MAX_ACCOUNTS_PER_TRANSACTION"
    "instruction_accounts ic = ias" "dedup_map ic = dm" "unat i < length ias"
    "position (\<lambda>ia. index_in_transaction ia = index_in_transaction (ias ! unat i)) ias = Some j"
  shows "is_instruction_account_duplicate ic i = Inr (if j = unat i then None else Some (word_of_nat j))"
proof -
  let ?t = "unat (index_in_transaction (ias ! unat i))"
  have t: "?t < 256" using assms(3,6) by (simp add: MAX_ACCOUNTS_PER_TRANSACTION_def)
  have j: "j < length ias" using position_Some[OF assms(7)] by simp
  have "dm ! ?t = word_of_nat j" and len: "length dm = 256"
    using build_dedup_map_nth[of ias "replicate MAX_ACCOUNTS_PER_TRANSACTION 255" 0] assms(1-3,7) t
    by (auto simp: MAX_ACCOUNTS_PER_TRANSACTION_def word_unat_eq_iff split: option.splits)
  moreover have "unat (word_of_nat j :: u8) = j" using j assms(2) by (simp add: unat_of_nat)
  moreover from this have "(ucast (word_of_nat j :: u8) :: u16) = word_of_nat j"
    using j assms(2) by (simp add: word_unat_eq_iff unsigned_ucast_eq unat_of_nat take_bit_eq_mod)
  moreover have "(word_of_nat j :: u16) = i \<longleftrightarrow> j = unat i"
    using j assms(2) by (auto simp: unat_of_nat word_unat_eq_iff)
  ultimately show ?thesis using assms(4-6) t j
    by (simp add: is_instruction_account_duplicate_def get_index_of_instruction_account_in_transaction_def
        get_index_of_account_in_instruction_def)
qed

lemma touched_count:
  "n \<le> usize_max \<Longrightarrow> foldl (\<lambda>n b. saturating_add n (if b then 1 else 0)) n bs
     = min (n + length (filter id bs)) usize_max"
  by (induction bs arbitrary: n) (auto simp: saturating_add_def)

subsection \<open>A concrete environment and run\<close>

text \<open>Accounts as plain records, which satisfy the laws, and a run in which a program moves five
  lamports between two accounts it owns.\<close>

record plain_account =
  pa_lamports :: u64
  pa_data :: bytes
  pa_owner :: pubkey
  pa_executable :: bool

definition plain_env :: "(plain_account, unit) tx_env" where
  "plain_env = \<lparr>lamports_of = pa_lamports, data_of = pa_data, owner_of = pa_owner,
     executable_of = pa_executable, rent_epoch_of = (\<lambda>_. 0), is_shared_of = (\<lambda>_. False),
     account_set_lamports = (\<lambda>a l. a\<lparr>pa_lamports := l\<rparr>),
     account_copy_into_owner = (\<lambda>a k. if length k = 32 then Some (a\<lparr>pa_owner := k\<rparr>) else None),
     account_set_data = (\<lambda>a d. a\<lparr>pa_data := d\<rparr>),
     account_resize = (\<lambda>a n b. a\<lparr>pa_data := take n (pa_data a) @ replicate (n - length (pa_data a)) b\<rparr>),
     account_extend = (\<lambda>a d. a\<lparr>pa_data := pa_data a @ d\<rparr>),
     account_reserve = (\<lambda>a n. a), account_write = (\<lambda>a d. a\<lparr>pa_data := d\<rparr>),
     account_set_executable = (\<lambda>a x. a\<lparr>pa_executable := x\<rparr>),
     store_current_index_checked = (\<lambda>d i. if length d < 2 then Inl AccountDataTooSmall
        else Inr (take (length d - 2) d @ [ucast i, ucast (drop_bit 8 i)])),
     is_exempt = (\<lambda>_ l n. 1 \<le> l), instructions_id = [9], sysvar_id = [8]\<rparr>"

lemma plain_env_laws: "account_laws plain_env"
  by (auto simp: account_laws_def account_view_def plain_env_def)

definition plain_accounts :: "(pubkey \<times> plain_account) list" where
  "plain_accounts =
     [([1], \<lparr>pa_lamports = 10, pa_data = [7, 7], pa_owner = [3], pa_executable = False\<rparr>),
      ([2], \<lparr>pa_lamports = 1, pa_data = [], pa_owner = [3], pa_executable = False\<rparr>),
      ([3], \<lparr>pa_lamports = 1, pa_data = [], pa_owner = [4], pa_executable = True\<rparr>)]"

definition plain_machine :: "(plain_account, unit) tx_machine" where
  "plain_machine = \<lparr>ctx = TransactionContext_new plain_accounts () 4 8, writers = [], readers = []\<rparr>"

definition transfer_run :: "tx_cmd list" where
  "transfer_run =
     [Configure 2 [InstructionAccount_new 0 True True, InstructionAccount_new 1 False True] [0, 1] [],
      Push, Borrow 0 0, Operate 0 (SubLamports 5), Borrow 0 1, Operate 0 (AddLamports 5),
      Operate 0 (SetDataLength 6), Release 0]"

text \<open>The machine after the run, the first account still borrowed.\<close>

definition transfer_machine :: "(plain_account, unit) tx_machine" where
  "transfer_machine =
     \<lparr>ctx =
        \<lparr>account_keys = [[1], [2], [3]],
         accounts =
           \<lparr>cells =
              [\<lparr>cell_value = \<lparr>pa_lamports = 5, pa_data = [7, 7], pa_owner = [3], pa_executable = False\<rparr>,
                cell_flag = Writing\<rparr>,
               \<lparr>cell_value = \<lparr>pa_lamports = 6, pa_data = [0, 0, 0, 0, 0, 0], pa_owner = [3],
                              pa_executable = False\<rparr>,
                cell_flag = Unused\<rparr>,
               \<lparr>cell_value = \<lparr>pa_lamports = 1, pa_data = [], pa_owner = [4], pa_executable = True\<rparr>,
                cell_flag = Unused\<rparr>],
            touched_flags = [True, True, False], resize_delta = 6, lamports_delta = 0\<rparr>,
         instruction_stack_capacity = 4, instruction_trace_capacity = 8,
         instruction_stack = [0],
         instruction_trace =
           [\<lparr>nesting_level = 0, program_account_index_in_tx = 2,
             instruction_accounts =
               [InstructionAccount_new 0 True True, InstructionAccount_new 1 False True],
             dedup_map = [0, 1], instruction_data = []\<rparr>,
            InstructionFrame_default],
         top_level_instruction_index = 0, return_data = TransactionReturnData_default, rent = ()\<rparr>,
      writers =
        [\<lparr>ba_instruction_account = InstructionAccount_new 0 True True,
          index_in_transaction_of_instruction_program = 2\<rparr>],
      readers = []\<rparr>"

lemma plain_init: "tx_init plain_env plain_accounts plain_machine"
proof -
  have "data_sum plain_env (map snd plain_accounts) < 2 ^ 61"
    by (simp add: data_sum_def plain_env_def plain_accounts_def)
  then show ?thesis unfolding tx_init_def plain_machine_def using plain_env_laws by blast
qed

lemma transfer_exec: "tx_exec_all (\<lambda>_. 0) plain_env plain_machine transfer_run = Some transfer_machine"
  by code_simp

lemma transfer_steps: "(tx_step (\<lambda>_. 0) plain_env)\<^sup>*\<^sup>* plain_machine transfer_machine"
  by (rule tx_exec_all_steps[OF transfer_exec])

lemma transfer_pops: "fst (pop (ctx transfer_machine)) = Inr ()"
  by code_simp

subsection \<open>Properties\<close>

text \<open>C1: Lamports are conserved.  In every run of a transaction, whatever the programs do and in
  whatever order the calls come, an instruction can only end (a \<open>pop\<close> that succeeds) or call
  another one (a nested \<open>push\<close> that succeeds) when the lamports of all accounts add up to what
  was loaded.\<close>

theorem tx_lamports_conserved:
  assumes "tx_init E tas m0" "(tx_step data_ptr E)\<^sup>*\<^sup>* m0 m"
    "pop (ctx m) = (Inr (), tx) \<or> instruction_stack (ctx m) \<noteq> [] \<and> push E (ctx m) = (Inr (), tx)"
  shows "lamports_sum E (account_values (accounts tx)) = lamports_sum E (map snd tas)"
proof -
  from tx_system.reachable_inv[OF assms(1,2)]
  have laws: "account_laws E" and inv: "accounts_inv E (map snd tas) (accounts (ctx m))"
    and b: "data_sum E (map snd tas) < 2 ^ 61" and s: "stack_inv (ctx m)" by (auto simp: tx_inv_def)
  from assms(3) show ?thesis
  proof
    assume "pop (ctx m) = (Inr (), tx)"
    then have "accounts tx = accounts (ctx m)" "lamports_delta (accounts (ctx m)) = 0"
      by (auto simp: pop_def Let_def result_simps dest: pop_ok split: if_splits)
    then show ?thesis using inv by (simp add: accounts_inv_def)
  next
    assume p: "instruction_stack (ctx m) \<noteq> [] \<and> push E (ctx m) = (Inr (), tx)"
    then have "lamports_delta (accounts tx) = 0"
      using push_sysvar_effect[OF laws] by (cases rule: push_cases[of E "ctx m"]) auto
    moreover have "effect E (accounts (ctx m)) (accounts tx)" using push_inv[OF laws s] p by simp
    ultimately show ?thesis using effect_accounts_inv[OF _ inv b] by (simp add: accounts_inv_def)
  qed
qed

theorem tx_lamports_conserved_witness:
  "lamports_sum plain_env (account_values (accounts (snd (pop (ctx transfer_machine)))))
     = lamports_sum plain_env (map snd plain_accounts)
   \<and> account_values (accounts (snd (pop (ctx transfer_machine)))) \<noteq> map snd plain_accounts"
proof -
  have "pop (ctx transfer_machine) = (Inr (), snd (pop (ctx transfer_machine)))"
    using transfer_pops by (metis prod.collapse)
  moreover have "account_values (accounts (snd (pop (ctx transfer_machine)))) \<noteq> map snd plain_accounts"
    by code_simp
  ultimately show ?thesis using tx_lamports_conserved[OF plain_init transfer_steps] by blast
qed

text \<open>C7: Account data growth is counted and bounded.  In every reachable context \<open>resize_delta\<close> is
  exactly the change of the total data size since the accounts were loaded, it never exceeds the
  limit per transaction, and no account is larger than the limit per account unless it was
  loaded so.  This holds although the counter saturates and the access violation handler grows
  accounts on its own.\<close>

theorem tx_data_growth_bounded:
  assumes "tx_init E tas m0" "(tx_step data_ptr E)\<^sup>*\<^sup>* m0 m"
  shows "accounts_resize_delta (ctx m)
           = data_sum E (account_values (accounts (ctx m))) - data_sum E (map snd tas)
       \<and> accounts_resize_delta (ctx m) \<le> MAX_ACCOUNT_DATA_GROWTH_PER_TRANSACTION
       \<and> (\<forall>i < length tas. length (data_of E (account_at (accounts (ctx m)) i))
              \<le> max MAX_ACCOUNT_DATA_LEN (length (data_of E (snd (tas ! i)))))"
  using tx_system.reachable_inv[OF assms] by (auto simp: tx_inv_def accounts_inv_def accounts_resize_delta_def)

theorem tx_data_growth_bounded_witness:
  "accounts_resize_delta (ctx transfer_machine) = 6
   \<and> accounts_resize_delta (ctx transfer_machine)
       = data_sum plain_env (account_values (accounts (ctx transfer_machine)))
         - data_sum plain_env (map snd plain_accounts)"
proof -
  have "accounts_resize_delta (ctx transfer_machine) = 6" by code_simp
  then show ?thesis using tx_data_growth_bounded[OF plain_init transfer_steps] by blast
qed

text \<open>C2: Borrows never alias.  In every reachable context two live \<open>BorrowedAccount\<close>s are for different
  accounts, none of them has a shared reference beside it, and the flag of every cell says so, so
  that a further mutable borrow of a borrowed account is refused.\<close>

theorem tx_borrows_exclusive:
  assumes "tx_init E tas m0" "(tx_step data_ptr E)\<^sup>*\<^sup>* m0 m"
  shows "distinct (map ba_index (writers m)) \<and> ba_index ` set (writers m) \<inter> set (readers m) = {}
       \<and> (\<forall>i. unat i \<in> ba_index ` set (writers m) \<union> set (readers m) \<longrightarrow>
             try_borrow_mut (accounts (ctx m)) i = Inl AccountBorrowFailed)"
proof -
  let ?ta = "accounts (ctx m)"
  from tx_system.reachable_inv[OF assms] have b: "borrow_inv (writers m) (readers m) (cell_flags ?ta)"
    by (simp add: tx_inv_def)
  have "try_borrow_mut ?ta i = Inl AccountBorrowFailed"
    if "unat i \<in> ba_index ` set (writers m) \<union> set (readers m)" for i
  proof -
    from b that have l: "unat i < length (cells ?ta)" by (auto simp: borrow_inv_def)
    then have "cell_flag (cells ?ta ! unat i) = borrow_state (writers m) (readers m) (unat i)"
      using b by (auto simp: borrow_inv_def cell_flags_def)
    then have "cell_flag (cells ?ta ! unat i) \<noteq> Unused"
      using that by (auto simp: borrow_state_def count_list_0_iff)
    then show ?thesis using l by (simp add: try_borrow_mut_def)
  qed
  then show ?thesis using b by (auto simp: borrow_inv_def)
qed

theorem tx_borrows_exclusive_witness:
  "map ba_index (writers transfer_machine) = [0]
   \<and> try_borrow_mut (accounts (ctx transfer_machine)) 0 = Inl AccountBorrowFailed"
proof -
  have w: "map ba_index (writers transfer_machine) = [0]" by code_simp
  then have "unat (0 :: u16) \<in> ba_index ` set (writers transfer_machine)" by (metis list.set_intros(1) list.set_map unat_0)
  then show ?thesis using tx_borrows_exclusive[OF plain_init transfer_steps] w by blast
qed

text \<open>C26: The instruction stack and trace stay within their capacities, and the frame found at a
  nesting level records that level: the debug assertion of
  \<open>get_instruction_context_at_nesting_level\<close> holds in every reachable context, and with an
  instruction on the stack there always is a current instruction.\<close>

theorem tx_stack_discipline:
  assumes "tx_init E tas m0" "(tx_step data_ptr E)\<^sup>*\<^sup>* m0 m"
  shows "get_instruction_stack_height (ctx m) \<le> instruction_stack_capacity (ctx m)
       \<and> get_instruction_trace_length (ctx m) \<le> instruction_trace_capacity (ctx m)
       \<and> (\<forall>level < get_instruction_stack_height (ctx m). \<exists>ic.
             get_instruction_context_at_nesting_level (ctx m) level = Inr ic \<and> nesting_level ic = level)
       \<and> (is_ok (get_current_instruction_context (ctx m)) \<longleftrightarrow> instruction_stack (ctx m) \<noteq> [])"
proof -
  from tx_system.reachable_inv[OF assms] have s: "stack_inv (ctx m)" by (simp add: tx_inv_def)
  then have at: "\<exists>ic. get_instruction_context_at_nesting_level (ctx m) level = Inr ic \<and> nesting_level ic = level"
    if "level < get_instruction_stack_height (ctx m)" for level
    using that by (auto simp: stack_inv_def get_instruction_stack_height_def
        get_instruction_context_at_nesting_level_def get_instruction_context_at_index_in_trace_def)
  have "is_ok (get_current_instruction_context (ctx m)) \<longleftrightarrow> instruction_stack (ctx m) \<noteq> []"
    using at[of "get_instruction_stack_height (ctx m) - 1"]
    by (auto simp: get_current_instruction_context_def checked_sub_def get_instruction_stack_height_def Suc_le_eq)
  then show ?thesis using at s
    by (simp add: stack_inv_def get_instruction_stack_height_def get_instruction_trace_length_def
        saturating_sub_def le_diff_conv)
qed

theorem tx_stack_discipline_witness:
  "get_instruction_stack_height (ctx transfer_machine) = 1
   \<and> (\<exists>ic. get_instruction_context_at_nesting_level (ctx transfer_machine) 0 = Inr ic \<and> nesting_level ic = 0)"
proof -
  have h: "get_instruction_stack_height (ctx transfer_machine) = 1" by code_simp
  then have "0 < get_instruction_stack_height (ctx transfer_machine)" by simp
  then show ?thesis using tx_stack_discipline[OF plain_init transfer_steps] h by blast
qed

text \<open>C3: Permissions.  Whatever operation a program runs on a borrowed account: if it fails, nothing
  in the transaction has changed, except that a failed \<open>set_state\<close> that was allowed to write leaves
  the account touched and, when the serialization itself fails, may leave data of the same length
  behind, but nothing else; if the account changes, the account is writable in this instruction and
  touched, lamports leave it, data changes and the executable flag changes only under a program
  that owns it, its owner changes only if moreover all its data is zero, and it becomes executable
  only if rent exempt; no other account changes.\<close>

theorem account_op_permissions:
  assumes "account_laws E" "handle_ok tx h" "run_account_op E tx h op = Some (r, tx')"
  shows "(is_ok r \<or> tx' = tx
          \<or> (\<exists>n f a. op = SetState n f \<and> can_data_be_changed E tx h = Inr ()
               \<and> tx' = tx\<lparr>accounts := set_account (touched (accounts tx) (ba_index h)) (ba_index h) a\<rparr>
               \<and> lamports_of E a = get_lamports E tx h \<and> owner_of E a = get_owner E tx h
               \<and> executable_of E a = is_executable E tx h \<and> length (data_of E a) = length (get_data E tx h)
               \<and> (r = Inl AccountDataTooSmall \<longrightarrow> data_of E a = get_data E tx h)))
       \<and> (\<forall>j. j \<noteq> ba_index h \<longrightarrow> account_at (accounts tx') j = account_at (accounts tx) j)
       \<and> (account_view E (ba_account tx' h) \<noteq> account_view E (ba_account tx h) \<longrightarrow>
            touched_flags (accounts tx') ! ba_index h \<and> permitted E tx h (ba_account tx' h))"
proof -
  from run_account_op_outcome[OF assms] consider "tx' = tx"
    | a ta where "r = Inr ()" "tx' = tx\<lparr>accounts := ta\<rparr>" "mutated E (ba_index h) (accounts tx) a ta" "permitted E tx h a"
    | n f a where "op = SetState n f" "state_outcome E tx h (r, tx') a"
    by (auto simp: op_outcome_def)
  then show ?thesis
  proof cases
    case 1
    then show ?thesis by simp
  next
    case 2
    then have "account_at ta (ba_index h) = a" "touched_flags ta ! ba_index h"
      "\<forall>j. j \<noteq> ba_index h \<longrightarrow> account_at ta j = account_at (accounts tx) j"
      using assms(2) by (auto simp: mutated_def handle_ok_def touched_def)
    with 2 show ?thesis by simp
  next
    case 3
    let ?ta = "set_account (touched (accounts tx) (ba_index h)) (ba_index h) a"
    have "account_at ?ta (ba_index h) = a" "touched_flags ?ta ! ba_index h"
      "\<forall>j. j \<noteq> ba_index h \<longrightarrow> account_at ?ta j = account_at (accounts tx) j"
      using assms(2) by (auto simp: handle_ok_def touched_def)
    moreover have "tx' = tx\<lparr>accounts := ?ta\<rparr>" using 3 by (simp add: state_outcome_def)
    moreover have "can_data_be_changed E tx h = Inr ()" using 3 by (simp add: state_outcome_def can_data_be_changed_ok)
    ultimately show ?thesis
      using 3 state_outcome_permitted(1)[OF 3(2)] by (auto simp: state_outcome_def intro!: exI[of _ a])
  qed
qed

theorem account_op_permissions_witness:
  "\<exists>tx'. run_account_op plain_env (ctx transfer_machine) (hd (writers transfer_machine)) (SetLamports 3)
           = Some (Inr (), tx')
       \<and> is_owned_by_current_program plain_env (ctx transfer_machine) (hd (writers transfer_machine))"
proof -
  let ?tx = "ctx transfer_machine" and ?h = "hd (writers transfer_machine)"
  have ok: "handle_ok ?tx ?h" by code_simp
  let ?res = "the (run_account_op plain_env ?tx ?h (SetLamports 3))"
  have r: "run_account_op plain_env ?tx ?h (SetLamports 3) = Some (fst ?res, snd ?res)" "fst ?res = Inr ()"
    by (simp, code_simp)
  have "account_view plain_env (ba_account (snd ?res) ?h) \<noteq> account_view plain_env (ba_account ?tx ?h)"
    "lamports_of plain_env (ba_account (snd ?res) ?h) < get_lamports plain_env ?tx ?h"
    by code_simp+
  then have "is_owned_by_current_program plain_env ?tx ?h"
    using account_op_permissions[OF plain_env_laws ok r(1)] by (auto simp: permitted_def)
  with r show ?thesis by metis
qed

text \<open>The record of an executed transaction.  It lists the accounts under the keys they were
  loaded with, counts the touched ones, and an account that is not touched has the lamports,
  data, owner and executable flag it was loaded with, unless it belongs to the sysvar program
  (\<open>push\<close> writes the instructions sysvar without touching it).\<close>

theorem tx_record_untouched:
  assumes "tx_init E tas m0" "(tx_step data_ptr E)\<^sup>*\<^sup>* m0 m"
    "ExecutionRecord_from 0 (ctx m) = Some er"
  shows "map fst (er_accounts er) = map fst tas
       \<and> unat (er_touched_account_count er)
           = min (length (filter id (touched_flags (accounts (ctx m))))) usize_max
       \<and> (\<forall>i < length tas. \<not> touched_flags (accounts (ctx m)) ! i \<longrightarrow>
             account_view E (snd (er_accounts er ! i)) = account_view E (snd (tas ! i))
           \<or> owner_of E (snd (er_accounts er ! i)) = sysvar_id E)"
proof -
  from tx_system.reachable_inv[OF assms(1,2)] have
    k: "account_keys (ctx m) = map fst tas" and inv: "accounts_inv E (map snd tas) (accounts (ctx m))"
    by (auto simp: tx_inv_def)
  have er: "er_accounts er = zip (map fst tas) (account_values (accounts (ctx m)))"
    "er_touched_account_count er
       = word_of_nat (min (length (filter id (touched_flags (accounts (ctx m))))) usize_max)"
    using assms(3) k touched_count[of 0 "touched_flags (accounts (ctx m))"]
    by (auto simp: ExecutionRecord_from_def account_values_def)
  have len: "length (account_values (accounts (ctx m))) = length tas"
    using inv by (simp add: accounts_inv_def account_values_def)
  have "min (length (filter id (touched_flags (accounts (ctx m))))) usize_max < 2 ^ 64"
    by (simp add: usize_max_def min_def)
  then have "unat (er_touched_account_count er)
      = min (length (filter id (touched_flags (accounts (ctx m))))) usize_max"
    unfolding er(2) by (rule unat_u64_of_nat)
  moreover have "snd (er_accounts er ! i) = account_at (accounts (ctx m)) i" if "i < length tas" for i
    using that len by (simp add: er account_values_def account_at_def)
  ultimately show ?thesis using inv len by (auto simp: er accounts_inv_def)
qed

theorem tx_record_untouched_witness:
  "\<exists>er. ExecutionRecord_from 0 (ctx transfer_machine) = Some er \<and> unat (er_touched_account_count er) = 2
     \<and> account_view plain_env (snd (er_accounts er ! 2)) = account_view plain_env (snd (plain_accounts ! 2))"
proof -
  obtain er where er: "ExecutionRecord_from 0 (ctx transfer_machine) = Some er"
    by (simp add: ExecutionRecord_from_def)
  have f: "touched_flags (accounts (ctx transfer_machine)) = [True, True, False]" by code_simp
  have "owner_of plain_env (snd (er_accounts er ! 2)) \<noteq> sysvar_id plain_env"
    using er by (auto simp: ExecutionRecord_from_def transfer_machine_def plain_env_def)
  moreover have "(2 :: nat) < length plain_accounts" by code_simp
  ultimately show ?thesis
    using tx_record_untouched[OF plain_init transfer_steps er] er f
    by (auto simp: usize_max_def)
qed

text \<open>The deduplication map.  For at most 255 instruction accounts with indices below 256 the
  instruction is configured, and \<open>is_instruction_account_duplicate\<close> then answers \<open>None\<close> for the first
  occurrence of a transaction account and its position for every later one.\<close>

theorem dedup_map_first_occurrence:
  assumes "instruction_trace tx \<noteq> []" "length ias \<le> MAX_ACCOUNTS_PER_INSTRUCTION"
    "\<forall>ia \<in> set ias. unat (index_in_transaction ia) < MAX_ACCOUNTS_PER_TRANSACTION"
  shows "\<exists>tx'. configure_next_instruction_for_tests tx p ias d = Some (Inr (), tx')
    \<and> (\<forall>i j. unat i < length ias \<longrightarrow>
          position (\<lambda>ia. index_in_transaction ia = index_in_transaction (ias ! unat i)) ias = Some j \<longrightarrow>
          is_instruction_account_duplicate (last (instruction_trace tx')) i
            = Inr (if j = unat i then None else Some (word_of_nat j)))"
proof -
  obtain dm where dm: "build_dedup_map 0 ias (replicate MAX_ACCOUNTS_PER_TRANSACTION 255) = Some dm"
    using build_dedup_map_nth[of ias "replicate MAX_ACCOUNTS_PER_TRANSACTION 255" 0] assms(2,3)
    by (auto simp: MAX_ACCOUNTS_PER_INSTRUCTION_def)
  have l: "length ias \<le> 255" using assms(2) by (simp add: MAX_ACCOUNTS_PER_INSTRUCTION_def)
  note first = first_account_in_instruction[OF dm l assms(3)]
  show ?thesis
    using assms(1) first
    by (simp add: configure_next_instruction_for_tests_def dm configure_next_instruction_def update_last_def)
qed

theorem dedup_map_first_occurrence_witness:
  "\<exists>tx'. configure_next_instruction_for_tests (ctx plain_machine) 2
            [InstructionAccount_new 1 True True, InstructionAccount_new 0 False True,
             InstructionAccount_new 1 False False] [] = Some (Inr (), tx')
     \<and> is_instruction_account_duplicate (last (instruction_trace tx')) 2 = Inr (Some 0)"
proof -
  let ?ias = "[InstructionAccount_new 1 True True, InstructionAccount_new 0 False True,
             InstructionAccount_new 1 False False]"
  have 1: "instruction_trace (ctx plain_machine) \<noteq> []" by code_simp
  have 2: "length ?ias \<le> MAX_ACCOUNTS_PER_INSTRUCTION" by code_simp
  have 3: "\<forall>ia \<in> set ?ias. unat (index_in_transaction ia) < MAX_ACCOUNTS_PER_TRANSACTION" by code_simp
  have 4: "unat (2 :: u16) < length ?ias"
    "position (\<lambda>ia. index_in_transaction ia = index_in_transaction (?ias ! unat (2 :: u16))) ?ias = Some 0"
    by code_simp+
  from dedup_map_first_occurrence[OF 1 2 3, of 2 "[]"] obtain tx'
    where tx': "configure_next_instruction_for_tests (ctx plain_machine) 2 ?ias [] = Some (Inr (), tx')"
      "is_instruction_account_duplicate (last (instruction_trace tx')) 2
        = Inr (if 0 = unat (2 :: u16) then None else Some (word_of_nat 0))"
    using 4 by meson
  then show ?thesis by auto
qed

text \<open>The access violation handler keeps the virtual machine's view in step: whenever it changes
  the length of a memory region, the new length is exactly the length of the account's data, and
  it lies within the address space reserved for the account and the limit per account.\<close>

theorem handler_region_matches_account:
  assumes "account_laws E" "access_violation_handler data_ptr E s d ta region reserved access vm_addr len = (region', ta')"
    "region_len region' \<noteq> region_len region"
  shows "\<exists>index. access_violation_handler_payload region = Some index
       \<and> unat (region_len region') = length (data_of E (account_at ta' (unat index)))
       \<and> unat (region_len region') \<le> min (unat reserved) MAX_ACCOUNT_DATA_LEN"
proof -
  from assms(3) have ne: "(region', ta') \<noteq> (region, ta)" by auto
  obtain index ta1 ta2 n r3 ta3 ta4 where h: "try_borrow_mut ta index = Inr ta1" "touch ta1 index = Inr ta2"
    "handler_grow E ta2 index region reserved n = (r3, ta3)"
    "handler_unshare data_ptr E (s \<and> d) index (r3, ta3) = (region', ta4)" "ta' = drop_mut ta4 (unat index)"
    "access_violation_handler_payload region = Some index"
    by (rule handler_cases[OF assms(2) ne])
  let ?i = "unat index" and ?old = "length (data_of E (account_at ta2 (unat index)))"
  let ?new = "handler_new_len (resize_delta ta2) (unat reserved) ?old"
  have i: "?i < length (cells ta2)"
    using try_borrow_mutE[OF h(1)] h(2) by (auto simp: touch_def set_flag_def split: if_splits)
  have r: "region_len region' = region_len r3" "account_at ta' ?i = account_at ta4 ?i"
    using h(4,5) by (auto simp: handler_unshare_def Let_def split: if_splits)
  from h(3) assms(3) r(1) have g: "r3 = region\<lparr>region_len := word_of_nat ?new\<rparr>"
    "ta3 = set_account (ta2\<lparr>resize_delta := resized (resize_delta ta2) ?old ?new\<rparr>) ?i
             (account_resize E (account_at ta2 ?i) ?new 0)"
    by (auto simp: handler_grow_def Let_def update_accounts_resize_delta_def handler_new_len_def resized_def
        split: if_splits)
  have len: "length (data_of E (account_at ta3 ?i)) = ?new"
    using i by (simp add: g(2) account_law_simps[OF assms(1)])
  moreover have "?new < 2 ^ 64" using handler_new_len_bounds(2)[of "resize_delta ta2" "unat reserved" ?old]
    by (simp add: MAX_ACCOUNT_DATA_LEN_def)
  then have "unat (region_len region') = ?new" by (simp add: r(1) g(1) unat_of_nat)
  moreover have "length (data_of E (account_at ta4 ?i)) = length (data_of E (account_at ta3 ?i))"
    using h(4) i by (auto simp: handler_unshare_def Let_def g(2) account_write_simps[OF assms(1)] split: if_splits)
  ultimately show ?thesis using h(6) r(2) handler_new_len_bounds by auto
qed

theorem handler_region_matches_account_witness:
  "\<exists>region' ta'. access_violation_handler (\<lambda>_. 0) plain_env True True (accounts (ctx plain_machine))
       \<lparr>region_host_addr = 0, region_vm_addr = 100, region_len = 2, region_writable = False,
        access_violation_handler_payload = Some 0\<rparr> 10 Store 102 3 = (region', ta')
     \<and> unat (region_len region') = length (data_of plain_env (account_at ta' 0))
     \<and> region_len region' = 10"
proof -
  let ?r = "\<lparr>region_host_addr = 0, region_vm_addr = 100, region_len = 2, region_writable = False,
        access_violation_handler_payload = Some 0\<rparr>"
  let ?h = "access_violation_handler (\<lambda>_. 0) plain_env True True (accounts (ctx plain_machine)) ?r 10 Store 102 3"
  have l: "region_len (fst ?h) = 10" by code_simp
  then have "region_len (fst ?h) \<noteq> region_len ?r" by simp
  from handler_region_matches_account[OF plain_env_laws _ this, of "\<lambda>_. 0"] l show ?thesis
    by (intro exI[of _ "fst ?h"] exI[of _ "snd ?h"]) force
qed

end
