(* ===== verification/Packet.thy ===== *)
theory Packet
  imports Prelude
begin

section \<open>Packets and packet batches (\<open>perf/src/packet.rs\<close>)\<close>

text \<open>
  A batch holds either \<open>Packet\<close>s, the fixed-size type of an external crate, or \<open>BytesPacket\<close>s, a
  byte buffer with the same metadata; \<open>PacketRef\<close> and \<open>PacketRefMut\<close> hide the difference.  The
  external types \<open>Packet\<close> and \<open>Meta\<close> are the type parameters \<open>'pkt\<close> and \<open>'meta\<close>, their methods the
  fields of \<open>packet_env\<close>; \<open>packet_laws\<close> states what the code relies on.  A mutable reference is
  modelled by the packet after the mutation.  \<open>PinnedVec\<close> is a vector whose memory may be pinned
  for the GPU: its contents are the list.
\<close>

record ('meta, 'pkt) packet_env =
  meta_default :: 'meta
  meta_size :: "'meta \<Rightarrow> nat"
  meta_set_size :: "'meta \<Rightarrow> nat \<Rightarrow> 'meta"
  meta_discard :: "'meta \<Rightarrow> bool"
  meta_set_discard :: "'meta \<Rightarrow> bool \<Rightarrow> 'meta"
  meta_is_simple_vote_tx :: "'meta \<Rightarrow> bool"
  meta_set_simple_vote_tx :: "'meta \<Rightarrow> 'meta"
  packet_default :: 'pkt
  packet_meta :: "'pkt \<Rightarrow> 'meta"
  packet_set_meta :: "'pkt \<Rightarrow> 'meta \<Rightarrow> 'pkt"
  packet_buffer :: "'pkt \<Rightarrow> bytes"
  packet_set_buffer :: "'pkt \<Rightarrow> bytes \<Rightarrow> 'pkt"
  packet_data :: "'pkt \<Rightarrow> bytes option"

text \<open>The data of a \<open>Packet\<close> is its buffer up to the recorded size, and nothing once discarded.\<close>

definition packet_laws :: "('meta, 'pkt) packet_env \<Rightarrow> bool" where
  "packet_laws E \<longleftrightarrow>
     (\<forall>m b. meta_discard E (meta_set_discard E m b) = b
          \<and> meta_size E (meta_set_discard E m b) = meta_size E m
          \<and> meta_is_simple_vote_tx E (meta_set_discard E m b) = meta_is_simple_vote_tx E m)
   \<and> (\<forall>m. meta_discard E (meta_set_simple_vote_tx E m) = meta_discard E m
          \<and> meta_size E (meta_set_simple_vote_tx E m) = meta_size E m
          \<and> meta_is_simple_vote_tx E (meta_set_simple_vote_tx E m))
   \<and> (\<forall>m n. meta_size E (meta_set_size E m n) = n
          \<and> meta_discard E (meta_set_size E m n) = meta_discard E m
          \<and> (n = meta_size E m \<longrightarrow> meta_set_size E m n = m))
   \<and> (\<forall>p m. packet_meta E (packet_set_meta E p m) = m
          \<and> packet_buffer E (packet_set_meta E p m) = packet_buffer E p)
   \<and> (\<forall>p d. length d = length (packet_buffer E p) \<longrightarrow>
            packet_buffer E (packet_set_buffer E p d) = d
          \<and> packet_meta E (packet_set_buffer E p d) = packet_meta E p)
   \<and> (\<forall>p. packet_data E p =
            (if meta_discard E (packet_meta E p) then None
             else if meta_size E (packet_meta E p) \<le> length (packet_buffer E p)
             then Some (take (meta_size E (packet_meta E p)) (packet_buffer E p))
             else None))"

subsection \<open>\<open>BytesPacket\<close>\<close>

record 'meta bytes_packet =
  bp_buffer :: bytes
  bp_meta :: 'meta

definition BytesPacket_new :: "bytes \<Rightarrow> 'meta \<Rightarrow> 'meta bytes_packet" where
  "BytesPacket_new b m = \<lparr>bp_buffer = b, bp_meta = m\<rparr>"

definition BytesPacket_empty :: "('meta, 'pkt) packet_env \<Rightarrow> 'meta bytes_packet" where
  "BytesPacket_empty E = \<lparr>bp_buffer = [], bp_meta = meta_default E\<rparr>"

text \<open>\<open>set_addr\<close> is \<open>Meta::set_socket_addr\<close>.\<close>

definition BytesPacket_from_bytes ::
  "('meta, 'pkt) packet_env \<Rightarrow> ('meta \<Rightarrow> 'addr \<Rightarrow> 'meta) \<Rightarrow> 'addr option \<Rightarrow> bytes \<Rightarrow> 'meta bytes_packet" where
  "BytesPacket_from_bytes E set_addr dest b =
     (let m = meta_set_size E (meta_default E) (length b)
      in \<lparr>bp_buffer = b, bp_meta = (case dest of None \<Rightarrow> m | Some a \<Rightarrow> set_addr m a)\<rparr>)"

text \<open>\<open>data(..)\<close>; the other slice indices are taken of it by the functions of the prelude.\<close>

definition BytesPacket_data :: "('meta, 'pkt) packet_env \<Rightarrow> 'meta bytes_packet \<Rightarrow> bytes option" where
  "BytesPacket_data E p = (if meta_discard E (bp_meta p) then None else Some (bp_buffer p))"

text \<open>\<open>deserialize limit bytes\<close> is \<open>bincode\<close> with the options of the code and that size limit.\<close>

definition BytesPacket_deserialize_slice ::
  "('meta, 'pkt) packet_env \<Rightarrow> (nat \<Rightarrow> bytes \<Rightarrow> 'e + 't) \<Rightarrow> 'e \<Rightarrow> (bytes \<Rightarrow> bytes option)
   \<Rightarrow> 'meta bytes_packet \<Rightarrow> 'e + 't" where
  "BytesPacket_deserialize_slice E deserialize SizeLimit index p =
     and_then (ok_or (Option.bind (BytesPacket_data E p) index) SizeLimit)
       (deserialize (meta_size E (bp_meta p)))"

definition BytesPacket_copy_from_slice :: "'meta bytes_packet \<Rightarrow> bytes \<Rightarrow> 'meta bytes_packet" where
  "BytesPacket_copy_from_slice p d = p\<lparr>bp_buffer := d\<rparr>"

definition BytesPacket_set_buffer ::
  "('meta, 'pkt) packet_env \<Rightarrow> 'meta bytes_packet \<Rightarrow> bytes \<Rightarrow> 'meta bytes_packet" where
  "BytesPacket_set_buffer E p b = \<lparr>bp_buffer = b, bp_meta = meta_set_size E (bp_meta p) (length b)\<rparr>"

subsection \<open>References to packets\<close>

datatype ('meta, 'pkt) packet_ref = RefPacket 'pkt | RefBytes "'meta bytes_packet"

fun ref_data :: "('meta, 'pkt) packet_env \<Rightarrow> ('meta, 'pkt) packet_ref \<Rightarrow> bytes option" where
  "ref_data E (RefPacket p) = packet_data E p"
| "ref_data E (RefBytes p) = BytesPacket_data E p"

fun ref_meta :: "('meta, 'pkt) packet_env \<Rightarrow> ('meta, 'pkt) packet_ref \<Rightarrow> 'meta" where
  "ref_meta E (RefPacket p) = packet_meta E p"
| "ref_meta E (RefBytes p) = bp_meta p"

text \<open>An assignment through \<open>meta_mut\<close>.\<close>

fun ref_set_meta ::
  "('meta, 'pkt) packet_env \<Rightarrow> ('meta, 'pkt) packet_ref \<Rightarrow> 'meta \<Rightarrow> ('meta, 'pkt) packet_ref" where
  "ref_set_meta E (RefPacket p) m = RefPacket (packet_set_meta E p m)"
| "ref_set_meta E (RefBytes p) m = RefBytes (p\<lparr>bp_meta := m\<rparr>)"

definition ref_eq ::
  "('meta, 'pkt) packet_env \<Rightarrow> ('meta, 'pkt) packet_ref \<Rightarrow> ('meta, 'pkt) packet_ref \<Rightarrow> bool" where
  "ref_eq E p q \<longleftrightarrow> ref_meta E p = ref_meta E q \<and> ref_data E p = ref_data E q"

fun to_bytes_packet :: "('meta, 'pkt) packet_env \<Rightarrow> ('meta, 'pkt) packet_ref \<Rightarrow> 'meta bytes_packet" where
  "to_bytes_packet E (RefPacket p) =
     BytesPacket_new (case packet_data E p of Some d \<Rightarrow> d | None \<Rightarrow> []) (packet_meta E p)"
| "to_bytes_packet E (RefBytes p) = p"

definition ref_discard :: "('meta, 'pkt) packet_env \<Rightarrow> ('meta, 'pkt) packet_ref \<Rightarrow> bool" where
  "ref_discard E p = meta_discard E (ref_meta E p)"

definition ref_set_discard ::
  "('meta, 'pkt) packet_env \<Rightarrow> ('meta, 'pkt) packet_ref \<Rightarrow> bool \<Rightarrow> ('meta, 'pkt) packet_ref" where
  "ref_set_discard E p b = ref_set_meta E p (meta_set_discard E (ref_meta E p) b)"

subsection \<open>Batches\<close>

datatype ('meta, 'pkt) packet_batch = Pinned "'pkt list" | Bytes "'meta bytes_packet list"

fun batch_iter :: "('meta, 'pkt) packet_batch \<Rightarrow> ('meta, 'pkt) packet_ref list" where
  "batch_iter (Pinned ps) = map RefPacket ps"
| "batch_iter (Bytes ps) = map RefBytes ps"

fun batch_len :: "('meta, 'pkt) packet_batch \<Rightarrow> nat" where
  "batch_len (Pinned ps) = length ps"
| "batch_len (Bytes ps) = length ps"

fun batch_is_empty :: "('meta, 'pkt) packet_batch \<Rightarrow> bool" where
  "batch_is_empty (Pinned ps) \<longleftrightarrow> ps = []"
| "batch_is_empty (Bytes ps) \<longleftrightarrow> ps = []"

fun batch_first :: "('meta, 'pkt) packet_batch \<Rightarrow> ('meta, 'pkt) packet_ref option" where
  "batch_first (Pinned ps) = map_option RefPacket (slice_get ps 0)"
| "batch_first (Bytes ps) = map_option RefBytes (slice_get ps 0)"

fun batch_get :: "('meta, 'pkt) packet_batch \<Rightarrow> nat \<Rightarrow> ('meta, 'pkt) packet_ref option" where
  "batch_get (Pinned ps) i = map_option RefPacket (slice_get ps i)"
| "batch_get (Bytes ps) i = map_option RefBytes (slice_get ps i)"

text \<open>Writing the packets back that a pass of \<open>iter_mut\<close> left behind: the kind of the batch decides
  the kind of its packets.\<close>

fun ref_packet :: "('meta, 'pkt) packet_ref \<Rightarrow> 'pkt option" where
  "ref_packet (RefPacket p) = Some p"
| "ref_packet (RefBytes p) = None"

fun ref_bytes :: "('meta, 'pkt) packet_ref \<Rightarrow> 'meta bytes_packet option" where
  "ref_bytes (RefPacket p) = None"
| "ref_bytes (RefBytes p) = Some p"

fun batch_write :: "('meta, 'pkt) packet_batch \<Rightarrow> ('meta, 'pkt) packet_ref list \<Rightarrow> ('meta, 'pkt) packet_batch" where
  "batch_write (Pinned ps) rs = Pinned (List.map_filter ref_packet rs)"
| "batch_write (Bytes ps) rs = Bytes (List.map_filter ref_bytes rs)"

text \<open>A pass of \<open>iter_mut\<close> (or \<open>par_iter_mut\<close>, whose closures are independent) over a batch.\<close>

definition batch_map ::
  "(('meta, 'pkt) packet_ref \<Rightarrow> ('meta, 'pkt) packet_ref) \<Rightarrow> ('meta, 'pkt) packet_batch
   \<Rightarrow> ('meta, 'pkt) packet_batch" where
  "batch_map f b = batch_write b (map f (batch_iter b))"

definition set_addr ::
  "('meta, 'pkt) packet_env \<Rightarrow> ('meta \<Rightarrow> 'addr \<Rightarrow> 'meta) \<Rightarrow> 'addr \<Rightarrow> 'pkt list \<Rightarrow> 'pkt list" where
  "set_addr E set_socket_addr addr ps =
     map (\<lambda>p. packet_set_meta E p (set_socket_addr (packet_meta E p) addr)) ps"

text \<open>\<open>populate p addr data\<close> is \<open>Packet::populate_packet\<close>: the packet afterwards and whether it
  succeeded.  \<open>unspecified\<close> and \<open>port\<close> read the socket address.\<close>

definition new_unpinned_with_recycler_data_and_dests ::
  "('meta, 'pkt) packet_env \<Rightarrow> ('pkt \<Rightarrow> 'addr option \<Rightarrow> 't \<Rightarrow> 'pkt \<times> bool) \<Rightarrow> ('addr \<Rightarrow> bool) \<Rightarrow> ('addr \<Rightarrow> u16)
   \<Rightarrow> ('addr \<times> 't) list \<Rightarrow> 'pkt list" where
  "new_unpinned_with_recycler_data_and_dests E populate unspecified port dests_and_data =
     map (\<lambda>((addr, d), packet).
            let set_discarded = (\<lambda>p. packet_set_meta E p (meta_set_discard E (packet_meta E p) True))
            in if \<not> unspecified addr \<and> port addr \<noteq> 0
               then let (packet', ok) = populate packet (Some addr) d
                    in if ok then packet' else set_discarded packet'
               else set_discarded packet)
       (zip dests_and_data (replicate (length dests_and_data) (packet_default E)))"

text \<open>\<open>slice.chunks(n)\<close>, which panics for \<open>n = 0\<close>.\<close>

function slice_chunks :: "nat \<Rightarrow> 'a list \<Rightarrow> 'a list list" where
  "slice_chunks n xs = (if n = 0 \<or> xs = [] then [] else take n xs # slice_chunks n (drop n xs))"
  by pat_completeness auto
termination by (relation "measure (\<lambda>(n, xs). length xs)") auto

declare slice_chunks.simps [simp del]

fun populate_all :: "('pkt \<Rightarrow> 't \<Rightarrow> 'pkt option) \<Rightarrow> ('t \<times> 'pkt) list \<Rightarrow> 'pkt list option" where
  "populate_all populate [] = Some []"
| "populate_all populate ((x, p) # rest) =
     do { p' \<leftarrow> populate p x; ps \<leftarrow> populate_all populate rest; Some (p' # ps) }"

fun collect_options :: "'a option list \<Rightarrow> 'a list option" where
  "collect_options [] = Some []"
| "collect_options (x # xs) = do { a \<leftarrow> x; as \<leftarrow> collect_options xs; Some (a # as) }"

definition to_packet_batches ::
  "('meta, 'pkt) packet_env \<Rightarrow> ('pkt \<Rightarrow> 't \<Rightarrow> 'pkt option) \<Rightarrow> 't list \<Rightarrow> nat
   \<Rightarrow> ('meta, 'pkt) packet_batch list option" where
  "to_packet_batches E populate items chunk_size =
     (if chunk_size = 0 then None
      else collect_options
        (map (\<lambda>batch_items. map_option Pinned
                (populate_all populate (zip batch_items (replicate (length batch_items) (packet_default E)))))
          (slice_chunks chunk_size items)))"

text \<open>\<open>packet.buffer_mut()[..size].copy_from_slice(&buffer)\<close> panics when \<open>size\<close> runs past the packet's
  buffer or differs from the length of the source.\<close>

definition bytes_to_packet ::
  "('meta, 'pkt) packet_env \<Rightarrow> 'meta bytes_packet \<Rightarrow> 'pkt option" where
  "bytes_to_packet E bp =
     (let size = meta_size E (bp_meta bp);
          packet = packet_set_meta E (packet_default E) (bp_meta bp);
          packet' = packet_set_meta E packet (meta_set_size E (packet_meta E packet) size)
      in if size \<le> length (packet_buffer E packet') \<and> length (bp_buffer bp) = size
         then Some (packet_set_buffer E packet' (bp_buffer bp @ drop size (packet_buffer E packet')))
         else None)"

definition to_pinned_packet_batch ::
  "('meta, 'pkt) packet_env \<Rightarrow> 'meta bytes_packet list \<Rightarrow> 'pkt list option" where
  "to_pinned_packet_batch E ps = collect_options (map (bytes_to_packet E) ps)"

subsection \<open>Lemmas\<close>

fun same_kind :: "('meta, 'pkt) packet_ref \<Rightarrow> ('meta, 'pkt) packet_ref \<Rightarrow> bool" where
  "same_kind (RefPacket p) (RefPacket q) \<longleftrightarrow> True"
| "same_kind (RefBytes p) (RefBytes q) \<longleftrightarrow> True"
| "same_kind _ _ \<longleftrightarrow> False"

lemma same_kind_simps [simp]:
  "same_kind p p" "same_kind (ref_set_meta E p m) p" "same_kind (ref_set_discard E p b) p"
  by (cases p; simp add: ref_set_discard_def)+

lemma same_kind_iff:
  "same_kind r (RefPacket q) \<longleftrightarrow> (\<exists>p. r = RefPacket p)"
  "same_kind r (RefBytes q') \<longleftrightarrow> (\<exists>p. r = RefBytes p)"
  by (cases r; simp)+

lemma same_kind_trans: "same_kind p q \<Longrightarrow> same_kind q r \<Longrightarrow> same_kind p r"
  by (cases p; cases q; cases r) simp_all

lemma map_filter_refs:
  "(\<forall>r \<in> set rs. \<exists>p. r = RefPacket p) \<Longrightarrow> map RefPacket (List.map_filter ref_packet rs) = rs"
  "(\<forall>r \<in> set rs. \<exists>p. r = RefBytes p) \<Longrightarrow> map RefBytes (List.map_filter ref_bytes rs) = rs"
  by (induction rs) (auto simp: map_filter_simps)

lemma batch_iter_map:
  assumes "\<And>p. same_kind (f p) p"
  shows "batch_iter (batch_map f b) = map f (batch_iter b)"
proof (cases b)
  case (Pinned ps)
  have "\<exists>q. f (RefPacket p) = RefPacket q" for p
    using assms[of "RefPacket p"] by (simp add: same_kind_iff)
  then have "\<forall>r \<in> set (map f (map RefPacket ps)). \<exists>p. r = RefPacket p" by auto
  from map_filter_refs(1)[OF this] show ?thesis using Pinned by (simp add: batch_map_def)
next
  case (Bytes ps)
  have "\<exists>q. f (RefBytes p) = RefBytes q" for p
    using assms[of "RefBytes p"] by (simp add: same_kind_iff)
  then have "\<forall>r \<in> set (map f (map RefBytes ps)). \<exists>p. r = RefBytes p" by auto
  from map_filter_refs(2)[OF this] show ?thesis using Bytes by (simp add: batch_map_def)
qed

lemma length_batch_iter [simp]: "length (batch_iter b) = batch_len b"
  by (cases b) simp_all

lemma batch_iter_write:
  assumes "list_all2 same_kind rs (batch_iter b)"
  shows "batch_iter (batch_write b rs) = rs"
proof (cases b)
  case (Pinned ps)
  then have "\<forall>r \<in> set rs. \<exists>p. r = RefPacket p"
    using assms by (auto simp: list_all2_conv_all_nth in_set_conv_nth same_kind_iff)
  then show ?thesis using Pinned map_filter_refs(1) by simp
next
  case (Bytes ps)
  then have "\<forall>r \<in> set rs. \<exists>p. r = RefBytes p"
    using assms by (auto simp: list_all2_conv_all_nth in_set_conv_nth same_kind_iff)
  then show ?thesis using Bytes map_filter_refs(2) by simp
qed

lemma ref_set_discard_simps [simp]:
  assumes "packet_laws E"
  shows "ref_discard E (ref_set_discard E p b) = b"
    "meta_size E (ref_meta E (ref_set_discard E p b)) = meta_size E (ref_meta E p)"
    "meta_is_simple_vote_tx E (ref_meta E (ref_set_discard E p b)) = meta_is_simple_vote_tx E (ref_meta E p)"
  using assms by (cases p; simp add: ref_set_discard_def ref_discard_def packet_laws_def)+

lemma ref_data_discarded: "packet_laws E \<Longrightarrow> ref_discard E p \<Longrightarrow> ref_data E p = None"
  by (cases p) (simp_all add: packet_laws_def ref_discard_def BytesPacket_data_def)

text \<open>Marking a packet as a simple vote changes neither its data nor its size.\<close>

definition ref_mark_vote ::
  "('meta, 'pkt) packet_env \<Rightarrow> ('meta, 'pkt) packet_ref \<Rightarrow> ('meta, 'pkt) packet_ref" where
  "ref_mark_vote E p = ref_set_meta E p (meta_set_simple_vote_tx E (ref_meta E p))"

lemma ref_mark_vote_simps [simp]:
  assumes "packet_laws E"
  shows "ref_data E (ref_mark_vote E p) = ref_data E p"
    "meta_size E (ref_meta E (ref_mark_vote E p)) = meta_size E (ref_meta E p)"
    "ref_discard E (ref_mark_vote E p) = ref_discard E p"
    "meta_is_simple_vote_tx E (ref_meta E (ref_mark_vote E p))"
  using assms
  by (cases p; simp add: ref_mark_vote_def packet_laws_def ref_discard_def BytesPacket_data_def)+

lemma same_kind_mark_vote [simp]: "same_kind (ref_mark_vote E p) p"
  by (simp add: ref_mark_vote_def)

text \<open>The chunks of a slice are all full but the last, and together they are the slice.\<close>

lemma concat_slice_chunks: "0 < n \<Longrightarrow> concat (slice_chunks n xs) = xs"
  by (induction n xs rule: slice_chunks.induct) (subst slice_chunks.simps, auto)

subsection \<open>Converting packets\<close>

lemma collect_options_None: "collect_options xs = None \<longleftrightarrow> None \<in> set xs"
  by (induction xs) (auto split: bind_splits)

lemma collect_options_map:
  "collect_options (map f bs) = Some ps \<Longrightarrow> list_all2 (\<lambda>p b. f b = Some p) ps bs"
  by (induction bs arbitrary: ps) (auto simp: bind_eq_Some_conv)

lemma bytes_to_packet_None:
  assumes "packet_laws E"
  shows "bytes_to_packet E b = None \<longleftrightarrow>
     \<not> (length (bp_buffer b) = meta_size E (bp_meta b)
        \<and> meta_size E (bp_meta b) \<le> length (packet_buffer E (packet_default E)))"
  using assms by (auto simp: bytes_to_packet_def Let_def packet_laws_def)

lemma bytes_to_packet_same:
  assumes "packet_laws E" "bytes_to_packet E b = Some p"
  shows "ref_eq E (RefPacket p) (RefBytes b)
       \<and> (meta_discard E (bp_meta b) \<or> to_bytes_packet E (RefPacket p) = b)"
proof -
  let ?q = "packet_set_meta E (packet_default E) (bp_meta b)"
  have m: "meta_set_size E (bp_meta b) (meta_size E (bp_meta b)) = bp_meta b" "packet_meta E ?q = bp_meta b"
    "packet_meta E (packet_set_meta E ?q (bp_meta b)) = bp_meta b"
    using assms(1) by (simp_all add: packet_laws_def)
  let ?r = "packet_set_meta E ?q (bp_meta b)"
  let ?d = "bp_buffer b @ drop (meta_size E (bp_meta b)) (packet_buffer E ?r)"
  from assms(2) m have p: "p = packet_set_buffer E ?r ?d" "meta_size E (bp_meta b) \<le> length (packet_buffer E ?r)"
    "length (bp_buffer b) = meta_size E (bp_meta b)"
    by (auto simp: bytes_to_packet_def Let_def split: if_splits)
  then have "length ?d = length (packet_buffer E ?r)" by simp
  then have "packet_buffer E p = ?d" "packet_meta E p = bp_meta b"
    using assms(1) m(3) unfolding p(1) packet_laws_def by metis+
  moreover have "packet_data E p = (if meta_discard E (packet_meta E p) then None
             else if meta_size E (packet_meta E p) \<le> length (packet_buffer E p)
             then Some (take (meta_size E (packet_meta E p)) (packet_buffer E p)) else None)"
    using assms(1) by (simp add: packet_laws_def)
  ultimately show ?thesis using p(2,3)
    by (auto simp: ref_eq_def BytesPacket_data_def BytesPacket_new_def)
qed

subsection \<open>Concrete packets\<close>

text \<open>Metadata and packets as plain records, which satisfy the laws.\<close>

record plain_meta =
  pm_size :: nat
  pm_discard :: bool
  pm_vote :: bool

record plain_packet =
  pp_meta :: plain_meta
  pp_buffer :: bytes

definition plain_packet_env :: "(plain_meta, plain_packet) packet_env" where
  "plain_packet_env =
     \<lparr>meta_default = \<lparr>pm_size = 0, pm_discard = False, pm_vote = False\<rparr>,
      meta_size = pm_size, meta_set_size = (\<lambda>m n. m\<lparr>pm_size := n\<rparr>),
      meta_discard = pm_discard, meta_set_discard = (\<lambda>m b. m\<lparr>pm_discard := b\<rparr>),
      meta_is_simple_vote_tx = pm_vote, meta_set_simple_vote_tx = (\<lambda>m. m\<lparr>pm_vote := True\<rparr>),
      packet_default = \<lparr>pp_meta = \<lparr>pm_size = 0, pm_discard = False, pm_vote = False\<rparr>,
                        pp_buffer = replicate 128 0\<rparr>,
      packet_meta = pp_meta, packet_set_meta = (\<lambda>p m. p\<lparr>pp_meta := m\<rparr>),
      packet_buffer = pp_buffer, packet_set_buffer = (\<lambda>p d. p\<lparr>pp_buffer := d\<rparr>),
      packet_data = (\<lambda>p. if pm_discard (pp_meta p) then None
                          else if pm_size (pp_meta p) \<le> length (pp_buffer p)
                          then Some (take (pm_size (pp_meta p)) (pp_buffer p)) else None)\<rparr>"

lemma plain_packet_laws: "packet_laws plain_packet_env"
  by (simp add: packet_laws_def plain_packet_env_def)

subsection \<open>Properties\<close>

text \<open>Converting a \<open>BytesPacket\<close> for the GPU keeps it: when \<open>to_pinned_packet_batch\<close> does not panic the
  batch it makes holds, packet by packet, equal packets in the sense of \<open>PacketRef\<close>'s equality, and
  converting one that is not discarded back gives the original.  It panics exactly when some
  packet's recorded size is not the length of its buffer or does not fit a \<open>Packet\<close>.\<close>

theorem to_pinned_packet_batch_roundtrip:
  assumes "packet_laws E"
  shows "(to_pinned_packet_batch E bs = None \<longleftrightarrow>
            (\<exists>b \<in> set bs. \<not> (length (bp_buffer b) = meta_size E (bp_meta b)
                \<and> meta_size E (bp_meta b) \<le> length (packet_buffer E (packet_default E)))))
       \<and> (\<forall>ps. to_pinned_packet_batch E bs = Some ps \<longrightarrow>
            list_all2 (\<lambda>p b. ref_eq E (RefPacket p) (RefBytes b)
                \<and> (meta_discard E (bp_meta b) \<or> to_bytes_packet E (RefPacket p) = b)) ps bs)"
proof -
  have "None \<in> set (map (bytes_to_packet E) bs) \<longleftrightarrow> (\<exists>b \<in> set bs. bytes_to_packet E b = None)"
    by (force simp: image_iff)
  then have "to_pinned_packet_batch E bs = None \<longleftrightarrow> (\<exists>b \<in> set bs. bytes_to_packet E b = None)"
    unfolding to_pinned_packet_batch_def collect_options_None by blast
  moreover have "list_all2 (\<lambda>p b. ref_eq E (RefPacket p) (RefBytes b)
        \<and> (meta_discard E (bp_meta b) \<or> to_bytes_packet E (RefPacket p) = b)) ps bs"
    if "to_pinned_packet_batch E bs = Some ps" for ps
    using collect_options_map[OF that[unfolded to_pinned_packet_batch_def]]
    by (rule list_all2_mono) (rule bytes_to_packet_same[OF assms])
  ultimately show ?thesis unfolding bytes_to_packet_None[OF assms] by blast
qed

theorem to_pinned_packet_batch_roundtrip_witness:
  "\<exists>p. to_pinned_packet_batch plain_packet_env
          [BytesPacket_set_buffer plain_packet_env (BytesPacket_empty plain_packet_env) [1, 2, 3]] = Some [p]
     \<and> ref_data plain_packet_env (RefPacket p) = Some [1, 2, 3]"
proof -
  let ?b = "BytesPacket_set_buffer plain_packet_env (BytesPacket_empty plain_packet_env) [1, 2, 3]"
  have b: "length (bp_buffer ?b) = meta_size plain_packet_env (bp_meta ?b)"
    "meta_size plain_packet_env (bp_meta ?b) \<le> length (packet_buffer plain_packet_env (packet_default plain_packet_env))"
    "ref_data plain_packet_env (RefBytes ?b) = Some [1, 2, 3]"
    by (simp_all add: plain_packet_env_def BytesPacket_set_buffer_def BytesPacket_empty_def BytesPacket_data_def)
  then obtain ps where ps: "to_pinned_packet_batch plain_packet_env [?b] = Some ps"
    using to_pinned_packet_batch_roundtrip[OF plain_packet_laws, of "[?b]"] by auto
  with to_pinned_packet_batch_roundtrip[OF plain_packet_laws, of "[?b]"] obtain p
    where "ps = [p]" "ref_eq plain_packet_env (RefPacket p) (RefBytes ?b)"
    by (auto simp: list_all2_Cons2)
  with ps b(3) show ?thesis by (auto simp: ref_eq_def)
qed

end
