(* ===== verification/Sigverify.thy ===== *)
theory Sigverify
  imports Packet
begin

section \<open>Signature verification of packets (\<open>perf/src/sigverify.rs\<close>)\<close>

text \<open>
  From the raw bytes of a packet to the decision to drop it: the offsets of the signatures, keys
  and message of a transaction are parsed with bounds checks, every signature is verified on the
  CPU or in bulk on the GPU, and what fails is marked as discarded.  External code is the
  parameter \<open>sigverify_env\<close>: the \<open>short_vec\<close> decoder, ed25519, the constants of the message format,
  the id of the vote program and the GPU kernel with its presence.
\<close>

record 'sig sigverify_env =
  decode_shortu16_len :: "bytes \<Rightarrow> (nat \<times> nat) option"
  signature_try_from :: "bytes \<Rightarrow> 'sig option"
  signature_verify :: "'sig \<Rightarrow> bytes \<Rightarrow> bytes \<Rightarrow> bool"
  message_header_length :: nat
  message_version_prefix :: u8
  vote_id :: bytes
  size_of_packet :: nat

text \<open>The decoder reads at least one byte and never past its input.\<close>

definition sigverify_laws :: "'sig sigverify_env \<Rightarrow> bool" where
  "sigverify_laws V \<longleftrightarrow>
     (\<forall>bs v n. decode_shortu16_len V bs = Some (v, n) \<longrightarrow> v \<le> 65535 \<and> 1 \<le> n \<and> n \<le> length bs)"

definition size_of_Signature :: nat where "size_of_Signature = 64"
definition size_of_Pubkey :: nat where "size_of_Pubkey = 32"
definition size_of_Hash :: nat where "size_of_Hash = 32"

record packet_offsets =
  sig_len :: u32
  sig_start :: u32
  msg_start :: u32
  pubkey_start :: u32
  pubkey_len :: u32

definition PacketOffsets_new :: "u32 \<Rightarrow> u32 \<Rightarrow> u32 \<Rightarrow> u32 \<Rightarrow> u32 \<Rightarrow> packet_offsets" where
  "PacketOffsets_new a b c d e =
     \<lparr>sig_len = a, sig_start = b, msg_start = c, pubkey_start = d, pubkey_len = e\<rparr>"

datatype packet_error =
    InvalidLen | InvalidPubkeyLen | InvalidShortVec | InvalidSignatureLen | MismatchSignatureLen
  | PayerNotWritable | InvalidProgramIdIndex | InvalidProgramLen | UnsupportedVersion

text \<open>\<open>u32::try_from(n)?\<close>, whose error converts to \<open>InvalidLen\<close>.\<close>

definition u32_try_from :: "nat \<Rightarrow> packet_error + u32" where
  "u32_try_from n = (if n < 2 ^ 32 then Inr (word_of_nat n) else Inl InvalidLen)"

definition filter_le :: "nat option \<Rightarrow> nat \<Rightarrow> nat option" where
  "filter_le x limit = (case x of Some v \<Rightarrow> if v \<le> limit then Some v else None | None \<Rightarrow> None)"

subsection \<open>Offsets\<close>

unbundle bit_operations_syntax

definition message_header_offset ::
  "'sig sigverify_env \<Rightarrow> ('meta, 'pkt) packet_env \<Rightarrow> ('meta, 'pkt) packet_ref \<Rightarrow> nat
   \<Rightarrow> packet_error + nat" where
  "message_header_offset V E packet msg_start_offset =
     (if msg_start_offset \<ge> meta_size E (ref_meta E packet) then Inl InvalidSignatureLen
      else
        and_then (ok_or (do { d \<leftarrow> ref_data E packet; slice_get d msg_start_offset }) InvalidSignatureLen)
          (\<lambda>message_prefix.
             if message_prefix AND message_version_prefix V \<noteq> 0
             then if message_prefix AND (NOT (message_version_prefix V)) = 0
                  then ok_or (checked_add msg_start_offset 1) InvalidLen
                  else Inl UnsupportedVersion
             else Inr msg_start_offset))"

text \<open>The stages of \<open>do_get_packet_offsets\<close>: the signatures, the message header, the account keys,
  and the shift of the offsets to the packet's place in the batch.\<close>

definition parse_signatures ::
  "'sig sigverify_env \<Rightarrow> ('meta, 'pkt) packet_env \<Rightarrow> ('meta, 'pkt) packet_ref
   \<Rightarrow> packet_error + nat \<times> nat \<times> nat" where
  "parse_signatures V E packet =
     and_then (ok_or (filter_le (checked_add 1 size_of_Signature) (meta_size E (ref_meta E packet))) InvalidLen) (\<lambda>_.
     and_then (ok_or (do { d \<leftarrow> ref_data E packet; decode_shortu16_len V d }) InvalidShortVec) (\<lambda>(sig_len_untrusted, sig_size).
     and_then (ok_or (do { v \<leftarrow> checked_mul sig_len_untrusted size_of_Signature; checked_add v sig_size }) InvalidLen) (\<lambda>msg_start_offset.
     Inr (sig_len_untrusted, sig_size, msg_start_offset))))"

definition check_message_header ::
  "'sig sigverify_env \<Rightarrow> ('meta, 'pkt) packet_env \<Rightarrow> ('meta, 'pkt) packet_ref \<Rightarrow> nat \<Rightarrow> nat
   \<Rightarrow> packet_error + nat" where
  "check_message_header V E packet sig_len_untrusted msg_header_offset =
     and_then (ok_or (checked_add msg_header_offset 1) InvalidLen) (\<lambda>msg_header_offset_plus_one.
     and_then (ok_or (filter_le (checked_add msg_header_offset_plus_one (message_header_length V)) (meta_size E (ref_meta E packet))) InvalidSignatureLen) (\<lambda>_.
     and_then (ok_or (do { d \<leftarrow> ref_data E packet; slice_get d msg_header_offset }) InvalidSignatureLen) (\<lambda>sig_len_maybe_trusted.
     and_then (ok_or (checked_add msg_header_offset (message_header_length V)) InvalidSignatureLen) (\<lambda>message_account_keys_len_offset.
     and_then (ok_or (do { d \<leftarrow> ref_data E packet; slice_get d msg_header_offset_plus_one }) InvalidSignatureLen) (\<lambda>readonly_signers.
     if sig_len_maybe_trusted \<le> readonly_signers then Inl PayerNotWritable
     else if unat sig_len_maybe_trusted \<noteq> sig_len_untrusted then Inl MismatchSignatureLen
     else Inr message_account_keys_len_offset)))))"

definition parse_account_keys ::
  "'sig sigverify_env \<Rightarrow> ('meta, 'pkt) packet_env \<Rightarrow> ('meta, 'pkt) packet_ref \<Rightarrow> nat \<Rightarrow> nat
   \<Rightarrow> packet_error + nat \<times> nat" where
  "parse_account_keys V E packet sig_len_untrusted message_account_keys_len_offset =
     and_then (ok_or (do { d \<leftarrow> ref_data E packet; bs \<leftarrow> slice_from d message_account_keys_len_offset;
                           decode_shortu16_len V bs }) InvalidShortVec) (\<lambda>(pk_len, pubkey_len_size).
     and_then (ok_or (checked_add message_account_keys_len_offset pubkey_len_size) InvalidPubkeyLen) (\<lambda>pk_start.
     and_then (ok_or (filter_le (do { v \<leftarrow> checked_mul pk_len size_of_Pubkey; checked_add v pk_start }) (meta_size E (ref_meta E packet))) InvalidPubkeyLen) (\<lambda>_.
     if pk_len < sig_len_untrusted then Inl InvalidPubkeyLen
     else Inr (pk_len, pk_start))))"

definition shift_offsets :: "nat \<Rightarrow> nat \<Rightarrow> nat \<Rightarrow> nat \<Rightarrow> nat \<Rightarrow> nat \<Rightarrow> packet_error + packet_offsets" where
  "shift_offsets current_offset sig_len_untrusted sig_size msg_start_offset pk_start pk_len =
     and_then (ok_or (checked_add current_offset sig_size) InvalidLen) (\<lambda>sig_at.
     and_then (ok_or (checked_add current_offset msg_start_offset) InvalidLen) (\<lambda>msg_at.
     and_then (ok_or (checked_add current_offset pk_start) InvalidLen) (\<lambda>pk_at.
     and_then (u32_try_from sig_len_untrusted) (\<lambda>a.
     and_then (u32_try_from sig_at) (\<lambda>b.
     and_then (u32_try_from msg_at) (\<lambda>c.
     and_then (u32_try_from pk_at) (\<lambda>d.
     and_then (u32_try_from pk_len) (\<lambda>e.
     Inr (PacketOffsets_new a b c d e)))))))))"

definition do_get_packet_offsets ::
  "'sig sigverify_env \<Rightarrow> ('meta, 'pkt) packet_env \<Rightarrow> ('meta, 'pkt) packet_ref \<Rightarrow> nat
   \<Rightarrow> packet_error + packet_offsets" where
  "do_get_packet_offsets V E packet current_offset =
     and_then (parse_signatures V E packet) (\<lambda>(sig_len_untrusted, sig_size, msg_start_offset).
     and_then (message_header_offset V E packet msg_start_offset) (\<lambda>msg_header_offset.
     and_then (check_message_header V E packet sig_len_untrusted msg_header_offset) (\<lambda>keys_len_offset.
     and_then (parse_account_keys V E packet sig_len_untrusted keys_len_offset) (\<lambda>(pk_len, pk_start).
     shift_offsets current_offset sig_len_untrusted sig_size msg_start_offset pk_start pk_len))))"

text \<open>Only the flag of the packet can change, and only on the last step of the success path.\<close>

definition check_for_simple_vote_transaction ::
  "'sig sigverify_env \<Rightarrow> ('meta, 'pkt) packet_env \<Rightarrow> ('meta, 'pkt) packet_ref \<Rightarrow> packet_offsets \<Rightarrow> nat
   \<Rightarrow> packet_error + ('meta, 'pkt) packet_ref" where
  "check_for_simple_vote_transaction V E packet offsets current_offset =
     (if sig_len offsets > 2 then Inl InvalidSignatureLen
      else
     and_then (ok_or (checked_sub (unat (msg_start offsets)) current_offset) InvalidLen) (\<lambda>msg_at.
     and_then (ok_or (do { d \<leftarrow> ref_data E packet; slice_get d msg_at }) InvalidLen) (\<lambda>message_prefix.
     if message_prefix AND message_version_prefix V \<noteq> 0 then Inr packet
     else
     and_then (ok_or (checked_sub (unat (pubkey_start offsets)) current_offset) InvalidLen) (\<lambda>pk_at.
     and_then (ok_or (do { v \<leftarrow> checked_mul (unat (pubkey_len offsets)) size_of_Pubkey; w \<leftarrow> checked_add v pk_at;
                           checked_add w size_of_Hash }) InvalidLen) (\<lambda>instructions_len_offset.
     and_then (ok_or (filter_le (checked_add instructions_len_offset 1) (meta_size E (ref_meta E packet))) InvalidLen) (\<lambda>_.
     and_then (ok_or (do { d \<leftarrow> ref_data E packet; bs \<leftarrow> slice_from d instructions_len_offset;
                           decode_shortu16_len V bs }) InvalidLen) (\<lambda>(instruction_len, instruction_len_size).
     if instruction_len \<noteq> 1 then Inl InvalidProgramLen
     else
     and_then (ok_or (checked_add instructions_len_offset instruction_len_size) InvalidLen) (\<lambda>instruction_start.
     and_then (ok_or (filter_le (checked_add instruction_start 1) (meta_size E (ref_meta E packet))) InvalidLen) (\<lambda>_.
     and_then (ok_or (do { d \<leftarrow> ref_data E packet; slice_get d instruction_start }) InvalidLen) (\<lambda>program_id_index.
     if unat program_id_index \<ge> unat (pubkey_len offsets) then Inl InvalidProgramIdIndex
     else
     and_then (ok_or (do { v \<leftarrow> checked_mul (unat program_id_index) size_of_Pubkey; checked_add v pk_at }) InvalidLen) (\<lambda>program_id_start.
     and_then (ok_or (checked_add program_id_start size_of_Pubkey) InvalidLen) (\<lambda>program_id_end.
     and_then (ok_or (do { d \<leftarrow> ref_data E packet; slice_range d program_id_start program_id_end }) InvalidLen) (\<lambda>program_id.
     Inr (if program_id = vote_id V then ref_mark_vote E packet else packet))))))))))))))"

definition get_packet_offsets ::
  "'sig sigverify_env \<Rightarrow> ('meta, 'pkt) packet_env \<Rightarrow> ('meta, 'pkt) packet_ref \<Rightarrow> nat \<Rightarrow> bool
   \<Rightarrow> packet_offsets \<times> ('meta, 'pkt) packet_ref" where
  "get_packet_offsets V E packet current_offset reject_non_vote =
     (case do_get_packet_offsets V E packet current_offset of
        Inr offsets \<Rightarrow>
          let packet' = (case check_for_simple_vote_transaction V E packet offsets current_offset of
                           Inl _ \<Rightarrow> packet | Inr p \<Rightarrow> p)
          in if \<not> reject_non_vote \<or> meta_is_simple_vote_tx E (ref_meta E packet')
             then (offsets, packet')
             else (PacketOffsets_new 0 0 0 0 0, packet')
      | Inl _ \<Rightarrow> (PacketOffsets_new 0 0 0 0 0, packet))"

subsection \<open>Verification on the CPU\<close>

text \<open>The loop of \<open>verify_packet\<close> over the signatures; \<open>d\<close> is \<open>packet.data(..)\<close>.\<close>

fun verify_signatures ::
  "'sig sigverify_env \<Rightarrow> bytes option \<Rightarrow> nat \<Rightarrow> nat \<Rightarrow> nat \<Rightarrow> nat \<Rightarrow> bool" where
  "verify_signatures V data msg_at 0 sig_at pk_at = True"
| "verify_signatures V data msg_at (Suc k) sig_at pk_at =
     (let pubkey_end = saturating_add pk_at size_of_Pubkey
      in case checked_add sig_at size_of_Signature of
           None \<Rightarrow> False
         | Some sig_end \<Rightarrow>
             (case do { d \<leftarrow> data; s \<leftarrow> slice_range d sig_at sig_end; signature_try_from V s } of
                None \<Rightarrow> False
              | Some signature \<Rightarrow>
                  (case do { d \<leftarrow> data; slice_range d pk_at pubkey_end } of
                     None \<Rightarrow> False
                   | Some pubkey \<Rightarrow>
                       (case do { d \<leftarrow> data; slice_from d msg_at } of
                          None \<Rightarrow> False
                        | Some message \<Rightarrow>
                            if \<not> signature_verify V signature pubkey message then False
                            else verify_signatures V data msg_at k sig_end pubkey_end))))"

definition verify_packet ::
  "'sig sigverify_env \<Rightarrow> ('meta, 'pkt) packet_env \<Rightarrow> ('meta, 'pkt) packet_ref \<Rightarrow> bool
   \<Rightarrow> bool \<times> ('meta, 'pkt) packet_ref" where
  "verify_packet V E packet reject_non_vote =
     (if ref_discard E packet then (False, packet)
      else
        let (offsets, packet') = get_packet_offsets V E packet 0 reject_non_vote
        in if sig_len offsets = 0 then (False, packet')
           else if meta_size E (ref_meta E packet') \<le> unat (msg_start offsets) then (False, packet')
           else (verify_signatures V (ref_data E packet') (unat (msg_start offsets)) (unat (sig_len offsets))
                   (unat (sig_start offsets)) (unat (pubkey_start offsets)), packet'))"

definition verify_one ::
  "'sig sigverify_env \<Rightarrow> ('meta, 'pkt) packet_env \<Rightarrow> bool \<Rightarrow> ('meta, 'pkt) packet_ref
   \<Rightarrow> ('meta, 'pkt) packet_ref" where
  "verify_one V E reject_non_vote packet =
     (if ref_discard E packet then packet
      else let (ok, packet') = verify_packet V E packet reject_non_vote
           in if ok then packet' else ref_set_discard E packet' True)"

definition ed25519_verify_cpu ::
  "'sig sigverify_env \<Rightarrow> ('meta, 'pkt) packet_env \<Rightarrow> ('meta, 'pkt) packet_batch list \<Rightarrow> bool
   \<Rightarrow> ('meta, 'pkt) packet_batch list" where
  "ed25519_verify_cpu V E batches reject_non_vote = map (batch_map (verify_one V E reject_non_vote)) batches"

definition ed25519_verify_disabled ::
  "('meta, 'pkt) packet_env \<Rightarrow> ('meta, 'pkt) packet_batch list \<Rightarrow> ('meta, 'pkt) packet_batch list" where
  "ed25519_verify_disabled E batches = map (batch_map (\<lambda>p. ref_set_discard E p False)) batches"

subsection \<open>Counting\<close>

definition count_packets_in_batches :: "('meta, 'pkt) packet_batch list \<Rightarrow> nat" where
  "count_packets_in_batches batches = sum_list (map batch_len batches)"

definition count_valid_packets ::
  "('meta, 'pkt) packet_env \<Rightarrow> ('meta, 'pkt) packet_batch list \<Rightarrow> nat" where
  "count_valid_packets E batches =
     sum_list (map (\<lambda>b. length (filter (\<lambda>p. \<not> ref_discard E p) (batch_iter b))) batches)"

definition count_discarded_packets ::
  "('meta, 'pkt) packet_env \<Rightarrow> ('meta, 'pkt) packet_batch list \<Rightarrow> nat" where
  "count_discarded_packets E batches =
     sum_list (map (\<lambda>b. length (filter (ref_discard E) (batch_iter b))) batches)"

subsection \<open>What the parser accepts\<close>

lemma filter_le_eq_Some: "filter_le x l = Some v \<longleftrightarrow> x = Some v \<and> v \<le> l"
  by (auto simp: filter_le_def split: option.splits)

lemma unat_u32_less: "unat (w :: u32) < 2 ^ 32"
  using unsigned_less[of w, where ?'a = nat] by simp

lemma u32_try_from_eq_Inr: "u32_try_from n = Inr w \<longleftrightarrow> unat w = n"
proof
  assume "u32_try_from n = Inr w"
  then have "n < 2 ^ 32" "w = word_of_nat n" by (auto simp: u32_try_from_def split: if_splits)
  then show "unat w = n" by (simp add: unat_of_nat)
next
  assume "unat w = n"
  then show "u32_try_from n = Inr w" using unat_u32_less[of w] by (auto simp: u32_try_from_def)
qed

lemma PacketOffsets_new_simps [simp]:
  "sig_len (PacketOffsets_new a b c d e) = a" "sig_start (PacketOffsets_new a b c d e) = b"
  "msg_start (PacketOffsets_new a b c d e) = c" "pubkey_start (PacketOffsets_new a b c d e) = d"
  "pubkey_len (PacketOffsets_new a b c d e) = e"
  by (simp_all add: PacketOffsets_new_def)

lemma message_header_offset_bounds:
  "message_header_offset V E p m = Inr h \<Longrightarrow> m \<le> h \<and> m < meta_size E (ref_meta E p)"
  by (auto simp: message_header_offset_def result_simps checked_eq_Some split: if_splits)

lemma parse_signaturesE:
  assumes "sigverify_laws V" "parse_signatures V E p = Inr (sl, ss, ms)"
  shows "ref_data E p \<noteq> None" "ms = sl * 64 + ss" "1 \<le> ss" "ms \<le> usize_max"
  using assms
  by (auto simp: parse_signatures_def result_simps checked_eq_Some bind_eq_Some_conv size_of_Signature_def
      sigverify_laws_def split: prod.splits)

lemma check_message_headerE:
  assumes "check_message_header V E p sl h = Inr k"
  shows "1 \<le> sl \<and> sl \<le> 255 \<and> h \<le> k"
proof -
  from assms obtain slt ro :: u8 where s: "\<not> slt \<le> ro" "unat slt = sl" "k = h + message_header_length V"
    by (auto simp: check_message_header_def result_simps checked_eq_Some split: if_splits)
  then have "slt \<noteq> 0" by (metis word_zero_le)
  then have "1 \<le> sl" using s(2) unat_eq_zero[of slt] by linarith
  moreover have "sl \<le> 255" using unsigned_less[of slt, where ?'a = nat] s(2) by simp
  ultimately show ?thesis using s(3) by simp
qed

lemma parse_account_keysE:
  assumes "sigverify_laws V" "parse_account_keys V E p sl k = Inr (pl, ps)"
  shows "k < ps \<and> sl \<le> pl \<and> pl * 32 + ps \<le> meta_size E (ref_meta E p) \<and> pl \<le> 65535"
  using assms
  by (fastforce simp: parse_account_keys_def result_simps checked_eq_Some bind_eq_Some_conv size_of_Pubkey_def
      filter_le_eq_Some sigverify_laws_def split: prod.splits if_splits)

lemma shift_offsetsE:
  assumes "shift_offsets cur sl ss ms ps pl = Inr off"
  shows "unat (sig_len off) = sl" "unat (sig_start off) = cur + ss" "unat (msg_start off) = cur + ms"
    "unat (pubkey_start off) = cur + ps" "unat (pubkey_len off) = pl"
  using assms by (auto simp: shift_offsets_def result_simps checked_eq_Some u32_try_from_eq_Inr)

text \<open>The result of parsing, before it is shifted by the offset of the packet in the batch: the
  numbers of signatures and keys, and where the signatures, the message and the keys start.\<close>

definition parsed_offsets :: "nat \<Rightarrow> nat \<Rightarrow> nat \<Rightarrow> nat \<Rightarrow> nat \<Rightarrow> nat \<Rightarrow> bool" where
  "parsed_offsets n sl ss ms ps pl \<longleftrightarrow>
     1 \<le> sl \<and> sl \<le> 255 \<and> sl \<le> pl \<and> pl \<le> 65535 \<and> 1 \<le> ss \<and> ms = sl * 64 + ss \<and> ms < ps \<and> ps + pl * 32 \<le> n"

lemma do_get_packet_offsetsE:
  assumes "sigverify_laws V" "do_get_packet_offsets V E p cur = Inr off"
  obtains sl ss ms ps pl where "ref_data E p \<noteq> None"
    "parsed_offsets (meta_size E (ref_meta E p)) sl ss ms ps pl"
    "shift_offsets cur sl ss ms ps pl = Inr off"
    "\<forall>cur'. do_get_packet_offsets V E p cur' = shift_offsets cur' sl ss ms ps pl"
proof -
  from assms(2) obtain sl ss ms h k pl ps where
    s: "parse_signatures V E p = Inr (sl, ss, ms)" and h: "message_header_offset V E p ms = Inr h"
    and k: "check_message_header V E p sl h = Inr k" and ps: "parse_account_keys V E p sl k = Inr (pl, ps)"
    and off: "shift_offsets cur sl ss ms ps pl = Inr off"
    by (auto simp: do_get_packet_offsets_def result_simps)
  have "\<forall>cur'. do_get_packet_offsets V E p cur' = shift_offsets cur' sl ss ms ps pl"
    by (simp add: do_get_packet_offsets_def s h k ps)
  moreover have "parsed_offsets (meta_size E (ref_meta E p)) sl ss ms ps pl"
    using parse_signaturesE[OF assms(1) s] message_header_offset_bounds[OF h] check_message_headerE[OF k]
      parse_account_keysE[OF assms(1) ps]
    by (auto simp: parsed_offsets_def)
  ultimately show ?thesis using that parse_signaturesE(1)[OF assms(1) s] off by blast
qed

lemma check_for_simple_vote_cases:
  "check_for_simple_vote_transaction V E p off cur = Inr p' \<Longrightarrow> p' = p \<or> p' = ref_mark_vote E p"
  by (auto simp: check_for_simple_vote_transaction_def result_simps split: if_splits prod.splits)

lemma get_packet_offsets_packet:
  "snd (get_packet_offsets V E p cur r) = p \<or> snd (get_packet_offsets V E p cur r) = ref_mark_vote E p"
  by (auto simp: get_packet_offsets_def Let_def split: sum.splits dest: check_for_simple_vote_cases)

lemma get_packet_offsets_same [simp]:
  assumes "packet_laws E"
  shows "ref_data E (snd (get_packet_offsets V E p cur r)) = ref_data E p"
    "meta_size E (ref_meta E (snd (get_packet_offsets V E p cur r))) = meta_size E (ref_meta E p)"
    "ref_discard E (snd (get_packet_offsets V E p cur r)) = ref_discard E p"
    "same_kind (snd (get_packet_offsets V E p cur r)) p"
  using get_packet_offsets_packet[of V E p cur r] assms by auto

lemma get_packet_offsets_zero_or_parsed:
  "sig_len (fst (get_packet_offsets V E p cur r)) \<noteq> 0 \<Longrightarrow>
     do_get_packet_offsets V E p cur = Inr (fst (get_packet_offsets V E p cur r))
   \<and> (r \<longrightarrow> meta_is_simple_vote_tx E (ref_meta E (snd (get_packet_offsets V E p cur r))))"
  by (auto simp: get_packet_offsets_def Let_def split: sum.splits if_splits)

subsection \<open>What verification accepts\<close>

definition bytes_at :: "bytes \<Rightarrow> nat \<Rightarrow> nat \<Rightarrow> bytes" where
  "bytes_at d i n = take n (drop i d)"

text \<open>The specification: every signature of the packet verifies the message under its key.\<close>

definition signature_valid_at :: "'sig sigverify_env \<Rightarrow> bytes \<Rightarrow> nat \<Rightarrow> nat \<Rightarrow> bytes \<Rightarrow> bool" where
  "signature_valid_at V d sig_at pk_at message =
     (case signature_try_from V (bytes_at d sig_at 64) of
        None \<Rightarrow> False
      | Some s \<Rightarrow> signature_verify V s (bytes_at d pk_at 32) message)"

lemma verify_signatures_iff:
  assumes "sig_at + 64 * k \<le> length d" "pk_at + 32 * k \<le> length d" "msg_at \<le> length d"
    "length d \<le> usize_max"
  shows "verify_signatures V (Some d) msg_at k sig_at pk_at \<longleftrightarrow>
    (\<forall>j < k. signature_valid_at V d (sig_at + 64 * j) (pk_at + 32 * j) (drop msg_at d))"
  using assms
proof (induction k arbitrary: sig_at pk_at)
  case (Suc k)
  have a: "checked_add sig_at size_of_Signature = Some (sig_at + 64)"
    "saturating_add pk_at size_of_Pubkey = pk_at + 32"
    using Suc.prems by (simp_all add: checked_add_def saturating_add_def size_of_Signature_def size_of_Pubkey_def)
  have b: "slice_range d sig_at (sig_at + 64) = Some (bytes_at d sig_at 64)"
    "slice_range d pk_at (pk_at + 32) = Some (bytes_at d pk_at 32)"
    "slice_from d msg_at = Some (drop msg_at d)"
    using Suc.prems by (simp_all add: slice_range_def slice_from_def bytes_at_def)
  have "(\<forall>j < Suc k. signature_valid_at V d (sig_at + 64 * j) (pk_at + 32 * j) (drop msg_at d)) \<longleftrightarrow>
     signature_valid_at V d sig_at pk_at (drop msg_at d) \<and>
     (\<forall>j < k. signature_valid_at V d (sig_at + 64 + 64 * j) (pk_at + 32 + 32 * j) (drop msg_at d))"
    unfolding All_less_Suc2 by (simp add: add.assoc)
  with Suc.IH[of "sig_at + 64" "pk_at + 32"] Suc.prems a b show ?case
    by (auto simp: signature_valid_at_def split: option.splits)
qed simp

lemma do_get_packet_offsets_nonzero:
  assumes "sigverify_laws V" "do_get_packet_offsets V E p cur = Inr off"
  shows "sig_len off \<noteq> 0"
  by (rule do_get_packet_offsetsE[OF assms]) (auto simp: parsed_offsets_def dest: shift_offsetsE(1))

text \<open>The verdict on a packet whose offsets were not rejected.\<close>

lemma verify_packet_parsed:
  assumes "packet_laws E" "sigverify_laws V" "ref_data E p = Some d"
    "length d = meta_size E (ref_meta E p)" "length d \<le> usize_max"
    "get_packet_offsets V E p 0 r = (off, p')" "do_get_packet_offsets V E p 0 = Inr o'" "off = o'"
  shows "fst (verify_packet V E p r) \<longleftrightarrow>
    (\<forall>j < unat (sig_len o'). signature_valid_at V d (unat (sig_start o') + 64 * j)
       (unat (pubkey_start o') + 32 * j) (drop (unat (msg_start o')) d))"
proof -
  have nd: "\<not> ref_discard E p" using ref_data_discarded[OF assms(1)] assms(3) by fastforce
  have p': "ref_data E p' = Some d" "meta_size E (ref_meta E p') = length d"
    using get_packet_offsets_same[OF assms(1), of V p 0 r] assms(3,4,6) by auto
  obtain sl ss ms ps pl where s: "parsed_offsets (length d) sl ss ms ps pl"
    "shift_offsets 0 sl ss ms ps pl = Inr o'"
    by (rule do_get_packet_offsetsE[OF assms(2,7)]) (use assms(4) in simp)
  note u = s(1)[unfolded parsed_offsets_def] shift_offsetsE[OF s(2)]
  have "verify_signatures V (Some d) (unat (msg_start o')) (unat (sig_len o')) (unat (sig_start o')) (unat (pubkey_start o'))
    \<longleftrightarrow> (\<forall>j < unat (sig_len o'). signature_valid_at V d (unat (sig_start o') + 64 * j)
           (unat (pubkey_start o') + 32 * j) (drop (unat (msg_start o')) d))"
    by (rule verify_signatures_iff) (use u assms(5) in auto)
  moreover have "\<not> length d \<le> unat (msg_start o')" using u by auto
  moreover have "sig_len o' \<noteq> 0" by (rule do_get_packet_offsets_nonzero[OF assms(2,7)])
  ultimately show ?thesis using nd assms(6,8) p' by (simp add: verify_packet_def)
qed

lemma verify_packet_same:
  assumes "packet_laws E"
  shows "ref_discard E (snd (verify_packet V E p r)) = ref_discard E p"
    "same_kind (snd (verify_packet V E p r)) p"
  using get_packet_offsets_same(3,4)[OF assms, of V p 0 r]
  by (auto simp: verify_packet_def Let_def split: prod.splits if_splits)

lemma verify_one_eq:
  "verify_one V E r p =
     (if ref_discard E p then p
      else if fst (verify_packet V E p r) then snd (verify_packet V E p r)
      else ref_set_discard E (snd (verify_packet V E p r)) True)"
  by (simp add: verify_one_def split: prod.splits)

lemma verify_one_discard:
  assumes "packet_laws E"
  shows "ref_discard E (verify_one V E r p) \<longleftrightarrow> ref_discard E p \<or> \<not> fst (verify_packet V E p r)"
    "same_kind (verify_one V E r p) p"
proof -
  note v = verify_packet_same[OF assms, of V p r]
  show "ref_discard E (verify_one V E r p) \<longleftrightarrow> ref_discard E p \<or> \<not> fst (verify_packet V E p r)"
    by (simp add: verify_one_eq v(1) assms)
  have "same_kind (ref_set_discard E (snd (verify_packet V E p r)) True) p"
    by (rule same_kind_trans[OF _ v(2)]) simp
  then show "same_kind (verify_one V E r p) p" by (simp add: verify_one_eq v(2))
qed

subsection \<open>A concrete packet\<close>

text \<open>A legacy transaction with one signature and one account key, under a toy signature scheme in
  which a signature is valid when it starts with the first byte of the key.\<close>

definition plain_sigverify_env :: "bytes sigverify_env" where
  "plain_sigverify_env =
     \<lparr>decode_shortu16_len = (\<lambda>bs. case bs of [] \<Rightarrow> None
                                   | b # _ \<Rightarrow> if b < 128 then Some (unat b, 1) else None),
      signature_try_from = (\<lambda>s. if length s = 64 then Some s else None),
      signature_verify = (\<lambda>s k m. hd s = hd k),
      message_header_length = 3, message_version_prefix = 128, vote_id = replicate 32 9,
      size_of_packet = 1280\<rparr>"

lemma plain_sigverify_laws: "sigverify_laws plain_sigverify_env"
proof -
  have "unat b \<le> 65535" for b :: u8 using unsigned_less[of b, where ?'a = nat] by simp
  then show ?thesis
    by (auto simp: sigverify_laws_def plain_sigverify_env_def split: list.splits if_splits)
qed

definition plain_tx_bytes :: bytes where
  "plain_tx_bytes = [1] @ replicate 64 7 @ [1, 0, 0] @ [1] @ replicate 32 7"

definition plain_tx_packet :: "(plain_meta, plain_packet) packet_ref" where
  "plain_tx_packet =
     RefBytes (BytesPacket_set_buffer plain_packet_env (BytesPacket_empty plain_packet_env) plain_tx_bytes)"

lemma plain_tx_offsets:
  "do_get_packet_offsets plain_sigverify_env plain_packet_env plain_tx_packet 0
     = Inr (PacketOffsets_new 1 1 65 69 1)"
  by code_simp

lemma plain_tx_data: "ref_data plain_packet_env plain_tx_packet = Some plain_tx_bytes"
  by code_simp

subsection \<open>Properties\<close>

text \<open>C27: The offsets handed to verification are in bounds.  Whenever the parser accepts a packet, there
  is at least one signature and a key for each, the signatures lie between the start of the packet
  and the message, the message starts before the keys, and the keys end within the packet: no
  offset is truncated to 32 bits and none points outside the packet.\<close>

theorem packet_offsets_in_bounds:
  assumes "sigverify_laws V" "do_get_packet_offsets V E packet current_offset = Inr off"
  shows "1 \<le> unat (sig_len off) \<and> unat (sig_len off) \<le> unat (pubkey_len off)
       \<and> current_offset < unat (sig_start off)
       \<and> unat (msg_start off) = unat (sig_start off) + size_of_Signature * unat (sig_len off)
       \<and> unat (msg_start off) < unat (pubkey_start off)
       \<and> unat (pubkey_start off) + size_of_Pubkey * unat (pubkey_len off)
           \<le> current_offset + meta_size E (ref_meta E packet)"
proof -
  obtain sl ss ms ps pl where "parsed_offsets (meta_size E (ref_meta E packet)) sl ss ms ps pl"
    "shift_offsets current_offset sl ss ms ps pl = Inr off"
    by (rule do_get_packet_offsetsE[OF assms])
  then show ?thesis
    using shift_offsetsE[of current_offset sl ss ms ps pl off]
    by (simp add: parsed_offsets_def size_of_Signature_def size_of_Pubkey_def)
qed

theorem packet_offsets_in_bounds_witness:
  "\<exists>off. do_get_packet_offsets plain_sigverify_env plain_packet_env plain_tx_packet 0 = Inr off
     \<and> unat (pubkey_start off) + size_of_Pubkey * unat (pubkey_len off) \<le> length plain_tx_bytes"
proof -
  have "meta_size plain_packet_env (ref_meta plain_packet_env plain_tx_packet) = length plain_tx_bytes"
    by code_simp
  then show ?thesis
    using packet_offsets_in_bounds[OF plain_sigverify_laws plain_tx_offsets] plain_tx_offsets by auto
qed

text \<open>C5: What \<open>verify_packet\<close> accepts: exactly the packets the parser accepts (and, where votes only are
  wanted, that are marked as simple votes) all of whose signatures verify the message under the
  account keys in the same position.\<close>

theorem verify_packet_correct:
  assumes "packet_laws E" "sigverify_laws V" "ref_data E packet = Some d"
    "length d = meta_size E (ref_meta E packet)" "length d \<le> usize_max"
  shows "fst (verify_packet V E packet reject_non_vote) \<longleftrightarrow>
    (\<exists>off. do_get_packet_offsets V E packet 0 = Inr off
       \<and> (reject_non_vote \<longrightarrow>
            meta_is_simple_vote_tx E (ref_meta E (snd (verify_packet V E packet reject_non_vote))))
       \<and> (\<forall>j < unat (sig_len off).
             signature_valid_at V d (unat (sig_start off) + 64 * j) (unat (pubkey_start off) + 32 * j)
               (drop (unat (msg_start off)) d)))"
proof -
  have nd: "\<not> ref_discard E packet" using ref_data_discarded[OF assms(1)] assms(3) by fastforce
  obtain off p' where g: "get_packet_offsets V E packet 0 reject_non_vote = (off, p')" by fastforce
  have p': "snd (verify_packet V E packet reject_non_vote) = p'"
    using g nd by (simp add: verify_packet_def)
  show ?thesis
  proof (cases "do_get_packet_offsets V E packet 0")
    case (Inl e)
    then show ?thesis using g by (auto simp: verify_packet_def get_packet_offsets_def)
  next
    case (Inr o')
    have "off = (if \<not> reject_non_vote \<or> meta_is_simple_vote_tx E (ref_meta E p') then o'
       else PacketOffsets_new 0 0 0 0 0)"
      using g Inr by (auto simp: get_packet_offsets_def Let_def split: if_splits)
    moreover have "sig_len o' \<noteq> 0" by (rule do_get_packet_offsets_nonzero[OF assms(2) Inr])
    moreover have "\<not> fst (verify_packet V E packet reject_non_vote)" if "sig_len off = 0"
      using that g nd by (simp add: verify_packet_def)
    ultimately show ?thesis
      using Inr p' verify_packet_parsed[OF assms g Inr] by (auto split: if_splits)
  qed
qed

theorem verify_packet_correct_witness:
  "fst (verify_packet plain_sigverify_env plain_packet_env plain_tx_packet False)"
proof -
  have s: "length plain_tx_bytes = meta_size plain_packet_env (ref_meta plain_packet_env plain_tx_packet)"
    "length plain_tx_bytes \<le> usize_max"
    by code_simp+
  have "\<forall>j < (1 :: nat). signature_valid_at plain_sigverify_env plain_tx_bytes (1 + 64 * j) (69 + 32 * j) (drop 65 plain_tx_bytes)"
    unfolding All_less_Suc2 One_nat_def by simp code_simp
  then show ?thesis
    using verify_packet_correct[OF plain_packet_laws plain_sigverify_laws plain_tx_data s, of False] plain_tx_offsets
    by simp
qed

text \<open>Verifying batches on the CPU discards exactly the packets that were discarded before or do not
  verify, keeps the shape of the batches, and so never brings a discarded packet back.\<close>

theorem verify_cpu_discards:
  assumes "packet_laws E"
  shows "map batch_len (ed25519_verify_cpu V E batches reject_non_vote) = map batch_len batches
    \<and> map (\<lambda>b. map (ref_discard E) (batch_iter b)) (ed25519_verify_cpu V E batches reject_non_vote)
      = map (\<lambda>b. map (\<lambda>p. ref_discard E p \<or> \<not> fst (verify_packet V E p reject_non_vote)) (batch_iter b)) batches"
proof -
  have it: "batch_iter (batch_map (verify_one V E reject_non_vote) b)
      = map (verify_one V E reject_non_vote) (batch_iter b)" for b
    by (rule batch_iter_map) (rule verify_one_discard(2)[OF assms])
  then have "batch_len (batch_map (verify_one V E reject_non_vote) b) = batch_len b" for b
    by (metis length_batch_iter length_map)
  then show ?thesis
    by (simp add: ed25519_verify_cpu_def it verify_one_discard(1)[OF assms])
qed

theorem verify_cpu_discards_witness:
  "map (\<lambda>b. map (ref_discard plain_packet_env) (batch_iter b))
     (ed25519_verify_cpu plain_sigverify_env plain_packet_env
        [Bytes [BytesPacket_empty plain_packet_env]] False) = [[True]]"
proof -
  have "\<not> fst (verify_packet plain_sigverify_env plain_packet_env (RefBytes (BytesPacket_empty plain_packet_env)) False)"
    by code_simp
  then show ?thesis
    using verify_cpu_discards[OF plain_packet_laws, of plain_sigverify_env
        "[Bytes [BytesPacket_empty plain_packet_env]]" False] by simp
qed

end
