(* ===== verification/Sigverify_Gpu.thy ===== *)
theory Sigverify_Gpu
  imports Sigverify
begin

section \<open>Signature verification on the GPU (\<open>perf/src/sigverify.rs\<close>)\<close>

text \<open>
  The bulk path: the offsets of all signatures of all batches are collected, relative to one array
  of packets, a kernel fills one result byte per signature, and the bytes are folded back into one
  verdict per packet.  The kernel is external: \<open>gpu_api\<close> is its parameter, \<open>kernel_spec\<close> its
  contract.  Under it this path and the CPU path discard the same packets.
\<close>

subsection \<open>Collecting the offsets\<close>

definition u32_saturating_add :: "u32 \<Rightarrow> u32 \<Rightarrow> u32" where
  "u32_saturating_add a b = (if unat a + unat b < 2 ^ 32 then a + b else 2 ^ 32 - 1)"

definition u32_saturating_sub :: "u32 \<Rightarrow> u32 \<Rightarrow> u32" where
  "u32_saturating_sub a b = (if b \<le> a then a - b else 0)"

record tx_offsets =
  signature_offsets :: "u32 list"
  pubkey_offsets :: "u32 list"
  msg_start_offsets :: "u32 list"
  msg_sizes :: "u32 list"

definition no_offsets :: tx_offsets where
  "no_offsets = \<lparr>signature_offsets = [], pubkey_offsets = [], msg_start_offsets = [], msg_sizes = []\<rparr>"

text \<open>The loop over the signatures of one packet; \<open>msg_size\<close> is the end of the packet.\<close>

fun push_offsets :: "nat \<Rightarrow> u32 \<Rightarrow> u32 \<Rightarrow> u32 \<Rightarrow> u32 \<Rightarrow> tx_offsets \<Rightarrow> tx_offsets" where
  "push_offsets 0 sig_offset pubkey_offset msg_at msg_size acc = acc"
| "push_offsets (Suc k) sig_offset pubkey_offset msg_at msg_size acc =
     push_offsets k (u32_saturating_add sig_offset (word_of_nat size_of_Signature))
       (u32_saturating_add pubkey_offset (word_of_nat size_of_Pubkey)) msg_at msg_size
       \<lparr>signature_offsets = signature_offsets acc @ [sig_offset],
        pubkey_offsets = pubkey_offsets acc @ [pubkey_offset],
        msg_start_offsets = msg_start_offsets acc @ [msg_at],
        msg_sizes = msg_sizes acc @ [u32_saturating_sub msg_size msg_at]\<rparr>"

text \<open>The packets of a batch: the numbers of signatures, the packets (whose vote flag may be set), the
  offset after them and the offsets collected.\<close>

fun offsets_of_packets ::
  "'sig sigverify_env \<Rightarrow> ('meta, 'pkt) packet_env \<Rightarrow> bool \<Rightarrow> ('meta, 'pkt) packet_ref list \<Rightarrow> nat \<Rightarrow> tx_offsets
   \<Rightarrow> u32 list \<times> ('meta, 'pkt) packet_ref list \<times> nat \<times> tx_offsets" where
  "offsets_of_packets V E reject [] current_offset acc = ([], [], current_offset, acc)"
| "offsets_of_packets V E reject (p # ps) current_offset acc =
     (let (off, p') = get_packet_offsets V E p current_offset reject;
          msg_size = word_of_nat (saturating_add current_offset (meta_size E (ref_meta E p')));
          acc' = push_offsets (unat (sig_len off)) (sig_start off) (pubkey_start off) (msg_start off) msg_size acc;
          (lens, ps', next_offset, acc'') =
            offsets_of_packets V E reject ps (saturating_add current_offset (size_of_packet V)) acc'
      in (sig_len off # lens, p' # ps', next_offset, acc''))"

fun offsets_of_batches ::
  "'sig sigverify_env \<Rightarrow> ('meta, 'pkt) packet_env \<Rightarrow> bool \<Rightarrow> ('meta, 'pkt) packet_batch list \<Rightarrow> nat \<Rightarrow> tx_offsets
   \<Rightarrow> u32 list list \<times> ('meta, 'pkt) packet_batch list \<times> tx_offsets" where
  "offsets_of_batches V E reject [] current_offset acc = ([], [], acc)"
| "offsets_of_batches V E reject (b # bs) current_offset acc =
     (let (lens, ps, next_offset, acc') = offsets_of_packets V E reject (batch_iter b) current_offset acc;
          (lenss, bs', acc'') = offsets_of_batches V E reject bs next_offset acc'
      in (lens # lenss, batch_write b ps # bs', acc''))"

definition generate_offsets ::
  "'sig sigverify_env \<Rightarrow> ('meta, 'pkt) packet_env \<Rightarrow> ('meta, 'pkt) packet_batch list \<Rightarrow> bool
   \<Rightarrow> tx_offsets \<times> u32 list list \<times> ('meta, 'pkt) packet_batch list" where
  "generate_offsets V E batches reject_non_vote =
     (let (lens, batches', offsets) = offsets_of_batches V E reject_non_vote batches 0 no_offsets
      in (offsets, lens, batches'))"

subsection \<open>The results\<close>

text \<open>\<open>copy_return_values\<close>, on the flattened return values and then in the shape of \<open>rvs\<close>.  \<open>None\<close> is the
  panic of the slice \<open>out[offset..]\<close>.\<close>

fun copy_flat :: "u32 list \<Rightarrow> bytes \<Rightarrow> nat \<Rightarrow> u8 list \<Rightarrow> u8 list option" where
  "copy_flat (k # ks) out offset (rv # rvs) =
     do { rest \<leftarrow> slice_from out offset;
          let ones = (\<forall>x \<in> set (take (unat k) rest). x = 1);
          rvs' \<leftarrow> copy_flat ks out (saturating_add offset (unat k)) rvs;
          Some ((if k \<noteq> 0 \<and> ones then 1 else 0) # rvs') }"
| "copy_flat ks out offset rvs = Some rvs"

fun unflatten :: "'b list list \<Rightarrow> 'a list \<Rightarrow> 'a list list" where
  "unflatten [] xs = []"
| "unflatten (s # ss) xs = take (length s) xs # unflatten ss (drop (length s) xs)"

definition copy_return_values :: "u32 list list \<Rightarrow> bytes \<Rightarrow> u8 list list \<Rightarrow> u8 list list option" where
  "copy_return_values sig_lens out rvs =
     map_option (unflatten rvs) (copy_flat (concat sig_lens) out 0 (concat rvs))"

fun mark_packets ::
  "('meta, 'pkt) packet_env \<Rightarrow> ('meta, 'pkt) packet_ref list \<Rightarrow> u8 list \<Rightarrow> ('meta, 'pkt) packet_ref list" where
  "mark_packets E (p # ps) (f # fs) =
     (if ref_discard E p then p else ref_set_discard E p (f = 0)) # mark_packets E ps fs"
| "mark_packets E ps fs = ps"

fun mark_disabled ::
  "('meta, 'pkt) packet_env \<Rightarrow> ('meta, 'pkt) packet_batch list \<Rightarrow> u8 list list \<Rightarrow> ('meta, 'pkt) packet_batch list" where
  "mark_disabled E (b # bs) (v # vs) = batch_write b (mark_packets E (batch_iter b) v) # mark_disabled E bs vs"
| "mark_disabled E bs vs = bs"

subsection \<open>The external library\<close>

record 'pkt gpu_api =
  ed25519_set_verbose_init :: bool
  ed25519_verify_many :: "'pkt list list \<Rightarrow> u32 \<Rightarrow> u32 \<Rightarrow> u32 \<Rightarrow> tx_offsets \<Rightarrow> bytes \<Rightarrow> bytes"
  ed25519_check_packed_ge_small_order :: "bytes \<Rightarrow> int"
  ed25519_get_checked_scalar :: "bytes \<Rightarrow> bytes \<Rightarrow> int \<times> bytes"

text \<open>\<open>init\<close> asserts that the library initialises.\<close>

definition init :: "'pkt gpu_api option \<Rightarrow> unit option" where
  "init api = (case api of None \<Rightarrow> Some () | Some a \<Rightarrow> if ed25519_set_verbose_init a then Some () else None)"

definition check_packed_ge_small_order :: "'pkt gpu_api option \<Rightarrow> bytes \<Rightarrow> bool" where
  "check_packed_ge_small_order api ge =
     (case api of None \<Rightarrow> False | Some a \<Rightarrow> ed25519_check_packed_ge_small_order a ge = 0)"

definition get_checked_scalar :: "'pkt gpu_api option \<Rightarrow> bytes \<Rightarrow> packet_error + bytes" where
  "get_checked_scalar api scalar =
     (let out = replicate 32 0
      in case api of
           None \<Rightarrow> Inr out
         | Some a \<Rightarrow> let (res, out') = ed25519_get_checked_scalar a out scalar
                     in if res = 0 then Inr out' else Inl InvalidLen)"

fun to_pinned :: "('meta, 'pkt) packet_env \<Rightarrow> ('meta, 'pkt) packet_batch \<Rightarrow> 'pkt list option" where
  "to_pinned E (Pinned ps) = Some ps"
| "to_pinned E (Bytes ps) = to_pinned_packet_batch E ps"

definition usize_wrapping_mul :: "nat \<Rightarrow> nat \<Rightarrow> nat" where
  "usize_wrapping_mul a b = (a * b) mod 2 ^ 64"

definition ed25519_verify ::
  "'pkt gpu_api option \<Rightarrow> 'sig sigverify_env \<Rightarrow> ('meta, 'pkt) packet_env \<Rightarrow> ('meta, 'pkt) packet_batch list
   \<Rightarrow> bool \<Rightarrow> nat \<Rightarrow> ('meta, 'pkt) packet_batch list option" where
  "ed25519_verify api_opt V E batches reject_non_vote valid_packet_count =
     (case api_opt of
        None \<Rightarrow> Some (ed25519_verify_cpu V E batches reject_non_vote)
      | Some api \<Rightarrow>
          let total_packet_count = count_packets_in_batches batches
          in if total_packet_count = 0 then Some batches
             else if usize_wrapping_mul 100 valid_packet_count div total_packet_count < 90
                     \<or> valid_packet_count < 64
             then Some (ed25519_verify_cpu V E batches reject_non_vote)
             else
               do { let (offsets, sig_lens, batches') = generate_offsets V E batches reject_non_vote;
                    pinned_batches \<leftarrow> collect_options (map (to_pinned E) batches');
                    let rvs = map (\<lambda>b. replicate (length b) 0) pinned_batches;
                    let num_packets = sum_list (map length pinned_batches);
                    let out = ed25519_verify_many api pinned_batches (word_of_nat (size_of_packet V))
                          (word_of_nat num_packets) (word_of_nat (length (signature_offsets offsets)))
                          offsets (replicate (length (signature_offsets offsets)) 0);
                    rvs' \<leftarrow> copy_return_values sig_lens out rvs;
                    Some (mark_disabled E batches' rvs') })"

subsection \<open>The contract of the kernel\<close>

text \<open>Result byte \<open>j\<close> is 1 exactly if signature \<open>j\<close> is valid: the offsets address the packets as one
  array of structures that start with the packet's buffer.\<close>

definition signature_valid_in ::
  "'sig sigverify_env \<Rightarrow> ('meta, 'pkt) packet_env \<Rightarrow> 'pkt list \<Rightarrow> u32 \<times> u32 \<times> u32 \<times> u32 \<Rightarrow> bool" where
  "signature_valid_in V E ps quad =
     (let (sig_at, pk_at, msg_at, msg_len) = quad;
          index = unat sig_at div size_of_packet V;
          base = index * size_of_packet V;
          buffer = packet_buffer E (ps ! index)
      in signature_valid_at V buffer (unat sig_at - base) (unat pk_at - base)
           (bytes_at buffer (unat msg_at - base) (unat msg_len)))"

definition offset_quads :: "tx_offsets \<Rightarrow> (u32 \<times> u32 \<times> u32 \<times> u32) list" where
  "offset_quads o' = zip (signature_offsets o') (zip (pubkey_offsets o') (zip (msg_start_offsets o') (msg_sizes o')))"

definition kernel_spec ::
  "'pkt gpu_api \<Rightarrow> 'sig sigverify_env \<Rightarrow> ('meta, 'pkt) packet_env \<Rightarrow> bool" where
  "kernel_spec api V E \<longleftrightarrow>
     (\<forall>batches n m offsets out0.
        let out = ed25519_verify_many api batches (word_of_nat (size_of_packet V)) n m offsets out0
        in length out = length out0
         \<and> (\<forall>j < length out0. j < length (offset_quads offsets) \<longrightarrow>
               (out ! j = 1 \<longleftrightarrow> signature_valid_in V E (concat batches) (offset_quads offsets ! j))))"

subsection \<open>Offsets relative to a packet\<close>

text \<open>Packets whose recorded size is the size of their data and which fit a structure of the array.\<close>

fun raw_data :: "('meta, 'pkt) packet_env \<Rightarrow> ('meta, 'pkt) packet_ref \<Rightarrow> bytes" where
  "raw_data E (RefPacket q) = take (meta_size E (packet_meta E q)) (packet_buffer E q)"
| "raw_data E (RefBytes b) = bp_buffer b"

definition well_sized ::
  "'sig sigverify_env \<Rightarrow> ('meta, 'pkt) packet_env \<Rightarrow> ('meta, 'pkt) packet_ref \<Rightarrow> bool" where
  "well_sized V E p \<longleftrightarrow>
     meta_size E (ref_meta E p) < size_of_packet V
   \<and> length (raw_data E p) = meta_size E (ref_meta E p)
   \<and> (\<forall>b. p = RefBytes b \<longrightarrow> meta_size E (bp_meta b) \<le> length (packet_buffer E (packet_default E)))"

lemma raw_data_ref_data:
  "packet_laws E \<Longrightarrow> well_sized V E p \<Longrightarrow>
     ref_data E p = (if ref_discard E p then None else Some (raw_data E p))"
  by (cases p) (auto simp: packet_laws_def well_sized_def ref_discard_def BytesPacket_data_def)

lemma raw_data_mark_vote [simp]:
  assumes "packet_laws E"
  shows "raw_data E (ref_mark_vote E p) = raw_data E p" "well_sized V E (ref_mark_vote E p) = well_sized V E p"
proof -
  show r: "raw_data E (ref_mark_vote E p) = raw_data E p"
    using assms by (cases p) (simp_all add: ref_mark_vote_def packet_laws_def)
  show "well_sized V E (ref_mark_vote E p) = well_sized V E p"
    unfolding well_sized_def r
    using assms by (cases p) (auto simp: ref_mark_vote_def packet_laws_def)
qed

lemma shift_offsets_total:
  assumes "cur + n < 2 ^ 32" "parsed_offsets n sl ss ms ps pl"
  obtains off where "shift_offsets cur sl ss ms ps pl = Inr off"
proof -
  note b = assms(2)[unfolded parsed_offsets_def]
  have "cur + n \<le> usize_max" using assms(1) by (simp add: usize_max_def)
  then have "checked_add cur ss = Some (cur + ss)" "checked_add cur ms = Some (cur + ms)"
    "checked_add cur ps = Some (cur + ps)"
    using b by (auto simp: checked_add_def)
  moreover have "u32_try_from x = Inr (word_of_nat x)" if "x \<le> cur + n" for x
    using that assms(1) by (simp add: u32_try_from_def)
  moreover have "u32_try_from sl = Inr (word_of_nat sl)" "u32_try_from pl = Inr (word_of_nat pl)"
    using b by (simp_all add: u32_try_from_def)
  ultimately show ?thesis using that b by (simp add: shift_offsets_def)
qed

lemma do_get_packet_offsets_shift:
  assumes "sigverify_laws V" "cur + meta_size E (ref_meta E p) < 2 ^ 32"
  shows "case do_get_packet_offsets V E p 0 of
      Inl e \<Rightarrow> \<exists>e. do_get_packet_offsets V E p cur = Inl e
    | Inr o0 \<Rightarrow> \<exists>o1. do_get_packet_offsets V E p cur = Inr o1
        \<and> sig_len o1 = sig_len o0 \<and> pubkey_len o1 = pubkey_len o0
        \<and> unat (sig_start o1) = cur + unat (sig_start o0) \<and> unat (msg_start o1) = cur + unat (msg_start o0)
        \<and> unat (pubkey_start o1) = cur + unat (pubkey_start o0)"
proof (cases "do_get_packet_offsets V E p 0")
  case (Inr o0)
  obtain sl ss ms ps pl where s: "ref_data E p \<noteq> None"
    "parsed_offsets (meta_size E (ref_meta E p)) sl ss ms ps pl" "shift_offsets 0 sl ss ms ps pl = Inr o0"
    "\<forall>c. do_get_packet_offsets V E p c = shift_offsets c sl ss ms ps pl"
    by (rule do_get_packet_offsetsE[OF assms(1) Inr])
  obtain o1 where o1: "shift_offsets cur sl ss ms ps pl = Inr o1"
    by (rule shift_offsets_total[OF assms(2) s(2)])
  have "do_get_packet_offsets V E p cur = Inr o1" using s(4) o1 by simp
  moreover have "sig_len o1 = sig_len o0" "pubkey_len o1 = pubkey_len o0"
    using shift_offsetsE[OF s(3)] shift_offsetsE[OF o1] by (simp_all add: word_unat_eq_iff)
  ultimately show ?thesis using Inr shift_offsetsE[OF s(3)] shift_offsetsE[OF o1] by simp
next
  case (Inl e)
  show ?thesis
  proof (cases "do_get_packet_offsets V E p cur")
    case Inr: (Inr o1)
    obtain sl ss ms ps pl where s: "ref_data E p \<noteq> None"
      "parsed_offsets (meta_size E (ref_meta E p)) sl ss ms ps pl" "shift_offsets cur sl ss ms ps pl = Inr o1"
      "\<forall>c. do_get_packet_offsets V E p c = shift_offsets c sl ss ms ps pl"
      by (rule do_get_packet_offsetsE[OF assms(1) Inr])
    have "0 + meta_size E (ref_meta E p) < 2 ^ 32" using assms(2) by simp
    then obtain o0 where "shift_offsets 0 sl ss ms ps pl = Inr o0" by (rule shift_offsets_total[OF _ s(2)])
    with s(4) Inl show ?thesis by simp
  qed (simp add: Inl)
qed

lemma check_for_simple_vote_shift:
  assumes "sig_len o1 = sig_len o0" "pubkey_len o1 = pubkey_len o0"
    "unat (msg_start o1) = cur + unat (msg_start o0)" "unat (pubkey_start o1) = cur + unat (pubkey_start o0)"
  shows "check_for_simple_vote_transaction V E p o1 cur = check_for_simple_vote_transaction V E p o0 0"
proof -
  have "checked_sub (unat (msg_start o1)) cur = checked_sub (unat (msg_start o0)) 0"
    "checked_sub (unat (pubkey_start o1)) cur = checked_sub (unat (pubkey_start o0)) 0"
    using assms(3,4) by (simp_all add: checked_sub_def)
  then show ?thesis by (simp only: check_for_simple_vote_transaction_def assms(1,2))
qed

text \<open>The place of a packet in the array shifts its offsets and nothing else.\<close>

lemma get_packet_offsets_shift:
  assumes "sigverify_laws V" "cur + meta_size E (ref_meta E p) < 2 ^ 32"
  obtains o1 o0 p' where "get_packet_offsets V E p cur r = (o1, p')" "get_packet_offsets V E p 0 r = (o0, p')"
    "sig_len o1 = sig_len o0"
    "sig_len o0 \<noteq> 0 \<longrightarrow> unat (sig_start o1) = cur + unat (sig_start o0)
       \<and> unat (msg_start o1) = cur + unat (msg_start o0) \<and> unat (pubkey_start o1) = cur + unat (pubkey_start o0)"
proof (cases "do_get_packet_offsets V E p 0")
  case (Inl e)
  with do_get_packet_offsets_shift[OF assms] obtain e' where "do_get_packet_offsets V E p cur = Inl e'" by auto
  with Inl show ?thesis using that by (simp add: get_packet_offsets_def)
next
  case (Inr o0)
  with do_get_packet_offsets_shift[OF assms] obtain o1 where
    o1: "do_get_packet_offsets V E p cur = Inr o1" "sig_len o1 = sig_len o0" "pubkey_len o1 = pubkey_len o0"
      "unat (sig_start o1) = cur + unat (sig_start o0)" "unat (msg_start o1) = cur + unat (msg_start o0)"
      "unat (pubkey_start o1) = cur + unat (pubkey_start o0)" by auto
  note c = check_for_simple_vote_shift[OF o1(2,3,5,6), of V E p]
  let ?p = "case check_for_simple_vote_transaction V E p o0 0 of Inl _ \<Rightarrow> p | Inr q \<Rightarrow> q"
  define b where "b \<longleftrightarrow> \<not> r \<or> meta_is_simple_vote_tx E (ref_meta E ?p)"
  let ?sel = "\<lambda>o'. if b then o' else PacketOffsets_new 0 0 0 0 0"
  have g: "get_packet_offsets V E p cur r = (?sel o1, ?p)" "get_packet_offsets V E p 0 r = (?sel o0, ?p)"
    unfolding get_packet_offsets_def Inr o1(1) sum.case c Let_def b_def by simp_all
  show ?thesis by (rule that[OF g]) (cases b; use o1 in simp)+
qed

subsection \<open>The offsets collected\<close>

text \<open>The four lists grow together; then each of their positions describes one signature.\<close>

definition aligned :: "tx_offsets \<Rightarrow> bool" where
  "aligned o' \<longleftrightarrow> length (pubkey_offsets o') = length (signature_offsets o')
     \<and> length (msg_start_offsets o') = length (signature_offsets o')
     \<and> length (msg_sizes o') = length (signature_offsets o')"

lemma aligned_no_offsets [simp]: "aligned no_offsets" "offset_quads no_offsets = []"
  by (simp_all add: aligned_def no_offsets_def offset_quads_def)

lemma length_offset_quads: "aligned o' \<Longrightarrow> length (offset_quads o') = length (signature_offsets o')"
  by (simp add: aligned_def offset_quads_def)

lemma offset_quads_snoc:
  assumes "aligned acc"
  shows "offset_quads \<lparr>signature_offsets = signature_offsets acc @ [a], pubkey_offsets = pubkey_offsets acc @ [b],
      msg_start_offsets = msg_start_offsets acc @ [c], msg_sizes = msg_sizes acc @ [d]\<rparr>
    = offset_quads acc @ [(a, b, c, d)]"
  using assms by (simp add: aligned_def offset_quads_def)

lemma u32_saturating_add_eq:
  "unat a + n < 2 ^ 32 \<Longrightarrow> u32_saturating_add a (word_of_nat n) = word_of_nat (unat a + n)"
  by (simp add: u32_saturating_add_def unat_of_nat)

lemma unat_u32_of_nat: "n < 2 ^ 32 \<Longrightarrow> unat (word_of_nat n :: u32) = n"
  by (simp add: unat_of_nat)

lemma u32_saturating_sub_eq:
  "b \<le> a \<Longrightarrow> a < 2 ^ 32 \<Longrightarrow> u32_saturating_sub (word_of_nat a) (word_of_nat b) = word_of_nat (a - b)"
  by (simp add: u32_saturating_sub_def word_le_nat_alt unat_u32_of_nat of_nat_diff)

lemma push_offsets_quads:
  assumes "aligned acc" "unat so + 64 * k < 2 ^ 32" "unat po + 32 * k < 2 ^ 32"
  shows "aligned (push_offsets k so po ms sz acc) \<and>
    offset_quads (push_offsets k so po ms sz acc) = offset_quads acc @
      map (\<lambda>j. (word_of_nat (unat so + 64 * j), word_of_nat (unat po + 32 * j), ms, u32_saturating_sub sz ms)) [0..<k]"
  using assms
proof (induction k arbitrary: so po acc)
  case (Suc k)
  let ?acc = "\<lparr>signature_offsets = signature_offsets acc @ [so], pubkey_offsets = pubkey_offsets acc @ [po],
    msg_start_offsets = msg_start_offsets acc @ [ms], msg_sizes = msg_sizes acc @ [u32_saturating_sub sz ms]\<rparr>"
  have so: "u32_saturating_add so (word_of_nat 64) = word_of_nat (unat so + 64)"
    "unat (word_of_nat (unat so + 64) :: u32) = unat so + 64"
    by (rule u32_saturating_add_eq unat_u32_of_nat, use Suc.prems(2) in simp)+
  have po: "u32_saturating_add po (word_of_nat 32) = word_of_nat (unat po + 32)"
    "unat (word_of_nat (unat po + 32) :: u32) = unat po + 32"
    by (rule u32_saturating_add_eq unat_u32_of_nat, use Suc.prems(3) in simp)+
  have al: "aligned ?acc" using Suc.prems(1) by (simp add: aligned_def)
  have b: "unat (word_of_nat (unat so + 64) :: u32) + 64 * k < 2 ^ 32"
    "unat (word_of_nat (unat po + 32) :: u32) + 32 * k < 2 ^ 32"
    using Suc.prems(2,3) unfolding so(2) po(2) by simp_all
  have st: "push_offsets (Suc k) so po ms sz acc =
      push_offsets k (word_of_nat (unat so + 64)) (word_of_nat (unat po + 32)) ms sz ?acc"
    unfolding push_offsets.simps size_of_Signature_def size_of_Pubkey_def so(1) po(1) ..
  show ?case
    unfolding st upt_conv_Cons[OF zero_less_Suc] map_Suc_upt[symmetric]
    using Suc.IH[OF al b] unfolding so(2) po(2) offset_quads_snoc[OF Suc.prems(1)]
    by (simp add: add.assoc)
qed simp

text \<open>What one packet at offset \<open>cur\<close> of the array contributes.\<close>

abbreviation sig_count :: "'sig sigverify_env \<Rightarrow> ('meta, 'pkt) packet_env \<Rightarrow> bool \<Rightarrow> ('meta, 'pkt) packet_ref \<Rightarrow> u32" where
  "sig_count V E r p \<equiv> sig_len (fst (get_packet_offsets V E p 0 r))"

abbreviation parsed_packet ::
  "'sig sigverify_env \<Rightarrow> ('meta, 'pkt) packet_env \<Rightarrow> bool \<Rightarrow> ('meta, 'pkt) packet_ref \<Rightarrow> ('meta, 'pkt) packet_ref" where
  "parsed_packet V E r p \<equiv> snd (get_packet_offsets V E p 0 r)"

definition packet_quads ::
  "'sig sigverify_env \<Rightarrow> ('meta, 'pkt) packet_env \<Rightarrow> bool \<Rightarrow> nat \<Rightarrow> ('meta, 'pkt) packet_ref
   \<Rightarrow> (u32 \<times> u32 \<times> u32 \<times> u32) list" where
  "packet_quads V E r cur p =
     (let off = fst (get_packet_offsets V E p 0 r)
      in map (\<lambda>j. (word_of_nat (cur + unat (sig_start off) + 64 * j), word_of_nat (cur + unat (pubkey_start off) + 32 * j),
                   word_of_nat (cur + unat (msg_start off)),
                   word_of_nat (meta_size E (ref_meta E p) - unat (msg_start off))))
           [0..<unat (sig_len off)])"

fun flat_quads ::
  "'sig sigverify_env \<Rightarrow> ('meta, 'pkt) packet_env \<Rightarrow> bool \<Rightarrow> nat \<Rightarrow> ('meta, 'pkt) packet_ref list
   \<Rightarrow> (u32 \<times> u32 \<times> u32 \<times> u32) list" where
  "flat_quads V E r cur [] = []"
| "flat_quads V E r cur (p # ps) = packet_quads V E r cur p @ flat_quads V E r (cur + size_of_packet V) ps"

lemma flat_quads_append:
  "flat_quads V E r cur (xs @ ys) = flat_quads V E r cur xs @ flat_quads V E r (cur + size_of_packet V * length xs) ys"
  by (induction xs arbitrary: cur) (simp_all add: add.assoc)

lemma get_packet_offsets_bounds:
  assumes "sigverify_laws V" "get_packet_offsets V E p 0 r = (off, p')" "sig_len off \<noteq> 0"
  shows "unat (sig_start off) + 64 * unat (sig_len off) = unat (msg_start off)
       \<and> unat (pubkey_start off) + 32 * unat (sig_len off) \<le> meta_size E (ref_meta E p)
       \<and> unat (msg_start off) < meta_size E (ref_meta E p)"
proof -
  have "do_get_packet_offsets V E p 0 = Inr off"
    using get_packet_offsets_zero_or_parsed[of V E p 0 r] assms(2,3) by simp
  then obtain sl ss ms ps pl where "ref_data E p \<noteq> None" "parsed_offsets (meta_size E (ref_meta E p)) sl ss ms ps pl"
    "shift_offsets 0 sl ss ms ps pl = Inr off" "\<forall>c. do_get_packet_offsets V E p c = shift_offsets c sl ss ms ps pl"
    by (rule do_get_packet_offsetsE[OF assms(1)])
  then show ?thesis using shift_offsetsE[of 0 sl ss ms ps pl off] by (simp add: parsed_offsets_def)
qed

lemma push_packet_quads:
  assumes "packet_laws E" "sigverify_laws V" "cur + meta_size E (ref_meta E p) < 2 ^ 32" "aligned acc"
    "get_packet_offsets V E p cur r = (o1, p')"
  shows "sig_len o1 = sig_count V E r p \<and> p' = parsed_packet V E r p"
    and "let acc' = push_offsets (unat (sig_len o1)) (sig_start o1) (pubkey_start o1) (msg_start o1)
           (word_of_nat (saturating_add cur (meta_size E (ref_meta E p')))) acc
         in aligned acc' \<and> offset_quads acc' = offset_quads acc @ packet_quads V E r cur p"
proof -
  let ?n = "meta_size E (ref_meta E p)"
  obtain o1' o0 q where "get_packet_offsets V E p cur r = (o1', q)" and o0: "get_packet_offsets V E p 0 r = (o0, q)"
    "sig_len o1' = sig_len o0"
    and sh': "sig_len o0 \<noteq> 0 \<longrightarrow> unat (sig_start o1') = cur + unat (sig_start o0)
       \<and> unat (msg_start o1') = cur + unat (msg_start o0) \<and> unat (pubkey_start o1') = cur + unat (pubkey_start o0)"
    by (rule get_packet_offsets_shift[OF assms(2,3), of r])
  with assms(5) have eq: "o1' = o1" "q = p'" by simp_all
  note sh = sh'[unfolded eq(1), rule_format]
  show c: "sig_len o1 = sig_count V E r p \<and> p' = parsed_packet V E r p" using o0 eq by simp
  have n: "meta_size E (ref_meta E p') = ?n" using c get_packet_offsets_same(2)[OF assms(1)] by simp
  have sat: "saturating_add cur ?n = cur + ?n" using assms(3) by (simp add: saturating_add_def usize_max_def)
  show "let acc' = push_offsets (unat (sig_len o1)) (sig_start o1) (pubkey_start o1) (msg_start o1)
           (word_of_nat (saturating_add cur (meta_size E (ref_meta E p')))) acc
         in aligned acc' \<and> offset_quads acc' = offset_quads acc @ packet_quads V E r cur p"
  proof (cases "sig_len o0 = 0")
    case True
    then show ?thesis using assms(4) o0 eq by (simp add: packet_quads_def)
  next
    case False
    note b = get_packet_offsets_bounds[OF assms(2) o0(1) False]
    have "word_of_nat (unat (msg_start o1)) = msg_start o1" by simp
    then have ms: "msg_start o1 = word_of_nat (cur + unat (msg_start o0))" using sh[OF False] by metis
    have sub: "u32_saturating_sub (word_of_nat (cur + ?n)) (word_of_nat (cur + unat (msg_start o0))) =
        word_of_nat (?n - unat (msg_start o0))"
      using u32_saturating_sub_eq[of "cur + unat (msg_start o0)" "cur + ?n"] b assms(3) by simp
    show ?thesis
      using push_offsets_quads[OF assms(4), of "sig_start o1" "unat (sig_len o1)" "pubkey_start o1"
          "msg_start o1" "word_of_nat (cur + ?n)"] sh[OF False] b assms(3) o0 eq
      unfolding n sat Let_def ms sub packet_quads_def by simp
  qed
qed

lemma offsets_of_packets_quads:
  assumes "packet_laws E" "sigverify_laws V" "\<forall>p \<in> set ps. meta_size E (ref_meta E p) < size_of_packet V"
    "cur + size_of_packet V * length ps < 2 ^ 32" "aligned acc"
  shows "\<exists>acc'. offsets_of_packets V E r ps cur acc =
      (map (sig_count V E r) ps, map (parsed_packet V E r) ps, cur + size_of_packet V * length ps, acc')
    \<and> aligned acc' \<and> offset_quads acc' = offset_quads acc @ flat_quads V E r cur ps"
  using assms(3-5)
proof (induction ps arbitrary: cur acc)
  case (Cons p ps)
  have sz: "cur + meta_size E (ref_meta E p) < 2 ^ 32" using Cons.prems(1,2) by simp
  obtain o1 p' where g: "get_packet_offsets V E p cur r = (o1, p')" by fastforce
  note h = push_packet_quads[OF assms(1,2) sz Cons.prems(3) g]
  define acc1 where "acc1 = push_offsets (unat (sig_len o1)) (sig_start o1) (pubkey_start o1) (msg_start o1)
           (word_of_nat (saturating_add cur (meta_size E (ref_meta E p')))) acc"
  have acc1: "aligned acc1" "offset_quads acc1 = offset_quads acc @ packet_quads V E r cur p"
    using h(2) unfolding Let_def acc1_def[symmetric] by blast+
  have sat: "saturating_add cur (size_of_packet V) = cur + size_of_packet V"
    using Cons.prems(2) by (simp add: saturating_add_def usize_max_def)
  have "cur + size_of_packet V + size_of_packet V * length ps < 2 ^ 32" using Cons.prems(2) by simp
  then obtain acc' where ih: "offsets_of_packets V E r ps (cur + size_of_packet V) acc1 =
      (map (sig_count V E r) ps, map (parsed_packet V E r) ps, cur + size_of_packet V + size_of_packet V * length ps, acc')"
    "aligned acc'" "offset_quads acc' = offset_quads acc1 @ flat_quads V E r (cur + size_of_packet V) ps"
    using Cons.IH[OF _ _ acc1(1)] Cons.prems(1) by fastforce
  have "offsets_of_packets V E r (p # ps) cur acc = (sig_len o1 # map (sig_count V E r) ps,
      p' # map (parsed_packet V E r) ps, cur + size_of_packet V + size_of_packet V * length ps, acc')"
    by (simp add: g sat acc1_def[symmetric] ih(1))
  then show ?case using h(1) acc1(2) ih(2,3) by (simp add: add.assoc)
qed simp

lemma offsets_of_batches_quads:
  assumes "packet_laws E" "sigverify_laws V"
    "\<forall>p \<in> set (concat (map batch_iter bs)). meta_size E (ref_meta E p) < size_of_packet V"
    "cur + size_of_packet V * length (concat (map batch_iter bs)) < 2 ^ 32" "aligned acc"
  shows "\<exists>acc'. offsets_of_batches V E r bs cur acc =
      (map (\<lambda>b. map (sig_count V E r) (batch_iter b)) bs, map (batch_map (parsed_packet V E r)) bs, acc')
    \<and> aligned acc' \<and> offset_quads acc' = offset_quads acc @ flat_quads V E r cur (concat (map batch_iter bs))"
  using assms(3-5)
proof (induction bs arbitrary: cur acc)
  case (Cons b bs)
  have "\<forall>p \<in> set (batch_iter b). meta_size E (ref_meta E p) < size_of_packet V"
    "cur + size_of_packet V * length (batch_iter b) < 2 ^ 32"
    using Cons.prems(1,2) by (auto simp: algebra_simps)
  then obtain acc1 where a1: "offsets_of_packets V E r (batch_iter b) cur acc =
      (map (sig_count V E r) (batch_iter b), map (parsed_packet V E r) (batch_iter b),
       cur + size_of_packet V * length (batch_iter b), acc1)"
    "aligned acc1" "offset_quads acc1 = offset_quads acc @ flat_quads V E r cur (batch_iter b)"
    using offsets_of_packets_quads[OF assms(1,2) _ _ Cons.prems(3)] by metis
  have "cur + size_of_packet V * length (batch_iter b) + size_of_packet V * length (concat (map batch_iter bs)) < 2 ^ 32"
    using Cons.prems(2) by (simp add: algebra_simps)
  moreover have "\<forall>p \<in> set (concat (map batch_iter bs)). meta_size E (ref_meta E p) < size_of_packet V"
    using Cons.prems(1) by simp
  ultimately obtain acc' where "offsets_of_batches V E r bs (cur + size_of_packet V * length (batch_iter b)) acc1 =
      (map (\<lambda>b. map (sig_count V E r) (batch_iter b)) bs, map (batch_map (parsed_packet V E r)) bs, acc')"
    "aligned acc'" "offset_quads acc' = offset_quads acc1
       @ flat_quads V E r (cur + size_of_packet V * length (batch_iter b)) (concat (map batch_iter bs))"
    using Cons.IH[OF _ _ a1(2)] by metis
  then show ?case using a1 by (simp add: flat_quads_append batch_map_def)
qed simp

subsection \<open>From result bytes to verdicts\<close>

definition verdict ::
  "'sig sigverify_env \<Rightarrow> ('meta, 'pkt) packet_env \<Rightarrow> bool \<Rightarrow> (u32 \<times> u32 \<times> u32 \<times> u32 \<Rightarrow> bool) \<Rightarrow> nat
   \<Rightarrow> ('meta, 'pkt) packet_ref \<Rightarrow> bool" where
  "verdict V E r valid cur p \<longleftrightarrow> sig_count V E r p \<noteq> 0 \<and> (\<forall>q \<in> set (packet_quads V E r cur p). valid q)"

fun flat_verdicts ::
  "'sig sigverify_env \<Rightarrow> ('meta, 'pkt) packet_env \<Rightarrow> bool \<Rightarrow> (u32 \<times> u32 \<times> u32 \<times> u32 \<Rightarrow> bool) \<Rightarrow> nat
   \<Rightarrow> ('meta, 'pkt) packet_ref list \<Rightarrow> bool list" where
  "flat_verdicts V E r valid cur [] = []"
| "flat_verdicts V E r valid cur (p # ps) =
     verdict V E r valid cur p # flat_verdicts V E r valid (cur + size_of_packet V) ps"

lemma length_flat_verdicts [simp]: "length (flat_verdicts V E r valid cur ps) = length ps"
  by (induction ps arbitrary: cur) simp_all

lemma length_packet_quads [simp]: "length (packet_quads V E r cur p) = unat (sig_count V E r p)"
  by (simp add: packet_quads_def Let_def)

lemma all_ones_list_all2:
  "list_all2 (\<lambda>x q. (x = 1) = valid q) xs qs \<Longrightarrow> (\<forall>x \<in> set xs. x = 1) \<longleftrightarrow> (\<forall>q \<in> set qs. valid q)"
  by (induction rule: list_all2_induct) auto

lemma copy_flat_verdicts:
  assumes "list_all2 (\<lambda>x q. (x = 1) = valid q) (drop offset out) (flat_quads V E r cur ps)"
    "offset \<le> length out" "length out \<le> usize_max"
  shows "copy_flat (map (sig_count V E r) ps) out offset (replicate (length ps) 0) =
    Some (map (\<lambda>v. if v then 1 else 0) (flat_verdicts V E r valid cur ps))"
  using assms
proof (induction ps arbitrary: cur offset)
  case (Cons p ps)
  let ?k = "unat (sig_count V E r p)"
  from Cons.prems(1) obtain us vs where uv: "drop offset out = us @ vs"
    "list_all2 (\<lambda>x q. (x = 1) = valid q) us (packet_quads V E r cur p)"
    "list_all2 (\<lambda>x q. (x = 1) = valid q) vs (flat_quads V E r (cur + size_of_packet V) ps)"
    by (auto simp: list_all2_append2)
  moreover from uv(2) have "length us = ?k" by (auto dest: list_all2_lengthD)
  ultimately have la: "list_all2 (\<lambda>x q. (x = 1) = valid q) (take ?k (drop offset out)) (packet_quads V E r cur p)"
    "list_all2 (\<lambda>x q. (x = 1) = valid q) (drop ?k (drop offset out)) (flat_quads V E r (cur + size_of_packet V) ps)"
    by (simp_all add: uv(1) del: drop_drop)
  have off: "offset + ?k \<le> length out" using list_all2_lengthD[OF Cons.prems(1)] Cons.prems(2) by simp
  then have sat: "saturating_add offset ?k = offset + ?k"
    using Cons.prems(3) by (simp add: saturating_add_def)
  have "(\<forall>x \<in> set (take ?k (drop offset out)). x = 1) \<longleftrightarrow> (\<forall>q \<in> set (packet_quads V E r cur p). valid q)"
    by (rule all_ones_list_all2[OF la(1)])
  moreover have "list_all2 (\<lambda>x q. (x = 1) = valid q) (drop (offset + ?k) out) (flat_quads V E r (cur + size_of_packet V) ps)"
    using la(2) by (simp add: add.commute)
  note Cons.IH[OF this off Cons.prems(3)]
  ultimately show ?case
    using Cons.prems(2) by (simp add: sat slice_from_def verdict_def)
qed simp

text \<open>The kernel reads the packet's bytes out of the array as the CPU reads them out of the packet.\<close>

lemma bytes_at_take: "i + n \<le> m \<Longrightarrow> bytes_at (take m xs) i n = bytes_at xs i n"
  by (simp add: bytes_at_def drop_take min_def)

lemma signature_valid_in_packet:
  assumes "i < length pinned" "take n (packet_buffer E (pinned ! i)) = d" "length d = n" "n < size_of_packet V"
    "size_of_packet V * i + n < 2 ^ 32" "so + 64 \<le> n" "po + 32 \<le> n" "ms \<le> n"
  shows "signature_valid_in V E pinned (word_of_nat (size_of_packet V * i + so), word_of_nat (size_of_packet V * i + po),
      word_of_nat (size_of_packet V * i + ms), word_of_nat (n - ms)) \<longleftrightarrow> signature_valid_at V d so po (drop ms d)"
proof -
  let ?P = "size_of_packet V"
  have u: "unat (word_of_nat (?P * i + x) :: u32) = ?P * i + x" if "x \<le> n" for x
    by (rule unat_u32_of_nat) (use that assms(5) in simp)
  have us: "unat (word_of_nat (n - ms) :: u32) = n - ms" by (rule unat_u32_of_nat) (use assms(5) in simp)
  have i: "(?P * i + so) div ?P = i" using assms(4,6) by simp
  have b: "bytes_at (packet_buffer E (pinned ! i)) x k = bytes_at d x k" if "x + k \<le> n" for x k
    using bytes_at_take[OF that] assms(2) by metis
  have m: "bytes_at d ms (n - ms) = drop ms d" using assms(3) by (simp add: bytes_at_def)
  have s: "?P * i + x - i * ?P = x" for x by simp
  have le: "so \<le> n" "po \<le> n" "ms + (n - ms) \<le> n" using assms(6-8) by simp_all
  show ?thesis
    unfolding signature_valid_in_def signature_valid_at_def prod.case Let_def
      u[OF le(1)] u[OF le(2)] u[OF assms(8)] us i s b[OF assms(6)] b[OF assms(7)] b[OF le(3)] m ..
qed

lemma verdict_verify_packet:
  assumes "packet_laws E" "sigverify_laws V" "well_sized V E p" "i < length pinned"
    "take (meta_size E (ref_meta E p)) (packet_buffer E (pinned ! i)) = raw_data E p"
    "size_of_packet V * i + meta_size E (ref_meta E p) < 2 ^ 32"
  shows "verdict V E r (signature_valid_in V E pinned) (size_of_packet V * i) p \<longleftrightarrow> fst (verify_packet V E p r)"
proof -
  obtain off p' where g: "get_packet_offsets V E p 0 r = (off, p')" by fastforce
  let ?n = "meta_size E (ref_meta E p)" and ?d = "raw_data E p" and ?P = "size_of_packet V"
  show ?thesis
  proof (cases "sig_len off = 0")
    case True
    then show ?thesis using g by (simp add: verdict_def verify_packet_def)
  next
    case False
    have dg: "do_get_packet_offsets V E p 0 = Inr off"
      using get_packet_offsets_zero_or_parsed[of V E p 0 r] g False by simp
    have "ref_data E p \<noteq> None" by (rule do_get_packet_offsetsE[OF assms(2) dg])
    then have d: "ref_data E p = Some ?d" using raw_data_ref_data[OF assms(1,3)] by (auto split: if_splits)
    have l: "length ?d = ?n" "?n < ?P" using assms(3) by (simp_all add: well_sized_def)
    have "length ?d \<le> usize_max" using l assms(6) by (simp add: usize_max_def)
    note v = verify_packet_parsed[OF assms(1,2) d l(1) this g dg refl]
    note b = get_packet_offsets_bounds[OF assms(2) g False]
    have q: "signature_valid_in V E pinned (word_of_nat (?P * i + unat (sig_start off) + 64 * j),
        word_of_nat (?P * i + unat (pubkey_start off) + 32 * j), word_of_nat (?P * i + unat (msg_start off)),
        word_of_nat (?n - unat (msg_start off)))
      \<longleftrightarrow> signature_valid_at V ?d (unat (sig_start off) + 64 * j) (unat (pubkey_start off) + 32 * j)
           (drop (unat (msg_start off)) ?d)" if "j < unat (sig_len off)" for j
      using signature_valid_in_packet[OF assms(4,5) l assms(6), of "unat (sig_start off) + 64 * j"
          "unat (pubkey_start off) + 32 * j" "unat (msg_start off)"] b that
      by (simp only: add.assoc) simp
    show ?thesis unfolding v verdict_def packet_quads_def Let_def g fst_conv
      using False q by (auto simp del: of_nat_add)
  qed
qed

subsection \<open>The pinned batches\<close>

text \<open>A packet of the array holds the bytes of the packet it was made from.\<close>

definition same_bytes :: "('meta, 'pkt) packet_env \<Rightarrow> 'pkt \<Rightarrow> ('meta, 'pkt) packet_ref \<Rightarrow> bool" where
  "same_bytes E q p \<longleftrightarrow> take (meta_size E (ref_meta E p)) (packet_buffer E q) = raw_data E p"

lemma bytes_to_packet_buffer:
  assumes "packet_laws E" "well_sized V E (RefBytes b)"
  shows "\<exists>q. bytes_to_packet E b = Some q \<and> same_bytes E q (RefBytes b)"
proof -
  let ?r = "packet_set_meta E (packet_set_meta E (packet_default E) (bp_meta b)) (bp_meta b)"
  let ?d = "bp_buffer b @ drop (meta_size E (bp_meta b)) (packet_buffer E ?r)"
  have ws: "length (bp_buffer b) = meta_size E (bp_meta b)"
    "meta_size E (bp_meta b) \<le> length (packet_buffer E (packet_default E))"
    using assms(2) by (auto simp: well_sized_def)
  have m: "packet_meta E (packet_set_meta E (packet_default E) (bp_meta b)) = bp_meta b"
    "meta_set_size E (bp_meta b) (meta_size E (bp_meta b)) = bp_meta b"
    "packet_buffer E ?r = packet_buffer E (packet_default E)"
    using assms(1) by (simp_all add: packet_laws_def)
  have "bytes_to_packet E b = Some (packet_set_buffer E ?r ?d)"
    using ws m by (simp add: bytes_to_packet_def)
  moreover have "length ?d = length (packet_buffer E ?r)" using ws m(3) by simp
  then have "packet_buffer E (packet_set_buffer E ?r ?d) = ?d"
    using assms(1) unfolding packet_laws_def by blast
  ultimately show ?thesis using ws(1) by (auto simp: same_bytes_def)
qed

lemma collect_options_all2:
  "\<forall>x \<in> set xs. \<exists>y. f x = Some y \<and> R y x \<Longrightarrow> \<exists>ys. collect_options (map f xs) = Some ys \<and> list_all2 R ys xs"
  by (induction xs) auto

lemma to_pinned_bytes:
  assumes "packet_laws E" "\<forall>p \<in> set (batch_iter b). well_sized V E p"
  shows "\<exists>qs. to_pinned E b = Some qs \<and> list_all2 (same_bytes E) qs (batch_iter b)"
proof (cases b)
  case (Pinned ps)
  then show ?thesis by (simp add: list_all2_map2 list_all2_same same_bytes_def)
next
  case (Bytes bs)
  then have "\<forall>x \<in> set bs. \<exists>q. bytes_to_packet E x = Some q \<and> same_bytes E q (RefBytes x)"
    using assms bytes_to_packet_buffer[of E V] by auto
  from collect_options_all2[of bs "bytes_to_packet E" "\<lambda>q x. same_bytes E q (RefBytes x)", OF this]
  show ?thesis using Bytes by (auto simp: to_pinned_packet_batch_def list_all2_map2)
qed

lemma collect_pinned:
  assumes "packet_laws E" "\<forall>p \<in> set (concat (map batch_iter bs)). well_sized V E p"
  shows "\<exists>pb. collect_options (map (to_pinned E) bs) = Some pb
    \<and> list_all2 (\<lambda>qs b. list_all2 (same_bytes E) qs (batch_iter b)) pb bs"
  by (rule collect_options_all2) (use assms(2) in \<open>auto intro!: to_pinned_bytes[OF assms(1), of _ V]\<close>)

lemma list_all2_concat_batches:
  "list_all2 (\<lambda>qs b. list_all2 R qs (f b)) pb bs \<Longrightarrow> list_all2 R (concat pb) (concat (map f bs))"
  by (induction rule: list_all2_induct) (auto intro: list_all2_appendI)

lemma list_all2_lengths:
  "list_all2 (\<lambda>qs b. list_all2 R qs (f b)) pb bs \<Longrightarrow> map length pb = map (\<lambda>b. length (f b)) bs"
  by (induction rule: list_all2_induct) (auto dest: list_all2_lengthD)

subsection \<open>Marking the packets\<close>

lemma unflatten_concat: "map length xss = map length ss \<Longrightarrow> unflatten ss (concat xss) = xss"
proof (induction ss arbitrary: xss)
  case (Cons s ss)
  then show ?case by (cases xss) auto
qed simp

lemma mark_packets_map:
  "length fs = length ps \<Longrightarrow> mark_packets E ps fs =
     map (\<lambda>(p, f). if ref_discard E p then p else ref_set_discard E p (f = 0)) (zip ps fs)"
  by (induction E ps fs rule: mark_packets.induct) auto

lemma mark_packets_discards:
  assumes "packet_laws E" "length fs = batch_len b"
  shows "map (ref_discard E) (batch_iter (batch_write b (mark_packets E (batch_iter b) fs))) =
    map2 (\<lambda>p f. ref_discard E p \<or> f = 0) (batch_iter b) fs"
proof -
  have l: "length fs = length (batch_iter b)" using assms(2) by simp
  have "list_all2 same_kind (mark_packets E (batch_iter b) fs) (batch_iter b)"
    unfolding mark_packets_map[OF l] using l by (auto simp: list_all2_conv_all_nth)
  then show ?thesis
    unfolding mark_packets_map[OF l] by (simp add: batch_iter_write comp_def case_prod_unfold assms(1))
qed

lemma mark_disabled_discards:
  assumes "packet_laws E" "map length rvs = map batch_len bs" "length fs = length (concat (map batch_iter bs))"
  shows "map (\<lambda>b. map (ref_discard E) (batch_iter b)) (mark_disabled E bs (unflatten rvs fs)) =
    unflatten rvs (map2 (\<lambda>p f. ref_discard E p \<or> f = 0) (concat (map batch_iter bs)) fs)"
  using assms(2,3)
proof (induction bs arbitrary: rvs fs)
  case (Cons b bs)
  then obtain v vs where rvs: "rvs = v # vs" "length v = batch_len b" by (cases rvs) auto
  have s: "take (length v) fs @ drop (length v) fs = fs" by simp
  have "length (take (length v) fs) = batch_len b" using Cons.prems(2) rvs(2) by simp
  note m = mark_packets_discards[OF assms(1) this]
  have "length (drop (length v) fs) = length (concat (map batch_iter bs))" using Cons.prems(2) rvs(2) by simp
  note ih = Cons.IH[OF _ this]
  have "zip (batch_iter b @ concat (map batch_iter bs)) fs =
      zip (batch_iter b) (take (length v) fs) @ zip (concat (map batch_iter bs)) (drop (length v) fs)"
    using zip_append[of "batch_iter b" "take (length v) fs" "concat (map batch_iter bs)" "drop (length v) fs"]
      Cons.prems(2) rvs(2) by simp
  then show ?case using m ih[of vs] Cons.prems rvs by simp
qed simp

subsection \<open>A concrete kernel\<close>

definition plain_gpu_api :: "plain_packet gpu_api" where
  "plain_gpu_api =
     \<lparr>ed25519_set_verbose_init = True,
      ed25519_verify_many = (\<lambda>batches sz n m offsets out0.
        map (\<lambda>j. if j < length (offset_quads offsets)
                  \<and> signature_valid_in plain_sigverify_env plain_packet_env (concat batches) (offset_quads offsets ! j)
                 then 1 else 0) [0..<length out0]),
      ed25519_check_packed_ge_small_order = (\<lambda>_. 0),
      ed25519_get_checked_scalar = (\<lambda>out scalar. (0, scalar))\<rparr>"

lemma plain_kernel_spec: "kernel_spec plain_gpu_api plain_sigverify_env plain_packet_env"
  by (simp add: kernel_spec_def plain_gpu_api_def Let_def)

subsection \<open>Properties\<close>

lemma flat_verdicts_verify:
  assumes "packet_laws E" "sigverify_laws V" "\<forall>p \<in> set ps. well_sized V E p"
    "list_all2 (same_bytes E) (drop i pinned) ps" "i \<le> length pinned" "size_of_packet V * (i + length ps) < 2 ^ 32"
  shows "flat_verdicts V E r (signature_valid_in V E pinned) (size_of_packet V * i) ps =
    map (\<lambda>p. fst (verify_packet V E p r)) ps"
  using assms(3-6)
proof (induction ps arbitrary: i)
  case (Cons p ps)
  have i: "i < length pinned" using list_all2_lengthD[OF Cons.prems(2)] by simp
  then have dr: "drop i pinned = pinned ! i # drop (Suc i) pinned" by (rule Cons_nth_drop_Suc[symmetric])
  have "meta_size E (ref_meta E p) < size_of_packet V" using Cons.prems(1) by (simp add: well_sized_def)
  then have "size_of_packet V * i + meta_size E (ref_meta E p) < 2 ^ 32"
    using Cons.prems(4) by (simp add: algebra_simps)
  moreover have "well_sized V E p" "take (meta_size E (ref_meta E p)) (packet_buffer E (pinned ! i)) = raw_data E p"
    using Cons.prems(1,2) by (simp_all add: dr same_bytes_def)
  ultimately have v: "verdict V E r (signature_valid_in V E pinned) (size_of_packet V * i) p = fst (verify_packet V E p r)"
    using verdict_verify_packet[OF assms(1,2) _ i] by blast
  have "flat_verdicts V E r (signature_valid_in V E pinned) (size_of_packet V * Suc i) ps =
      map (\<lambda>p. fst (verify_packet V E p r)) ps"
    by (rule Cons.IH) (use Cons.prems i in \<open>simp_all add: dr\<close>)
  then show ?case using v by (simp add: add.commute)
qed simp

lemma length_flat_quads:
  assumes "packet_laws E" "sigverify_laws V" "\<forall>p \<in> set ps. well_sized V E p"
  shows "length (flat_quads V E r cur ps) \<le> size_of_packet V * length ps"
  using assms(3)
proof (induction ps arbitrary: cur)
  case (Cons p ps)
  have "unat (sig_count V E r p) \<le> size_of_packet V"
  proof (cases "sig_count V E r p = 0")
    case False
    obtain off p' where g: "get_packet_offsets V E p 0 r = (off, p')" by fastforce
    from get_packet_offsets_bounds[OF assms(2) this] False Cons.prems show ?thesis
      by (simp add: g well_sized_def)
  qed simp
  then show ?case using Cons.IH[of "cur + size_of_packet V"] Cons.prems by simp
qed simp

lemma concat_replicate_lengths: "concat (map (\<lambda>b. replicate (length b) x) bs) = replicate (length (concat bs)) x"
  by (induction bs) (simp_all add: replicate_add)

lemma cpu_discards:
  assumes "packet_laws E"
  shows "map (\<lambda>b. map (ref_discard E) (batch_iter b)) (ed25519_verify_cpu V E bs r) =
    map (\<lambda>b. map (\<lambda>p. ref_discard E p \<or> \<not> fst (verify_packet V E p r)) (batch_iter b)) bs"
proof -
  have "batch_iter (batch_map (verify_one V E r) b) = map (verify_one V E r) (batch_iter b)" for b
    by (rule batch_iter_map) (rule verify_one_discard(2)[OF assms])
  then show ?thesis by (simp add: ed25519_verify_cpu_def verify_one_discard(1)[OF assms])
qed

lemma gpu_result_bytes:
  assumes "kernel_spec api V E" "aligned offsets"
  shows "list_all2 (\<lambda>x q. (x = 1) = signature_valid_in V E (concat pb) q)
      (ed25519_verify_many api pb (word_of_nat (size_of_packet V)) n m offsets (replicate (length (signature_offsets offsets)) 0))
      (offset_quads offsets)"
  using assms(1) length_offset_quads[OF assms(2)]
  by (simp add: kernel_spec_def Let_def list_all2_conv_all_nth)

text \<open>What the bulk path hands to the kernel: the offsets of all packets, and pinned batches with the
  same bytes.\<close>

lemma gpu_input:
  assumes "packet_laws E" "sigverify_laws V"
    "\<forall>p \<in> set (concat (map batch_iter bs)). well_sized V E p"
    "size_of_packet V * length (concat (map batch_iter bs)) < 2 ^ 32"
    "generate_offsets V E bs r = (offsets, sig_lens, bs')"
  obtains pb where "aligned offsets" "offset_quads offsets = flat_quads V E r 0 (concat (map batch_iter bs))"
    "concat sig_lens = map (sig_count V E r) (concat (map batch_iter bs))"
    "concat (map batch_iter bs') = map (parsed_packet V E r) (concat (map batch_iter bs))"
    "map batch_len bs' = map batch_len bs" "collect_options (map (to_pinned E) bs') = Some pb"
    "map length pb = map batch_len bs" "list_all2 (same_bytes E) (concat pb) (concat (map batch_iter bs))"
proof -
  let ?ps = "concat (map batch_iter bs)" and ?g = "parsed_packet V E r"
  have "\<forall>p \<in> set ?ps. meta_size E (ref_meta E p) < size_of_packet V" using assms(3) by (auto simp: well_sized_def)
  then obtain acc where acc: "offsets_of_batches V E r bs 0 no_offsets =
      (map (\<lambda>b. map (sig_count V E r) (batch_iter b)) bs, map (batch_map ?g) bs, acc)"
    "aligned acc" "offset_quads acc = flat_quads V E r 0 ?ps"
    using offsets_of_batches_quads[OF assms(1,2) _ _ aligned_no_offsets(1), of bs 0 r] assms(4) by auto
  then have gen: "offsets = acc" "sig_lens = map (\<lambda>b. map (sig_count V E r) (batch_iter b)) bs" "bs' = map (batch_map ?g) bs"
    using assms(5) by (simp_all add: generate_offsets_def)
  have it: "batch_iter (batch_map ?g b) = map ?g (batch_iter b)" for b
    by (rule batch_iter_map) (rule get_packet_offsets_same(4)[OF assms(1)])
  then have len: "map batch_len bs' = map batch_len bs"
    by (simp add: gen(3) flip: length_batch_iter)
  have g: "same_bytes E q (?g p) = same_bytes E q p" "well_sized V E (?g p) = well_sized V E p" for q p
    using get_packet_offsets_packet[of V E p 0 r] assms(1) by (auto simp: same_bytes_def)
  have its: "concat (map batch_iter bs') = map ?g ?ps" by (simp add: gen(3) it map_concat comp_def)
  have "\<forall>p \<in> set (concat (map batch_iter bs')). well_sized V E p" using assms(3) g(2) unfolding its by auto
  then obtain pb where pb: "collect_options (map (to_pinned E) bs') = Some pb"
    "list_all2 (\<lambda>qs b. list_all2 (same_bytes E) qs (batch_iter b)) pb bs'"
    using collect_pinned[OF assms(1)] by blast
  have sb: "list_all2 (same_bytes E) (concat pb) ?ps"
    using list_all2_concat_batches[OF pb(2)] unfolding its by (simp add: list_all2_map2 g(1))
  have "map length pb = map batch_len bs" using list_all2_lengths[OF pb(2)] len by simp
  moreover have "concat sig_lens = map (sig_count V E r) ?ps" by (simp add: gen(2) map_concat comp_def)
  ultimately show ?thesis using that[OF _ _ _ its len pb(1) _ sb] acc(2,3) gen(1) by simp
qed

text \<open>The bulk path, once it is taken.\<close>

lemma gpu_path_discards:
  assumes "packet_laws E" "sigverify_laws V" "kernel_spec api V E"
    "\<forall>p \<in> set (concat (map batch_iter bs)). well_sized V E p"
    "size_of_packet V * length (concat (map batch_iter bs)) < 2 ^ 32"
    "generate_offsets V E bs r = (offsets, sig_lens, bs')"
  obtains pb rvs' where "collect_options (map (to_pinned E) bs') = Some pb"
    "copy_return_values sig_lens (ed25519_verify_many api pb (word_of_nat (size_of_packet V)) n m offsets
        (replicate (length (signature_offsets offsets)) 0)) (map (\<lambda>b. replicate (length b) 0) pb) = Some rvs'"
    "map (\<lambda>b. map (ref_discard E) (batch_iter b)) (mark_disabled E bs' rvs') =
       map (\<lambda>b. map (\<lambda>p. ref_discard E p \<or> \<not> fst (verify_packet V E p r)) (batch_iter b)) bs"
proof -
  let ?ps = "concat (map batch_iter bs)" and ?g = "parsed_packet V E r"
  obtain pb where gen: "aligned offsets" "offset_quads offsets = flat_quads V E r 0 ?ps"
    "concat sig_lens = map (sig_count V E r) ?ps"
    and its: "concat (map batch_iter bs') = map ?g ?ps"
    and lb: "map batch_len bs' = map batch_len bs" and pb: "collect_options (map (to_pinned E) bs') = Some pb"
    and lp: "map length pb = map batch_len bs" and sb: "list_all2 (same_bytes E) (concat pb) ?ps"
    by (rule gpu_input[OF assms(1,2,4-6)])
  let ?out = "ed25519_verify_many api pb (word_of_nat (size_of_packet V)) n m offsets
        (replicate (length (signature_offsets offsets)) 0)"
  have out: "list_all2 (\<lambda>x q. (x = 1) = signature_valid_in V E (concat pb) q) ?out (flat_quads V E r 0 ?ps)"
    using gpu_result_bytes[OF assms(3) gen(1)] unfolding gen(2)[symmetric] .
  define fs :: "u8 list" where "fs = map (\<lambda>p. if fst (verify_packet V E p r) then 1 else 0) ?ps"
  define rvs :: "u8 list list" where "rvs = map (\<lambda>b. replicate (length b) 0) pb"
  have len: "length (concat pb) = length ?ps" by (rule list_all2_lengthD[OF sb])
  have rvs: "concat rvs = replicate (length ?ps) 0" "map length rvs = map batch_len bs'"
    using concat_replicate_lengths[of 0 pb] len lp lb by (simp_all add: rvs_def comp_def)
  have "length ?out \<le> usize_max"
    using list_all2_lengthD[OF out] length_flat_quads[OF assms(1,2,4), of r 0] assms(5) by (simp add: usize_max_def)
  then have "copy_flat (map (sig_count V E r) ?ps) ?out 0 (replicate (length ?ps) 0) =
      Some (map (\<lambda>v. if v then 1 else 0) (flat_verdicts V E r (signature_valid_in V E (concat pb)) 0 ?ps))"
    by (intro copy_flat_verdicts) (use out in simp_all)
  moreover have "flat_verdicts V E r (signature_valid_in V E (concat pb)) 0 ?ps = map (\<lambda>p. fst (verify_packet V E p r)) ?ps"
    using flat_verdicts_verify[OF assms(1,2,4), of 0 "concat pb" r] sb assms(5) by simp
  ultimately have cr: "copy_return_values sig_lens ?out rvs = Some (unflatten rvs fs)"
    by (simp add: copy_return_values_def gen(3) rvs(1) comp_def fs_def)
  have md: "map (\<lambda>b. map (ref_discard E) (batch_iter b)) (mark_disabled E bs' (unflatten rvs fs)) =
       map (\<lambda>b. map (\<lambda>p. ref_discard E p \<or> \<not> fst (verify_packet V E p r)) (batch_iter b)) bs"
  proof -
    let ?h = "\<lambda>p. ref_discard E p \<or> \<not> fst (verify_packet V E p r)"
    have "map2 (\<lambda>p f. ref_discard E p \<or> f = 0) (map ?g ?ps) fs = map ?h ?ps"
      by (simp add: fs_def zip_map_map zip_same_conv_map get_packet_offsets_same(3)[OF assms(1)])
    also have "\<dots> = concat (map (\<lambda>b. map ?h (batch_iter b)) bs)" by (simp add: map_concat comp_def)
    finally have "unflatten rvs (map2 (\<lambda>p f. ref_discard E p \<or> f = 0) (map ?g ?ps) fs) = map (\<lambda>b. map ?h (batch_iter b)) bs"
      using rvs(2) lb by (simp add: unflatten_concat comp_def)
    then show ?thesis
      using mark_disabled_discards[OF assms(1) rvs(2), of fs] unfolding its by (simp add: fs_def)
  qed
  show ?thesis by (rule that[OF pb cr[unfolded rvs_def] md[unfolded rvs_def]])
qed

text \<open>C4: The two verification paths agree.  When the kernel computes what it promises, every packet's
  recorded size is that of its data and fits a packet of the array, and the array is addressable
  with 32 bits, \<open>ed25519_verify\<close> does not panic and discards exactly the packets that
  \<open>ed25519_verify_cpu\<close> discards, whichever path it chooses.\<close>

theorem gpu_matches_cpu:
  assumes "packet_laws E" "sigverify_laws V" "kernel_spec api V E"
    "\<forall>b \<in> set batches. \<forall>p \<in> set (batch_iter b). well_sized V E p"
    "size_of_packet V * count_packets_in_batches batches < 2 ^ 32"
  shows "\<exists>out. ed25519_verify (Some api) V E batches reject_non_vote valid_packet_count = Some out
    \<and> map (\<lambda>b. map (ref_discard E) (batch_iter b)) out =
       map (\<lambda>b. map (ref_discard E) (batch_iter b)) (ed25519_verify_cpu V E batches reject_non_vote)"
proof -
  have n: "length (concat (map batch_iter batches)) = count_packets_in_batches batches"
    by (simp add: length_concat count_packets_in_batches_def comp_def)
  have w: "\<forall>p \<in> set (concat (map batch_iter batches)). well_sized V E p" using assms(4) by auto
  obtain offsets sig_lens bs' where g: "generate_offsets V E batches reject_non_vote = (offsets, sig_lens, bs')"
    by (cases "generate_offsets V E batches reject_non_vote") auto
  have "batch_iter b = []" if "count_packets_in_batches batches = 0" "b \<in> set batches" for b
    using that by (auto simp: count_packets_in_batches_def simp flip: length_batch_iter)
  then have e: "map (\<lambda>b. map (ref_discard E) (batch_iter b)) batches =
      map (\<lambda>b. map (ref_discard E) (batch_iter b)) (ed25519_verify_cpu V E batches reject_non_vote)"
    if "count_packets_in_batches batches = 0"
    using that by (simp add: cpu_discards[OF assms(1)])
  show ?thesis
  proof (rule gpu_path_discards[OF assms(1-3) w _ g, of "word_of_nat (sum_list (map length (the (collect_options (map (to_pinned E) bs')))))"
        "word_of_nat (length (signature_offsets offsets))"])
    show "size_of_packet V * length (concat (map batch_iter batches)) < 2 ^ 32" using assms(5) n by simp
  next
    fix pb rvs'
    assume pb: "collect_options (map (to_pinned E) bs') = Some pb"
      and rv: "copy_return_values sig_lens (ed25519_verify_many api pb (word_of_nat (size_of_packet V))
        (word_of_nat (sum_list (map length (the (collect_options (map (to_pinned E) bs'))))))
        (word_of_nat (length (signature_offsets offsets))) offsets
        (replicate (length (signature_offsets offsets)) 0)) (map (\<lambda>b. replicate (length b) 0) pb) = Some rvs'"
      and d: "map (\<lambda>b. map (ref_discard E) (batch_iter b)) (mark_disabled E bs' rvs') =
       map (\<lambda>b. map (\<lambda>p. ref_discard E p \<or> \<not> fst (verify_packet V E p reject_non_vote)) (batch_iter b)) batches"
    show ?thesis
      unfolding ed25519_verify_def Let_def option.case g prod.case pb
      using e rv[unfolded pb option.sel] d cpu_discards[OF assms(1), of V batches reject_non_vote]
      by simp
  qed
qed

theorem gpu_matches_cpu_witness:
  "\<exists>out. ed25519_verify (Some plain_gpu_api) plain_sigverify_env plain_packet_env
       [Bytes [BytesPacket_set_buffer plain_packet_env (BytesPacket_empty plain_packet_env) plain_tx_bytes,
               BytesPacket_empty plain_packet_env]] False 64 = Some out
     \<and> map (\<lambda>b. map (ref_discard plain_packet_env) (batch_iter b)) out = [[False, True]]"
proof -
  let ?bs = "[Bytes [BytesPacket_set_buffer plain_packet_env (BytesPacket_empty plain_packet_env) plain_tx_bytes,
               BytesPacket_empty plain_packet_env]]"
  have "\<forall>b \<in> set ?bs. \<forall>p \<in> set (batch_iter b). well_sized plain_sigverify_env plain_packet_env p"
    by (simp add: well_sized_def BytesPacket_set_buffer_def BytesPacket_empty_def plain_packet_env_def
        plain_sigverify_env_def plain_tx_bytes_def)
  moreover have "size_of_packet plain_sigverify_env * count_packets_in_batches ?bs < 2 ^ 32" by code_simp
  moreover have "map (\<lambda>b. map (ref_discard plain_packet_env) (batch_iter b))
      (ed25519_verify_cpu plain_sigverify_env plain_packet_env ?bs False) = [[False, True]]" by code_simp
  ultimately show ?thesis
    using gpu_matches_cpu[OF plain_packet_laws plain_sigverify_laws plain_kernel_spec, of ?bs False 64] by metis
qed

end
