(* ===== verification/Shrink_Batches.thy ===== *)
theory Shrink_Batches
  imports Packet "HOL-Library.Multiset"
begin

section \<open>Shrinking batches (\<open>perf/src/sigverify.rs\<close>)\<close>

text \<open>
  \<open>shrink_batches\<close> moves the packets that are not discarded towards the front, batch by batch, and
  drops the batches at the end that hold none.  The macro \<open>shrink_batches_fn\<close> is a function of the
  packet type: \<open>D\<close> reads the discard flag and \<open>S\<close> sets it.  Indices below the length of a vector do
  not saturate, so \<open>saturating_add(1)\<close> is \<open>Suc\<close>.
\<close>

subsection \<open>The loops\<close>

text \<open>The state of the loops: the batches, the position from which a free place is searched, and the
  number of batches kept.\<close>

record 'p shrinking =
  batches :: "'p list list"
  valid_batch_ix :: nat
  valid_packet_ix :: nat
  last_valid_batch :: nat

definition set_at :: "'p list list \<Rightarrow> nat \<Rightarrow> nat \<Rightarrow> 'p \<Rightarrow> 'p list list" where
  "set_at bs i j p = bs[i := (bs ! i)[j := p]]"

text \<open>The inner \<open>while\<close>: the first discarded packet of batch \<open>valid_batch_ix\<close> takes the packet at
  \<open>(batch_ix, packet_ix)\<close>.  The result says whether there was one.\<close>

function fill_batch ::
  "('p \<Rightarrow> bool) \<Rightarrow> ('p \<Rightarrow> bool \<Rightarrow> 'p) \<Rightarrow> nat \<Rightarrow> nat \<Rightarrow> 'p shrinking \<Rightarrow> bool \<times> 'p shrinking" where
  "fill_batch D S batch_ix packet_ix s =
     (if valid_packet_ix s < length (batches s ! valid_batch_ix s)
      then if D (batches s ! valid_batch_ix s ! valid_packet_ix s)
           then let p = batches s ! batch_ix ! packet_ix;
                    bs = set_at (batches s) (valid_batch_ix s) (valid_packet_ix s) p;
                    bs' = set_at bs batch_ix packet_ix (S (bs ! batch_ix ! packet_ix) True)
                in (True, s\<lparr>batches := bs', last_valid_batch := Suc (valid_batch_ix s)\<rparr>)
           else fill_batch D S batch_ix packet_ix (s\<lparr>valid_packet_ix := Suc (valid_packet_ix s)\<rparr>)
      else (False, s))"
  by pat_completeness auto
termination
  by (relation "measure (\<lambda>(D, S, i, j, s). length (batches s ! valid_batch_ix s) - valid_packet_ix s)") auto

declare fill_batch.simps [simp del]

text \<open>A batch without a free place leaves the position behind its end.\<close>

lemma fill_batch_False:
  "fill_batch D S i j s = (False, s') \<Longrightarrow>
     valid_batch_ix s' = valid_batch_ix s \<and> batches s' = batches s \<and> last_valid_batch s' = last_valid_batch s
   \<and> length (batches s ! valid_batch_ix s) \<le> valid_packet_ix s'
   \<and> (\<forall>k < length (batches s ! valid_batch_ix s). valid_packet_ix s \<le> k \<longrightarrow> \<not> D (batches s ! valid_batch_ix s ! k))"
proof (induction D S i j s rule: fill_batch.induct)
  case (1 D S i j s)
  show ?case
  proof (cases "valid_packet_ix s < length (batches s ! valid_batch_ix s)")
    case True
    with "1.prems" have nd: "\<not> D (batches s ! valid_batch_ix s ! valid_packet_ix s)"
      by (subst (asm) fill_batch.simps) (auto simp: Let_def split: if_splits)
    with True "1.prems" have "fill_batch D S i j (s\<lparr>valid_packet_ix := Suc (valid_packet_ix s)\<rparr>) = (False, s')"
      by (subst (asm) fill_batch.simps) simp
    from "1.IH"[OF True nd this] nd show ?thesis by (auto simp: Suc_le_eq nat_less_le)
  next
    case False
    then show ?thesis using "1.prems" by (subst (asm) fill_batch.simps) auto
  qed
qed

text \<open>The outer \<open>while\<close>.\<close>

function find_spot ::
  "('p \<Rightarrow> bool) \<Rightarrow> ('p \<Rightarrow> bool \<Rightarrow> 'p) \<Rightarrow> nat \<Rightarrow> nat \<Rightarrow> 'p shrinking \<Rightarrow> 'p shrinking" where
  "find_spot D S batch_ix packet_ix s =
     (if valid_batch_ix s < batch_ix
      then let (found_spot, s') = fill_batch D S batch_ix packet_ix s;
               s'' = (if valid_packet_ix s' \<ge> length (batches s' ! valid_batch_ix s')
                      then s'\<lparr>valid_packet_ix := 0, valid_batch_ix := Suc (valid_batch_ix s')\<rparr>
                      else s')
           in if found_spot then s'' else find_spot D S batch_ix packet_ix s''
      else s)"
  by pat_completeness auto
termination
  by (relation "measure (\<lambda>(D, S, i, j, s). i - valid_batch_ix s)") (auto dest!: fill_batch_False[OF sym])

declare find_spot.simps [simp del]

definition shrink_packet ::
  "('p \<Rightarrow> bool) \<Rightarrow> ('p \<Rightarrow> bool \<Rightarrow> 'p) \<Rightarrow> nat \<Rightarrow> nat \<Rightarrow> 'p shrinking \<Rightarrow> 'p shrinking" where
  "shrink_packet D S batch_ix packet_ix s =
     (if D (batches s ! batch_ix ! packet_ix) then s
      else find_spot D S batch_ix packet_ix (s\<lparr>last_valid_batch := Suc batch_ix\<rparr>))"

definition shrink_batch ::
  "('p \<Rightarrow> bool) \<Rightarrow> ('p \<Rightarrow> bool \<Rightarrow> 'p) \<Rightarrow> nat \<Rightarrow> 'p shrinking \<Rightarrow> 'p shrinking" where
  "shrink_batch D S batch_ix s = fold (shrink_packet D S batch_ix) [0..<length (batches s ! batch_ix)] s"

definition shrink_batches_fn :: "('p \<Rightarrow> bool) \<Rightarrow> ('p \<Rightarrow> bool \<Rightarrow> 'p) \<Rightarrow> 'p list list \<Rightarrow> 'p list list" where
  "shrink_batches_fn D S bs =
     (let s = fold (shrink_batch D S) [0..<length bs]
                \<lparr>batches = bs, valid_batch_ix = 0, valid_packet_ix = 0, last_valid_batch = 0\<rparr>
      in take (last_valid_batch s) (batches s))"

fun split_batches :: "('meta, 'pkt) packet_batch list \<Rightarrow> 'meta bytes_packet list list \<times> 'pkt list list" where
  "split_batches [] = ([], [])"
| "split_batches (Bytes b # bs) = (let (bytes, pinned) = split_batches bs in (b # bytes, pinned))"
| "split_batches (Pinned b # bs) = (let (bytes, pinned) = split_batches bs in (bytes, b # pinned))"

definition shrink_bytes_batches ::
  "('meta, 'pkt) packet_env \<Rightarrow> 'meta bytes_packet list list \<Rightarrow> 'meta bytes_packet list list" where
  "shrink_bytes_batches E =
     shrink_batches_fn (\<lambda>p. meta_discard E (bp_meta p)) (\<lambda>p b. p\<lparr>bp_meta := meta_set_discard E (bp_meta p) b\<rparr>)"

definition shrink_pinned_batches :: "('meta, 'pkt) packet_env \<Rightarrow> 'pkt list list \<Rightarrow> 'pkt list list" where
  "shrink_pinned_batches E =
     shrink_batches_fn (\<lambda>p. meta_discard E (packet_meta E p))
       (\<lambda>p b. packet_set_meta E p (meta_set_discard E (packet_meta E p) b))"

definition shrink_batches ::
  "('meta, 'pkt) packet_env \<Rightarrow> ('meta, 'pkt) packet_batch list \<Rightarrow> ('meta, 'pkt) packet_batch list" where
  "shrink_batches E bs =
     (let (bytes_batches, pinned_batches) = split_batches bs
      in map Bytes (shrink_bytes_batches E bytes_batches) @ map Pinned (shrink_pinned_batches E pinned_batches))"

subsection \<open>The search\<close>

text \<open>Everything before a position is in use.\<close>

definition searched :: "('p \<Rightarrow> bool) \<Rightarrow> 'p list list \<Rightarrow> nat \<Rightarrow> nat \<Rightarrow> bool" where
  "searched D bs b k \<longleftrightarrow>
     (\<forall>b' < b. \<forall>p \<in> set (bs ! b'). \<not> D p) \<and> (\<forall>m < k. m < length (bs ! b) \<longrightarrow> \<not> D (bs ! b ! m))"

definition move_packet :: "('p \<Rightarrow> bool \<Rightarrow> 'p) \<Rightarrow> 'p list list \<Rightarrow> nat \<Rightarrow> nat \<Rightarrow> nat \<Rightarrow> nat \<Rightarrow> 'p list list" where
  "move_packet S bs i j b k = set_at (set_at bs b k (bs ! i ! j)) i j (S (bs ! i ! j) True)"

lemma fill_batch_True:
  assumes "fill_batch D S i j s = (True, s')" "valid_batch_ix s < i"
    "\<forall>m < valid_packet_ix s. m < length (batches s ! valid_batch_ix s) \<longrightarrow> \<not> D (batches s ! valid_batch_ix s ! m)"
  shows "\<exists>k < length (batches s ! valid_batch_ix s). D (batches s ! valid_batch_ix s ! k)
    \<and> (\<forall>m < k. \<not> D (batches s ! valid_batch_ix s ! m))
    \<and> s' = s\<lparr>batches := move_packet S (batches s) i j (valid_batch_ix s) k, valid_packet_ix := k,
          last_valid_batch := Suc (valid_batch_ix s)\<rparr>"
  using assms
proof (induction D S i j s rule: fill_batch.induct)
  case (1 D S i j s)
  have lt: "valid_packet_ix s < length (batches s ! valid_batch_ix s)"
    using "1.prems"(1) by (subst (asm) fill_batch.simps) (auto split: if_splits)
  show ?case
  proof (cases "D (batches s ! valid_batch_ix s ! valid_packet_ix s)")
    case True
    with lt "1.prems" show ?thesis
      by (subst (asm) fill_batch.simps)
        (auto simp: Let_def set_at_def move_packet_def intro!: exI[of _ "valid_packet_ix s"])
  next
    case False
    with lt "1.prems"(1) have "fill_batch D S i j (s\<lparr>valid_packet_ix := Suc (valid_packet_ix s)\<rparr>) = (True, s')"
      by (subst (asm) fill_batch.simps) simp
    from "1.IH"[OF lt False this] "1.prems"(2,3) False show ?thesis by (auto simp: less_Suc_eq)
  qed
qed

lemma find_spot_outcome:
  assumes "valid_batch_ix s \<le> i" "searched D (batches s) (valid_batch_ix s) (valid_packet_ix s)"
    "find_spot D S i j s = s'"
  shows "(batches s' = batches s \<and> valid_batch_ix s' = i \<and> last_valid_batch s' = last_valid_batch s
      \<and> searched D (batches s) i (valid_packet_ix s'))
   \<or> (\<exists>b < i. \<exists>k < length (batches s ! b). D (batches s ! b ! k) \<and> searched D (batches s) b k
      \<and> s' = \<lparr>batches = move_packet S (batches s) i j b k, valid_batch_ix = b, valid_packet_ix = k, last_valid_batch = Suc b\<rparr>)"
  using assms
proof (induction D S i j s rule: find_spot.induct)
  case (1 D S i j s)
  show ?case
  proof (cases "valid_batch_ix s < i")
    case False
    then show ?thesis using "1.prems" by (subst (asm) find_spot.simps) auto
  next
    case lt: True
    obtain f s1 where f: "fill_batch D S i j s = (f, s1)" by fastforce
    show ?thesis
    proof (cases f)
      case True
      with f have "fill_batch D S i j s = (True, s1)" by simp
      from fill_batch_True[OF this lt] "1.prems"(2)
      obtain k where k: "k < length (batches s ! valid_batch_ix s)" "D (batches s ! valid_batch_ix s ! k)"
        "\<forall>m < k. \<not> D (batches s ! valid_batch_ix s ! m)"
        "s1 = s\<lparr>batches := move_packet S (batches s) i j (valid_batch_ix s) k, valid_packet_ix := k,
          last_valid_batch := Suc (valid_batch_ix s)\<rparr>"
        by (auto simp: searched_def)
      have "length (batches s1 ! valid_batch_ix s) = length (batches s ! valid_batch_ix s)"
        using lt k(4) by (cases "valid_batch_ix s < length (batches s)") (simp_all add: move_packet_def set_at_def list_update_beyond)
      with k(1,4) have "s' = s1"
        using lt f True "1.prems"(3) by (subst (asm) find_spot.simps) simp
      moreover have "searched D (batches s) (valid_batch_ix s) k"
        using "1.prems"(2) k(3) by (simp add: searched_def)
      ultimately show ?thesis using lt k by (intro disjI2 exI[of _ "valid_batch_ix s"] conjI exI[of _ k]) simp_all
    next
      case False
      with f have "fill_batch D S i j s = (False, s1)" by simp
      note ff = fill_batch_False[OF this]
      let ?s = "s1\<lparr>valid_packet_ix := 0, valid_batch_ix := Suc (valid_batch_ix s1)\<rparr>"
      have e: "find_spot D S i j ?s = s'"
        using lt f False ff "1.prems"(3) by (subst (asm) find_spot.simps) simp
      have "\<forall>p \<in> set (batches s ! valid_batch_ix s). \<not> D p"
        using ff "1.prems"(2) unfolding searched_def by (metis in_set_conv_nth not_le)
      then have "searched D (batches ?s) (valid_batch_ix ?s) (valid_packet_ix ?s)"
        using ff "1.prems"(2) by (auto simp: searched_def less_Suc_eq)
      moreover have "valid_batch_ix ?s \<le> i" using lt ff by simp
      ultimately show ?thesis using "1.IH"[OF lt f[symmetric] refl _ _ _ _] False ff e by simp
    qed
  qed
qed

subsection \<open>The packets that are not discarded\<close>

definition valids :: "('p \<Rightarrow> bool) \<Rightarrow> 'p list list \<Rightarrow> 'p multiset" where
  "valids D bs = filter_mset (\<lambda>p. \<not> D p) (mset (concat bs))"

lemma mset_set_at:
  assumes "b < length bs" "k < length (bs ! b)"
  shows "add_mset (bs ! b ! k) (mset (concat (set_at bs b k x))) = add_mset x (mset (concat bs))"
proof -
  have "set_at bs b k x = take b bs @ (bs ! b)[k := x] # drop (Suc b) bs"
    using assms(1) by (simp add: set_at_def upd_conv_take_nth_drop)
  moreover have "mset (concat bs) = mset (concat (take b bs @ bs ! b # drop (Suc b) bs))"
    using assms(1) by (metis id_take_nth_drop)
  moreover have "add_mset (bs ! b ! k) (mset ((bs ! b)[k := x])) = add_mset x (mset (bs ! b))"
    using assms(2) by (simp add: mset_update)
  ultimately show ?thesis by simp
qed

lemma valids_set_at:
  assumes "b < length bs" "k < length (bs ! b)"
  shows "valids D (set_at bs b k x) + (if D (bs ! b ! k) then {#} else {#bs ! b ! k#})
       = valids D bs + (if D x then {#} else {#x#})"
  using arg_cong[OF mset_set_at[OF assms, of x], of "filter_mset (\<lambda>p. \<not> D p)"]
  by (simp add: valids_def split: if_splits)

lemma set_at_simps [simp]:
  "length (set_at bs b k x) = length bs"
  "map length (set_at bs b k x) = map length bs"
  "b \<noteq> b' \<Longrightarrow> set_at bs b k x ! b' = bs ! b'"
  "b < length bs \<Longrightarrow> set_at bs b k x ! b = (bs ! b)[k := x]"
  by (simp_all add: set_at_def map_update) (metis list_update_id length_list_update map_update)

lemma move_packet_simps:
  assumes "b < i" "i < length bs"
  shows "map length (move_packet S bs i j b k) = map length bs"
    "move_packet S bs i j b k ! i = (bs ! i)[j := S (bs ! i ! j) True]"
    "move_packet S bs i j b k ! b = (bs ! b)[k := bs ! i ! j]"
    "b' \<noteq> i \<Longrightarrow> b' \<noteq> b \<Longrightarrow> move_packet S bs i j b k ! b' = bs ! b'"
  using assms by (simp_all add: move_packet_def)

lemma valids_move_packet:
  assumes "b < i" "i < length bs" "j < length (bs ! i)" "k < length (bs ! b)" "D (bs ! b ! k)" "\<not> D (bs ! i ! j)"
    "D (S (bs ! i ! j) True)"
  shows "valids D (move_packet S bs i j b k) = valids D bs"
proof -
  have "valids D (set_at bs b k (bs ! i ! j)) = add_mset (bs ! i ! j) (valids D bs)"
    using valids_set_at[of b bs k D "bs ! i ! j"] assms by simp
  moreover have "add_mset (bs ! i ! j) (valids D (move_packet S bs i j b k)) = valids D (set_at bs b k (bs ! i ! j))"
    using valids_set_at[of i "set_at bs b k (bs ! i ! j)" j D "S (bs ! i ! j) True"] assms
    by (simp add: move_packet_def)
  ultimately show ?thesis by simp
qed

subsection \<open>The invariant\<close>

text \<open>With the batches before \<open>i\<close> and the packets before \<open>j\<close> of batch \<open>i\<close> done.\<close>

definition shrink_inv :: "('p \<Rightarrow> bool) \<Rightarrow> 'p list list \<Rightarrow> nat \<Rightarrow> nat \<Rightarrow> 'p shrinking \<Rightarrow> bool" where
  "shrink_inv D bs0 i j s \<longleftrightarrow>
     map length (batches s) = map length bs0 \<and> valids D (batches s) = valids D bs0
   \<and> valid_batch_ix s \<le> i \<and> searched D (batches s) (valid_batch_ix s) (valid_packet_ix s)
   \<and> (\<forall>b. valid_batch_ix s < b \<and> b < i \<longrightarrow> (\<forall>p \<in> set (batches s ! b). D p))
   \<and> (valid_batch_ix s < i \<longrightarrow> (\<forall>m < j. D (batches s ! i ! m)))
   \<and> (last_valid_batch s = 0 \<and> valid_batch_ix s = 0 \<and> (\<forall>b < i. \<forall>p \<in> set (batches s ! b). D p)
        \<and> (\<forall>m < j. D (batches s ! i ! m))
      \<or> last_valid_batch s = Suc (valid_batch_ix s) \<and> valid_batch_ix s < length bs0
        \<and> (\<exists>p \<in> set (batches s ! valid_batch_ix s). \<not> D p))"

lemma shrink_inv_packet:
  assumes SD: "\<And>p. D (S p True)" and inv: "shrink_inv D bs0 i j s" and i: "i < length bs0" and j: "j < length (bs0 ! i)"
  shows "shrink_inv D bs0 i (Suc j) (shrink_packet D S i j s)"
proof -
  have len: "length (batches s) = length bs0" "\<And>b. b < length bs0 \<Longrightarrow> length (batches s ! b) = length (bs0 ! b)"
    using inv unfolding shrink_inv_def by (metis length_map, metis nth_map length_map)
  let ?p = "batches s ! i ! j"
  show ?thesis
  proof (cases "D ?p")
    case True
    then show ?thesis using inv by (auto simp: shrink_inv_def shrink_packet_def less_Suc_eq)
  next
    case nd: False
    let ?s = "s\<lparr>last_valid_batch := Suc i\<rparr>"
    define s' where "s' = find_spot D S i j ?s"
    have sp: "shrink_packet D S i j s = s'" using nd by (simp add: shrink_packet_def s'_def)
    have pre: "valid_batch_ix ?s \<le> i" "searched D (batches ?s) (valid_batch_ix ?s) (valid_packet_ix ?s)"
      using inv by (simp_all add: shrink_inv_def)
    consider (stay) "batches s' = batches s" "valid_batch_ix s' = i" "last_valid_batch s' = Suc i"
        "searched D (batches s) i (valid_packet_ix s')"
      | (move) b k where "b < i" "k < length (batches s ! b)" "D (batches s ! b ! k)" "searched D (batches s) b k"
        "s' = \<lparr>batches = move_packet S (batches s) i j b k, valid_batch_ix = b, valid_packet_ix = k, last_valid_batch = Suc b\<rparr>"
      using find_spot_outcome[OF pre s'_def[symmetric]] by auto
    then show ?thesis
    proof cases
      case stay
      have "?p \<in> set (batches s ! i)" using i j len by simp
      with stay inv i nd show ?thesis by (auto simp: shrink_inv_def sp)
    next
      case (move b k)
      note mv = move_packet_simps[where bs = "batches s" and S = S and j = j and k = k, OF move(1)]
      have il: "i < length (batches s)" "j < length (batches s ! i)" using i j len by simp_all
      have vb: "valid_batch_ix s \<le> b"
      proof (rule ccontr)
        assume "\<not> ?thesis"
        then have "\<forall>p \<in> set (batches s ! b). \<not> D p" using inv by (auto simp: shrink_inv_def searched_def not_le)
        with move(2,3) show False by simp
      qed
      have "searched D (batches s') b k"
        using move(1,4,5) mv[OF il(1)] by (auto simp: searched_def)
      moreover have "valids D (batches s') = valids D bs0"
        using valids_move_packet[where D = D and S = S, OF move(1) il(1,2) move(2,3) nd SD] inv move(5) by (simp add: shrink_inv_def)
      moreover have "\<forall>b'. b < b' \<and> b' < i \<longrightarrow> (\<forall>p \<in> set (batches s' ! b'). D p)"
      proof (intro allI impI)
        fix b' assume b': "b < b' \<and> b' < i"
        then have "\<forall>p \<in> set (batches s ! b'). D p" using inv vb unfolding shrink_inv_def by (meson le_less_trans)
        then show "\<forall>p \<in> set (batches s' ! b'). D p" using mv(4)[OF il(1)] b' move(5) by simp
      qed
      moreover have "\<forall>m < Suc j. D (batches s' ! i ! m)"
        using inv vb move(1,5) mv(2)[OF il(1)] il(2) SD by (auto simp: shrink_inv_def nth_list_update less_Suc_eq)
      moreover have "?p \<in> set (batches s' ! b)"
        using move(2,5) mv(3)[OF il(1)] by (simp add: set_update_memI)
      ultimately show ?thesis
        using inv i move(1,5) mv(1)[OF il(1)] nd by (auto simp: shrink_inv_def sp)
    qed
  qed
qed

lemma fold_upt_induct:
  assumes "P 0 s" "\<And>j s. j < n \<Longrightarrow> P j s \<Longrightarrow> P (Suc j) (f j s)"
  shows "P n (fold f [0..<n] s)"
  using assms by (induction n) auto

lemma shrink_inv_batch:
  assumes SD: "\<And>p. D (S p True)" and inv: "shrink_inv D bs0 i 0 s" and i: "i < length bs0"
  shows "shrink_inv D bs0 (Suc i) 0 (shrink_batch D S i s)"
proof -
  have n: "length (batches s ! i) = length (bs0 ! i)"
    using inv i unfolding shrink_inv_def by (metis length_map nth_map)
  define s' where "s' = shrink_batch D S i s"
  have inv': "shrink_inv D bs0 i (length (bs0 ! i)) s'"
    unfolding s'_def shrink_batch_def n
    by (rule fold_upt_induct[where P = "shrink_inv D bs0 i"], rule inv, rule shrink_inv_packet[of D S, OF SD _ i])
  have "length (batches s' ! i) = length (bs0 ! i)"
    using inv' i unfolding shrink_inv_def by (metis length_map nth_map)
  then have "(\<forall>m < length (bs0 ! i). D (batches s' ! i ! m)) \<longleftrightarrow> (\<forall>p \<in> set (batches s' ! i). D p)"
    by (auto simp: all_set_conv_all_nth)
  with inv' show ?thesis unfolding s'_def[symmetric]
    by (auto simp: shrink_inv_def less_Suc_eq)
qed

lemma filter_empty_mset: "\<forall>p \<in># M. \<not> P p \<Longrightarrow> filter_mset P M = {#}"
  by (induction M) auto

lemma shrink_inv_done:
  assumes "shrink_inv D bs (length bs) 0 s"
  shows "last_valid_batch s \<le> length bs"
    "\<And>b. last_valid_batch s \<le> b \<Longrightarrow> b < length bs \<Longrightarrow> \<forall>p \<in> set (batches s ! b). D p"
    "\<And>b. Suc b < last_valid_batch s \<Longrightarrow> \<forall>p \<in> set (batches s ! b). \<not> D p"
    "last_valid_batch s \<noteq> 0 \<Longrightarrow> \<exists>p \<in> set (batches s ! (last_valid_batch s - 1)). \<not> D p"
  using assms by (auto simp: shrink_inv_def searched_def Suc_le_eq)

text \<open>What remains: every batch but the last is full of packets in use, the last has one, and what
  is cut off holds none.\<close>

lemma shrink_batches_fn_spec:
  assumes SD: "\<And>p. D (S p True)"
  shows "valids D (shrink_batches_fn D S bs) = valids D bs"
    "map length (shrink_batches_fn D S bs) = take (length (shrink_batches_fn D S bs)) (map length bs)"
    "\<forall>b < length (shrink_batches_fn D S bs) - 1. \<forall>p \<in> set (shrink_batches_fn D S bs ! b). \<not> D p"
    "shrink_batches_fn D S bs \<noteq> [] \<Longrightarrow> \<exists>p \<in> set (last (shrink_batches_fn D S bs)). \<not> D p"
proof -
  define s where "s = fold (shrink_batch D S) [0..<length bs]
    \<lparr>batches = bs, valid_batch_ix = 0, valid_packet_ix = 0, last_valid_batch = 0\<rparr>"
  have inv: "shrink_inv D bs (length bs) 0 s"
    unfolding s_def
  proof (rule fold_upt_induct[where P = "\<lambda>i. shrink_inv D bs i 0"])
    show "shrink_inv D bs (Suc i) 0 (shrink_batch D S i s)" if "i < length bs" "shrink_inv D bs i 0 s" for i s
      by (rule shrink_inv_batch[of D S, OF SD that(2,1)])
  qed (simp add: shrink_inv_def searched_def)
  have r: "shrink_batches_fn D S bs = take (last_valid_batch s) (batches s)"
    by (simp add: shrink_batches_fn_def s_def Let_def)
  have len: "length (batches s) = length bs" using inv unfolding shrink_inv_def by (metis length_map)
  have cut: "D p" if p: "p \<in> set (concat (drop (last_valid_batch s) (batches s)))" for p
  proof -
    from p obtain m where m: "m < length bs - last_valid_batch s" "p \<in> set (batches s ! (last_valid_batch s + m))"
      using len by (auto simp: in_set_conv_nth[of _ "drop _ _"])
    have "last_valid_batch s + m < length bs" using m(1) by simp
    with shrink_inv_done(2)[OF inv, of "last_valid_batch s + m"] m(2) show ?thesis by simp
  qed
  have "concat (batches s) = concat (take (last_valid_batch s) (batches s)) @ concat (drop (last_valid_batch s) (batches s))"
    by (metis append_take_drop_id concat_append)
  moreover have "filter_mset (\<lambda>p. \<not> D p) (mset (concat (drop (last_valid_batch s) (batches s)))) = {#}"
    by (rule filter_empty_mset) (use cut in auto)
  ultimately have "valids D (batches s) = valids D (take (last_valid_batch s) (batches s))"
    by (simp only: valids_def mset_append filter_union_mset add_0_right)
  then show "valids D (shrink_batches_fn D S bs) = valids D bs" using inv r by (simp add: shrink_inv_def)
  show "map length (shrink_batches_fn D S bs) = take (length (shrink_batches_fn D S bs)) (map length bs)"
    using inv shrink_inv_done(1)[OF inv] len unfolding r shrink_inv_def by (simp add: min_def flip: take_map)
  show "\<forall>b < length (shrink_batches_fn D S bs) - 1. \<forall>p \<in> set (shrink_batches_fn D S bs ! b). \<not> D p"
  proof (intro allI impI)
    fix b assume "b < length (shrink_batches_fn D S bs) - 1"
    then have "Suc b < last_valid_batch s" by (simp add: r)
    then show "\<forall>p \<in> set (shrink_batches_fn D S bs ! b). \<not> D p" using shrink_inv_done(3)[OF inv] by (simp add: r)
  qed
  show "\<exists>p \<in> set (last (shrink_batches_fn D S bs)). \<not> D p" if "shrink_batches_fn D S bs \<noteq> []"
    using shrink_inv_done(1,4)[OF inv] len that unfolding r by (simp add: last_conv_nth min_def)
qed

subsection \<open>Properties\<close>

definition valid_refs ::
  "('meta, 'pkt) packet_env \<Rightarrow> ('meta, 'pkt) packet_batch list \<Rightarrow> ('meta, 'pkt) packet_ref multiset" where
  "valid_refs E bs = filter_mset (\<lambda>p. \<not> ref_discard E p) (mset (concat (map batch_iter bs)))"

lemma valid_refs_Bytes: "valid_refs E (map Bytes bs) = image_mset RefBytes (valids (\<lambda>p. meta_discard E (bp_meta p)) bs)"
proof -
  have e: "concat (map batch_iter (map Bytes bs)) = map RefBytes (concat bs)" by (induction bs) simp_all
  show ?thesis unfolding valid_refs_def e mset_map filter_mset_image_mset valids_def by (simp add: ref_discard_def)
qed

lemma valid_refs_Pinned: "valid_refs E (map Pinned bs) = image_mset RefPacket (valids (\<lambda>p. meta_discard E (packet_meta E p)) bs)"
proof -
  have e: "concat (map batch_iter (map Pinned bs)) = map RefPacket (concat bs)" by (induction bs) simp_all
  show ?thesis unfolding valid_refs_def e mset_map filter_mset_image_mset valids_def by (simp add: ref_discard_def)
qed

lemma valid_refs_append: "valid_refs E (xs @ ys) = valid_refs E xs + valid_refs E ys"
  by (simp add: valid_refs_def)

lemma split_batches_refs:
  "split_batches bs = (bytes, pinned) \<Longrightarrow> valid_refs E bs = valid_refs E (map Bytes bytes) + valid_refs E (map Pinned pinned)"
  by (induction bs arbitrary: bytes pinned rule: split_batches.induct)
    (auto simp: valid_refs_def ac_simps split: prod.splits)

lemma map_Bytes_Pinned_inj:
  "map Bytes xs @ map Pinned ys = map Bytes xs' @ map Pinned ys' \<Longrightarrow> xs = xs' \<and> ys = ys'"
proof (induction xs arbitrary: xs')
  case Nil
  then have "xs' = []" by (cases xs'; cases ys) auto
  with Nil show ?case by (simp add: inj_map_eq_map inj_def)
next
  case (Cons x xs)
  then show ?case by (cases xs'; cases ys') auto
qed

text \<open>C8: Shrinking batches loses no packet and adds none: the packets that are not discarded are the
  same before and after, as a multiset.\<close>

theorem shrink_batches_keeps_packets:
  assumes "packet_laws E"
  shows "valid_refs E (shrink_batches E bs) = valid_refs E bs"
proof -
  obtain bytes pinned where s: "split_batches bs = (bytes, pinned)" by fastforce
  have "valids (\<lambda>p. meta_discard E (bp_meta p)) (shrink_bytes_batches E bytes) = valids (\<lambda>p. meta_discard E (bp_meta p)) bytes"
    unfolding shrink_bytes_batches_def
    by (rule shrink_batches_fn_spec(1)) (use assms in \<open>simp add: packet_laws_def\<close>)
  moreover have "valids (\<lambda>p. meta_discard E (packet_meta E p)) (shrink_pinned_batches E pinned) =
      valids (\<lambda>p. meta_discard E (packet_meta E p)) pinned"
    unfolding shrink_pinned_batches_def
    by (rule shrink_batches_fn_spec(1)) (use assms in \<open>simp add: packet_laws_def\<close>)
  ultimately show ?thesis
    by (simp add: shrink_batches_def s valid_refs_append valid_refs_Bytes valid_refs_Pinned split_batches_refs[OF s])
qed

text \<open>Three packets in three batches, the first of them discarded.\<close>

definition plain_bytes_packet :: "bool \<Rightarrow> u8 \<Rightarrow> plain_meta bytes_packet" where
  "plain_bytes_packet d b = \<lparr>bp_buffer = [b], bp_meta = \<lparr>pm_size = 1, pm_discard = d, pm_vote = False\<rparr>\<rparr>"

abbreviation plain_batches :: "plain_meta bytes_packet list list" where
  "plain_batches \<equiv> [[plain_bytes_packet True 1, plain_bytes_packet False 2], [plain_bytes_packet False 3]]"

theorem shrink_batches_keeps_packets_witness:
  "valid_refs plain_packet_env (shrink_batches plain_packet_env (map Bytes plain_batches)) =
     {#RefBytes (plain_bytes_packet False 2), RefBytes (plain_bytes_packet False 3)#}"
proof -
  have "valid_refs plain_packet_env (map Bytes plain_batches) =
      {#RefBytes (plain_bytes_packet False 2), RefBytes (plain_bytes_packet False 3)#}"
    by (simp add: valid_refs_def ref_discard_def plain_bytes_packet_def plain_packet_env_def)
  then show ?thesis using shrink_batches_keeps_packets[OF plain_packet_laws, of "map Bytes plain_batches"] by simp
qed

text \<open>Shrinking leaves nothing to shrink.  Of the batches of each kind a prefix remains, with their
  lengths; in every one but the last no packet is discarded, and the last has a packet that is not,
  so no shorter prefix could hold them all.\<close>

theorem shrink_batches_compact:
  assumes "packet_laws E" "shrink_batches E bs = map Bytes bytes @ map Pinned pinned"
  shows "map length bytes = take (length bytes) (map length (fst (split_batches bs)))
    \<and> map length pinned = take (length pinned) (map length (snd (split_batches bs)))
    \<and> (\<forall>b \<in> set (butlast bytes). \<forall>p \<in> set b. \<not> meta_discard E (bp_meta p))
    \<and> (\<forall>b \<in> set (butlast pinned). \<forall>p \<in> set b. \<not> meta_discard E (packet_meta E p))
    \<and> (bytes \<noteq> [] \<longrightarrow> (\<exists>p \<in> set (last bytes). \<not> meta_discard E (bp_meta p)))
    \<and> (pinned \<noteq> [] \<longrightarrow> (\<exists>p \<in> set (last pinned). \<not> meta_discard E (packet_meta E p)))"
proof -
  obtain by0 pi0 where s: "split_batches bs = (by0, pi0)" by fastforce
  have eq: "bytes = shrink_bytes_batches E by0" "pinned = shrink_pinned_batches E pi0"
    using assms(2) map_Bytes_Pinned_inj[of "shrink_bytes_batches E by0" "shrink_pinned_batches E pi0" bytes pinned]
    by (simp_all add: shrink_batches_def s)
  have D: "meta_discard E (meta_set_discard E m True)" "packet_meta E (packet_set_meta E p m) = m" for m p
    using assms(1) by (simp_all add: packet_laws_def)
  let ?DB = "\<lambda>p. meta_discard E (bp_meta p)" and ?SB = "\<lambda>p b. p\<lparr>bp_meta := meta_set_discard E (bp_meta p) b\<rparr>"
  let ?DP = "\<lambda>p. meta_discard E (packet_meta E p)"
  let ?SP = "\<lambda>p b. packet_set_meta E p (meta_set_discard E (packet_meta E p) b)"
  have "?DB (?SB p True)" "?DP (?SP q True)" for p :: "'a bytes_packet" and q by (simp_all add: D)
  note f = shrink_batches_fn_spec[of ?DB ?SB by0, OF this(1), folded shrink_bytes_batches_def, folded eq]
    shrink_batches_fn_spec[of ?DP ?SP pi0, OF this(2), folded shrink_pinned_batches_def, folded eq]
  show ?thesis
    using f(2-4,6-8) by (simp add: s all_set_conv_all_nth nth_butlast)
qed

theorem shrink_batches_compact_witness:
  "map Bytes [[plain_bytes_packet False 3, plain_bytes_packet False 2]] @ map Pinned [] =
     shrink_batches plain_packet_env (map Bytes plain_batches)
   \<and> (\<exists>p \<in> set [plain_bytes_packet False 3, plain_bytes_packet False 2]. \<not> meta_discard plain_packet_env (bp_meta p))"
proof -
  have "shrink_batches plain_packet_env (map Bytes plain_batches) =
      map Bytes [[plain_bytes_packet False 3, plain_bytes_packet False 2]] @ map Pinned []" by code_simp
  from shrink_batches_compact[OF plain_packet_laws this] this show ?thesis by auto
qed

end
