(* ===== verification/Deduper.thy ===== *)
theory Deduper
  imports Packet
begin

section \<open>Packet deduplication (\<open>perf/src/deduper.rs\<close>)\<close>

text \<open>
  A Bloom filter over words of 64 bits with \<open>K\<close> keyed hash functions.  The hash functions
  (\<open>ahash::RandomState\<close>, drawn from a random number generator) are the arguments \<open>new_states\<close>; the
  comparison of the false positive rate, which is done in floating point, is the argument
  \<open>rate_reached popcount num_bits K\<close>; the clock is a number of milliseconds.
\<close>

subsection \<open>The filter\<close>

record 't deduper =
  num_bits :: u64
  bits :: "u64 list"
  hash_states :: "('t \<Rightarrow> u64) list"
  clock :: nat
  popcount :: u64

unbundle bit_operations_syntax

text \<open>\<open>None\<close> is the panic of \<open>checked_add(63).unwrap()\<close>.\<close>

definition Deduper_new :: "('t \<Rightarrow> u64) list \<Rightarrow> nat \<Rightarrow> u64 \<Rightarrow> 't deduper option" where
  "Deduper_new new_states now n =
     do { s \<leftarrow> u64_add n 63;
          let size' = unat (s div 64);
          Some \<lparr>num_bits = n, bits = replicate size' 0, hash_states = new_states, clock = now, popcount = 0\<rparr> }"

text \<open>The result says whether the filter was saturated.  \<open>rate_valid\<close> is the asserted condition on the rate
  that the caller gives, \<open>None\<close> the failed assertion.\<close>

definition maybe_reset ::
  "bool \<Rightarrow> (u64 \<Rightarrow> u64 \<Rightarrow> nat \<Rightarrow> bool) \<Rightarrow> ('t \<Rightarrow> u64) list \<Rightarrow> nat \<Rightarrow> nat \<Rightarrow> 't deduper \<Rightarrow> (bool \<times> 't deduper) option" where
  "maybe_reset rate_valid rate_reached new_states now reset_cycle d =
     (if \<not> rate_valid then None
      else
        let saturated = rate_reached (min (popcount d) (num_bits d)) (num_bits d) (length (hash_states d))
        in Some (if saturated \<or> now - clock d \<ge> reset_cycle
                 then (saturated, d\<lparr>hash_states := new_states, clock := now, bits := replicate (length (bits d)) 0, popcount := 0\<rparr>)
                 else (saturated, d)))"

text \<open>One turn of the loop of \<open>dedup\<close>.  \<open>None\<close>: the remainder by zero or the index panics.\<close>

definition dedup_one :: "u64 \<Rightarrow> bool \<times> 't deduper \<Rightarrow> (bool \<times> 't deduper) option" where
  "dedup_one h st =
     (let (out, d) = st
      in if num_bits d = 0 then None
         else
           let hash = h mod num_bits d;
               index = unat (drop_bit 6 hash);
               mask = push_bit (unat (hash AND 63)) 1
           in do { old \<leftarrow> slice_get (bits d) index;
                   let d' = d\<lparr>bits := (bits d)[index := old OR mask]\<rparr>;
                   Some (if old AND mask = 0 then (False, d'\<lparr>popcount := popcount d' + 1\<rparr>) else (out, d')) })"

fun dedup_loop :: "u64 list \<Rightarrow> bool \<times> 't deduper \<Rightarrow> (bool \<times> 't deduper) option" where
  "dedup_loop [] st = Some st"
| "dedup_loop (h # hs) st = Option.bind (dedup_one h st) (dedup_loop hs)"

definition dedup :: "'t deduper \<Rightarrow> 't \<Rightarrow> (bool \<times> 't deduper) option" where
  "dedup d data = dedup_loop (map (\<lambda>random_state. random_state data) (hash_states d)) (True, d)"

text \<open>The packets of the batches in order; the count of discarded ones is an \<open>u64\<close>.\<close>

definition dedup_packet ::
  "('meta, 'pkt) packet_env \<Rightarrow> bytes deduper \<Rightarrow> ('meta, 'pkt) packet_ref
   \<Rightarrow> (('meta, 'pkt) packet_ref \<times> bytes deduper) option" where
  "dedup_packet E d p =
     (if ref_discard E p then Some (p, d)
      else case ref_data E p of
             None \<Rightarrow> Some (ref_set_discard E p True, d)
           | Some x \<Rightarrow> do { (dup, d') \<leftarrow> dedup d x;
                            Some (if dup then ref_set_discard E p True else p, d') })"

fun dedup_packets ::
  "('meta, 'pkt) packet_env \<Rightarrow> bytes deduper \<Rightarrow> ('meta, 'pkt) packet_ref list
   \<Rightarrow> (('meta, 'pkt) packet_ref list \<times> bytes deduper) option" where
  "dedup_packets E d [] = Some ([], d)"
| "dedup_packets E d (p # ps) =
     do { (p', d') \<leftarrow> dedup_packet E d p; (ps', d'') \<leftarrow> dedup_packets E d' ps; Some (p' # ps', d'') }"

fun dedup_batches ::
  "('meta, 'pkt) packet_env \<Rightarrow> bytes deduper \<Rightarrow> ('meta, 'pkt) packet_batch list
   \<Rightarrow> (('meta, 'pkt) packet_batch list \<times> bytes deduper) option" where
  "dedup_batches E d [] = Some ([], d)"
| "dedup_batches E d (b # bs) =
     do { (ps, d') \<leftarrow> dedup_packets E d (batch_iter b);
          (bs', d'') \<leftarrow> dedup_batches E d' bs;
          Some (batch_write b ps # bs', d'') }"

definition dedup_packets_and_count_discards ::
  "('meta, 'pkt) packet_env \<Rightarrow> bytes deduper \<Rightarrow> ('meta, 'pkt) packet_batch list
   \<Rightarrow> (u64 \<times> ('meta, 'pkt) packet_batch list \<times> bytes deduper) option" where
  "dedup_packets_and_count_discards E d batches =
     do { (batches', d') \<leftarrow> dedup_batches E d batches;
          Some (sum_list (map (\<lambda>p. if ref_discard E p then 1 else 0) (concat (map batch_iter batches'))), batches', d') }"

subsection \<open>The set of bits\<close>

text \<open>The abstract filter is a set of bit positions.\<close>

definition bit_set :: "'t deduper \<Rightarrow> nat set" where
  "bit_set d = {i. i < 64 * length (bits d) \<and> bit (bits d ! (i div 64)) (i mod 64)}"

definition positions :: "'t deduper \<Rightarrow> 't \<Rightarrow> nat set" where
  "positions d x = (\<lambda>h. unat (h x) mod unat (num_bits d)) ` set (hash_states d)"

definition wf_deduper :: "'t deduper \<Rightarrow> bool" where
  "wf_deduper d \<longleftrightarrow> 0 < num_bits d \<and> unat (num_bits d) + 63 < 2 ^ 64
     \<and> length (bits d) = (unat (num_bits d) + 63) div 64
     \<and> bit_set d \<subseteq> {..< unat (num_bits d)} \<and> unat (popcount d) = card (bit_set d)"

lemma finite_bit_set [simp]: "finite (bit_set d)"
  by (rule finite_subset[of _ "{..< 64 * length (bits d)}"]) (auto simp: bit_set_def)

lemma bit_set_popcount [simp]: "bit_set (d\<lparr>popcount := c\<rparr>) = bit_set d"
  by (simp add: bit_set_def)

lemma unat_div_64: "unat (drop_bit 6 (w :: u64)) = unat w div 64"
  by (simp add: drop_bit_eq_div unat_div)

lemma unat_mod_64: "unat ((w :: u64) AND 63) = unat w mod 64"
proof -
  have "w AND 63 = take_bit 6 w" by (simp add: take_bit_eq_mask mask_eq_exp_minus_1)
  then show ?thesis by (simp add: take_bit_eq_mod unat_mod)
qed

lemma and_mask_zero: "n < 64 \<Longrightarrow> (w :: u64) AND 2 ^ n = 0 \<longleftrightarrow> \<not> bit w n"
  by (simp add: and_exp_eq_0_iff_not_bit)

lemma bit_or_mask: "n < 64 \<Longrightarrow> m < 64 \<Longrightarrow> bit ((w :: u64) OR 2 ^ n) m \<longleftrightarrow> bit w m \<or> m = n"
  by (auto simp: bit_or_iff bit_exp_iff)

subsection \<open>The loop as operations on the set\<close>

lemma dedup_one_wf:
  assumes "wf_deduper d"
  shows "\<exists>d'. dedup_one h (out, d) = Some (out \<and> unat h mod unat (num_bits d) \<in> bit_set d, d') \<and> wf_deduper d'
    \<and> bit_set d' = insert (unat h mod unat (num_bits d)) (bit_set d)
    \<and> num_bits d' = num_bits d \<and> hash_states d' = hash_states d"
proof -
  let ?n = "num_bits d" and ?i = "unat h mod unat (num_bits d)"
  have n: "?n \<noteq> 0" "0 < unat ?n" using assms by (auto simp: wf_deduper_def word_neq_0_conv unat_gt_0)
  have i: "?i < unat ?n" using n(2) by simp
  then have ix: "?i div 64 < length (bits d)" using assms by (auto simp: wf_deduper_def)
  have h: "unat (h mod ?n) = ?i" by (simp add: unat_mod)
  let ?old = "bits d ! (?i div 64)" and ?mask = "2 ^ (?i mod 64) :: u64"
  let ?d = "d\<lparr>bits := (bits d)[?i div 64 := ?old OR ?mask]\<rparr>"
  have bs: "bit_set ?d = insert ?i (bit_set d)"
  proof (intro set_eqI iffI)
    fix k assume "k \<in> bit_set ?d"
    moreover have "k = ?i" if "k div 64 = ?i div 64" "k mod 64 = ?i mod 64" using that by (metis div_mult_mod_eq)
    ultimately show "k \<in> insert ?i (bit_set d)"
      by (cases "k div 64 = ?i div 64") (auto simp: bit_set_def ix bit_or_mask)
  next
    fix k assume "k \<in> insert ?i (bit_set d)"
    moreover have "?i < 64 * length (bits d)" using ix by (simp add: div_less_iff_less_mult mult.commute)
    ultimately show "k \<in> bit_set ?d"
      using ix by (cases "k div 64 = ?i div 64") (auto simp: bit_set_def bit_or_mask)
  qed
  have mem: "?old AND ?mask = 0 \<longleftrightarrow> ?i \<notin> bit_set d"
    using ix by (subst and_mask_zero) (auto simp: bit_set_def div_less_iff_less_mult mult.commute)
  have step: "dedup_one h (out, d) = Some (if ?i \<in> bit_set d then (out, ?d) else (False, ?d\<lparr>popcount := popcount d + 1\<rparr>))"
    using ix n mem unfolding dedup_one_def by (simp add: Let_def unat_div_64 unat_mod_64 h)
  have sub: "insert ?i (bit_set d) \<subseteq> {..< unat ?n}" using assms i by (auto simp: wf_deduper_def)
  show ?thesis
  proof (cases "?i \<in> bit_set d")
    case True
    then have "wf_deduper ?d" using assms bs by (simp add: wf_deduper_def insert_absorb)
    then show ?thesis using step True bs by simp
  next
    case False
    have "card (insert ?i (bit_set d)) \<le> unat ?n" using card_mono[OF _ sub] by simp
    then have "card (bit_set d) + 1 < 2 ^ 64" using False assms by (simp add: wf_deduper_def)
    then have "unat (popcount d + 1) = card (insert ?i (bit_set d))"
      using assms False by (simp add: wf_deduper_def unat_word_ariths)
    then have "wf_deduper (?d\<lparr>popcount := popcount d + 1\<rparr>)"
      using assms bs sub by (simp add: wf_deduper_def)
    then show ?thesis using step False bs by simp
  qed
qed

lemma subset_insert_iff_mem: "((A \<and> i \<in> B) \<and> I \<subseteq> insert i B) = (A \<and> insert i I \<subseteq> B)"
  by blast

lemma dedup_loop_wf:
  assumes "wf_deduper d"
  shows "\<exists>d'. dedup_loop hs (out, d) = Some (out \<and> (\<lambda>h. unat h mod unat (num_bits d)) ` set hs \<subseteq> bit_set d, d')
    \<and> wf_deduper d' \<and> bit_set d' = bit_set d \<union> (\<lambda>h. unat h mod unat (num_bits d)) ` set hs
    \<and> num_bits d' = num_bits d \<and> hash_states d' = hash_states d"
  using assms
proof (induction hs arbitrary: out d)
  case (Cons h hs)
  obtain d1 where d1: "dedup_one h (out, d) = Some (out \<and> unat h mod unat (num_bits d) \<in> bit_set d, d1)" "wf_deduper d1"
    "bit_set d1 = insert (unat h mod unat (num_bits d)) (bit_set d)" "num_bits d1 = num_bits d" "hash_states d1 = hash_states d"
    using dedup_one_wf[OF Cons.prems, of h out] by (elim exE conjE)
  let ?i = "unat h mod unat (num_bits d)" and ?I = "(\<lambda>h. unat h mod unat (num_bits d)) ` set hs"
  have e: "((out \<and> ?i \<in> bit_set d) \<and> ?I \<subseteq> insert ?i (bit_set d)) = (out \<and> insert ?i ?I \<subseteq> bit_set d)"
    by (rule subset_insert_iff_mem)
  obtain d2 where d2: "dedup_loop hs (out \<and> ?i \<in> bit_set d, d1) = Some (out \<and> insert ?i ?I \<subseteq> bit_set d, d2)" "wf_deduper d2"
    "bit_set d2 = insert ?i (bit_set d) \<union> ?I" "num_bits d2 = num_bits d" "hash_states d2 = hash_states d"
    using Cons.IH[OF d1(2), of "out \<and> ?i \<in> bit_set d"] unfolding d1(3-5) e by (elim exE conjE)
  show ?case
    unfolding dedup_loop.simps d1(1) Option.bind.simps d2(1) list.set image_insert
    by (rule exI[of _ d2]) (simp add: d2(2-5))
qed simp

lemma dedup_wf:
  assumes "wf_deduper d"
  obtains d' where "dedup d x = Some (positions d x \<subseteq> bit_set d, d')" "wf_deduper d'"
    "bit_set d' = bit_set d \<union> positions d x" "num_bits d' = num_bits d" "hash_states d' = hash_states d"
proof -
  have p: "(\<lambda>h. unat h mod unat (num_bits d)) ` set (map (\<lambda>r. r x) (hash_states d)) = positions d x"
    by (simp add: positions_def image_image)
  obtain d' where d': "dedup_loop (map (\<lambda>r. r x) (hash_states d)) (True, d) = Some (True \<and> positions d x \<subseteq> bit_set d, d')"
    "wf_deduper d'" "bit_set d' = bit_set d \<union> positions d x" "num_bits d' = num_bits d" "hash_states d' = hash_states d"
    using dedup_loop_wf[OF assms, of "map (\<lambda>r. r x) (hash_states d)" True] unfolding p by (elim exE conjE)
  have "dedup d x = Some (positions d x \<subseteq> bit_set d, d')" using d'(1) by (simp add: dedup_def)
  then show ?thesis by (rule that[OF _ d'(2-5)])
qed

subsection \<open>Packets\<close>

definition survivors :: "('meta, 'pkt) packet_env \<Rightarrow> ('meta, 'pkt) packet_ref list \<Rightarrow> bytes list" where
  "survivors E ps = map (\<lambda>p. the (ref_data E p)) (filter (\<lambda>p. \<not> ref_discard E p) ps)"

text \<open>The relation between the filter before and after some packets, and the packets before and after.\<close>

definition dedup_outcome ::
  "('meta, 'pkt) packet_env \<Rightarrow> bytes deduper \<Rightarrow> bytes deduper \<Rightarrow> ('meta, 'pkt) packet_ref list
   \<Rightarrow> ('meta, 'pkt) packet_ref list \<Rightarrow> bool" where
  "dedup_outcome E d d' ps ps' \<longleftrightarrow>
     wf_deduper d' \<and> num_bits d' = num_bits d \<and> hash_states d' = hash_states d \<and> bit_set d \<subseteq> bit_set d'
   \<and> list_all2 (\<lambda>p' p. p' = p \<or> p' = ref_set_discard E p True) ps' ps
   \<and> distinct (survivors E ps')
   \<and> (\<forall>x \<in> set (survivors E ps'). \<not> positions d x \<subseteq> bit_set d \<and> positions d x \<subseteq> bit_set d')"

lemma positions_cong: "num_bits d' = num_bits d \<Longrightarrow> hash_states d' = hash_states d \<Longrightarrow> positions d' x = positions d x"
  by (simp add: positions_def)

lemma dedup_outcome_append:
  assumes "dedup_outcome E d d1 ps ps'" "dedup_outcome E d1 d2 qs qs'"
  shows "dedup_outcome E d d2 (ps @ qs) (ps' @ qs')"
proof -
  note a = assms[unfolded dedup_outcome_def]
  have p: "positions d1 x = positions d x" for x by (rule positions_cong) (use a(1) in simp_all)
  have s: "survivors E (ps' @ qs') = survivors E ps' @ survivors E qs'" by (simp add: survivors_def)
  have sub: "bit_set d \<subseteq> bit_set d1" "bit_set d1 \<subseteq> bit_set d2" using a by simp_all
  have x: "\<not> positions d x \<subseteq> bit_set d \<and> positions d x \<subseteq> bit_set d2 \<and> positions d x \<subseteq> bit_set d1"
    if "x \<in> set (survivors E ps')" for x using a(1) that sub(2) by blast
  have y: "\<not> positions d x \<subseteq> bit_set d \<and> positions d x \<subseteq> bit_set d2 \<and> \<not> positions d x \<subseteq> bit_set d1"
    if "x \<in> set (survivors E qs')" for x using a(2) that sub(1) unfolding p by blast
  have "set (survivors E ps') \<inter> set (survivors E qs') = {}" using x y by blast
  then have "distinct (survivors E ps' @ survivors E qs')" using a by simp
  moreover have "\<forall>x \<in> set (survivors E ps' @ survivors E qs'). \<not> positions d x \<subseteq> bit_set d \<and> positions d x \<subseteq> bit_set d2"
    using x y by (metis Un_iff set_append)
  moreover have "list_all2 (\<lambda>p' p. p' = p \<or> p' = ref_set_discard E p True) (ps' @ qs') (ps @ qs)"
    using a by (blast intro: list_all2_appendI)
  ultimately show ?thesis unfolding dedup_outcome_def s using a sub by auto
qed

lemma dedup_outcome_Nil: "wf_deduper d \<Longrightarrow> dedup_outcome E d d [] []"
  by (simp add: dedup_outcome_def survivors_def)

lemma dedup_packet_outcome:
  assumes "packet_laws E" "wf_deduper d"
  obtains p' d' where "dedup_packet E d p = Some (p', d')" "dedup_outcome E d d' [p] [p']"
proof (cases "ref_discard E p \<or> ref_data E p = None")
  case True
  have "dedup_outcome E d d [p] [p']" if "ref_discard E p'" "p' = p \<or> p' = ref_set_discard E p True" for p'
    using assms(2) that by (auto simp: dedup_outcome_def survivors_def)
  moreover have "ref_discard E (ref_set_discard E p True)" using assms(1) by simp
  ultimately show ?thesis
    using True that[of p d] that[of "ref_set_discard E p True" d] by (cases "ref_discard E p") (simp_all add: dedup_packet_def)
next
  case False
  then obtain x where x: "ref_data E p = Some x" "\<not> ref_discard E p" by auto
  obtain d' where d': "dedup d x = Some (positions d x \<subseteq> bit_set d, d')" "wf_deduper d'"
    "bit_set d' = bit_set d \<union> positions d x" "num_bits d' = num_bits d" "hash_states d' = hash_states d"
    by (rule dedup_wf[OF assms(2)])
  let ?p = "if positions d x \<subseteq> bit_set d then ref_set_discard E p True else p"
  have "dedup_packet E d p = Some (?p, d')" using x d'(1) by (simp add: dedup_packet_def)
  moreover have "survivors E [?p] = (if positions d x \<subseteq> bit_set d then [] else [x])"
    using x assms(1) by (simp add: survivors_def)
  then have "dedup_outcome E d d' [p] [?p]"
    using d'(2-5) by (simp add: dedup_outcome_def)
  ultimately show ?thesis by (rule that)
qed

lemma dedup_packets_outcome:
  assumes "packet_laws E" "wf_deduper d"
  shows "\<exists>ps' d'. dedup_packets E d ps = Some (ps', d') \<and> dedup_outcome E d d' ps ps'"
  using assms(2)
proof (induction ps arbitrary: d)
  case (Cons p ps)
  obtain p' d1 where p: "dedup_packet E d p = Some (p', d1)" "dedup_outcome E d d1 [p] [p']"
    by (rule dedup_packet_outcome[OF assms(1) Cons.prems])
  then obtain ps' d2 where ps: "dedup_packets E d1 ps = Some (ps', d2)" "dedup_outcome E d1 d2 ps ps'"
    using Cons.IH[of d1] by (auto simp: dedup_outcome_def)
  show ?case using p ps dedup_outcome_append[OF p(2) ps(2)] by simp
qed (simp add: dedup_outcome_Nil)

lemma dedup_batches_outcome:
  assumes "packet_laws E" "wf_deduper d"
  shows "\<exists>bs' d'. dedup_batches E d bs = Some (bs', d')
    \<and> dedup_outcome E d d' (concat (map batch_iter bs)) (concat (map batch_iter bs')) \<and> map batch_len bs' = map batch_len bs"
  using assms(2)
proof (induction bs arbitrary: d)
  case (Cons b bs)
  obtain ps' d1 where p: "dedup_packets E d (batch_iter b) = Some (ps', d1)" "dedup_outcome E d d1 (batch_iter b) ps'"
    using dedup_packets_outcome[OF assms(1) Cons.prems] by blast
  have "list_all2 (\<lambda>p' p. p' = p \<or> p' = ref_set_discard E p True) ps' (batch_iter b)"
    using p(2) by (simp add: dedup_outcome_def)
  then have "list_all2 same_kind ps' (batch_iter b)" by (rule list_all2_mono) auto
  then have it: "batch_iter (batch_write b ps') = ps'" "length ps' = batch_len b"
    by (auto simp: batch_iter_write dest: list_all2_lengthD)
  then have l: "batch_len (batch_write b ps') = batch_len b" by (metis length_batch_iter)
  obtain bs' d2 where bs: "dedup_batches E d1 bs = Some (bs', d2)"
    "dedup_outcome E d1 d2 (concat (map batch_iter bs)) (concat (map batch_iter bs'))" "map batch_len bs' = map batch_len bs"
    using Cons.IH[of d1] p(2) by (auto simp: dedup_outcome_def)
  show ?case using p bs dedup_outcome_append[OF p(2) bs(2)] it(1) l by simp
qed (simp add: dedup_outcome_Nil)

subsection \<open>A concrete filter\<close>

definition length_deduper :: "bytes deduper" where
  "length_deduper = \<lparr>num_bits = 100, bits = [0, 0], hash_states = [\<lambda>x. word_of_nat (length x), \<lambda>x. word_of_nat (length x + 70)],
     clock = 0, popcount = 0\<rparr>"

lemma wf_length_deduper: "wf_deduper length_deduper"
proof -
  have "[0, 0] ! (i div 64) = (0 :: u64)" if "i < 128" for i :: nat
    using that by (cases "i div 64") (auto simp: div_less_iff_less_mult nth_Cons')
  then have "bit_set length_deduper = {}" by (auto simp: bit_set_def length_deduper_def)
  then show ?thesis by (simp add: wf_deduper_def length_deduper_def)
qed

subsection \<open>Properties\<close>

lemma bit_set_cleared [simp]: "bit_set (d\<lparr>bits := replicate n 0\<rparr>) = {}"
  by (auto simp: bit_set_def div_less_iff_less_mult)

lemma bit_set_irrelevant [simp]: "bit_set (d\<lparr>hash_states := hs\<rparr>) = bit_set d" "bit_set (d\<lparr>clock := c\<rparr>) = bit_set d"
  by (simp_all add: bit_set_def)

text \<open>A filter is well formed from its creation on: there is a word for every bit, no bit past
  \<open>num_bits\<close> is set, and \<open>popcount\<close> counts the set bits.  A reset empties it, and happens exactly
  when the filter is saturated or old; it panics exactly when the rate is not valid.  \<open>new\<close> panics
  exactly when \<open>num_bits + 63\<close> overflows.\<close>

theorem deduper_wf:
  shows "(Deduper_new states now n = None \<longleftrightarrow> 2 ^ 64 \<le> unat n + 63)
    \<and> (\<forall>d. Deduper_new states now n = Some d \<and> 0 < n \<longrightarrow> wf_deduper d \<and> bit_set d = {} \<and> hash_states d = states)
    \<and> (wf_deduper d \<longrightarrow>
         (case maybe_reset rate_valid rate_reached states now cycle d of
            None \<Rightarrow> \<not> rate_valid
          | Some (saturated, d') \<Rightarrow> rate_valid \<and> wf_deduper d'
              \<and> (if saturated \<or> cycle \<le> now - clock d then bit_set d' = {} else d' = d)))"
proof (intro conjI allI impI)
  show "Deduper_new states now n = None \<longleftrightarrow> 2 ^ 64 \<le> unat n + 63"
    by (simp add: Deduper_new_def u64_add_def)
next
  fix d assume a: "Deduper_new states now n = Some d \<and> 0 < n"
  then obtain s where s: "u64_add n 63 = Some s"
    "d = \<lparr>num_bits = n, bits = replicate (unat (s div 64)) 0, hash_states = states, clock = now, popcount = 0\<rparr>"
    by (auto simp: Deduper_new_def bind_eq_Some_conv)
  have u: "unat s = unat n + 63" using s(1) by (simp add: u64_add_eq_Some)
  have e: "bit_set d = {}" by (auto simp: s(2) bit_set_def div_less_iff_less_mult)
  have "unat n + 63 < 2 ^ 64" using u unat_u64_less[of s] by simp
  then have "wf_deduper d"
    using a u e unfolding wf_deduper_def e by (simp add: s(2) unat_div)
  then show "wf_deduper d" "bit_set d = {}" "hash_states d = states" using e by (simp_all add: s(2))
next
  assume "wf_deduper d"
  then show "case maybe_reset rate_valid rate_reached states now cycle d of
      None \<Rightarrow> \<not> rate_valid
    | Some (saturated, d') \<Rightarrow> rate_valid \<and> wf_deduper d'
        \<and> (if saturated \<or> cycle \<le> now - clock d then bit_set d' = {} else d' = d)"
    by (simp add: maybe_reset_def Let_def wf_deduper_def)
qed

theorem deduper_wf_witness:
  "\<exists>saturated d'. maybe_reset True (\<lambda>_ _ _. False) [] 9 5 length_deduper = Some (saturated, d') \<and> wf_deduper d' \<and> bit_set d' = {}"
  using deduper_wf[where states = "[]" and now = 9 and n = 0 and d = length_deduper and rate_valid = True
      and rate_reached = "\<lambda>_ _ _. False" and cycle = 5] wf_length_deduper
  by (auto simp: length_deduper_def split: option.splits if_splits)

text \<open>C9: The filter implements a Bloom filter over a set of bit positions: \<open>dedup\<close> does not panic,
  answers whether all positions of the data were set, and sets them.  So data seen before is always
  recognised, whatever was added since.\<close>

theorem dedup_refines_bloom_filter:
  assumes "wf_deduper d"
  shows "\<exists>d'. dedup d data = Some (positions d data \<subseteq> bit_set d, d') \<and> wf_deduper d'
    \<and> bit_set d' = bit_set d \<union> positions d data \<and> positions d' = positions d"
  by (rule dedup_wf[OF assms, of data]) (auto intro!: positions_cong)

theorem dedup_refines_bloom_filter_witness:
  "\<exists>d d'. dedup length_deduper [1] = Some (False, d) \<and> dedup d [2] = Some (True, d')"
proof -
  have p: "positions length_deduper [b] = {1, 71}" for b by (simp add: positions_def length_deduper_def)
  have e: "bit_set length_deduper = {}"
    using wf_length_deduper by (simp add: wf_deduper_def length_deduper_def)
  obtain d where d: "dedup length_deduper [1] = Some (False, d)" "wf_deduper d" "bit_set d = {1, 71}" "positions d = positions length_deduper"
    using dedup_refines_bloom_filter[OF wf_length_deduper, of "[1]"] p e by auto
  from dedup_refines_bloom_filter[OF d(2), of "[2]"] show ?thesis using d p by auto
qed

text \<open>Deduplicating batches lets no data through twice: the packets that are not discarded
  afterwards carry pairwise different data, none of it in the filter before; packets are only
  discarded, never changed otherwise, and the number returned counts the discarded ones.\<close>

theorem dedup_packets_distinct:
  assumes "packet_laws E" "wf_deduper d"
  shows "\<exists>n batches' d'. dedup_packets_and_count_discards E d batches = Some (n, batches', d') \<and> wf_deduper d'
    \<and> map batch_len batches' = map batch_len batches
    \<and> list_all2 (\<lambda>p' p. p' = p \<or> p' = ref_set_discard E p True)
        (concat (map batch_iter batches')) (concat (map batch_iter batches))
    \<and> distinct (survivors E (concat (map batch_iter batches')))
    \<and> (\<forall>x \<in> set (survivors E (concat (map batch_iter batches'))). \<not> positions d x \<subseteq> bit_set d)
    \<and> n = word_of_nat (length (filter (ref_discard E) (concat (map batch_iter batches'))))"
proof -
  obtain bs' d' where o: "dedup_batches E d batches = Some (bs', d')"
    "dedup_outcome E d d' (concat (map batch_iter batches)) (concat (map batch_iter bs'))" "map batch_len bs' = map batch_len batches"
    using dedup_batches_outcome[OF assms, of batches] by blast
  have n: "sum_list (map (\<lambda>p. if ref_discard E p then 1 else (0 :: u64)) ps) = word_of_nat (length (filter (ref_discard E) ps))" for ps
    by (induction ps) simp_all
  show ?thesis
    unfolding dedup_packets_and_count_discards_def o(1) n using o(2,3) by (simp add: dedup_outcome_def n)
qed

theorem dedup_packets_distinct_witness:
  "\<exists>n batches' d'. dedup_packets_and_count_discards plain_packet_env length_deduper
       [Bytes [BytesPacket_set_buffer plain_packet_env (BytesPacket_empty plain_packet_env) [1]],
        Bytes [BytesPacket_set_buffer plain_packet_env (BytesPacket_empty plain_packet_env) [1]]] = Some (n, batches', d')
     \<and> distinct (survivors plain_packet_env (concat (map batch_iter batches')))"
  using dedup_packets_distinct[OF plain_packet_laws wf_length_deduper] by blast

end
