(* ===== verification/Data_Budget.thy ===== *)
theory Data_Budget
  imports Prelude
begin

section \<open>The data budget (\<open>perf/src/data_budget.rs\<close>)\<close>

text \<open>
  A byte counter and a timestamp that any number of threads change with compare-and-exchange loops.
  A thread is at one of the points between two atomic accesses of \<open>take\<close> or \<open>update\<close>; \<open>budget_step\<close>
  lets one thread do its next access, and a weak compare-and-exchange may fail although the value
  is the expected one.  A ledger, which the code does not have, records what was granted.
\<close>

subsection \<open>The shared state and the operations\<close>

record data_budget =
  budget_bytes :: nat
  asof :: u64

definition restricted :: data_budget where
  "restricted = \<lparr>budget_bytes = 0, asof = u64_max\<rparr>"

definition budget_check :: "data_budget \<Rightarrow> nat \<Rightarrow> bool" where
  "budget_check b size' \<longleftrightarrow> size' \<le> budget_bytes b"

text \<open>The points of the two operations.  \<open>TakeCas size bytes\<close> is the exchange of \<open>take\<close> with the value
  read last; \<open>CanCas\<close> is the exchange in \<open>can_update\<close> at time \<open>now\<close>, \<open>UpdateCas\<close> the one in \<open>update\<close>.\<close>

datatype budget_pc =
    TakeLoad nat
  | TakeCas nat nat
  | TakeDone nat bool
  | CanLoad u64 "nat \<Rightarrow> nat"
  | CanCas u64 "nat \<Rightarrow> nat" u64 u64
  | UpdateLoad "nat \<Rightarrow> nat"
  | UpdateCas "nat \<Rightarrow> nat" nat
  | UpdateRead
  | UpdateDone nat

record budget_system =
  budget :: data_budget
  threads :: "nat \<Rightarrow> budget_pc"
  taken :: nat
  refills :: "(nat \<times> nat) list"
  update_times :: "(u64 \<times> u64) list"

text \<open>\<open>None\<close>: the loop of \<open>take\<close> or of \<open>can_update\<close> ends without an exchange.\<close>

definition take_next :: "nat \<Rightarrow> nat \<Rightarrow> budget_pc" where
  "take_next size' bytes' = (case checked_sub bytes' size' of None \<Rightarrow> TakeDone size' False | Some _ \<Rightarrow> TakeCas size' bytes')"

definition can_update_next :: "u64 \<Rightarrow> (nat \<Rightarrow> nat) \<Rightarrow> u64 \<Rightarrow> u64 \<Rightarrow> budget_pc" where
  "can_update_next duration updater now seen =
     (if u64_saturating_add seen duration \<le> now then CanCas duration updater now seen else UpdateRead)"

text \<open>\<open>budget_atomic now s pc\<close>: what one access of a thread at \<open>pc\<close> may do, \<open>now\<close> being the time.\<close>

inductive budget_atomic :: "u64 \<Rightarrow> budget_system \<Rightarrow> budget_pc \<Rightarrow> budget_system \<Rightarrow> budget_pc \<Rightarrow> bool" where
  take_load:
    "budget_atomic now s (TakeLoad n) s (take_next n (budget_bytes (budget s)))"
| take_ok:
    "budget_bytes (budget s) = seen \<Longrightarrow>
       budget_atomic now s (TakeCas n seen)
         (s\<lparr>budget := (budget s)\<lparr>budget_bytes := seen - n\<rparr>, taken := taken s + n\<rparr>) (TakeDone n True)"
| take_retry:
    "budget_atomic now s (TakeCas n seen) s (take_next n (budget_bytes (budget s)))"
| can_load:
    "budget_atomic now s (CanLoad d f) s (can_update_next d f now (asof (budget s)))"
| can_ok:
    "asof (budget s) = seen \<Longrightarrow>
       budget_atomic now s (CanCas d f start seen)
         (s\<lparr>budget := (budget s)\<lparr>asof := start\<rparr>, update_times := (start, d) # update_times s\<rparr>) (UpdateLoad f)"
| can_retry:
    "budget_atomic now s (CanCas d f start seen) s (can_update_next d f start (asof (budget s)))"
| update_load:
    "budget_atomic now s (UpdateLoad f) s (UpdateCas f (budget_bytes (budget s)))"
| update_ok:
    "budget_bytes (budget s) = seen \<Longrightarrow>
       budget_atomic now s (UpdateCas f seen)
         (s\<lparr>budget := (budget s)\<lparr>budget_bytes := f seen\<rparr>, refills := (seen, f seen) # refills s\<rparr>) UpdateRead"
| update_retry:
    "budget_atomic now s (UpdateCas f seen) s (UpdateCas f (budget_bytes (budget s)))"
| update_read:
    "budget_atomic now s UpdateRead s (UpdateDone (budget_bytes (budget s)))"

inductive_cases TakeLoadE: "budget_atomic now s (TakeLoad n) s' pc"
inductive_cases TakeCasE: "budget_atomic now s (TakeCas n seen) s' pc"

text \<open>A step: a thread does an access, or starts an operation when it has none.\<close>

inductive budget_step :: "budget_system \<Rightarrow> budget_system \<Rightarrow> bool" where
  access:
    "budget_atomic now s (threads s t) s' pc \<Longrightarrow> budget_step s (s'\<lparr>threads := (threads s')(t := pc)\<rparr>)"
| start_take:
    "threads s t = TakeDone m b \<or> threads s t = UpdateDone k \<Longrightarrow>
       budget_step s (s\<lparr>threads := (threads s)(t := TakeLoad n)\<rparr>)"
| start_update:
    "threads s t = TakeDone m b \<or> threads s t = UpdateDone k \<Longrightarrow>
       budget_step s (s\<lparr>threads := (threads s)(t := CanLoad d f)\<rparr>)"

definition budget_init :: "nat \<Rightarrow> u64 \<Rightarrow> budget_system \<Rightarrow> bool" where
  "budget_init b0 a0 s \<longleftrightarrow> budget s = \<lparr>budget_bytes = b0, asof = a0\<rparr> \<and> taken s = 0 \<and> refills s = [] \<and> update_times s = []
     \<and> (\<forall>t. threads s t = UpdateDone 0)"

subsection \<open>The invariant\<close>

text \<open>The counter is what there was, plus what the updates changed, minus what was taken; the times
  of the successful updates, newest first, are each late enough after the one before.\<close>

definition refilled :: "(nat \<times> nat) list \<Rightarrow> int" where
  "refilled rs = sum_list (map (\<lambda>(old, new). int new - int old) rs)"

fun last_update :: "u64 \<Rightarrow> (u64 \<times> u64) list \<Rightarrow> u64" where
  "last_update a0 [] = a0"
| "last_update a0 ((start, d) # us) = start"

fun spaced :: "u64 \<Rightarrow> (u64 \<times> u64) list \<Rightarrow> bool" where
  "spaced a0 [] \<longleftrightarrow> True"
| "spaced a0 ((start, d) # us) \<longleftrightarrow> u64_saturating_add (last_update a0 us) d \<le> start \<and> spaced a0 us"

text \<open>What a thread about to exchange has checked.\<close>

fun pc_ok :: "budget_pc \<Rightarrow> bool" where
  "pc_ok (TakeCas n seen) \<longleftrightarrow> n \<le> seen"
| "pc_ok (CanCas d f start seen) \<longleftrightarrow> u64_saturating_add seen d \<le> start"
| "pc_ok _ \<longleftrightarrow> True"

definition budget_inv :: "nat \<Rightarrow> u64 \<Rightarrow> budget_system \<Rightarrow> bool" where
  "budget_inv b0 a0 s \<longleftrightarrow>
     int (budget_bytes (budget s)) + int (taken s) = int b0 + refilled (refills s)
   \<and> asof (budget s) = last_update a0 (update_times s) \<and> spaced a0 (update_times s)
   \<and> (\<forall>t. pc_ok (threads s t))"

lemma pc_ok_next [simp]: "pc_ok (take_next n b)" "pc_ok (can_update_next d f now seen)"
  by (auto simp: take_next_def can_update_next_def checked_sub_def)

lemma budget_atomic_inv:
  assumes "budget_atomic now s pc s' pc'" "budget_inv b0 a0 s" "pc_ok pc"
  shows "budget_inv b0 a0 s' \<and> pc_ok pc' \<and> threads s' = threads s"
  using assms by cases (auto simp: budget_inv_def refilled_def)

lemma budget_step_inv:
  assumes "budget_inv b0 a0 s" "budget_step s s'"
  shows "budget_inv b0 a0 s'"
  using assms(2)
proof cases
  case (access now t s1 pc)
  have "pc_ok (threads s t)" using assms(1) by (simp add: budget_inv_def)
  from budget_atomic_inv[OF access(2) assms(1) this] show ?thesis
    unfolding access(1) by (auto simp: budget_inv_def)
qed (use assms(1) in \<open>auto simp: budget_inv_def\<close>)

interpretation budget_run: transition_invariant "budget_init b0 a0" budget_step "budget_inv b0 a0" for b0 a0
proof unfold_locales
  show "budget_inv b0 a0 s" if "budget_init b0 a0 s" for s
    using that by (simp add: budget_init_def budget_inv_def refilled_def)
qed (rule budget_step_inv)

subsection \<open>Properties\<close>

text \<open>A run: the budget of 10 bytes is updated at time 20 by one thread, which adds 5.\<close>

definition start_system :: budget_system where
  "start_system = \<lparr>budget = \<lparr>budget_bytes = 10, asof = 7\<rparr>, threads = (\<lambda>_. UpdateDone 0), taken = 0, refills = [], update_times = []\<rparr>"

definition updated_system :: budget_system where
  "updated_system = \<lparr>budget = \<lparr>budget_bytes = 15, asof = 20\<rparr>, threads = (\<lambda>_. UpdateDone 0)(0 := UpdateRead), taken = 0,
     refills = [(10, 15)], update_times = [(20, 5)]\<rparr>"

lemma budget_init_start: "budget_init 10 7 start_system"
  by (simp add: budget_init_def start_system_def)

lemma accessI:
  "threads s t = pc0 \<Longrightarrow> budget_atomic now s pc0 s' pc \<Longrightarrow> budget_step s (s'\<lparr>threads := (threads s')(t := pc)\<rparr>)"
  using access[of now s t s' pc] by simp

lemma update_run: "budget_step\<^sup>*\<^sup>* start_system updated_system"
proof -
  let ?f = "\<lambda>b. b + 5 :: nat"
  let ?s1 = "start_system\<lparr>threads := (threads start_system)(0 := CanLoad 5 ?f)\<rparr>"
  let ?s2 = "?s1\<lparr>threads := (threads ?s1)(0 := CanCas 5 ?f 20 7)\<rparr>"
  let ?s3 = "?s2\<lparr>budget := (budget ?s2)\<lparr>asof := 20\<rparr>, update_times := [(20, 5)], threads := (threads ?s2)(0 := UpdateLoad ?f)\<rparr>"
  let ?s4 = "?s3\<lparr>threads := (threads ?s3)(0 := UpdateCas ?f 10)\<rparr>"
  have 1: "budget_step start_system ?s1" by (rule start_update) (simp add: start_system_def)
  have "can_update_next 5 ?f 20 (asof (budget ?s1)) = CanCas 5 ?f 20 7"
    by (simp add: can_update_next_def start_system_def u64_saturating_add_def word_le_nat_alt)
  then have 2: "budget_step ?s1 ?s2" using accessI[OF _ can_load[of 20 ?s1 5 ?f], of 0] by simp
  have 3: "budget_step ?s2 ?s3"
    using accessI[OF _ can_ok[of ?s2 7 0 5 ?f 20], of 0] by (simp add: start_system_def)
  have 4: "budget_step ?s3 ?s4"
    using accessI[OF _ update_load[of 0 ?s3 ?f], of 0] by (simp add: start_system_def)
  have 5: "budget_step ?s4 updated_system"
    using accessI[OF _ update_ok[of ?s4 10 0 ?f], of 0] by (simp add: start_system_def updated_system_def)
  show ?thesis using 1 2 3 4 5 by (meson converse_rtranclp_into_rtranclp rtranclp.rtrancl_refl)
qed

text \<open>C11: The budget is never overdrawn, whatever the interleaving and whichever exchanges fail: the
  bytes left and the bytes taken are together the bytes there were and what the updates added.\<close>

theorem budget_conserved:
  assumes "budget_init b0 a0 s" "budget_step\<^sup>*\<^sup>* s s'"
  shows "int (budget_bytes (budget s')) + int (taken s') = int b0 + refilled (refills s')"
  using budget_run.reachable_inv[OF assms] by (simp add: budget_inv_def)

theorem budget_conserved_witness:
  "int (budget_bytes (budget updated_system)) + int (taken updated_system) = 10 + refilled [(10, 15)]"
  using budget_conserved[OF budget_init_start update_run] by (simp add: updated_system_def)

text \<open>Updates are spaced: every successful \<open>can_update\<close> happens at a time at least its duration
  after the previous one (saturating), so concurrent callers cannot refill the budget twice.\<close>

theorem budget_updates_spaced:
  assumes "budget_init b0 a0 s" "budget_step\<^sup>*\<^sup>* s s'"
  shows "spaced a0 (update_times s') \<and> asof (budget s') = last_update a0 (update_times s')"
  using budget_run.reachable_inv[OF assms] by (simp add: budget_inv_def)

theorem budget_updates_spaced_witness:
  "spaced 7 [(20, 5)] \<and> asof (budget updated_system) = 20"
  using budget_updates_spaced[OF budget_init_start update_run] by (simp add: updated_system_def)

text \<open>\<open>take\<close> makes progress: a thread that calls it and is not disturbed is done after two
  accesses, with true and the bytes taken exactly if there were enough, and with false and nothing
  changed otherwise.\<close>

theorem take_progress:
  assumes "threads s t = TakeLoad n"
  shows "\<exists>s'. budget_step\<^sup>*\<^sup>* s s' \<and> threads s' t = TakeDone n (budget_check (budget s) n)
    \<and> budget s' = (if budget_check (budget s) n then (budget s)\<lparr>budget_bytes := budget_bytes (budget s) - n\<rparr> else budget s)"
proof -
  let ?b = "budget_bytes (budget s)"
  let ?s1 = "s\<lparr>threads := (threads s)(t := take_next n ?b)\<rparr>"
  have "budget_atomic 0 s (threads s t) s (take_next n ?b)" unfolding assms by (rule take_load)
  then have s1: "budget_step s ?s1" by (rule access)
  show ?thesis
  proof (cases "n \<le> ?b")
    case False
    then show ?thesis using s1 by (intro exI[of _ ?s1]) (auto simp: take_next_def checked_sub_def budget_check_def)
  next
    case True
    then have t1: "threads ?s1 t = TakeCas n ?b" by (simp add: take_next_def checked_sub_def)
    have "budget_atomic 0 ?s1 (threads ?s1 t)
        (?s1\<lparr>budget := (budget ?s1)\<lparr>budget_bytes := ?b - n\<rparr>, taken := taken ?s1 + n\<rparr>) (TakeDone n True)"
      unfolding t1 by (rule take_ok) simp
    note access[OF this]
    with s1 have "budget_step\<^sup>*\<^sup>* s (?s1\<lparr>budget := (budget ?s1)\<lparr>budget_bytes := ?b - n\<rparr>, taken := taken ?s1 + n,
        threads := (threads ?s1)(t := TakeDone n True)\<rparr>)"
      by (simp add: converse_rtranclp_into_rtranclp)
    then show ?thesis using True by (intro exI conjI) (assumption, simp_all add: budget_check_def)
  qed
qed

theorem take_progress_witness:
  "\<exists>s'. budget_step\<^sup>*\<^sup>* (start_system\<lparr>threads := \<lambda>_. TakeLoad 3\<rparr>) s' \<and> threads s' 0 = TakeDone 3 True
     \<and> budget s' = \<lparr>budget_bytes = 7, asof = 7\<rparr>"
  using take_progress[of "start_system\<lparr>threads := \<lambda>_. TakeLoad 3\<rparr>" 0 3]
  by (simp add: start_system_def budget_check_def)

end
