(* ===== verification/Byte_Keys.thy ===== *)
theory Byte_Keys
  imports Prelude
begin

section \<open>Integers as big-endian bytes\<close>

text \<open>
  \<open>to_be_bytes\<close> and \<open>from_be_bytes\<close> of the integer types, and the order of byte strings by which the
  database sorts its keys.  On big-endian encodings of one length that order is the order of the
  numbers, which is why the columns of the ledger encode slots this way.
\<close>

subsection \<open>Encoding\<close>

fun be_encode :: "nat \<Rightarrow> nat \<Rightarrow> bytes" where
  "be_encode 0 k = []"
| "be_encode (Suc n) k = be_encode n (k div 256) @ [word_of_nat (k mod 256)]"

definition be_decode :: "bytes \<Rightarrow> nat" where
  "be_decode bs = foldl (\<lambda>a b. a * 256 + unat b) 0 bs"

definition u64_to_be_bytes :: "u64 \<Rightarrow> bytes" where
  "u64_to_be_bytes w = be_encode 8 (unat w)"

definition u32_to_be_bytes :: "u32 \<Rightarrow> bytes" where
  "u32_to_be_bytes w = be_encode 4 (unat w)"

definition u64_from_be_bytes :: "bytes \<Rightarrow> u64" where
  "u64_from_be_bytes bs = word_of_nat (be_decode bs)"

definition u32_from_be_bytes :: "bytes \<Rightarrow> u32" where
  "u32_from_be_bytes bs = word_of_nat (be_decode bs)"

lemma length_be_encode [simp]: "length (be_encode n k) = n"
  by (induction n arbitrary: k) simp_all

lemma be_decode_snoc [simp]: "be_decode (bs @ [b]) = be_decode bs * 256 + unat b"
  by (simp add: be_decode_def)

lemma be_decode_Nil [simp]: "be_decode [] = 0"
  by (simp add: be_decode_def)

lemma unat_byte_less: "unat (b :: byte) < 256"
  using unsigned_less[of b, where ?'a = nat] by simp

lemma be_decode_encode: "k < 256 ^ n \<Longrightarrow> be_decode (be_encode n k) = k"
proof (induction n arbitrary: k)
  case (Suc n)
  then have "k div 256 < 256 ^ n" by (simp add: div_less_iff_less_mult mult.commute)
  moreover have "unat (word_of_nat (k mod 256) :: byte) = k mod 256" by (simp add: unat_of_nat)
  ultimately show ?case using Suc.IH by simp
qed simp

lemma be_decode_less: "be_decode bs < 256 ^ length bs"
proof (induction bs rule: rev_induct)
  case (snoc b bs)
  have "be_decode bs * 256 + unat b < (be_decode bs + 1) * 256" using unat_byte_less[of b] by simp
  also have "\<dots> \<le> 256 ^ length bs * 256" using snoc by (intro mult_le_mono1) simp
  finally show ?case by simp
qed simp

lemma be_encode_decode: "be_encode (length bs) (be_decode bs) = bs"
proof (induction bs rule: rev_induct)
  case (snoc b bs)
  have "(be_decode bs * 256 + unat b) div 256 = be_decode bs" "(be_decode bs * 256 + unat b) mod 256 = unat b"
    using unat_byte_less[of b] by simp_all
  then show ?case using snoc by simp
qed simp

lemma length_to_be_bytes [simp]: "length (u64_to_be_bytes w) = 8" "length (u32_to_be_bytes v) = 4"
  by (simp_all add: u64_to_be_bytes_def u32_to_be_bytes_def)

lemma from_to_be_bytes [simp]:
  "u64_from_be_bytes (u64_to_be_bytes w) = w" "u32_from_be_bytes (u32_to_be_bytes v) = v"
proof -
  have "unat w < 256 ^ 8" using unat_u64_less[of w] by simp
  then show "u64_from_be_bytes (u64_to_be_bytes w) = w"
    by (simp add: u64_from_be_bytes_def u64_to_be_bytes_def be_decode_encode)
  have "unat v < 256 ^ 4" using unsigned_less[of v, where ?'a = nat] by simp
  then show "u32_from_be_bytes (u32_to_be_bytes v) = v"
    by (simp add: u32_from_be_bytes_def u32_to_be_bytes_def be_decode_encode)
qed

lemma u64_to_from_be_bytes: "length bs = 8 \<Longrightarrow> u64_to_be_bytes (u64_from_be_bytes bs) = bs"
  using be_decode_less[of bs] be_encode_decode[of bs]
  by (simp add: u64_to_be_bytes_def u64_from_be_bytes_def unat_of_nat)

subsection \<open>The order of keys\<close>

text \<open>Bytewise comparison, a prefix first.\<close>

fun bytes_less :: "bytes \<Rightarrow> bytes \<Rightarrow> bool" where
  "bytes_less xs [] \<longleftrightarrow> False"
| "bytes_less [] (y # ys) \<longleftrightarrow> True"
| "bytes_less (x # xs) (y # ys) \<longleftrightarrow> x < y \<or> x = y \<and> bytes_less xs ys"

lemma bytes_less_irrefl [simp]: "\<not> bytes_less xs xs"
  by (induction xs) simp_all

lemma bytes_less_trans: "bytes_less xs ys \<Longrightarrow> bytes_less ys zs \<Longrightarrow> bytes_less xs zs"
proof (induction xs ys arbitrary: zs rule: bytes_less.induct)
  case (2 y ys)
  then show ?case by (cases zs) auto
next
  case (3 x xs y ys)
  then show ?case by (cases zs) (auto intro: less_trans)
qed simp

lemma bytes_less_linear: "bytes_less xs ys \<or> xs = ys \<or> bytes_less ys xs"
proof (induction xs ys rule: bytes_less.induct)
  case (1 xs)
  then show ?case by (cases xs) simp_all
next
  case (3 x xs y ys)
  then show ?case by (cases "x = y") (auto simp: neq_iff)
qed simp

lemma be_decode_Cons: "be_decode (x # xs) = unat x * 256 ^ length xs + be_decode xs"
proof (induction xs rule: rev_induct)
  case (snoc y ys)
  have "be_decode ((x # ys) @ [y]) = be_decode (x # ys) * 256 + unat y" by (rule be_decode_snoc)
  then show ?case using snoc by (simp add: algebra_simps)
qed (simp add: be_decode_def)

lemma bytes_less_be_decode: "length xs = length ys \<Longrightarrow> bytes_less xs ys \<longleftrightarrow> be_decode xs < be_decode ys"
proof (induction xs ys rule: bytes_less.induct)
  case (3 x xs y ys)
  have b: "be_decode xs < 256 ^ length ys" "be_decode ys < 256 ^ length ys"
    using be_decode_less[of xs] be_decode_less[of ys] "3.prems" by simp_all
  have less: "a * m + c < b * m + d" if "a < b" "c < m" for a b c d m :: nat
  proof -
    have "a * m + c < (a + 1) * m" using that(2) by simp
    also have "\<dots> \<le> b * m" using that(1) by (intro mult_le_mono1) simp
    finally show ?thesis by simp
  qed
  show ?case
  proof (cases "x = y")
    case False
    then have "unat x < unat y \<or> unat y < unat x" by (metis linorder_neqE_nat word_unat_eq_iff)
    then show ?thesis
    proof
      assume "unat x < unat y"
      then show ?thesis using less[OF _ b(1)] False "3.prems" by (simp add: be_decode_Cons word_less_nat_alt)
    next
      assume "unat y < unat x"
      then show ?thesis
        using less[OF _ b(2), of "unat y" "unat x" "be_decode xs"] False "3.prems"
        by (simp add: be_decode_Cons word_less_nat_alt)
    qed
  qed (use 3 in \<open>simp add: be_decode_Cons\<close>)
qed simp_all

lemma bytes_less_u64: "bytes_less (u64_to_be_bytes a) (u64_to_be_bytes b) \<longleftrightarrow> a < b"
proof -
  have "unat w < 256 ^ 8" for w :: u64 using unat_u64_less[of w] by simp
  then show ?thesis
    by (simp add: bytes_less_be_decode u64_to_be_bytes_def be_decode_encode word_less_nat_alt)
qed

text \<open>Keys that start with a slot.\<close>

lemma bytes_less_append:
  "length xs = length ys \<Longrightarrow> bytes_less (xs @ us) (ys @ vs) \<longleftrightarrow> bytes_less xs ys \<or> xs = ys \<and> bytes_less us vs"
  by (induction xs ys rule: bytes_less.induct) auto

end
