(* ===== verification/Columns.thy ===== *)
theory Columns
  imports Byte_Keys
begin

section \<open>Columns of the ledger (\<open>ledger/src/blockstore/column.rs\<close>)\<close>

text \<open>
  The column families and the encoding of their indices as keys.  \<open>Signature\<close> and \<open>Pubkey\<close> are byte
  strings, whose lengths (64 and 32) their Rust types fix and \<open>ok\<close> predicates state here.  Decoding
  returns \<open>None\<close> where the code panics on a short key.  The locale \<open>column_codec\<close> is the contract of
  the trait \<open>Column\<close>, \<open>slot_first_codec\<close> what range deletion needs of the columns keyed by slot.
\<close>

subsection \<open>Column families\<close>

type_synonym slot = u64
type_synonym signature = bytes
type_synonym pubkey = bytes

datatype column =
    ColSlotMeta | ColOrphans | ColDeadSlots | ColDuplicateSlots | ColErasureMeta | ColBankHash | ColRoot | ColIndex
  | ColShredData | ColShredCode | ColTransactionStatus | ColAddressSignatures | ColTransactionMemos
  | ColTransactionStatusIndex | ColRewards | ColBlocktime | ColPerfSamples | ColBlockHeight | ColOptimisticSlots
  | ColMerkleRootMeta

text \<open>\<open>DuplicateSlots\<close> is declared but has no name.\<close>

fun column_name :: "column \<Rightarrow> string option" where
  "column_name ColSlotMeta = Some ''meta''"
| "column_name ColOrphans = Some ''orphans''"
| "column_name ColDeadSlots = Some ''dead_slots''"
| "column_name ColDuplicateSlots = None"
| "column_name ColErasureMeta = Some ''erasure_meta''"
| "column_name ColBankHash = Some ''bank_hashes''"
| "column_name ColRoot = Some ''root''"
| "column_name ColIndex = Some ''index''"
| "column_name ColShredData = Some ''data_shred''"
| "column_name ColShredCode = Some ''code_shred''"
| "column_name ColTransactionStatus = Some ''transaction_status''"
| "column_name ColAddressSignatures = Some ''address_signatures''"
| "column_name ColTransactionMemos = Some ''transaction_memos''"
| "column_name ColTransactionStatusIndex = Some ''transaction_status_index''"
| "column_name ColRewards = Some ''rewards''"
| "column_name ColBlocktime = Some ''blocktime''"
| "column_name ColPerfSamples = Some ''perf_samples''"
| "column_name ColBlockHeight = Some ''block_height''"
| "column_name ColOptimisticSlots = Some ''optimistic_slots''"
| "column_name ColMerkleRootMeta = Some ''merkle_root_meta''"

subsection \<open>Keys\<close>

text \<open>\<open>convert_column_index_to_key_bytes\<close> copies the parts into consecutive ranges that fill the key;
  \<open>convert_column_key_bytes_to_index\<close> slices the key, which panics when it is too short.\<close>

definition key_bytes :: "bytes list \<Rightarrow> bytes" where
  "key_bytes parts = concat parts"

definition key_part :: "bytes \<Rightarrow> nat \<Rightarrow> nat \<Rightarrow> bytes option" where
  "key_part k a b = slice_range k a b"

definition SlotColumn_key :: "slot \<Rightarrow> bytes" where
  "SlotColumn_key s = u64_to_be_bytes s"

definition SlotColumn_index :: "bytes \<Rightarrow> slot option" where
  "SlotColumn_index k = map_option u64_from_be_bytes (key_part k 0 8)"

definition SlotColumn_slot :: "slot \<Rightarrow> slot" where
  "SlotColumn_slot i = i"

definition SlotColumn_as_index :: "slot \<Rightarrow> slot" where
  "SlotColumn_as_index s = s"

definition TransactionStatusIndex_key :: "u64 \<Rightarrow> bytes" where
  "TransactionStatusIndex_key i = u64_to_be_bytes i"

definition TransactionStatusIndex_index :: "bytes \<Rightarrow> u64 option" where
  "TransactionStatusIndex_index k = map_option u64_from_be_bytes (key_part k 0 8)"

definition TransactionStatusIndex_as_index :: "u64 \<Rightarrow> u64" where
  "TransactionStatusIndex_as_index s = s"

definition ShredData_key :: "slot \<times> u64 \<Rightarrow> bytes" where
  "ShredData_key i = (let (s, index) = i in key_bytes [u64_to_be_bytes s, u64_to_be_bytes index])"

definition ShredData_index :: "bytes \<Rightarrow> (slot \<times> u64) option" where
  "ShredData_index k =
     do { s \<leftarrow> key_part k 0 8; i \<leftarrow> key_part k 8 16; Some (u64_from_be_bytes s, u64_from_be_bytes i) }"

definition ShredData_slot :: "slot \<times> u64 \<Rightarrow> slot" where
  "ShredData_slot i = fst i"

definition ShredData_as_index :: "slot \<Rightarrow> slot \<times> u64" where
  "ShredData_as_index s = (s, 0)"

definition ShredCode_key :: "slot \<times> u64 \<Rightarrow> bytes" where
  "ShredCode_key i = ShredData_key i"

definition ShredCode_index :: "bytes \<Rightarrow> (slot \<times> u64) option" where
  "ShredCode_index k = ShredData_index k"

definition ErasureMeta_key :: "slot \<times> u64 \<Rightarrow> bytes" where
  "ErasureMeta_key i = (let (s, fec_set_index) = i in key_bytes [u64_to_be_bytes s, u64_to_be_bytes fec_set_index])"

definition ErasureMeta_index :: "bytes \<Rightarrow> (slot \<times> u64) option" where
  "ErasureMeta_index k =
     do { s \<leftarrow> key_part k 0 8; i \<leftarrow> key_part k 8 16; Some (u64_from_be_bytes s, u64_from_be_bytes i) }"

definition ErasureMeta_as_index :: "slot \<Rightarrow> slot \<times> u64" where
  "ErasureMeta_as_index s = (s, 0)"

definition MerkleRootMeta_key :: "slot \<times> u32 \<Rightarrow> bytes" where
  "MerkleRootMeta_key i = (let (s, fec_set_index) = i in key_bytes [u64_to_be_bytes s, u32_to_be_bytes fec_set_index])"

definition MerkleRootMeta_index :: "bytes \<Rightarrow> (slot \<times> u32) option" where
  "MerkleRootMeta_index k =
     do { s \<leftarrow> key_part k 0 8; i \<leftarrow> key_part k 8 12; Some (u64_from_be_bytes s, u32_from_be_bytes i) }"

definition MerkleRootMeta_slot :: "slot \<times> u32 \<Rightarrow> slot" where
  "MerkleRootMeta_slot i = fst i"

definition MerkleRootMeta_as_index :: "slot \<Rightarrow> slot \<times> u32" where
  "MerkleRootMeta_as_index s = (s, 0)"

subsection \<open>Columns with a deprecated index\<close>

datatype index_error = UnpackError

text \<open>\<open>ColumnIndexDeprecation::index\<close>: the current format, else the deprecated one converted, else the
  index of slot 0.  The inner results are \<open>None\<close> on a panic.\<close>

definition deprecation_index ::
  "(bytes \<Rightarrow> (index_error + 'i) option) \<Rightarrow> (bytes \<Rightarrow> (index_error + 'd) option) \<Rightarrow> ('d \<Rightarrow> 'i) \<Rightarrow> (slot \<Rightarrow> 'i) \<Rightarrow> bytes \<Rightarrow> 'i option" where
  "deprecation_index try_current_index try_deprecated_index convert_index as_index k =
     do { current \<leftarrow> try_current_index k;
          case current of
            Inr i \<Rightarrow> Some i
          | Inl _ \<Rightarrow>
              do { deprecated \<leftarrow> try_deprecated_index k;
                   case deprecated of Inr i \<Rightarrow> Some (convert_index i) | Inl _ \<Rightarrow> Some (as_index 0) } }"

definition TransactionStatus_key :: "signature \<times> slot \<Rightarrow> bytes" where
  "TransactionStatus_key i = (let (sig, s) = i in key_bytes [sig, u64_to_be_bytes s])"

definition TransactionStatus_slot :: "signature \<times> slot \<Rightarrow> slot" where
  "TransactionStatus_slot i = snd i"

definition TransactionStatus_as_index :: "u64 \<Rightarrow> signature \<times> slot" where
  "TransactionStatus_as_index i = (replicate 64 0, 0)"

definition TransactionStatus_deprecated_key :: "u64 \<times> signature \<times> slot \<Rightarrow> bytes" where
  "TransactionStatus_deprecated_key i =
     (let (index, sig, s) = i in key_bytes [u64_to_be_bytes index, sig, u64_to_be_bytes s])"

definition TransactionStatus_try_deprecated_index :: "bytes \<Rightarrow> (index_error + u64 \<times> signature \<times> slot) option" where
  "TransactionStatus_try_deprecated_index k =
     (if length k \<noteq> 80 then Some (Inl UnpackError)
      else do { p \<leftarrow> key_part k 0 8; sig \<leftarrow> key_part k 8 72; s \<leftarrow> key_part k 72 80;
                Some (Inr (u64_from_be_bytes p, sig, u64_from_be_bytes s)) })"

definition TransactionStatus_try_current_index :: "bytes \<Rightarrow> (index_error + signature \<times> slot) option" where
  "TransactionStatus_try_current_index k =
     (if length k \<noteq> 72 then Some (Inl UnpackError)
      else do { sig \<leftarrow> key_part k 0 64; s \<leftarrow> key_part k 64 72; Some (Inr (sig, u64_from_be_bytes s)) })"

definition TransactionStatus_convert_index :: "u64 \<times> signature \<times> slot \<Rightarrow> signature \<times> slot" where
  "TransactionStatus_convert_index i = (let (_, sig, s) = i in (sig, s))"

definition TransactionStatus_index :: "bytes \<Rightarrow> (signature \<times> slot) option" where
  "TransactionStatus_index =
     deprecation_index TransactionStatus_try_current_index TransactionStatus_try_deprecated_index
       TransactionStatus_convert_index TransactionStatus_as_index"

definition AddressSignatures_key :: "pubkey \<times> slot \<times> u32 \<times> signature \<Rightarrow> bytes" where
  "AddressSignatures_key i =
     (let (pk, s, transaction_index, sig) = i
      in key_bytes [pk, u64_to_be_bytes s, u32_to_be_bytes transaction_index, sig])"

definition AddressSignatures_slot :: "pubkey \<times> slot \<times> u32 \<times> signature \<Rightarrow> slot" where
  "AddressSignatures_slot i = fst (snd i)"

definition AddressSignatures_as_index :: "u64 \<Rightarrow> pubkey \<times> slot \<times> u32 \<times> signature" where
  "AddressSignatures_as_index i = (replicate 32 0, 0, 0, replicate 64 0)"

definition AddressSignatures_deprecated_key :: "u64 \<times> pubkey \<times> slot \<times> signature \<Rightarrow> bytes" where
  "AddressSignatures_deprecated_key i =
     (let (primary_index, pk, s, sig) = i in key_bytes [u64_to_be_bytes primary_index, pk, u64_to_be_bytes s, sig])"

definition AddressSignatures_try_deprecated_index :: "bytes \<Rightarrow> (index_error + u64 \<times> pubkey \<times> slot \<times> signature) option" where
  "AddressSignatures_try_deprecated_index k =
     (if length k \<noteq> 112 then Some (Inl UnpackError)
      else do { p \<leftarrow> key_part k 0 8; pk \<leftarrow> key_part k 8 40; s \<leftarrow> key_part k 40 48; sig \<leftarrow> key_part k 48 112;
                Some (Inr (u64_from_be_bytes p, pk, u64_from_be_bytes s, sig)) })"

definition AddressSignatures_try_current_index :: "bytes \<Rightarrow> (index_error + pubkey \<times> slot \<times> u32 \<times> signature) option" where
  "AddressSignatures_try_current_index k =
     (if length k \<noteq> 108 then Some (Inl UnpackError)
      else do { pk \<leftarrow> key_part k 0 32; s \<leftarrow> key_part k 32 40; i \<leftarrow> key_part k 40 44; sig \<leftarrow> key_part k 44 108;
                Some (Inr (pk, u64_from_be_bytes s, u32_from_be_bytes i, sig)) })"

definition AddressSignatures_convert_index :: "u64 \<times> pubkey \<times> slot \<times> signature \<Rightarrow> pubkey \<times> slot \<times> u32 \<times> signature" where
  "AddressSignatures_convert_index i = (let (_, pk, s, sig) = i in (pk, s, 0, sig))"

definition AddressSignatures_index :: "bytes \<Rightarrow> (pubkey \<times> slot \<times> u32 \<times> signature) option" where
  "AddressSignatures_index =
     deprecation_index AddressSignatures_try_current_index AddressSignatures_try_deprecated_index
       AddressSignatures_convert_index AddressSignatures_as_index"

definition TransactionMemos_key :: "signature \<times> slot \<Rightarrow> bytes" where
  "TransactionMemos_key i = (let (sig, s) = i in key_bytes [sig, u64_to_be_bytes s])"

definition TransactionMemos_slot :: "signature \<times> slot \<Rightarrow> slot" where
  "TransactionMemos_slot i = snd i"

definition TransactionMemos_as_index :: "u64 \<Rightarrow> signature \<times> slot" where
  "TransactionMemos_as_index i = (replicate 64 0, i)"

definition TransactionMemos_deprecated_key :: "signature \<Rightarrow> bytes" where
  "TransactionMemos_deprecated_key sig = sig"

text \<open>The slice \<open>&key[..64]\<close> is taken before the length is looked at.\<close>

definition TransactionMemos_try_deprecated_index :: "bytes \<Rightarrow> (index_error + signature) option" where
  "TransactionMemos_try_deprecated_index k = map_option Inr (key_part k 0 64)"

definition TransactionMemos_try_current_index :: "bytes \<Rightarrow> (index_error + signature \<times> slot) option" where
  "TransactionMemos_try_current_index k =
     (if length k \<noteq> 72 then Some (Inl UnpackError)
      else do { sig \<leftarrow> key_part k 0 64; s \<leftarrow> key_part k 64 72; Some (Inr (sig, u64_from_be_bytes s)) })"

definition TransactionMemos_convert_index :: "signature \<Rightarrow> signature \<times> slot" where
  "TransactionMemos_convert_index sig = (sig, 0)"

definition TransactionMemos_index :: "bytes \<Rightarrow> (signature \<times> slot) option" where
  "TransactionMemos_index =
     deprecation_index TransactionMemos_try_current_index TransactionMemos_try_deprecated_index
       TransactionMemos_convert_index TransactionMemos_as_index"

subsection \<open>The contract of a column\<close>

locale column_codec =
  fixes key :: "'i \<Rightarrow> bytes"
    and index :: "bytes \<Rightarrow> 'i option"
    and ok :: "'i \<Rightarrow> bool"
    and key_len :: nat
  assumes index_key: "ok i \<Longrightarrow> index (key i) = Some i"
    and length_key: "ok i \<Longrightarrow> length (key i) = key_len"
begin

lemma key_inj: "ok i \<Longrightarrow> ok j \<Longrightarrow> key i = key j \<longleftrightarrow> i = j"
  by (metis index_key option.inject)

end

locale slot_first_codec = column_codec +
  fixes col_slot :: "'i \<Rightarrow> slot"
    and as_index :: "slot \<Rightarrow> 'i"
    and rest :: "'i \<Rightarrow> bytes"
  assumes key_slot: "ok i \<Longrightarrow> key i = u64_to_be_bytes (col_slot i) @ rest i"
    and ok_as_index: "ok (as_index s)"
    and slot_as_index: "col_slot (as_index s) = s"
    and rest_as_index: "set (rest (as_index s)) \<subseteq> {0}"
begin

lemma not_less_zeros: "length xs = length zs \<Longrightarrow> set zs \<subseteq> {0} \<Longrightarrow> \<not> bytes_less xs zs"
  by (induction xs zs rule: bytes_less.induct) auto

lemma length_rest: "ok i \<Longrightarrow> length (rest i) = key_len - 8"
  using length_key[of i] by (simp add: key_slot)

lemma before_as_index: "ok i \<Longrightarrow> bytes_less (key i) (key (as_index s)) \<longleftrightarrow> col_slot i < s"
  using not_less_zeros[of "rest i" "rest (as_index s)"] rest_as_index[of s] length_rest[of i] length_rest[OF ok_as_index, of s]
  by (simp add: key_slot ok_as_index slot_as_index bytes_less_append bytes_less_u64)

text \<open>The half-open range of keys from one slot to another holds exactly the indices of these slots.\<close>

lemma range_of_slots:
  "ok i \<Longrightarrow> \<not> bytes_less (key i) (key (as_index from)) \<and> bytes_less (key i) (key (as_index to))
     \<longleftrightarrow> from \<le> col_slot i \<and> col_slot i < to"
  by (auto simp: before_as_index)

text \<open>So the order of the keys never contradicts the order of the slots.\<close>

lemma key_order: "ok i \<Longrightarrow> ok j \<Longrightarrow> col_slot i < col_slot j \<Longrightarrow> bytes_less (key i) (key j)"
  by (simp add: key_slot bytes_less_append bytes_less_u64)

end

named_theorems codec_simps

lemmas codec_defs [codec_simps] =
  SlotColumn_key_def SlotColumn_index_def TransactionStatusIndex_key_def TransactionStatusIndex_index_def
  ShredData_key_def ShredData_index_def ShredCode_key_def ShredCode_index_def ErasureMeta_key_def ErasureMeta_index_def
  MerkleRootMeta_key_def MerkleRootMeta_index_def key_bytes_def key_part_def slice_range_def
  SlotColumn_slot_def SlotColumn_as_index_def ShredData_slot_def ShredData_as_index_def
  ErasureMeta_as_index_def MerkleRootMeta_slot_def MerkleRootMeta_as_index_def
  TransactionStatus_key_def TransactionStatus_index_def TransactionStatus_try_current_index_def
  TransactionStatus_try_deprecated_index_def TransactionStatus_deprecated_key_def TransactionStatus_convert_index_def
  AddressSignatures_key_def AddressSignatures_index_def AddressSignatures_try_current_index_def
  AddressSignatures_try_deprecated_index_def AddressSignatures_deprecated_key_def AddressSignatures_convert_index_def
  TransactionMemos_key_def TransactionMemos_index_def TransactionMemos_try_current_index_def
  TransactionMemos_try_deprecated_index_def TransactionMemos_deprecated_key_def TransactionMemos_convert_index_def
  deprecation_index_def

lemma zero_be_bytes: "set (u64_to_be_bytes 0) \<subseteq> {0}" "set (u32_to_be_bytes 0) \<subseteq> {0}"
proof -
  have "set (be_encode n 0) \<subseteq> {0}" for n by (induction n) auto
  then show "set (u64_to_be_bytes 0) \<subseteq> {0}" "set (u32_to_be_bytes 0) \<subseteq> {0}"
    by (simp_all add: u64_to_be_bytes_def u32_to_be_bytes_def)
qed

interpretation slot_codec: slot_first_codec SlotColumn_key SlotColumn_index "\<lambda>_. True" 8
    SlotColumn_slot SlotColumn_as_index "\<lambda>_. []"
  by unfold_locales (simp_all add: codec_simps)

interpretation shred_data_codec: slot_first_codec ShredData_key ShredData_index "\<lambda>_. True" 16
    ShredData_slot ShredData_as_index "\<lambda>i. u64_to_be_bytes (snd i)"
  by unfold_locales (auto simp: codec_simps dest: subsetD[OF zero_be_bytes(1)])

interpretation shred_code_codec: slot_first_codec ShredCode_key ShredCode_index "\<lambda>_. True" 16
    ShredData_slot ShredData_as_index "\<lambda>i. u64_to_be_bytes (snd i)"
  by unfold_locales (auto simp: codec_simps dest: subsetD[OF zero_be_bytes(1)])

interpretation erasure_meta_codec: slot_first_codec ErasureMeta_key ErasureMeta_index "\<lambda>_. True" 16
    fst ErasureMeta_as_index "\<lambda>i. u64_to_be_bytes (snd i)"
  by unfold_locales (auto simp: codec_simps dest: subsetD[OF zero_be_bytes(1)])

interpretation merkle_root_meta_codec: slot_first_codec MerkleRootMeta_key MerkleRootMeta_index "\<lambda>_. True" 12
    MerkleRootMeta_slot MerkleRootMeta_as_index "\<lambda>i. u32_to_be_bytes (snd i)"
  by unfold_locales (auto simp: codec_simps dest: subsetD[OF zero_be_bytes(2)])

interpretation transaction_status_index_codec: column_codec TransactionStatusIndex_key TransactionStatusIndex_index "\<lambda>_. True" 8
  by unfold_locales (simp_all add: codec_simps)

text \<open>The columns keyed by a signature or an address.\<close>

definition signature_index_ok :: "signature \<times> slot \<Rightarrow> bool" where
  "signature_index_ok i \<longleftrightarrow> length (fst i) = 64"

definition address_index_ok :: "pubkey \<times> slot \<times> u32 \<times> signature \<Rightarrow> bool" where
  "address_index_ok i \<longleftrightarrow> length (fst i) = 32 \<and> length (snd (snd (snd i))) = 64"

interpretation transaction_status_codec: column_codec TransactionStatus_key TransactionStatus_index signature_index_ok 72
  by unfold_locales (auto simp: codec_simps signature_index_ok_def)

interpretation transaction_memos_codec: column_codec TransactionMemos_key TransactionMemos_index signature_index_ok 72
  by unfold_locales (auto simp: codec_simps signature_index_ok_def)

interpretation address_signatures_codec: column_codec AddressSignatures_key AddressSignatures_index address_index_ok 108
  by unfold_locales (auto simp: codec_simps address_index_ok_def)

subsection \<open>Properties\<close>

text \<open>C28: The key of every column can be decoded again: decoding the key of an index gives the index, for
  all the formats of keys.\<close>

theorem column_key_roundtrip:
  shows "SlotColumn_index (SlotColumn_key s) = Some s
    \<and> TransactionStatusIndex_index (TransactionStatusIndex_key s) = Some s
    \<and> ShredData_index (ShredData_key si) = Some si \<and> ShredCode_index (ShredCode_key si) = Some si
    \<and> ErasureMeta_index (ErasureMeta_key si) = Some si \<and> MerkleRootMeta_index (MerkleRootMeta_key mi) = Some mi
    \<and> (signature_index_ok ti \<longrightarrow> TransactionStatus_index (TransactionStatus_key ti) = Some ti
         \<and> TransactionMemos_index (TransactionMemos_key ti) = Some ti)
    \<and> (address_index_ok ai \<longrightarrow> AddressSignatures_index (AddressSignatures_key ai) = Some ai)"
  using slot_codec.index_key transaction_status_index_codec.index_key shred_data_codec.index_key
    shred_code_codec.index_key erasure_meta_codec.index_key merkle_root_meta_codec.index_key
    transaction_status_codec.index_key transaction_memos_codec.index_key address_signatures_codec.index_key
  by simp

theorem column_key_roundtrip_witness:
  "AddressSignatures_index (AddressSignatures_key (replicate 32 1, 2, 3, replicate 64 4)) = Some (replicate 32 1, 2, 3, replicate 64 4)"
  using column_key_roundtrip[where ai = "(replicate 32 1, 2, 3, replicate 64 4)"] by (simp add: address_index_ok_def)

text \<open>C10: Deleting a range of slots deletes these slots: of the columns whose key starts with the slot,
  the keys from \<open>as_index(from)\<close> up to but not including \<open>as_index(to)\<close>, in the byte order of the
  database, are exactly the keys of the indices with a slot from \<open>from\<close> to before \<open>to\<close>.\<close>

theorem slot_range_exact:
  shows "(\<not> bytes_less (SlotColumn_key s) (SlotColumn_key (SlotColumn_as_index from))
           \<and> bytes_less (SlotColumn_key s) (SlotColumn_key (SlotColumn_as_index to)) \<longleftrightarrow> from \<le> s \<and> s < to)
    \<and> (\<not> bytes_less (ShredData_key si) (ShredData_key (ShredData_as_index from))
           \<and> bytes_less (ShredData_key si) (ShredData_key (ShredData_as_index to)) \<longleftrightarrow> from \<le> fst si \<and> fst si < to)
    \<and> (\<not> bytes_less (ErasureMeta_key si) (ErasureMeta_key (ErasureMeta_as_index from))
           \<and> bytes_less (ErasureMeta_key si) (ErasureMeta_key (ErasureMeta_as_index to)) \<longleftrightarrow> from \<le> fst si \<and> fst si < to)
    \<and> (\<not> bytes_less (MerkleRootMeta_key mi) (MerkleRootMeta_key (MerkleRootMeta_as_index from))
           \<and> bytes_less (MerkleRootMeta_key mi) (MerkleRootMeta_key (MerkleRootMeta_as_index to)) \<longleftrightarrow> from \<le> fst mi \<and> fst mi < to)"
  using slot_codec.range_of_slots[of s "from" to] shred_data_codec.range_of_slots[of si "from" to]
    erasure_meta_codec.range_of_slots[of si "from" to] merkle_root_meta_codec.range_of_slots[of mi "from" to]
  by (simp add: SlotColumn_slot_def ShredData_slot_def MerkleRootMeta_slot_def)

text \<open>Old keys are still read.  A key in the deprecated format decodes to the converted index, a key
  of any other length to the default index, and no key is ambiguous; only \<open>TransactionMemos\<close> panics,
  on keys shorter than 64 bytes.\<close>

theorem column_deprecated_index:
  shows "(length sig = 64 \<longrightarrow> TransactionStatus_index (TransactionStatus_deprecated_key (p, sig, s)) = Some (sig, s)
            \<and> TransactionMemos_index (TransactionMemos_deprecated_key sig) = Some (sig, 0))
    \<and> (length pk = 32 \<and> length sig = 64 \<longrightarrow>
         AddressSignatures_index (AddressSignatures_deprecated_key (p, pk, s, sig)) = Some (pk, s, 0, sig))
    \<and> (length k \<notin> {72, 80} \<longrightarrow> TransactionStatus_index k = Some (TransactionStatus_as_index 0))
    \<and> (length k \<notin> {108, 112} \<longrightarrow> AddressSignatures_index k = Some (AddressSignatures_as_index 0))
    \<and> TransactionStatus_index k \<noteq> None \<and> AddressSignatures_index k \<noteq> None
    \<and> (TransactionMemos_index k = None \<longleftrightarrow> length k < 64)
    \<and> (length k \<noteq> 72 \<and> 64 \<le> length k \<longrightarrow> TransactionMemos_index k = Some (take 64 k, 0))"
  by (auto simp: codec_simps AddressSignatures_as_index_def TransactionStatus_as_index_def)

theorem column_deprecated_index_witness:
  "TransactionStatus_index (TransactionStatus_deprecated_key (7, replicate 64 1, 5)) = Some (replicate 64 1, 5)
   \<and> TransactionMemos_index (replicate 10 0) = None"
  using column_deprecated_index[of "replicate 64 1" 7 5 "[]" "replicate 10 0"] by simp

end
