(* ===== verification/Ledger_Db.thy ===== *)
theory Ledger_Db
  imports Columns "HOL-Library.Monad_Syntax"
begin

section \<open>The database of the ledger (\<open>ledger/src/blockstore_db.rs\<close>, \<open>blockstore_options.rs\<close>)\<close>

text \<open>
  RocksDB is external: \<open>rocks_env\<close> holds the operations the code calls on a database of type \<open>'db\<close>
  and \<open>rocks_laws\<close> what is relied on (reading what was written, column families apart, iteration in
  key order).  Results carry the database along, also when they are errors; \<open>None\<close> is a panic.  The
  setters of RocksDB's options are fields that are \<open>None\<close> until set.
\<close>

subsection \<open>Options\<close>

datatype access_type = Primary | PrimaryForMaintenance | Secondary

datatype recovery_mode = TolerateCorruptedTailRecords | AbsoluteConsistency | PointInTime | SkipAnyCorruptedRecord

datatype compression_type = NoCompression | Snappy | Lz4 | Zlib

definition BlockstoreRecoveryMode_from :: "string \<Rightarrow> recovery_mode option" where
  "BlockstoreRecoveryMode_from s =
     (if s = ''tolerate_corrupted_tail_records'' then Some TolerateCorruptedTailRecords
      else if s = ''absolute_consistency'' then Some AbsoluteConsistency
      else if s = ''point_in_time'' then Some PointInTime
      else if s = ''skip_any_corrupted_record'' then Some SkipAnyCorruptedRecord
      else None)"

record ledger_column_options =
  compression_type :: compression_type
  rocks_perf_sample_interval :: nat

definition LedgerColumnOptions_default :: ledger_column_options where
  "LedgerColumnOptions_default = \<lparr>compression_type = NoCompression, rocks_perf_sample_interval = 0\<rparr>"

record blockstore_options =
  access_type :: access_type
  recovery_mode :: "recovery_mode option"
  enforce_ulimit_nofile :: bool
  column_options :: ledger_column_options
  num_rocksdb_compaction_threads :: nat
  num_rocksdb_flush_threads :: nat

text \<open>\<open>cpus\<close> is \<open>num_cpus::get()\<close>; a count of zero panics.\<close>

definition default_num_compaction_threads :: "nat \<Rightarrow> nat option" where
  "default_num_compaction_threads cpus = (if cpus = 0 then None else Some cpus)"

definition default_num_flush_threads :: "nat \<Rightarrow> nat option" where
  "default_num_flush_threads cpus = (let n = max (cpus div 4) 1 in if n = 0 then None else Some n)"

definition BlockstoreOptions_default :: "nat \<Rightarrow> blockstore_options option" where
  "BlockstoreOptions_default cpus =
     do { c \<leftarrow> default_num_compaction_threads cpus;
          f \<leftarrow> default_num_flush_threads cpus;
          Some \<lparr>access_type = Primary, recovery_mode = None, enforce_ulimit_nofile = True,
                column_options = LedgerColumnOptions_default, num_rocksdb_compaction_threads = c, num_rocksdb_flush_threads = f\<rparr> }"

definition should_disable_auto_compactions :: "access_type \<Rightarrow> bool" where
  "should_disable_auto_compactions a \<longleftrightarrow> a \<noteq> Primary"

text \<open>The constants match names; \<open>column_name\<close> of these columns is never \<open>None\<close>.\<close>

definition should_enable_cf_compaction :: "string \<Rightarrow> bool" where
  "should_enable_cf_compaction cf_name \<longleftrightarrow>
     Some cf_name \<in> {column_name ColTransactionStatus, column_name ColTransactionMemos, column_name ColAddressSignatures}"

definition should_enable_compression :: "column \<Rightarrow> bool" where
  "should_enable_compression C \<longleftrightarrow> column_name C = column_name ColTransactionStatus"

record db_options =
  create_if_missing :: "bool option"
  create_missing_column_families :: "bool option"
  max_background_compactions :: "int option"
  max_background_flushes :: "int option"
  max_total_wal_size :: "nat option"
  db_disable_auto_compactions :: "bool option"
  max_log_file_size :: "nat option"
  keep_log_file_num :: "nat option"
  max_open_files :: "int option"
  wal_recovery_mode :: "recovery_mode option"

text \<open>\<open>as i32\<close> of a \<open>usize\<close>.\<close>

definition as_i32 :: "nat \<Rightarrow> int" where
  "as_i32 n = (let m = int (n mod 2 ^ 32) in if m < 2 ^ 31 then m else m - 2 ^ 32)"

definition get_db_options :: "blockstore_options \<Rightarrow> db_options" where
  "get_db_options o' =
     \<lparr>create_if_missing = Some True, create_missing_column_families = Some True,
      max_background_compactions = Some (as_i32 (num_rocksdb_compaction_threads o')),
      max_background_flushes = Some (as_i32 (num_rocksdb_flush_threads o')),
      max_total_wal_size = Some (4 * 1024 * 1024 * 1024),
      db_disable_auto_compactions = (if should_disable_auto_compactions (access_type o') then Some True else None),
      max_log_file_size = Some (50 * 1024 * 1024), keep_log_file_num = Some 10, max_open_files = Some (- 1),
      wal_recovery_mode = None\<rparr>"

record cf_options =
  max_write_buffer_number :: "nat option"
  write_buffer_size :: "nat option"
  level_zero_file_num_compaction_trigger :: "nat option"
  max_bytes_for_level_base :: "nat option"
  target_file_size_base :: "nat option"
  cf_disable_auto_compactions :: "bool option"
  compaction_filter :: "column option"
  cf_compression :: "compression_type option"

definition CfOptions_default :: cf_options where
  "CfOptions_default =
     \<lparr>max_write_buffer_number = None, write_buffer_size = None, level_zero_file_num_compaction_trigger = None,
      max_bytes_for_level_base = None, target_file_size_base = None, cf_disable_auto_compactions = None,
      compaction_filter = None, cf_compression = None\<rparr>"

definition MAX_WRITE_BUFFER_SIZE :: nat where
  "MAX_WRITE_BUFFER_SIZE = 256 * 1024 * 1024"

definition process_cf_options_advanced :: "column \<Rightarrow> ledger_column_options \<Rightarrow> cf_options \<Rightarrow> cf_options" where
  "process_cf_options_advanced C co o' =
     (let o1 = o'\<lparr>cf_compression := Some NoCompression\<rparr>
      in if should_enable_compression C then o1\<lparr>cf_compression := Some (compression_type co)\<rparr> else o1)"

text \<open>The filter factory of column \<open>C\<close> is recorded as \<open>compaction_filter = Some C\<close>.\<close>

definition get_cf_options :: "column \<Rightarrow> blockstore_options \<Rightarrow> cf_options" where
  "get_cf_options C o' =
     (let trigger = 4;
          total_size_base = MAX_WRITE_BUFFER_SIZE * trigger;
          file_size_base = total_size_base div 10;
          c1 = CfOptions_default
            \<lparr>max_write_buffer_number := Some 8, write_buffer_size := Some MAX_WRITE_BUFFER_SIZE,
             level_zero_file_num_compaction_trigger := Some trigger, max_bytes_for_level_base := Some total_size_base,
             target_file_size_base := Some file_size_base\<rparr>;
          disable = should_disable_auto_compactions (access_type o');
          c2 = (if disable then c1\<lparr>cf_disable_auto_compactions := Some True\<rparr> else c1);
          c3 = (if \<not> disable \<and> (case column_name C of Some n \<Rightarrow> should_enable_cf_compaction n | None \<Rightarrow> False)
                then c2\<lparr>compaction_filter := Some C\<rparr> else c2)
      in process_cf_options_advanced C (column_options o') c3)"

subsection \<open>Opening\<close>

datatype iterator_mode = IterStart | IterEnd | IterFrom bytes bool

record ('db, 'e) rocks_env =
  fs_create_dir_all :: "string \<Rightarrow> 'e + unit"
  rocks_list_cf :: "string \<Rightarrow> 'e + string list"
  rocks_open_cf :: "db_options \<Rightarrow> string \<Rightarrow> string option \<Rightarrow> (string \<times> cf_options) list \<Rightarrow> 'e + 'db"
  rocks_has_cf :: "'db \<Rightarrow> string \<Rightarrow> bool"
  rocks_drop_cf :: "'db \<Rightarrow> string \<Rightarrow> ('e + unit) \<times> 'db"
  rocks_set_options_cf :: "'db \<Rightarrow> string \<Rightarrow> (string \<times> string) list \<Rightarrow> ('e + unit) \<times> 'db"
  rocks_get :: "'db \<Rightarrow> string \<Rightarrow> bytes \<Rightarrow> 'e + bytes option"
  rocks_put :: "'db \<Rightarrow> string \<Rightarrow> bytes \<Rightarrow> bytes \<Rightarrow> ('e + unit) \<times> 'db"
  rocks_delete :: "'db \<Rightarrow> string \<Rightarrow> bytes \<Rightarrow> ('e + unit) \<times> 'db"
  rocks_iter :: "'db \<Rightarrow> string \<Rightarrow> iterator_mode \<Rightarrow> ('e + bytes \<times> bytes) list"

definition known_columns :: "column list" where
  "known_columns =
     [ColSlotMeta, ColDeadSlots, ColErasureMeta, ColOrphans, ColBankHash, ColRoot, ColIndex, ColShredData, ColShredCode,
      ColTransactionStatus, ColAddressSignatures, ColTransactionMemos, ColTransactionStatusIndex, ColRewards, ColBlocktime,
      ColPerfSamples, ColBlockHeight, ColOptimisticSlots, ColMerkleRootMeta]"

definition new_cf_descriptor :: "blockstore_options \<Rightarrow> column \<Rightarrow> (string \<times> cf_options) option" where
  "new_cf_descriptor o' C = map_option (\<lambda>n. (n, get_cf_options C o')) (column_name C)"

definition unknown_cf_options :: cf_options where
  "unknown_cf_options = CfOptions_default\<lparr>write_buffer_size := Some (1024 * 1024), cf_disable_auto_compactions := Some True\<rparr>"

definition cf_descriptors :: "('db, 'e) rocks_env \<Rightarrow> string \<Rightarrow> blockstore_options \<Rightarrow> (string \<times> cf_options) list" where
  "cf_descriptors R path o' =
     (let descriptors = List.map_filter (new_cf_descriptor o') known_columns
      in if access_type o' = Secondary then descriptors
         else
           let detected_cfs = (case rocks_list_cf R path of Inr ns \<Rightarrow> ns | Inl _ \<Rightarrow> []);
               known_cfs = set (map fst descriptors @ [''default''])
           in descriptors @ map (\<lambda>n. (n, unknown_cf_options)) (filter (\<lambda>n. n \<notin> known_cfs) detected_cfs))"

definition rocks_columns :: "string list" where
  "rocks_columns =
     List.map_filter column_name
       [ColErasureMeta, ColDeadSlots, ColIndex, ColOrphans, ColBankHash, ColRoot, ColSlotMeta, ColShredData, ColShredCode,
        ColTransactionStatus, ColAddressSignatures, ColTransactionMemos, ColTransactionStatusIndex, ColRewards,
        ColBlocktime, ColPerfSamples, ColBlockHeight, ColOptimisticSlots, ColMerkleRootMeta]"

text \<open>\<open>expect\<close> panics on a column family the database does not have.\<close>

definition cf_handle :: "('db, 'e) rocks_env \<Rightarrow> 'db \<Rightarrow> string \<Rightarrow> string option" where
  "cf_handle R db n = (if rocks_has_cf R db n then Some n else None)"

definition PERIODIC_COMPACTION_SECONDS :: nat where
  "PERIODIC_COMPACTION_SECONDS = 60 * 60 * 24"

text \<open>\<open>show\<close> is \<open>to_string\<close> of the number.\<close>

fun configure_cfs :: "('db, 'e) rocks_env \<Rightarrow> (nat \<Rightarrow> string) \<Rightarrow> string list \<Rightarrow> 'db \<Rightarrow> 'db option" where
  "configure_cfs R show_nat [] db = Some db"
| "configure_cfs R show_nat (n # ns) db =
     (if should_enable_cf_compaction n
      then do { h \<leftarrow> cf_handle R db n;
                case rocks_set_options_cf R db h
                       [(''periodic_compaction_seconds'', show_nat PERIODIC_COMPACTION_SECONDS)] of
                  (Inl _, _) \<Rightarrow> None
                | (Inr _, db') \<Rightarrow> configure_cfs R show_nat ns db' }
      else configure_cfs R show_nat ns db)"

definition configure_compaction ::
  "('db, 'e) rocks_env \<Rightarrow> (nat \<Rightarrow> string) \<Rightarrow> access_type \<Rightarrow> 'db \<Rightarrow> 'db option" where
  "configure_compaction R show_nat a db =
     (if should_disable_auto_compactions a then Some db else configure_cfs R show_nat rocks_columns db)"

record 'db rocks =
  rocks_db :: 'db
  rocks_access :: access_type
  oldest_slot :: slot
  clean_slot_0 :: bool

text \<open>\<open>join\<close> is \<open>Path::join\<close>.\<close>

definition Rocks_open ::
  "('db, 'e) rocks_env \<Rightarrow> (string \<Rightarrow> string \<Rightarrow> string) \<Rightarrow> (nat \<Rightarrow> string) \<Rightarrow> string \<Rightarrow> blockstore_options
   \<Rightarrow> ('e + 'db rocks) option" where
  "Rocks_open R join show_nat path o' =
     (case fs_create_dir_all R path of
        Inl e \<Rightarrow> Some (Inl e)
      | Inr _ \<Rightarrow>
          let opts = (get_db_options o')\<lparr>wal_recovery_mode := recovery_mode o'\<rparr>;
              cfs = cf_descriptors R path o';
              secondary = (if access_type o' = Secondary then Some (join path ''solana-secondary'') else None)
          in case rocks_open_cf R opts path secondary cfs of
               Inl e \<Rightarrow> Some (Inl e)
             | Inr db \<Rightarrow>
                 (case (if rocks_has_cf R db ''program_costs'' then rocks_drop_cf R db ''program_costs'' else (Inr (), db)) of
                    (Inl e, _) \<Rightarrow> Some (Inl e)
                  | (Inr _, db') \<Rightarrow>
                      do { db'' \<leftarrow> configure_compaction R show_nat (access_type o') db';
                           Some (Inr \<lparr>rocks_db = db'', rocks_access = access_type o', oldest_slot = 0, clean_slot_0 = False\<rparr>) }))"

definition is_primary_access :: "'db rocks \<Rightarrow> bool" where
  "is_primary_access r \<longleftrightarrow> rocks_access r = Primary \<or> rocks_access r = PrimaryForMaintenance"

definition set_clean_slot_0 :: "'db rocks \<Rightarrow> bool \<Rightarrow> 'db rocks" where
  "set_clean_slot_0 r b = r\<lparr>clean_slot_0 := b\<rparr>"

subsection \<open>Typed columns\<close>

text \<open>A column of the database: its name and key functions, and how values are serialized.\<close>

record ('i, 'v, 'e) ledger_column =
  lc_column :: column
  lc_key :: "'i \<Rightarrow> bytes"
  lc_index :: "bytes \<Rightarrow> 'i option"
  lc_serialize :: "'v \<Rightarrow> 'e + bytes"
  lc_deserialize :: "bytes \<Rightarrow> 'e + 'v"

definition lc_handle :: "('db, 'e) rocks_env \<Rightarrow> ('i, 'v, 'e) ledger_column \<Rightarrow> 'db \<Rightarrow> string option" where
  "lc_handle R L db = Option.bind (column_name (lc_column L)) (cf_handle R db)"

definition lc_get_raw ::
  "('db, 'e) rocks_env \<Rightarrow> ('i, 'v, 'e) ledger_column \<Rightarrow> 'db \<Rightarrow> bytes \<Rightarrow> ('e + 'v option) option" where
  "lc_get_raw R L db k =
     do { h \<leftarrow> lc_handle R L db;
          Some (and_then (rocks_get R db h k)
            (\<lambda>r. case r of None \<Rightarrow> Inr None | Some b \<Rightarrow> and_then (lc_deserialize L b) (\<lambda>v. Inr (Some v)))) }"

definition lc_get ::
  "('db, 'e) rocks_env \<Rightarrow> ('i, 'v, 'e) ledger_column \<Rightarrow> 'db \<Rightarrow> 'i \<Rightarrow> ('e + 'v option) option" where
  "lc_get R L db i = lc_get_raw R L db (lc_key L i)"

definition lc_put ::
  "('db, 'e) rocks_env \<Rightarrow> ('i, 'v, 'e) ledger_column \<Rightarrow> 'db \<Rightarrow> 'i \<Rightarrow> 'v \<Rightarrow> (('e + unit) \<times> 'db) option" where
  "lc_put R L db i v =
     (case lc_serialize L v of
        Inl e \<Rightarrow> Some (Inl e, db)
      | Inr b \<Rightarrow> do { h \<leftarrow> lc_handle R L db; Some (rocks_put R db h (lc_key L i) b) })"

definition lc_delete ::
  "('db, 'e) rocks_env \<Rightarrow> ('i, 'v, 'e) ledger_column \<Rightarrow> 'db \<Rightarrow> 'i \<Rightarrow> (('e + unit) \<times> 'db) option" where
  "lc_delete R L db i = do { h \<leftarrow> lc_handle R L db; Some (rocks_delete R db h (lc_key L i)) }"

datatype 'i column_iter_mode = Start | End | From 'i bool

text \<open>The iterator is the list of what \<open>next\<close> yields: \<open>None\<close> for an item whose \<open>unwrap\<close> or decoding panics.\<close>

definition lc_iter ::
  "('db, 'e) rocks_env \<Rightarrow> ('i, 'v, 'e) ledger_column \<Rightarrow> 'db \<Rightarrow> 'i column_iter_mode \<Rightarrow> ('i \<times> bytes) option list option" where
  "lc_iter R L db mode =
     (let m = (case mode of Start \<Rightarrow> IterStart | End \<Rightarrow> IterEnd | From i d \<Rightarrow> IterFrom (lc_key L i) d)
      in do { h \<leftarrow> lc_handle R L db;
              Some (map (\<lambda>item. case item of Inl _ \<Rightarrow> None | Inr (k, v) \<Rightarrow> map_option (\<lambda>i. (i, v)) (lc_index L k))
                     (rocks_iter R db h m)) })"

subsection \<open>The compaction filter\<close>

datatype compaction_decision = Keep | Remove

record purged_slot_filter =
  filter_oldest_slot :: slot
  filter_clean_slot_0 :: bool

definition filter_create :: "'db rocks \<Rightarrow> purged_slot_filter" where
  "filter_create r = \<lparr>filter_oldest_slot = oldest_slot r, filter_clean_slot_0 = clean_slot_0 r\<rparr>"

definition purged_filter ::
  "(bytes \<Rightarrow> 'i option) \<Rightarrow> ('i \<Rightarrow> slot) \<Rightarrow> purged_slot_filter \<Rightarrow> bytes \<Rightarrow> compaction_decision option" where
  "purged_filter index col_slot f k =
     do { i \<leftarrow> index k;
          let slot_in_key = col_slot i;
          Some (if filter_oldest_slot f \<le> slot_in_key \<or> slot_in_key = 0 \<and> \<not> filter_clean_slot_0 f then Keep else Remove) }"

subsection \<open>What is relied on\<close>

definition entries_of :: "(bytes \<Rightarrow> bytes option) \<Rightarrow> (bytes \<times> bytes) list \<Rightarrow> bool" where
  "entries_of m xs \<longleftrightarrow> sorted_wrt (\<lambda>a b. bytes_less (fst a) (fst b)) xs \<and> (\<forall>k v. m k = Some v \<longleftrightarrow> (k, v) \<in> set xs)"

text \<open>An iterator yields its entries in order, all of them unless it stops at an error.\<close>

definition yields :: "('e + 'a) list \<Rightarrow> 'a list \<Rightarrow> bool" where
  "yields ys xs \<longleftrightarrow> ys = map Inr xs \<or> (\<exists>n e r. n \<le> length xs \<and> ys = map Inr (take n xs) @ Inl e # r)"

definition rocks_laws :: "('db, 'e) rocks_env \<Rightarrow> ('db \<Rightarrow> string \<Rightarrow> bytes \<Rightarrow> bytes option) \<Rightarrow> bool" where
  "rocks_laws R view \<longleftrightarrow>
     (\<forall>db cf k v. rocks_get R db cf k = Inr v \<longrightarrow> v = view db cf k)
   \<and> (\<forall>db cf k v db'. rocks_put R db cf k v = (Inr (), db') \<longrightarrow> view db' = (view db)(cf := (view db cf)(k \<mapsto> v)))
   \<and> (\<forall>db cf k v e db'. rocks_put R db cf k v = (Inl e, db') \<longrightarrow> view db' = view db)
   \<and> (\<forall>db cf k v. rocks_has_cf R (snd (rocks_put R db cf k v)) = rocks_has_cf R db)
   \<and> (\<forall>db cf k db'. rocks_delete R db cf k = (Inr (), db') \<longrightarrow> view db' = (view db)(cf := (view db cf)(k := None)))
   \<and> (\<forall>db cf k e db'. rocks_delete R db cf k = (Inl e, db') \<longrightarrow> view db' = view db)
   \<and> (\<forall>db cf k. rocks_has_cf R (snd (rocks_delete R db cf k)) = rocks_has_cf R db)
   \<and> (\<forall>db cf. \<exists>xs. entries_of (view db cf) xs \<and> yields (rocks_iter R db cf IterStart) xs \<and> yields (rocks_iter R db cf IterEnd) (rev xs))"

lemma rocks_laws_get: "rocks_laws R view \<Longrightarrow> rocks_get R db cf k = Inr v \<Longrightarrow> v = view db cf k"
  by (simp add: rocks_laws_def)

lemma rocks_laws_put:
  "rocks_laws R view \<Longrightarrow> rocks_put R db cf k v = (Inr u, db') \<Longrightarrow> view db' = (view db)(cf := (view db cf)(k \<mapsto> v))"
  "rocks_laws R view \<Longrightarrow> rocks_put R db cf k v = (Inl e, db') \<Longrightarrow> view db' = view db"
  "rocks_laws R view \<Longrightarrow> rocks_put R db cf k v = (r, db') \<Longrightarrow> rocks_has_cf R db' = rocks_has_cf R db"
  unfolding rocks_laws_def by (simp_all, metis snd_conv)

lemma rocks_laws_delete:
  "rocks_laws R view \<Longrightarrow> rocks_delete R db cf k = (Inr u, db') \<Longrightarrow> view db' = (view db)(cf := (view db cf)(k := None))"
  "rocks_laws R view \<Longrightarrow> rocks_delete R db cf k = (Inl e, db') \<Longrightarrow> view db' = view db"
  "rocks_laws R view \<Longrightarrow> rocks_delete R db cf k = (r, db') \<Longrightarrow> rocks_has_cf R db' = rocks_has_cf R db"
  unfolding rocks_laws_def by (simp_all, metis snd_conv)

lemma rocks_laws_iter:
  assumes "rocks_laws R view"
  obtains xs where "entries_of (view db cf) xs" "yields (rocks_iter R db cf IterStart) xs" "yields (rocks_iter R db cf IterEnd) (rev xs)"
  using assms unfolding rocks_laws_def by metis

subsection \<open>A concrete database\<close>

text \<open>Association lists per column family, sorted when they are iterated.\<close>

fun insert_entry :: "bytes \<times> bytes \<Rightarrow> (bytes \<times> bytes) list \<Rightarrow> (bytes \<times> bytes) list" where
  "insert_entry e [] = [e]"
| "insert_entry e (x # xs) =
     (if bytes_less (fst e) (fst x) then e # x # xs else if fst e = fst x then e # xs else x # insert_entry e xs)"

definition sort_entries :: "(bytes \<times> bytes) list \<Rightarrow> (bytes \<times> bytes) list" where
  "sort_entries xs = foldr insert_entry xs []"

type_synonym plain_db = "string \<Rightarrow> (bytes \<times> bytes) list"

definition plain_rocks :: "(plain_db, string) rocks_env" where
  "plain_rocks =
     \<lparr>fs_create_dir_all = (\<lambda>_. Inr ()), rocks_list_cf = (\<lambda>_. Inl ''new''), rocks_open_cf = (\<lambda>_ _ _ _. Inr (\<lambda>_. [])),
      rocks_has_cf = (\<lambda>_ n. n \<noteq> ''program_costs''), rocks_drop_cf = (\<lambda>db _. (Inr (), db)), rocks_set_options_cf = (\<lambda>db _ _. (Inr (), db)),
      rocks_get = (\<lambda>db cf k. Inr (map_of (db cf) k)),
      rocks_put = (\<lambda>db cf k v. (Inr (), db(cf := (k, v) # db cf))),
      rocks_delete = (\<lambda>db cf k. (Inr (), db(cf := filter (\<lambda>e. fst e \<noteq> k) (db cf)))),
      rocks_iter = (\<lambda>db cf m. case m of IterEnd \<Rightarrow> map Inr (rev (sort_entries (db cf))) | _ \<Rightarrow> map Inr (sort_entries (db cf)))\<rparr>"

lemma set_insert_entry:
  "sorted_wrt (\<lambda>a b. bytes_less (fst a) (fst b)) xs \<Longrightarrow>
     set (insert_entry e xs) = insert e {x \<in> set xs. fst x \<noteq> fst e}
   \<and> sorted_wrt (\<lambda>a b. bytes_less (fst a) (fst b)) (insert_entry e xs)"
proof (induction xs)
  case (Cons x xs)
  have ne: "fst y \<noteq> fst x" if "y \<in> set xs" for y using Cons.prems that by auto
  show ?case
  proof (cases "bytes_less (fst e) (fst x)")
    case True
    then have "fst y \<noteq> fst e" if "y \<in> set (x # xs)" for y
      using Cons.prems that bytes_less_trans by fastforce
    with True Cons.prems show ?thesis by (auto intro: bytes_less_trans)
  next
    case False
    then show ?thesis
      using Cons ne bytes_less_linear[of "fst e" "fst x"] by (cases "fst e = fst x") (auto dest: ne)
  qed
qed simp

lemma entries_of_sort: "entries_of (map_of xs) (sort_entries xs)"
proof (induction xs)
  case (Cons x xs)
  then have s: "sorted_wrt (\<lambda>a b. bytes_less (fst a) (fst b)) (sort_entries xs)"
    "\<forall>k v. map_of xs k = Some v \<longleftrightarrow> (k, v) \<in> set (sort_entries xs)" by (simp_all add: entries_of_def)
  from set_insert_entry[OF s(1), of x] s(2) show ?case
    by (cases x) (auto simp: entries_of_def sort_entries_def)
qed (simp add: entries_of_def sort_entries_def)

lemma plain_rocks_laws: "rocks_laws plain_rocks (\<lambda>db cf. map_of (db cf))"
proof -
  have d: "map_of (filter (\<lambda>e. fst e \<noteq> k) xs) = (map_of xs)(k := None)" for k xs
    by (induction xs) (auto simp: fun_eq_iff)
  show ?thesis
    unfolding rocks_laws_def
    by (auto simp: plain_rocks_def d yields_def intro!: exI[of _ "sort_entries _"] entries_of_sort)
qed

subsection \<open>Properties\<close>

lemma column_names:
  "List.map_filter (new_cf_descriptor o') known_columns = map (\<lambda>C. (the (column_name C), get_cf_options C o')) known_columns"
  "\<forall>C \<in> set known_columns. column_name C \<noteq> None" "inj_on column_name (set known_columns)"
  "distinct known_columns"
  by (simp_all add: known_columns_def new_cf_descriptor_def map_filter_simps)

definition detected_columns :: "('db, 'e) rocks_env \<Rightarrow> string \<Rightarrow> string list" where
  "detected_columns R path = (case rocks_list_cf R path of Inr ns \<Rightarrow> ns | Inl _ \<Rightarrow> [])"

lemma distinct_known_names: "distinct (map (\<lambda>C. the (column_name C)) known_columns)"
  by (simp add: known_columns_def)

lemma default_not_known: "''default'' \<notin> set (map (\<lambda>C. the (column_name C)) known_columns)"
  by (simp add: known_columns_def)

lemma rocks_columns_known: "set rocks_columns = set (map (\<lambda>C. the (column_name C)) known_columns)"
proof -
  let ?cs = "[ColErasureMeta, ColDeadSlots, ColIndex, ColOrphans, ColBankHash, ColRoot, ColSlotMeta, ColShredData, ColShredCode,
        ColTransactionStatus, ColAddressSignatures, ColTransactionMemos, ColTransactionStatusIndex, ColRewards,
        ColBlocktime, ColPerfSamples, ColBlockHeight, ColOptimisticSlots, ColMerkleRootMeta]"
  have a: "rocks_columns = map (\<lambda>C. the (column_name C)) ?cs" by (simp add: rocks_columns_def map_filter_simps)
  have b: "set ?cs = set known_columns" unfolding known_columns_def by (intro equalityI subsetI) (simp, blast)+
  show ?thesis unfolding a set_map b ..
qed

lemma filtered_known: "{ColTransactionStatus, ColTransactionMemos, ColAddressSignatures} \<subseteq> set known_columns"
  by (simp add: known_columns_def)

lemma get_cf_options_filter:
  "compaction_filter (get_cf_options C o') =
     (if access_type o' = Primary \<and> C \<in> {ColTransactionStatus, ColTransactionMemos, ColAddressSignatures} then Some C else None)"
  by (cases C) (simp_all add: get_cf_options_def process_cf_options_advanced_def should_enable_compression_def
      should_disable_auto_compactions_def should_enable_cf_compaction_def CfOptions_default_def Let_def)

text \<open>Opening the ledger opens every column family exactly once: the known ones and, with primary
  access, those that were found and are not known.  The filter that purges old slots is put on the
  columns whose key has the slot but does not start with it, and only with primary access.\<close>

theorem cf_descriptors_complete:
  fixes R :: "('db, 'e) rocks_env"
  assumes "distinct (detected_columns R path)"
  shows "distinct (map fst (cf_descriptors R path o'))
    \<and> set (map fst (cf_descriptors R path o')) = set (map (\<lambda>C. the (column_name C)) known_columns)
        \<union> (if access_type o' = Secondary then {} else set (detected_columns R path) - {''default''})
    \<and> set rocks_columns = set (map (\<lambda>C. the (column_name C)) known_columns)
    \<and> (\<forall>n c C. (n, c) \<in> set (cf_descriptors R path o') \<longrightarrow> (compaction_filter c = Some C \<longleftrightarrow> column_name C = Some n \<and> access_type o' = Primary
         \<and> C \<in> {ColTransactionStatus, ColTransactionMemos, ColAddressSignatures}))"
proof -
  define cfs where "cfs = cf_descriptors R path o'"
  let ?kn = "map (\<lambda>C. the (column_name C)) known_columns"
  let ?un = "if access_type o' = Secondary then [] else filter (\<lambda>n. n \<notin> set (?kn @ [''default''])) (detected_columns R path)"
  have cfs: "cfs = map (\<lambda>C. (the (column_name C), get_cf_options C o')) known_columns @ map (\<lambda>n. (n, unknown_cf_options)) ?un"
    by (simp add: cfs_def cf_descriptors_def column_names(1) detected_columns_def image_image)
  have n: "map fst cfs = ?kn @ ?un" by (simp add: cfs comp_def)
  have d: "distinct (map fst cfs)" unfolding n distinct_append using assms(1) distinct_known_names by (intro conjI) auto
  have s: "set (map fst cfs) = set ?kn \<union> (if access_type o' = Secondary then {} else set (detected_columns R path) - {''default''})"
    unfolding n using default_not_known by auto
  note r = rocks_columns_known
  have f: "compaction_filter c = Some C \<longleftrightarrow> column_name C = Some n \<and> access_type o' = Primary
         \<and> C \<in> {ColTransactionStatus, ColTransactionMemos, ColAddressSignatures}" if nc: "(n, c) \<in> set cfs" for n c C
  proof -
    consider (known) D where "D \<in> set known_columns" "n = the (column_name D)" "c = get_cf_options D o'"
      | (unknown) "c = unknown_cf_options" "n \<notin> set ?kn"
      using nc unfolding cfs by (auto split: if_splits)
    then show ?thesis
    proof cases
      case known
      then have D: "column_name D = Some n" using column_names(2) by auto
      have "C = D" if "column_name C = Some n" "C \<in> set known_columns"
        using that D known(1) column_names(3) by (simp add: inj_on_def)
      then show ?thesis using known(3) D filtered_known by (auto simp: get_cf_options_filter)
    next
      case unknown
      have "compaction_filter c = None" using unknown(1) by (simp add: unknown_cf_options_def CfOptions_default_def)
      moreover have "C \<notin> {ColTransactionStatus, ColTransactionMemos, ColAddressSignatures}" if "column_name C = Some n"
        using unknown(2) that filtered_known by force
      ultimately show ?thesis by simp
    qed
  qed
  show ?thesis unfolding cfs_def[symmetric] using d s r f by (intro conjI allI impI)
qed

theorem cf_descriptors_complete_witness:
  "distinct (map fst (cf_descriptors plain_rocks ''db''
     \<lparr>access_type = Primary, recovery_mode = None, enforce_ulimit_nofile = True, column_options = LedgerColumnOptions_default,
      num_rocksdb_compaction_threads = 1, num_rocksdb_flush_threads = 1\<rparr>))"
  using cf_descriptors_complete[of plain_rocks "''db''"] by (simp add: detected_columns_def plain_rocks_def)

lemma lc_handle_name: "lc_handle R L db = Some h \<Longrightarrow> column_name (lc_column L) = Some h"
  by (auto simp: lc_handle_def cf_handle_def bind_eq_Some_conv split: if_splits)

lemma lc_get_view:
  assumes "rocks_laws R view" "lc_get R L db i = Some (Inr r)" "column_name (lc_column L) = Some h"
  shows "(case view db h (lc_key L i) of None \<Rightarrow> r = None | Some b \<Rightarrow> (\<exists>v. lc_deserialize L b = Inr v \<and> r = Some v))"
proof -
  from assms(2,3) obtain w where w: "rocks_get R db h (lc_key L i) = Inr w"
    "(case w of None \<Rightarrow> Inr None | Some b \<Rightarrow> and_then (lc_deserialize L b) (\<lambda>v. Inr (Some v))) = Inr r"
    by (auto simp: lc_get_def lc_get_raw_def bind_eq_Some_conv result_simps dest: lc_handle_name)
  have "w = view db h (lc_key L i)" by (rule rocks_laws_get[OF assms(1) w(1)])
  with w(2) show ?thesis by (auto split: option.splits simp: result_simps)
qed

text \<open>Columns store what is put into them: after a successful \<open>put\<close>, \<open>get\<close> of the same index returns the
  value, and \<open>get\<close> of any other index of the column, and of any index of another column, returns what
  it returned before.\<close>

theorem ledger_column_read_write:
  assumes "rocks_laws R view" "column_codec (lc_key L) (lc_index L) ok n" "ok i"
    "lc_serialize L v = Inr b" "lc_deserialize L b = Inr v" "lc_put R L db i v = Some (Inr u, db')"
  shows "(\<forall>r. lc_get R L db' i = Some (Inr r) \<longrightarrow> r = Some v)
    \<and> (\<forall>j r r'. ok j \<and> j \<noteq> i \<and> lc_get R L db j = Some (Inr r) \<and> lc_get R L db' j = Some (Inr r') \<longrightarrow> r' = r)
    \<and> (\<forall>L' :: ('j, 'w, 'e) ledger_column. \<forall>j r r'. column_name (lc_column L') \<noteq> column_name (lc_column L)
        \<and> lc_get R L' db j = Some (Inr r) \<and> lc_get R L' db' j = Some (Inr r') \<longrightarrow> r' = r)"
proof -
  obtain h where h: "lc_handle R L db = Some h" "rocks_put R db h (lc_key L i) b = (Inr u, db')"
    using assms(4,6) by (auto simp: lc_put_def bind_eq_Some_conv)
  note nm = lc_handle_name[OF h(1)]
  have v: "view db' = (view db)(h := (view db h)(lc_key L i \<mapsto> b))" by (rule rocks_laws_put(1)[OF assms(1) h(2)])
  have "r = Some v" if "lc_get R L db' i = Some (Inr r)" for r
    using lc_get_view[OF assms(1) that nm] assms(5) by (simp add: v)
  moreover have "r' = r" if "ok j" "j \<noteq> i" "lc_get R L db j = Some (Inr r)" "lc_get R L db' j = Some (Inr r')" for j r r'
  proof -
    have "lc_key L j \<noteq> lc_key L i" using column_codec.key_inj[OF assms(2) that(1) assms(3)] that(2) by simp
    then show ?thesis
      using lc_get_view[OF assms(1) that(3) nm] lc_get_view[OF assms(1) that(4) nm] by (auto simp: v split: option.splits)
  qed
  moreover have "r' = r" if c: "column_name (lc_column L') \<noteq> column_name (lc_column L)"
    and g: "lc_get R L' db j = Some (Inr r)" and g': "lc_get R L' db' j = Some (Inr r')"
    for L' :: "('j, 'w, 'e) ledger_column" and j r r'
  proof -
    obtain h' where h': "column_name (lc_column L') = Some h'"
      using g by (auto simp: lc_get_def lc_get_raw_def bind_eq_Some_conv dest: lc_handle_name)
    with c nm have "h' \<noteq> h" by simp
    then show ?thesis
      using lc_get_view[OF assms(1) g h'] lc_get_view[OF assms(1) g' h'] by (auto simp: v split: option.splits)
  qed
  ultimately show ?thesis by blast
qed

definition plain_roots :: "(slot, bool, string) ledger_column" where
  "plain_roots = \<lparr>lc_column = ColRoot, lc_key = SlotColumn_key, lc_index = SlotColumn_index,
     lc_serialize = (\<lambda>b. Inr [if b then 1 else 0]), lc_deserialize = (\<lambda>bs. Inr (bs = [1]))\<rparr>"

lemma plain_roots_put_get:
  "lc_put plain_rocks plain_roots (\<lambda>_. []) 5 True = Some (Inr (), (\<lambda>_. [])(''root'' := [(SlotColumn_key 5, [1])]))"
  "lc_get plain_rocks plain_roots ((\<lambda>_. [])(''root'' := [(SlotColumn_key 5, [1])])) 5 = Some (Inr (Some True))"
  by (simp_all add: lc_put_def lc_get_def lc_get_raw_def lc_handle_def cf_handle_def plain_rocks_def plain_roots_def)

theorem ledger_column_read_write_witness:
  "\<exists>r. lc_get plain_rocks plain_roots ((\<lambda>_. [])(''root'' := [(SlotColumn_key 5, [1])])) 5 = Some (Inr r) \<and> r = Some True"
proof -
  have c: "column_codec (lc_key plain_roots) (lc_index plain_roots) (\<lambda>_. True) 8"
    using slot_codec.column_codec_axioms by (simp add: plain_roots_def)
  have s: "lc_serialize plain_roots True = Inr [1]" "lc_deserialize plain_roots [1] = Inr True"
    by (simp_all add: plain_roots_def)
  note conjunct1[OF ledger_column_read_write[OF plain_rocks_laws c TrueI s plain_roots_put_get(1)]]
  moreover obtain r where "lc_get plain_rocks plain_roots ((\<lambda>_. [])(''root'' := [(SlotColumn_key 5, [1])])) 5 = Some (Inr r)"
    using plain_roots_put_get(2) by metis
  ultimately show ?thesis by simp
qed

text \<open>The compaction filter removes old slots only.  On the columns it is installed on, an entry is
  removed exactly if its slot is before the oldest slot to keep, and is not 0 unless slot 0 is to be
  cleaned; the same holds of entries whose key still has the deprecated format.\<close>

theorem purged_filter_exact:
  assumes "length sig = 64" "length pk = 32"
  shows "let removed = Some (if s < filter_oldest_slot f \<and> (s = 0 \<longrightarrow> filter_clean_slot_0 f) then Remove else Keep)
    in purged_filter TransactionStatus_index TransactionStatus_slot f (TransactionStatus_key (sig, s)) = removed
     \<and> purged_filter TransactionMemos_index TransactionMemos_slot f (TransactionMemos_key (sig, s)) = removed
     \<and> purged_filter AddressSignatures_index AddressSignatures_slot f (AddressSignatures_key (pk, s, t, sig)) = removed
     \<and> purged_filter TransactionStatus_index TransactionStatus_slot f (TransactionStatus_deprecated_key (p, sig, s)) = removed
     \<and> purged_filter AddressSignatures_index AddressSignatures_slot f (AddressSignatures_deprecated_key (p, pk, s, sig)) = removed"
proof -
  have "TransactionStatus_index (TransactionStatus_key (sig, s)) = Some (sig, s)"
    "TransactionMemos_index (TransactionMemos_key (sig, s)) = Some (sig, s)"
    "AddressSignatures_index (AddressSignatures_key (pk, s, t, sig)) = Some (pk, s, t, sig)"
    using transaction_status_codec.index_key[of "(sig, s)"] transaction_memos_codec.index_key[of "(sig, s)"]
      address_signatures_codec.index_key[of "(pk, s, t, sig)"] assms
    by (simp_all add: signature_index_ok_def address_index_ok_def)
  moreover have "TransactionStatus_index (TransactionStatus_deprecated_key (p, sig, s)) = Some (sig, s)"
    "AddressSignatures_index (AddressSignatures_deprecated_key (p, pk, s, sig)) = Some (pk, s, 0, sig)"
    using assms by (simp_all add: codec_simps)
  ultimately show ?thesis
    by (auto simp: purged_filter_def TransactionStatus_slot_def TransactionMemos_slot_def AddressSignatures_slot_def not_le)
qed

theorem purged_filter_exact_witness:
  "purged_filter TransactionStatus_index TransactionStatus_slot \<lparr>filter_oldest_slot = 10, filter_clean_slot_0 = False\<rparr>
     (TransactionStatus_key (replicate 64 1, 5)) = Some Remove"
  using purged_filter_exact[of "replicate 64 1" "replicate 32 1" 5 "\<lparr>filter_oldest_slot = 10, filter_clean_slot_0 = False\<rparr>" 0 0]
  by (simp add: Let_def word_less_nat_alt)

end
