(* ===== verification/Blockstore.thy ===== *)
theory Blockstore
  imports Ledger_Db Entry
begin

section \<open>Opening a ledger (\<open>ledger/src/blockstore.rs\<close>)\<close>

text \<open>
  \<open>do_open\<close> opens the database, finds the highest root, seeds the transaction status index and
  finds the highest indexed slot; \<open>create_new_ledger\<close> starts a ledger from a genesis configuration.
  The database is the one of \<open>Ledger_Db\<close>; bincode's functions for the three value types used here
  are the record \<open>blockstore_serde\<close>, the genesis configuration is \<open>genesis_env\<close>.  The locks and the
  atomic are plain fields: the code below runs before the blockstore is shared.
\<close>

subsection \<open>Values and columns\<close>

record index_meta =
  max_slot :: slot
  frozen :: bool

definition TransactionStatusIndexMeta_default :: index_meta where
  "TransactionStatusIndexMeta_default = \<lparr>max_slot = 0, frozen = False\<rparr>"

record address_signature_meta =
  writeable :: bool

record 'e blockstore_serde =
  index_meta_serialize :: "index_meta \<Rightarrow> 'e + bytes"
  index_meta_deserialize :: "bytes \<Rightarrow> 'e + index_meta"
  address_meta_serialize :: "address_signature_meta \<Rightarrow> 'e + bytes"
  address_meta_deserialize :: "bytes \<Rightarrow> 'e + address_signature_meta"
  root_serialize :: "bool \<Rightarrow> 'e + bytes"
  root_deserialize :: "bytes \<Rightarrow> 'e + bool"

definition roots_cf :: "'e blockstore_serde \<Rightarrow> (slot, bool, 'e) ledger_column" where
  "roots_cf S = \<lparr>lc_column = ColRoot, lc_key = SlotColumn_key, lc_index = SlotColumn_index,
     lc_serialize = root_serialize S, lc_deserialize = root_deserialize S\<rparr>"

definition transaction_status_index_cf :: "'e blockstore_serde \<Rightarrow> (u64, index_meta, 'e) ledger_column" where
  "transaction_status_index_cf S =
     \<lparr>lc_column = ColTransactionStatusIndex, lc_key = TransactionStatusIndex_key, lc_index = TransactionStatusIndex_index,
      lc_serialize = index_meta_serialize S, lc_deserialize = index_meta_deserialize S\<rparr>"

definition address_signatures_cf ::
  "'e blockstore_serde \<Rightarrow> (pubkey \<times> slot \<times> u32 \<times> signature, address_signature_meta, 'e) ledger_column" where
  "address_signatures_cf S =
     \<lparr>lc_column = ColAddressSignatures, lc_key = AddressSignatures_key, lc_index = AddressSignatures_index,
      lc_serialize = address_meta_serialize S, lc_deserialize = address_meta_deserialize S\<rparr>"

record 'db blockstore =
  bs_ledger_path :: string
  bs_db :: "'db rocks"
  highest_primary_index_slot :: "slot option"
  max_root :: u64
  lowest_cleanup_slot :: slot

subsection \<open>Operations\<close>

definition Blockstore_is_primary_access :: "'db blockstore \<Rightarrow> bool" where
  "Blockstore_is_primary_access b = is_primary_access (bs_db b)"

text \<open>\<open>?\<close> on a database operation.\<close>

fun then_db :: "(('e + unit) \<times> 'db) option \<Rightarrow> ('db \<Rightarrow> (('e + unit) \<times> 'db) option) \<Rightarrow> (('e + unit) \<times> 'db) option" where
  "then_db (Some (Inr _, db)) f = f db"
| "then_db r f = r"

definition init_index_meta ::
  "('db, 'e) rocks_env \<Rightarrow> 'e blockstore_serde \<Rightarrow> u64 \<Rightarrow> 'db \<Rightarrow> (('e + unit) \<times> 'db) option" where
  "init_index_meta R S i db =
     do { r \<leftarrow> lc_get R (transaction_status_index_cf S) db i;
          case r of
            Inl e \<Rightarrow> Some (Inl e, db)
          | Inr (Some _) \<Rightarrow> Some (Inr (), db)
          | Inr None \<Rightarrow> lc_put R (transaction_status_index_cf S) db i TransactionStatusIndexMeta_default }"

definition delete_dummy_key ::
  "('db, 'e) rocks_env \<Rightarrow> 'e blockstore_serde \<Rightarrow> 'db \<Rightarrow> (('e + unit) \<times> 'db) option" where
  "delete_dummy_key R S db =
     (let dummy = AddressSignatures_as_index 2
      in do { r \<leftarrow> lc_get R (address_signatures_cf S) db dummy;
              case r of
                Inl e \<Rightarrow> Some (Inl e, db)
              | Inr None \<Rightarrow> Some (Inr (), db)
              | Inr (Some _) \<Rightarrow> lc_delete R (address_signatures_cf S) db dummy })"

definition set_db :: "'db blockstore \<Rightarrow> 'db \<Rightarrow> 'db blockstore" where
  "set_db b db = b\<lparr>bs_db := (bs_db b)\<lparr>rocks_db := db\<rparr>\<rparr>"

definition cleanup_old_entries ::
  "('db, 'e) rocks_env \<Rightarrow> 'e blockstore_serde \<Rightarrow> 'db blockstore \<Rightarrow> (('e + unit) \<times> 'db blockstore) option" where
  "cleanup_old_entries R S b =
     (if \<not> Blockstore_is_primary_access b then Some (Inr (), b)
      else map_option (map_prod id (set_db b))
             (then_db (then_db (init_index_meta R S 0 (rocks_db (bs_db b))) (init_index_meta R S 1)) (delete_dummy_key R S)))"

fun highest_slot_loop ::
  "'e blockstore_serde \<Rightarrow> (u64 \<times> bytes) option list \<Rightarrow> slot option \<Rightarrow> slot option option" where
  "highest_slot_loop S [] acc = Some acc"
| "highest_slot_loop S (None # xs) acc = None"
| "highest_slot_loop S (Some (i, d) # xs) acc =
     (case index_meta_deserialize S d of
        Inl _ \<Rightarrow> None
      | Inr meta \<Rightarrow> highest_slot_loop S xs
          (if (case acc of None \<Rightarrow> True | Some s \<Rightarrow> s < max_slot meta) then Some (max_slot meta) else acc))"

definition set_highest_primary_index_slot :: "'db blockstore \<Rightarrow> slot option \<Rightarrow> 'db blockstore" where
  "set_highest_primary_index_slot b s = b\<lparr>highest_primary_index_slot := s\<rparr>"

definition update_highest_primary_index_slot ::
  "('db, 'e) rocks_env \<Rightarrow> 'e blockstore_serde \<Rightarrow> 'db blockstore \<Rightarrow> 'db blockstore option" where
  "update_highest_primary_index_slot R S b =
     do { items \<leftarrow> lc_iter R (transaction_status_index_cf S) (rocks_db (bs_db b)) Start;
          highest \<leftarrow> highest_slot_loop S items None;
          Some (if (case highest of Some s \<Rightarrow> s \<noteq> 0 | None \<Rightarrow> False)
                then set_highest_primary_index_slot b highest
                else b\<lparr>bs_db := set_clean_slot_0 (bs_db b) True\<rparr>) }"

definition find_max_root :: "('db, 'e) rocks_env \<Rightarrow> 'e blockstore_serde \<Rightarrow> 'db \<Rightarrow> slot option" where
  "find_max_root R S db =
     do { items \<leftarrow> lc_iter R (roots_cf S) db End;
          case items of [] \<Rightarrow> Some 0 | item # _ \<Rightarrow> map_option fst item }"

definition do_open ::
  "('db, 'e) rocks_env \<Rightarrow> (string \<Rightarrow> string \<Rightarrow> string) \<Rightarrow> (nat \<Rightarrow> string) \<Rightarrow> 'e blockstore_serde
   \<Rightarrow> string \<Rightarrow> blockstore_options \<Rightarrow> ('e + 'db blockstore) option" where
  "do_open R join show_nat S ledger_path o' =
     (case fs_create_dir_all R ledger_path of
        Inl e \<Rightarrow> Some (Inl e)
      | Inr _ \<Rightarrow>
          do { opened \<leftarrow> Rocks_open R join show_nat (join ledger_path ''rocksdb'') o';
               case opened of
                 Inl e \<Rightarrow> Some (Inl e)
               | Inr db \<Rightarrow>
                   do { root \<leftarrow> find_max_root R S (rocks_db db);
                        let b = \<lparr>bs_ledger_path = ledger_path, bs_db = db, highest_primary_index_slot = None,
                                 max_root = root, lowest_cleanup_slot = 0\<rparr>;
                        (r, b1) \<leftarrow> cleanup_old_entries R S b;
                        case r of
                          Inl e \<Rightarrow> Some (Inl e)
                        | Inr _ \<Rightarrow> map_option Inr (update_highest_primary_index_slot R S b1) } })"

definition Blockstore_open ::
  "('db, 'e) rocks_env \<Rightarrow> (string \<Rightarrow> string \<Rightarrow> string) \<Rightarrow> (nat \<Rightarrow> string) \<Rightarrow> 'e blockstore_serde \<Rightarrow> nat
   \<Rightarrow> string \<Rightarrow> ('e + 'db blockstore) option" where
  "Blockstore_open R join show_nat S cpus ledger_path =
     Option.bind (BlockstoreOptions_default cpus) (do_open R join show_nat S ledger_path)"

definition Blockstore_destroy ::
  "('db, 'e) rocks_env \<Rightarrow> (string \<Rightarrow> string \<Rightarrow> string) \<Rightarrow> (string \<Rightarrow> 'e + unit) \<Rightarrow> string \<Rightarrow> 'e + unit" where
  "Blockstore_destroy R join db_destroy ledger_path =
     and_then (fs_create_dir_all R ledger_path) (\<lambda>_. db_destroy (join ledger_path ''rocksdb''))"

record ('g, 'e) genesis_env =
  genesis_write :: "'g \<Rightarrow> string \<Rightarrow> 'e + unit"
  ticks_per_slot :: "'g \<Rightarrow> u64"
  genesis_hashes_per_tick :: "'g \<Rightarrow> u64 option"
  genesis_hash :: "'g \<Rightarrow> hash"

text \<open>Beside the hash, the blockstore that \<open>create_new_ledger\<close> opens and drops when it returns: its database is
  what is left of the ledger.\<close>

definition create_new_ledger ::
  "('db, 'e) rocks_env \<Rightarrow> (string \<Rightarrow> string \<Rightarrow> string) \<Rightarrow> (nat \<Rightarrow> string) \<Rightarrow> 'e blockstore_serde
   \<Rightarrow> (string \<Rightarrow> 'e + unit) \<Rightarrow> ('g, 'e) genesis_env \<Rightarrow> (bytes \<Rightarrow> hash) \<Rightarrow> (bytes list \<Rightarrow> hash)
   \<Rightarrow> ('tx \<Rightarrow> bytes list) \<Rightarrow> ('legacy \<Rightarrow> 'tx) \<Rightarrow> nat \<Rightarrow> nat \<Rightarrow> string \<Rightarrow> 'g \<Rightarrow> ledger_column_options
   \<Rightarrow> ('e + hash \<times> 'db blockstore) option" where
  "create_new_ledger R join show_nat S db_destroy G hash_fn hashv sigs into now cpus ledger_path g co =
     (case Blockstore_destroy R join db_destroy ledger_path of
        Inl e \<Rightarrow> Some (Inl e)
      | Inr _ \<Rightarrow>
          case genesis_write G g ledger_path of
            Inl e \<Rightarrow> Some (Inl e)
          | Inr _ \<Rightarrow>
              do { d \<leftarrow> BlockstoreOptions_default cpus;
                   opened \<leftarrow> do_open R join show_nat S ledger_path
                     (d\<lparr>enforce_ulimit_nofile := False, column_options := co\<rparr>);
                   case opened of
                     Inl e \<Rightarrow> Some (Inl e)
                   | Inr b \<Rightarrow>
                       do { let hashes = (case genesis_hashes_per_tick G g of Some n \<Rightarrow> n | None \<Rightarrow> 0);
                            entries \<leftarrow> create_ticks hash_fn hashv sigs into now (ticks_per_slot G g) hashes (genesis_hash G g);
                            if entries = [] then None else Some (Inr (entry_hash (last entries), b)) } })"

subsection \<open>What opening finds\<close>

lemma entries_of_last:
  assumes "entries_of m xs" "xs \<noteq> []" "m k = Some v"
  shows "k = fst (last xs) \<or> bytes_less k (fst (last xs))"
proof -
  have s: "sorted_wrt (\<lambda>a b. bytes_less (fst a) (fst b)) (butlast xs @ [last xs])"
    and k: "(k, v) \<in> set (butlast xs @ [last xs])"
    using assms by (simp_all add: entries_of_def)
  from k consider "(k, v) = last xs" | "(k, v) \<in> set (butlast xs)" by auto
  then show ?thesis
  proof cases
    case 1 then show ?thesis by (metis fst_conv)
  next
    case 2 with s show ?thesis by (auto simp: sorted_wrt_append)
  qed
qed

text \<open>The first item of an iterator, unless it fails, is the first entry.\<close>

lemma yields_first:
  assumes "yields ys xs"
  shows "(case ys of [] \<Rightarrow> xs = [] | Inl _ # _ \<Rightarrow> True | Inr y # _ \<Rightarrow> xs \<noteq> [] \<and> y = hd xs)"
  using assms unfolding yields_def
proof
  assume "\<exists>n e r. n \<le> length xs \<and> ys = map Inr (take n xs) @ Inl e # r"
  then obtain n e r where "ys = map Inr (take n xs) @ Inl e # r" by blast
  then show ?thesis by (cases n; cases xs) auto
qed (cases xs, auto)

text \<open>An iterator none of whose items fails is all of the entries.\<close>

lemma yields_all: "yields ys xs \<Longrightarrow> \<forall>y \<in> set ys. \<exists>x. y = Inr x \<Longrightarrow> ys = map Inr xs"
  unfolding yields_def by fastforce

definition root_slots :: "(string \<Rightarrow> bytes \<Rightarrow> bytes option) \<Rightarrow> slot set" where
  "root_slots v = {s. v ''root'' (SlotColumn_key s) \<noteq> None}"

definition indexed_slots :: "'e blockstore_serde \<Rightarrow> (string \<Rightarrow> bytes \<Rightarrow> bytes option) \<Rightarrow> slot set" where
  "indexed_slots S v =
     {max_slot meta | k d meta. v ''transaction_status_index'' k = Some d \<and> index_meta_deserialize S d = Inr meta}"

lemma lc_iter_handle:
  "lc_iter R L db mode = Some items \<Longrightarrow> column_name (lc_column L) = Some n \<Longrightarrow>
     items = map (\<lambda>item. case item of Inl _ \<Rightarrow> None | Inr (k, v) \<Rightarrow> map_option (\<lambda>i. (i, v)) (lc_index L k))
       (rocks_iter R db n (case mode of Start \<Rightarrow> IterStart | End \<Rightarrow> IterEnd | From i d \<Rightarrow> IterFrom (lc_key L i) d))"
  by (auto simp: lc_iter_def Let_def bind_eq_Some_conv dest: lc_handle_name)

lemma find_max_root_correct:
  assumes laws: "rocks_laws R view" and found: "find_max_root R S db = Some root"
    and keys: "\<And>k v. view db ''root'' k = Some v \<Longrightarrow> \<exists>s. k = SlotColumn_key s"
  shows "root = (if root_slots (view db) = {} then 0 else Max (root_slots (view db)))"
proof -
  obtain xs where xs: "entries_of (view db ''root'') xs" "yields (rocks_iter R db ''root'' IterEnd) (rev xs)"
    by (rule rocks_laws_iter[OF laws])
  have nm: "column_name (lc_column (roots_cf S)) = Some ''root''" by (simp add: roots_cf_def)
  obtain items where i: "lc_iter R (roots_cf S) db End = Some items" and r: "(case items of [] \<Rightarrow> Some 0 | item # _ \<Rightarrow> map_option fst item) = Some root"
    using found by (auto simp: find_max_root_def bind_eq_Some_conv)
  note it = lc_iter_handle[OF i nm] and fst_item = yields_first[OF xs(2)]
  show ?thesis
  proof (cases "xs = []")
    case True
    then have "view db ''root'' k = None" for k using xs(1) by (cases "view db ''root'' k") (auto simp: entries_of_def)
    moreover have "root = 0" using fst_item r it True by (cases "rocks_iter R db ''root'' IterEnd") (auto split: sum.splits)
    ultimately show ?thesis by (simp add: root_slots_def)
  next
    case False
    then obtain k v where kv: "last xs = (k, v)" "view db ''root'' k = Some v"
      using xs(1) last_in_set[OF False] by (cases "last xs") (auto simp: entries_of_def)
    obtain s where s: "k = SlotColumn_key s" using keys[OF kv(2)] by blast
    have "root = s"
      using fst_item r it False kv(1) s slot_codec.index_key[of s]
      by (cases "rocks_iter R db ''root'' IterEnd") (auto simp: hd_rev roots_cf_def split: sum.splits)
    moreover have "t \<le> s" if "t \<in> root_slots (view db)" for t
    proof -
      from that obtain w where "view db ''root'' (SlotColumn_key t) = Some w" by (auto simp: root_slots_def)
      from entries_of_last[OF xs(1) False this] have "SlotColumn_key t = SlotColumn_key s \<or> bytes_less (SlotColumn_key t) (SlotColumn_key s)"
        by (simp add: kv(1) s)
      then show ?thesis using slot_codec.before_as_index[of t s] slot_codec.key_inj[of t s] by (auto simp: SlotColumn_slot_def SlotColumn_as_index_def)
    qed
    moreover have "s \<in> root_slots (view db)" using kv(2) s by (simp add: root_slots_def)
    ultimately show ?thesis by (auto intro!: Max_eqI[symmetric])
  qed
qed

lemma Max_with_acc:
  fixes A :: "slot set"
  assumes "acc' = (if (case acc of None \<Rightarrow> True | Some s \<Rightarrow> s < x) then Some x else acc)"
  shows "A \<union> set_option acc' \<noteq> {}" "Max (A \<union> set_option acc') = Max (insert x A \<union> set_option acc)"
proof -
  show "A \<union> set_option acc' \<noteq> {}" by (cases acc) (auto simp: assms)
  show "Max (A \<union> set_option acc') = Max (insert x A \<union> set_option acc)"
    by (cases acc; cases "A = {}") (auto simp: assms Un_insert_right max_def)
qed

lemma highest_slot_loop_correct:
  assumes "highest_slot_loop S items acc = Some r"
  shows "(\<forall>item \<in> set items. \<exists>i d meta. item = Some (i, d) \<and> index_meta_deserialize S d = Inr meta)
    \<and> (let A = {max_slot meta | i d meta. Some (i, d) \<in> set items \<and> index_meta_deserialize S d = Inr meta} \<union> set_option acc
       in r = (if A = {} then None else Some (Max A)))"
  using assms
proof (induction S items acc rule: highest_slot_loop.induct)
  case (1 S acc)
  then show ?case by (cases acc) auto
next
  case (3 S i d xs acc)
  then obtain meta where m: "index_meta_deserialize S d = Inr meta" by (auto split: sum.splits)
  let ?A = "\<lambda>xs. {max_slot meta | i d meta. Some (i, d) \<in> set xs \<and> index_meta_deserialize S d = Inr meta}"
  let ?acc = "if (case acc of None \<Rightarrow> True | Some s \<Rightarrow> s < max_slot meta) then Some (max_slot meta) else acc"
  have A: "?A (Some (i, d) # xs) = insert (max_slot meta) (?A xs)" using m by auto
  note acc = Max_with_acc[where acc' = ?acc and acc = acc and x = "max_slot meta" and A = "?A xs", OF refl]
  from 3 m have "highest_slot_loop S xs ?acc = Some r" by simp
  note IH = 3(1)[OF m this]
  show ?case using IH acc m unfolding A Let_def by (auto simp del: Max_insert)
qed simp

text \<open>What seeding makes of the index column: entry \<open>i\<close> is written if it is missing.\<close>

definition seeded :: "'e blockstore_serde \<Rightarrow> u64 \<Rightarrow> (bytes \<Rightarrow> bytes option) \<Rightarrow> (bytes \<Rightarrow> bytes option)" where
  "seeded S i m =
     (case (m (TransactionStatusIndex_key i), index_meta_serialize S TransactionStatusIndexMeta_default) of
        (None, Inr d) \<Rightarrow> m(TransactionStatusIndex_key i \<mapsto> d) | _ \<Rightarrow> m)"

definition cleaned_view ::
  "'e blockstore_serde \<Rightarrow> (string \<Rightarrow> bytes \<Rightarrow> bytes option) \<Rightarrow> (string \<Rightarrow> bytes \<Rightarrow> bytes option)" where
  "cleaned_view S v =
     v(''transaction_status_index'' := seeded S 1 (seeded S 0 (v ''transaction_status_index'')),
       ''address_signatures'' := (v ''address_signatures'')(AddressSignatures_key (AddressSignatures_as_index 2) := None))"

lemma index_cf_simps [simp]:
  "lc_column (transaction_status_index_cf S) = ColTransactionStatusIndex"
  "lc_key (transaction_status_index_cf S) = TransactionStatusIndex_key"
  "lc_index (transaction_status_index_cf S) = TransactionStatusIndex_index"
  "lc_serialize (transaction_status_index_cf S) = index_meta_serialize S"
  "lc_deserialize (transaction_status_index_cf S) = index_meta_deserialize S"
  "lc_column (address_signatures_cf S) = ColAddressSignatures"
  "lc_key (address_signatures_cf S) = AddressSignatures_key"
  "lc_deserialize (address_signatures_cf S) = address_meta_deserialize S"
  by (simp_all add: transaction_status_index_cf_def address_signatures_cf_def)

lemma get_step:
  "Option.bind x (\<lambda>r. case r of Inl e \<Rightarrow> Some (Inl e, db) | Inr y \<Rightarrow> f y) = Some (Inr u, db')
     \<longleftrightarrow> (\<exists>g. x = Some (Inr g) \<and> f g = Some (Inr u, db'))"
  by (cases x; cases "the x") auto

lemma init_index_meta_view:
  assumes laws: "rocks_laws R view" and d: "init_index_meta R S i db = Some (Inr u, db')"
  shows "view db' = (view db)(''transaction_status_index'' := seeded S i (view db ''transaction_status_index''))"
proof -
  let ?L = "transaction_status_index_cf S"
  have nm: "column_name (lc_column ?L) = Some ''transaction_status_index''" by simp
  obtain g where g: "lc_get R ?L db i = Some (Inr g)"
    and rest: "(case g of Some _ \<Rightarrow> Some (Inr (), db) | None \<Rightarrow> lc_put R ?L db i TransactionStatusIndexMeta_default) = Some (Inr u, db')"
    using d by (auto simp: init_index_meta_def get_step)
  note w = lc_get_view[OF laws g nm]
  show ?thesis
  proof (cases g)
    case (Some x)
    with w rest show ?thesis by (auto simp: seeded_def split: option.splits)
  next
    case None
    with rest obtain d h where sd: "index_meta_serialize S TransactionStatusIndexMeta_default = Inr d"
      and h: "lc_handle R ?L db = Some h" and p: "rocks_put R db h (TransactionStatusIndex_key i) d = (Inr u, db')"
      by (auto simp: lc_put_def bind_eq_Some_conv split: sum.splits)
    have "h = ''transaction_status_index''" using lc_handle_name[OF h] by simp
    with rocks_laws_put(1)[OF laws p] w None sd show ?thesis by (auto simp: seeded_def split: option.splits)
  qed
qed

lemma delete_dummy_key_view:
  assumes laws: "rocks_laws R view" and d: "delete_dummy_key R S db = Some (Inr u, db')"
  shows "view db' = (view db)(''address_signatures'' :=
    (view db ''address_signatures'')(AddressSignatures_key (AddressSignatures_as_index 2) := None))"
proof -
  let ?L = "address_signatures_cf S" and ?i = "AddressSignatures_as_index 2"
  have nm: "column_name (lc_column ?L) = Some ''address_signatures''" by simp
  obtain g where g: "lc_get R ?L db ?i = Some (Inr g)"
    and rest: "(case g of None \<Rightarrow> Some (Inr (), db) | Some _ \<Rightarrow> lc_delete R ?L db ?i) = Some (Inr u, db')"
    using d by (auto simp: delete_dummy_key_def Let_def get_step)
  note w = lc_get_view[OF laws g nm]
  show ?thesis
  proof (cases g)
    case None
    with w rest show ?thesis by (auto simp: fun_eq_iff split: option.splits)
  next
    case (Some x)
    with rest obtain h where h: "lc_handle R ?L db = Some h" and p: "rocks_delete R db h (AddressSignatures_key ?i) = (Inr u, db')"
      by (auto simp: lc_delete_def bind_eq_Some_conv)
    have "h = ''address_signatures''" using lc_handle_name[OF h] by simp
    with rocks_laws_delete(1)[OF laws p] show ?thesis by simp
  qed
qed

lemma then_db_Inr: "then_db x f = Some (Inr u, db') \<longleftrightarrow> (\<exists>w db. x = Some (Inr w, db) \<and> f db = Some (Inr u, db'))"
  by (cases "(x, f)" rule: then_db.cases) auto

lemma cleanup_old_entries_view:
  assumes laws: "rocks_laws R view" and d: "cleanup_old_entries R S b = Some (Inr u, b')"
  shows "view (rocks_db (bs_db b')) =
      (if Blockstore_is_primary_access b then cleaned_view S (view (rocks_db (bs_db b))) else view (rocks_db (bs_db b)))
    \<and> b' = set_db b (rocks_db (bs_db b'))"
proof (cases "Blockstore_is_primary_access b")
  case True
  then obtain db3 where b': "b' = set_db b db3"
    and t: "then_db (then_db (init_index_meta R S 0 (rocks_db (bs_db b))) (init_index_meta R S 1)) (delete_dummy_key R S) = Some (Inr u, db3)"
    using d by (auto simp: cleanup_old_entries_def)
  from t obtain w1 w2 db1 db2 where s: "init_index_meta R S 0 (rocks_db (bs_db b)) = Some (Inr w1, db1)"
    "init_index_meta R S 1 db1 = Some (Inr w2, db2)" "delete_dummy_key R S db2 = Some (Inr u, db3)"
    unfolding then_db_Inr by blast
  show ?thesis
    using True init_index_meta_view[OF laws s(1)] init_index_meta_view[OF laws s(2)] delete_dummy_key_view[OF laws s(3)]
    by (simp add: b' set_db_def cleaned_view_def)
next
  case False
  with d show ?thesis by (auto simp: cleanup_old_entries_def set_db_def)
qed

lemma update_highest_correct:
  assumes laws: "rocks_laws R view" and d: "update_highest_primary_index_slot R S b = Some b'"
    and new: "highest_primary_index_slot b = None" "\<not> clean_slot_0 (bs_db b)"
  shows "let A = indexed_slots S (view (rocks_db (bs_db b)))
    in b' = (if A \<subseteq> {0} then b\<lparr>bs_db := (bs_db b)\<lparr>clean_slot_0 := True\<rparr>\<rparr> else b\<lparr>highest_primary_index_slot := Some (Max A)\<rparr>)"
proof -
  let ?L = "transaction_status_index_cf S" and ?db = "rocks_db (bs_db b)"
  let ?n = "''transaction_status_index''"
  have nm: "column_name (lc_column ?L) = Some ?n" by simp
  obtain xs where xs: "entries_of (view ?db ?n) xs" "yields (rocks_iter R ?db ?n IterStart) xs" by (rule rocks_laws_iter[OF laws])
  obtain items h where i: "lc_iter R ?L ?db Start = Some items" and h: "highest_slot_loop S items None = Some h"
    and b': "b' = (if (case h of Some s \<Rightarrow> s \<noteq> 0 | None \<Rightarrow> False) then set_highest_primary_index_slot b h
                   else b\<lparr>bs_db := set_clean_slot_0 (bs_db b) True\<rparr>)"
    using d by (auto simp: update_highest_primary_index_slot_def bind_eq_Some_conv)
  note it = lc_iter_handle[OF i nm] and hl = highest_slot_loop_correct[OF h]
  have ok: "\<forall>item \<in> set items. item \<noteq> None" using hl by blast
  have "rocks_iter R ?db ?n IterStart = map Inr xs"
  proof (intro yields_all[OF xs(2)] ballI)
    fix y assume "y \<in> set (rocks_iter R ?db ?n IterStart)"
    with ok it show "\<exists>x. y = Inr x" by (cases y) auto
  qed
  then have items: "items = map (\<lambda>(k, v). map_option (\<lambda>i. (i, v)) (TransactionStatusIndex_index k)) xs"
    using it by (simp add: comp_def split_beta)
  have "(\<exists>i. Some (i, d) \<in> set items) \<longleftrightarrow> (\<exists>k. (k, d) \<in> set xs)" for d
    using ok unfolding items by force
  then have A: "{max_slot meta | i d meta. Some (i, d) \<in> set items \<and> index_meta_deserialize S d = Inr meta} = indexed_slots S (view ?db)"
    using xs(1) unfolding indexed_slots_def entries_of_def by blast
  have h': "h = (if indexed_slots S (view ?db) = {} then None else Some (Max (indexed_slots S (view ?db))))"
    using hl by (simp add: A Let_def)
  have z: "Max A = 0 \<longleftrightarrow> A \<subseteq> {0}" if "A \<noteq> {}" for A :: "slot set"
    using that by (auto simp: Max_eq_iff)
  show ?thesis
    using z[of "indexed_slots S (view ?db)"] unfolding Let_def b' h'
    by (auto simp: set_highest_primary_index_slot_def set_clean_slot_0_def)
qed

subsection \<open>Opening succeeds\<close>

text \<open>A database on which no operation fails, with all column families, and a ledger whose keys and values
  decode.\<close>

definition rocks_healthy :: "('db, 'e) rocks_env \<Rightarrow> bool" where
  "rocks_healthy R \<longleftrightarrow>
     (\<forall>db cf k. \<exists>v. rocks_get R db cf k = Inr v) \<and> (\<forall>db cf k v. fst (rocks_put R db cf k v) = Inr ())
   \<and> (\<forall>db cf k. fst (rocks_delete R db cf k) = Inr ()) \<and> (\<forall>db cf m. \<forall>y \<in> set (rocks_iter R db cf m). \<exists>x. y = Inr x)
   \<and> (\<forall>db C n. C \<in> set known_columns \<and> column_name C = Some n \<longrightarrow> rocks_has_cf R db n)"

definition readable_ledger :: "'e blockstore_serde \<Rightarrow> (string \<Rightarrow> bytes \<Rightarrow> bytes option) \<Rightarrow> bool" where
  "readable_ledger S v \<longleftrightarrow>
     (\<forall>k d. v ''root'' k = Some d \<longrightarrow> (\<exists>s. k = SlotColumn_key s))
   \<and> (\<forall>k d. v ''transaction_status_index'' k = Some d \<longrightarrow>
        (\<exists>i. k = TransactionStatusIndex_key i) \<and> (\<exists>m. index_meta_deserialize S d = Inr m))
   \<and> (\<forall>d. v ''address_signatures'' (AddressSignatures_key (AddressSignatures_as_index 2)) = Some d \<longrightarrow>
        (\<exists>m. address_meta_deserialize S d = Inr m))"

definition serde_laws :: "'e blockstore_serde \<Rightarrow> bool" where
  "serde_laws S \<longleftrightarrow> (\<forall>m. \<exists>d. index_meta_serialize S m = Inr d \<and> index_meta_deserialize S d = Inr m)"

lemma known_columns_opened:
  "ColRoot \<in> set known_columns" "ColTransactionStatusIndex \<in> set known_columns" "ColAddressSignatures \<in> set known_columns"
  by (simp_all add: known_columns_def)

lemma healthy_steps:
  assumes "rocks_healthy R"
  shows "\<exists>v. rocks_get R db cf k = Inr v" "\<exists>db'. rocks_put R db cf k d = (Inr (), db')"
    "\<exists>db'. rocks_delete R db cf k = (Inr (), db')"
  using assms unfolding rocks_healthy_def by (meson, metis prod.collapse, metis prod.collapse)

lemma lc_handle_healthy:
  "rocks_healthy R \<Longrightarrow> lc_column L \<in> set known_columns \<Longrightarrow> \<exists>h. lc_handle R L db = Some h \<and> column_name (lc_column L) = Some h"
  using column_names(2) by (auto simp: rocks_healthy_def lc_handle_def cf_handle_def)

lemma lc_get_healthy:
  assumes "rocks_laws R view" "rocks_healthy R" "lc_column L \<in> set known_columns" "column_name (lc_column L) = Some n"
    and "\<And>d. view db n (lc_key L i) = Some d \<Longrightarrow> \<exists>m. lc_deserialize L d = Inr m"
  shows "\<exists>g. lc_get R L db i = Some (Inr g)"
proof -
  obtain v where v: "rocks_get R db n (lc_key L i) = Inr v" using healthy_steps(1)[OF assms(2)] by blast
  have w: "v = view db n (lc_key L i)" by (rule rocks_laws_get[OF assms(1) v])
  have h: "lc_handle R L db = Some n" using lc_handle_healthy[OF assms(2,3), of db] assms(4) by simp
  show ?thesis
  proof (cases v)
    case (Some d)
    with w assms(5)[of d] obtain m where "lc_deserialize L d = Inr m" by auto
    with Some v h show ?thesis by (simp add: lc_get_def lc_get_raw_def result_simps)
  qed (simp add: lc_get_def lc_get_raw_def h v result_simps)
qed

lemma init_index_meta_healthy:
  assumes "rocks_laws R view" "rocks_healthy R" "serde_laws S" "readable_ledger S (view db)"
  shows "\<exists>db'. init_index_meta R S i db = Some (Inr (), db') \<and> readable_ledger S (view db')"
proof -
  let ?L = "transaction_status_index_cf S"
  obtain g where g: "lc_get R ?L db i = Some (Inr g)"
    using lc_get_healthy[OF assms(1,2), of ?L "''transaction_status_index''" db i] assms(4)
    by (auto simp: known_columns_opened readable_ledger_def)
  obtain d where d: "index_meta_serialize S TransactionStatusIndexMeta_default = Inr d"
    "index_meta_deserialize S d = Inr TransactionStatusIndexMeta_default"
    using assms(3) by (auto simp: serde_laws_def)
  obtain h where h: "lc_handle R ?L db = Some h" using lc_handle_healthy[OF assms(2), of ?L db] by (auto simp: known_columns_opened)
  obtain db1 where db1: "rocks_put R db h (TransactionStatusIndex_key i) d = (Inr (), db1)"
    using healthy_steps(2)[OF assms(2)] by blast
  have "\<exists>db'. init_index_meta R S i db = Some (Inr (), db')"
    by (cases g) (simp_all add: init_index_meta_def g lc_put_def d h db1)
  then obtain db' where db': "init_index_meta R S i db = Some (Inr (), db')" by blast
  have "readable_ledger S (view db')"
    using assms(4) d unfolding init_index_meta_view[OF assms(1) db']
    by (auto simp: readable_ledger_def seeded_def split: option.splits if_splits)
  with db' show ?thesis by blast
qed

lemma delete_dummy_key_healthy:
  assumes "rocks_laws R view" "rocks_healthy R" "readable_ledger S (view db)"
  shows "\<exists>db'. delete_dummy_key R S db = Some (Inr (), db') \<and> readable_ledger S (view db')"
proof -
  let ?L = "address_signatures_cf S" and ?i = "AddressSignatures_as_index 2"
  obtain g where g: "lc_get R ?L db ?i = Some (Inr g)"
    using lc_get_healthy[OF assms(1,2), of ?L "''address_signatures''" db ?i] assms(3)
    by (auto simp: known_columns_opened readable_ledger_def)
  obtain h where h: "lc_handle R ?L db = Some h" using lc_handle_healthy[OF assms(2), of ?L db] by (auto simp: known_columns_opened)
  obtain db1 where db1: "rocks_delete R db h (AddressSignatures_key ?i) = (Inr (), db1)"
    using healthy_steps(3)[OF assms(2)] by blast
  have "\<exists>db'. delete_dummy_key R S db = Some (Inr (), db')"
    by (cases g) (simp_all add: delete_dummy_key_def g lc_delete_def h db1)
  then obtain db' where db': "delete_dummy_key R S db = Some (Inr (), db')" by blast
  have "readable_ledger S (view db')"
    using assms(3) unfolding delete_dummy_key_view[OF assms(1) db'] by (simp add: readable_ledger_def)
  with db' show ?thesis by blast
qed

lemma cleanup_old_entries_healthy:
  assumes "rocks_laws R view" "rocks_healthy R" "serde_laws S" "readable_ledger S (view (rocks_db (bs_db b)))"
  shows "\<exists>b'. cleanup_old_entries R S b = Some (Inr (), b') \<and> readable_ledger S (view (rocks_db (bs_db b')))"
proof (cases "Blockstore_is_primary_access b")
  case True
  obtain db1 where 1: "init_index_meta R S 0 (rocks_db (bs_db b)) = Some (Inr (), db1)" "readable_ledger S (view db1)"
    using init_index_meta_healthy[OF assms] by blast
  obtain db2 where 2: "init_index_meta R S 1 db1 = Some (Inr (), db2)" "readable_ledger S (view db2)"
    using init_index_meta_healthy[OF assms(1-3) 1(2)] by blast
  obtain db3 where 3: "delete_dummy_key R S db2 = Some (Inr (), db3)" "readable_ledger S (view db3)"
    using delete_dummy_key_healthy[OF assms(1,2) 2(2)] by blast
  show ?thesis using True 1 2 3 by (simp add: cleanup_old_entries_def set_db_def)
qed (use assms in \<open>simp add: cleanup_old_entries_def\<close>)

lemma highest_slot_loop_total:
  "\<forall>item \<in> set items. \<exists>i d m. item = Some (i, d) \<and> index_meta_deserialize S d = Inr m \<Longrightarrow> \<exists>h. highest_slot_loop S items acc = Some h"
  by (induction S items acc rule: highest_slot_loop.induct) (auto split: sum.splits)

lemma update_highest_healthy:
  assumes "rocks_laws R view" "rocks_healthy R" "readable_ledger S (view (rocks_db (bs_db b)))"
  shows "\<exists>b'. update_highest_primary_index_slot R S b = Some b'"
proof -
  let ?L = "transaction_status_index_cf S" and ?db = "rocks_db (bs_db b)" and ?n = "''transaction_status_index''"
  obtain xs where xs: "entries_of (view ?db ?n) xs" "yields (rocks_iter R ?db ?n IterStart) xs" by (rule rocks_laws_iter[OF assms(1)])
  have it: "rocks_iter R ?db ?n IterStart = map Inr xs"
    using assms(2) by (intro yields_all[OF xs(2)]) (auto simp: rocks_healthy_def)
  have "lc_iter R ?L ?db Start = Some (map (\<lambda>(k, v). map_option (\<lambda>i. (i, v)) (TransactionStatusIndex_index k)) xs)"
    using lc_handle_healthy[OF assms(2), of ?L ?db] by (auto simp: lc_iter_def known_columns_opened it comp_def split_beta)
  moreover have "\<exists>h. highest_slot_loop S (map (\<lambda>(k, v). map_option (\<lambda>i. (i, v)) (TransactionStatusIndex_index k)) xs) None = Some h"
  proof (rule highest_slot_loop_total, rule ballI)
    fix item assume "item \<in> set (map (\<lambda>(k, v). map_option (\<lambda>i. (i, v)) (TransactionStatusIndex_index k)) xs)"
    then obtain k d where k: "(k, d) \<in> set xs" "item = map_option (\<lambda>i. (i, d)) (TransactionStatusIndex_index k)" by auto
    then have "view ?db ?n k = Some d" using xs(1) by (simp add: entries_of_def)
    then obtain i m where "k = TransactionStatusIndex_key i" "index_meta_deserialize S d = Inr m"
      using assms(3) unfolding readable_ledger_def by blast
    then show "\<exists>i d m. item = Some (i, d) \<and> index_meta_deserialize S d = Inr m"
      using k(2) transaction_status_index_codec.index_key[of i] by simp
  qed
  ultimately show ?thesis by (auto simp: update_highest_primary_index_slot_def)
qed

lemma find_max_root_healthy:
  assumes "rocks_laws R view" "rocks_healthy R" "readable_ledger S (view db)"
  shows "\<exists>root. find_max_root R S db = Some root"
proof -
  obtain xs where xs: "entries_of (view db ''root'') xs" "yields (rocks_iter R db ''root'' IterEnd) (rev xs)"
    by (rule rocks_laws_iter[OF assms(1)])
  have it: "rocks_iter R db ''root'' IterEnd = map Inr (rev xs)"
    using assms(2) by (intro yields_all[OF xs(2)]) (auto simp: rocks_healthy_def)
  have "lc_iter R (roots_cf S) db End = Some (map (\<lambda>(k, v). map_option (\<lambda>i. (i, v)) (SlotColumn_index k)) (rev xs))"
    using lc_handle_healthy[OF assms(2), of "roots_cf S" db] by (auto simp: lc_iter_def roots_cf_def known_columns_opened it comp_def split_beta)
  moreover have "\<exists>s. SlotColumn_index k = Some s" if "(k, v) \<in> set xs" for k v
  proof -
    from that xs(1) have "view db ''root'' k = Some v" by (simp add: entries_of_def)
    with assms(3) obtain s where "k = SlotColumn_key s" unfolding readable_ledger_def by blast
    then show ?thesis using slot_codec.index_key[of s] by simp
  qed
  ultimately show ?thesis
    by (cases xs rule: rev_cases) (auto simp: find_max_root_def split: prod.splits)
qed

subsection \<open>Properties\<close>

lemma Rocks_open_fields:
  "Rocks_open R join show_nat path o' = Some (Inr r) \<Longrightarrow> rocks_access r = access_type o' \<and> \<not> clean_slot_0 r"
  by (auto simp: Rocks_open_def Let_def bind_eq_Some_conv split: sum.split_asm prod.split_asm)

lemma opened_step:
  "Option.bind x (\<lambda>root. Option.bind (f root) (\<lambda>(r, b1). case r of Inl e \<Rightarrow> Some (Inl e) | Inr _ \<Rightarrow> map_option Inr (g b1))) = Some (Inr b)
     \<longleftrightarrow> (\<exists>root v b1. x = Some root \<and> f root = Some (Inr v, b1) \<and> g b1 = Some b)"
  by (cases x; cases "f (the x)"; cases "the (f (the x))"; cases "fst (the (f (the x)))") auto

text \<open>The steps of a successful \<open>do_open\<close> after the database is open.\<close>

lemma do_open_steps:
  assumes "Rocks_open R join show_nat (join path ''rocksdb'') o' = Some (Inr r)" "fs_create_dir_all R path = Inr u"
  shows "do_open R join show_nat S path o' = Some (Inr b) \<longleftrightarrow>
    (\<exists>root v b1. find_max_root R S (rocks_db r) = Some root
      \<and> cleanup_old_entries R S \<lparr>bs_ledger_path = path, bs_db = r, highest_primary_index_slot = None,
           max_root = root, lowest_cleanup_slot = 0\<rparr> = Some (Inr v, b1)
      \<and> update_highest_primary_index_slot R S b1 = Some b)"
  unfolding do_open_def assms sum.case bind.bind_lunit Let_def opened_step by blast

text \<open>C20: Opening a ledger.  If the database opened as \<open>r\<close>, the blockstore's \<open>max_root\<close> is the highest
  slot of the root column, 0 when there is none; with primary access the two index entries are
  there afterwards, the dummy key is gone and nothing else changed, with secondary access nothing
  changed at all; the highest indexed slot is the maximum over the index column as it then is, and is
  unset, with the cleaning of slot 0 switched on, exactly if no slot but 0 is indexed.  And opening
  does succeed on a database that does not fail and whose entries decode.\<close>

theorem blockstore_open_correct:
  assumes laws: "rocks_laws R view" and serde: "serde_laws S" and fs: "fs_create_dir_all R path = Inr ()"
    and opened: "Rocks_open R join show_nat (join path ''rocksdb'') o' = Some (Inr r)"
    and readable: "readable_ledger S (view (rocks_db r))"
  shows "(\<forall>b. do_open R join show_nat S path o' = Some (Inr b) \<longrightarrow>
      (let before = view (rocks_db r); after = view (rocks_db (bs_db b)); slots = indexed_slots S after
       in max_root b = (if root_slots before = {} then 0 else Max (root_slots before))
        \<and> after = (if access_type o' = Secondary then before else cleaned_view S before)
        \<and> highest_primary_index_slot b = (if slots \<subseteq> {0} then None else Some (Max slots))
        \<and> (clean_slot_0 (bs_db b) \<longleftrightarrow> slots \<subseteq> {0})))
    \<and> (rocks_healthy R \<longrightarrow> (\<exists>b. do_open R join show_nat S path o' = Some (Inr b)))"
proof (intro conjI allI impI)
  note steps = do_open_steps[of R join show_nat path o' r "()", OF opened fs]
  let ?b0 = "\<lambda>root. \<lparr>bs_ledger_path = path, bs_db = r, highest_primary_index_slot = None, max_root = root, lowest_cleanup_slot = 0\<rparr>"
  fix b assume "do_open R join show_nat S path o' = Some (Inr b)"
  then obtain root v b1 where root: "find_max_root R S (rocks_db r) = Some root"
    and cl: "cleanup_old_entries R S (?b0 root) = Some (Inr v, b1)" and up: "update_highest_primary_index_slot R S b1 = Some b"
    unfolding steps by blast
  have p: "Blockstore_is_primary_access (?b0 root) \<longleftrightarrow> access_type o' \<noteq> Secondary"
    using Rocks_open_fields[OF opened] by (cases "access_type o'") (auto simp: Blockstore_is_primary_access_def is_primary_access_def)
  note c = cleanup_old_entries_view[OF laws cl, unfolded p]
  have b1: "highest_primary_index_slot b1 = None" "\<not> clean_slot_0 (bs_db b1)" "max_root b1 = root"
    using Rocks_open_fields[OF opened] arg_cong[OF conjunct2[OF c], of highest_primary_index_slot]
      arg_cong[OF conjunct2[OF c], of "\<lambda>b. clean_slot_0 (bs_db b)"] arg_cong[OF conjunct2[OF c], of max_root]
    by (simp_all add: set_db_def)
  note u = update_highest_correct[OF laws up b1(1,2)]
  have bd: "rocks_db (bs_db b) = rocks_db (bs_db b1)" "max_root b = root" using u b1 by (auto simp: Let_def split: if_splits)
  have k: "\<exists>s. k = SlotColumn_key s" if "view (rocks_db r) ''root'' k = Some d" for k d
    using readable that unfolding readable_ledger_def by blast
  note m = find_max_root_correct[OF laws root, OF k]
  show "let before = view (rocks_db r); after = view (rocks_db (bs_db b)); slots = indexed_slots S after
       in max_root b = (if root_slots before = {} then 0 else Max (root_slots before))
        \<and> after = (if access_type o' = Secondary then before else cleaned_view S before)
        \<and> highest_primary_index_slot b = (if slots \<subseteq> {0} then None else Some (Max slots))
        \<and> (clean_slot_0 (bs_db b) \<longleftrightarrow> slots \<subseteq> {0})"
    using u b1 m c unfolding Let_def bd by (simp split: if_splits)
next
  note steps = do_open_steps[of R join show_nat path o' r "()", OF opened fs]
  assume h: "rocks_healthy R"
  show "\<exists>b. do_open R join show_nat S path o' = Some (Inr b)"
  proof -
    obtain root where root: "find_max_root R S (rocks_db r) = Some root" using find_max_root_healthy[OF laws h readable] by blast
    let ?b0 = "\<lparr>bs_ledger_path = path, bs_db = r, highest_primary_index_slot = None, max_root = root, lowest_cleanup_slot = 0\<rparr>"
    have "readable_ledger S (view (rocks_db (bs_db ?b0)))" using readable by simp
    from cleanup_old_entries_healthy[OF laws h serde this] obtain b1
      where b1: "cleanup_old_entries R S ?b0 = Some (Inr (), b1)" "readable_ledger S (view (rocks_db (bs_db b1)))" by blast
    obtain b where "update_highest_primary_index_slot R S b1 = Some b" using update_highest_healthy[OF laws h b1(2)] by blast
    with root b1(1) have "do_open R join show_nat S path o' = Some (Inr b)" unfolding steps by blast
    then show ?thesis by blast
  qed
qed

text \<open>A concrete serialization and a database with the roots 5 and 300.\<close>

definition plain_serde :: "string blockstore_serde" where
  "plain_serde =
     \<lparr>index_meta_serialize = (\<lambda>m. Inr ((if frozen m then 1 else 0) # u64_to_be_bytes (max_slot m))),
      index_meta_deserialize = (\<lambda>d. case d of [] \<Rightarrow> Inl ''eof'' | b # bs \<Rightarrow> Inr \<lparr>max_slot = u64_from_be_bytes bs, frozen = (b = 1)\<rparr>),
      address_meta_serialize = (\<lambda>m. Inr [if writeable m then 1 else 0]),
      address_meta_deserialize = (\<lambda>d. Inr \<lparr>writeable = (d = [1])\<rparr>),
      root_serialize = (\<lambda>r. Inr [if r then 1 else 0]), root_deserialize = (\<lambda>d. Inr (d = [1]))\<rparr>"

lemma plain_serde_laws: "serde_laws plain_serde"
  by (simp add: serde_laws_def plain_serde_def)

definition two_roots :: plain_db where
  "two_roots = (\<lambda>_. [])(''root'' := [(SlotColumn_key 5, [1]), (SlotColumn_key 300, [1])])"

definition plain_ledger :: "(plain_db, string) rocks_env" where
  "plain_ledger = plain_rocks\<lparr>rocks_open_cf := (\<lambda>_ _ _ _. Inr two_roots)\<rparr>"

definition plain_options :: blockstore_options where
  "plain_options = \<lparr>access_type = Primary, recovery_mode = None, enforce_ulimit_nofile = True,
     column_options = LedgerColumnOptions_default, num_rocksdb_compaction_threads = 1, num_rocksdb_flush_threads = 1\<rparr>"

lemma plain_ledger_laws: "rocks_laws plain_ledger (\<lambda>db cf. map_of (db cf))"
  using plain_rocks_laws by (simp add: rocks_laws_def plain_ledger_def)

lemma plain_ledger_healthy: "rocks_healthy plain_ledger"
proof -
  have "n \<noteq> ''program_costs''" if "C \<in> set known_columns" "column_name C = Some n" for C n
    using that by (auto simp: known_columns_def)
  then show ?thesis by (auto simp: rocks_healthy_def plain_ledger_def plain_rocks_def split: iterator_mode.splits)
qed

lemma plain_ledger_opens:
  "Rocks_open plain_ledger (@) (\<lambda>_. ''86400'') (''ledger'' @ ''rocksdb'') plain_options =
     Some (Inr \<lparr>rocks_db = two_roots, rocks_access = Primary, oldest_slot = 0, clean_slot_0 = False\<rparr>)"
proof -
  have c: "configure_cfs plain_ledger (\<lambda>_. ''86400'') ns two_roots = Some two_roots" if "''program_costs'' \<notin> set ns" for ns
    using that by (induction ns) (auto simp: cf_handle_def plain_ledger_def plain_rocks_def)
  have "''program_costs'' \<notin> set rocks_columns" by (simp add: rocks_columns_known known_columns_def)
  note c[OF this]
  then show ?thesis
    by (simp add: Rocks_open_def configure_compaction_def should_disable_auto_compactions_def plain_options_def
        plain_ledger_def plain_rocks_def)
qed

lemma two_roots_slots: "root_slots (\<lambda>cf. map_of (two_roots cf)) = {5, 300}"
  using slot_codec.key_inj by (auto simp: root_slots_def two_roots_def)

lemma two_roots_readable: "readable_ledger plain_serde (\<lambda>cf. map_of (two_roots cf))"
  by (auto simp: readable_ledger_def two_roots_def split: if_splits)

theorem blockstore_open_correct_witness:
  "\<exists>b. do_open plain_ledger (@) (\<lambda>_. ''86400'') plain_serde ''ledger'' plain_options = Some (Inr b) \<and> max_root b = 300"
proof -
  let ?open = "do_open plain_ledger (@) (\<lambda>_. ''86400'') plain_serde ''ledger'' plain_options"
  have fs: "fs_create_dir_all plain_ledger ''ledger'' = Inr ()" by (simp add: plain_ledger_def plain_rocks_def)
  let ?r = "\<lparr>rocks_db = two_roots, rocks_access = Primary, oldest_slot = 0, clean_slot_0 = False\<rparr>"
  have r: "readable_ledger plain_serde ((\<lambda>db cf. map_of (db cf)) (rocks_db ?r))"
    using two_roots_readable by simp
  note t = blockstore_open_correct[where join = "(@)" and path = "''ledger''" and r = ?r, OF plain_ledger_laws plain_serde_laws fs plain_ledger_opens r]
  from t plain_ledger_healthy obtain b where b: "?open = Some (Inr b)" by blast
  with t have "max_root b = Max {5, 300}" by (simp add: two_roots_slots Let_def)
  with b show ?thesis by (simp add: max_def word_le_nat_alt)
qed

lemma last_tick:
  assumes "create_ticks hash_fn hashv sigs into now n hpt h = Some es"
  shows "es = [] \<longleftrightarrow> n = 0" "es \<noteq> [] \<Longrightarrow> entry_hash (last es) = (hash_fn ^^ (unat hpt * unat n)) h"
proof -
  have es: "es = map (\<lambda>i. \<lparr>entry_num_hashes = hpt, entry_hash = (hash_fn ^^ (unat hpt * Suc i)) h, transactions = []\<rparr>) [0..<unat n]"
    using assms by (simp add: create_ticks_def take_entries_eq)
  show "es = [] \<longleftrightarrow> n = 0" by (simp add: es unat_eq_0)
  assume "es \<noteq> []"
  then obtain k where "unat n = Suc k" by (cases "unat n") (auto simp: es)
  then show "entry_hash (last es) = (hash_fn ^^ (unat hpt * unat n)) h" by (simp add: es)
qed

lemma opened_cases: obtains "x = None" | e where "x = Some (Inl e)" | b where "x = Some (Inr b)"
  by (cases x; cases "the x") auto

definition ledger_created ::
  "('db, 'e) rocks_env \<Rightarrow> (string \<Rightarrow> string \<Rightarrow> string) \<Rightarrow> (nat \<Rightarrow> string) \<Rightarrow> 'e blockstore_serde
   \<Rightarrow> (string \<Rightarrow> 'e + unit) \<Rightarrow> ('g, 'e) genesis_env \<Rightarrow> nat \<Rightarrow> string \<Rightarrow> 'g \<Rightarrow> ledger_column_options \<Rightarrow> 'db blockstore \<Rightarrow> bool" where
  "ledger_created R join show_nat S db_destroy G cpus path g co b \<longleftrightarrow>
     is_ok (fs_create_dir_all R path) \<and> is_ok (db_destroy (join path ''rocksdb'')) \<and> is_ok (genesis_write G g path)
   \<and> (\<exists>d. BlockstoreOptions_default cpus = Some d
        \<and> do_open R join show_nat S path (d\<lparr>enforce_ulimit_nofile := False, column_options := co\<rparr>) = Some (Inr b))"

text \<open>C29: Creating a ledger succeeds exactly if the old one could be removed, the genesis written and the new
  database opened, and a slot has at least one tick.  The result is the hash that the last of the
  ticks computed for slot 0 has, \<open>ticks_per_slot * hashes_per_tick\<close> iterations after the hash of the
  genesis configuration.  The ledger it leaves is the one that opening gave: the ticks are not
  written to it.  A genesis with no tick per slot panics once the database is open.\<close>

theorem create_new_ledger_correct:
  fixes into :: "'legacy \<Rightarrow> 'tx"
  shows "(create_new_ledger R join show_nat S db_destroy G hash_fn hashv sigs into now cpus path g co = Some (Inr (h, b))
      \<longleftrightarrow> ledger_created R join show_nat S db_destroy G cpus path g co b \<and> ticks_per_slot G g \<noteq> 0
        \<and> h = (hash_fn ^^ (unat (case genesis_hashes_per_tick G g of Some n \<Rightarrow> n | None \<Rightarrow> 0) * unat (ticks_per_slot G g))) (genesis_hash G g))
    \<and> (ledger_created R join show_nat S db_destroy G cpus path g co b
        \<and> create_new_ledger R join show_nat S db_destroy G hash_fn hashv sigs into now cpus path g co = None
      \<longleftrightarrow> ledger_created R join show_nat S db_destroy G cpus path g co b \<and> ticks_per_slot G g = 0)"
proof -
  let ?hpt = "case genesis_hashes_per_tick G g of Some n \<Rightarrow> n | None \<Rightarrow> 0"
  obtain es where es: "create_ticks hash_fn hashv sigs into now (ticks_per_slot G g) ?hpt (genesis_hash G g) = Some es"
    by (simp add: create_ticks_def take_entries_eq)
  note l = last_tick[OF es]
  show ?thesis
    unfolding create_new_ledger_def ledger_created_def Blockstore_destroy_def
    by (cases "fs_create_dir_all R path"; cases "db_destroy (join path ''rocksdb'')"; cases "genesis_write G g path";
        cases "BlockstoreOptions_default cpus";
        cases "do_open R join show_nat S path ((the (BlockstoreOptions_default cpus))\<lparr>enforce_ulimit_nofile := False, column_options := co\<rparr>)" rule: opened_cases)
      (use es l in \<open>auto simp: result_simps Let_def\<close>)
qed

end
