(* ===== verification/Discard.thy ===== *)
theory Discard
  imports Packet "HOL-Library.Multiset"
begin

section \<open>Random discarding of batches (\<open>perf/src/discard.rs\<close>)\<close>

text \<open>
  The loop removes batches at random positions until few enough packets are left.  The random
  number generator is the argument \<open>pick\<close>: \<open>pick k n\<close> is what the \<open>k\<close>-th call of \<open>gen_range(0..n)\<close>
  gives; on the empty range the call panics.
\<close>

definition swap_remove :: "'a list \<Rightarrow> nat \<Rightarrow> ('a \<times> 'a list) option" where
  "swap_remove xs i =
     (if i < length xs then Some (xs ! i, if i = length xs - 1 then butlast xs else (butlast xs)[i := last xs]) else None)"

lemma length_swap_remove: "swap_remove xs i = Some (x, ys) \<Longrightarrow> length ys < length xs"
  by (auto simp: swap_remove_def split: if_splits)

function discard_batches_randomly ::
  "(nat \<Rightarrow> nat \<Rightarrow> nat) \<Rightarrow> nat \<Rightarrow> ('meta, 'pkt) packet_batch list \<Rightarrow> nat \<Rightarrow> nat
   \<Rightarrow> (nat \<times> ('meta, 'pkt) packet_batch list) option" where
  "discard_batches_randomly pick k batches max_packets total_packets =
     (if total_packets > max_packets then
        (if batches = [] then None
         else case swap_remove batches (pick k (length batches)) of
                None \<Rightarrow> None
              | Some (removed, rest) \<Rightarrow>
                  discard_batches_randomly pick (Suc k) rest max_packets (saturating_sub total_packets (batch_len removed)))
      else Some (total_packets, batches))"
  by pat_completeness auto
termination
  by (relation "measure (\<lambda>(pick, k, bs, m, t). length bs)") (auto dest: length_swap_remove)

declare discard_batches_randomly.simps [simp del]

definition packets_in :: "('meta, 'pkt) packet_batch list \<Rightarrow> nat" where
  "packets_in bs = sum_list (map batch_len bs)"

lemma mset_swap_remove:
  assumes "swap_remove xs i = Some (x, ys)"
  shows "mset xs = add_mset x (mset ys)"
proof -
  from assms have i: "i < length xs" and x: "x = xs ! i"
    and ys: "ys = (if i = length xs - 1 then butlast xs else (butlast xs)[i := last xs])"
    by (auto simp: swap_remove_def split: if_splits)
  from i obtain zs z where xs: "xs = zs @ [z]" by (cases xs rule: rev_cases) auto
  show ?thesis
  proof (cases "i = length zs")
    case True then show ?thesis by (simp add: x ys xs)
  next
    case False
    with i xs have "i < length zs" by simp
    then show ?thesis by (simp add: x ys xs nth_append mset_update)
  qed
qed

lemma packets_in_mset: "packets_in bs = sum_mset (image_mset batch_len (mset bs))"
  by (simp add: packets_in_def sum_mset_sum_list[symmetric])

lemma packets_in_remove: "mset xs = add_mset x (mset ys) \<Longrightarrow> packets_in xs = batch_len x + packets_in ys"
  by (simp add: packets_in_mset)

text \<open>Discarding ends, whatever the random numbers: with a true packet count the loop never
  panics and returns after removing at most all batches.  What is left is part of the batches, the
  returned count is theirs and within the limit; no batch is removed needlessly: putting the batch that
  was removed last back would exceed the limit again.\<close>

theorem discard_ends_within_limit:
  assumes "\<And>k n. 0 < n \<Longrightarrow> pick k n < n"
  shows "\<exists>total rest. discard_batches_randomly pick k bs limit (packets_in bs) = Some (total, rest)
    \<and> total \<le> limit \<and> total = packets_in rest \<and> mset rest \<subseteq># mset bs
    \<and> (rest = bs \<or> (\<exists>b. add_mset b (mset rest) \<subseteq># mset bs \<and> limit < packets_in rest + batch_len b))"
proof (induction "length bs" arbitrary: bs k rule: less_induct)
  case less
  show ?case
  proof (cases "limit < packets_in bs")
    case True
    then have ne: "bs \<noteq> []" by (auto simp: packets_in_def)
    then obtain b ys where r: "swap_remove bs (pick k (length bs)) = Some (b, ys)"
      using assms[of "length bs" k] by (auto simp: swap_remove_def)
    note m = mset_swap_remove[OF r]
    have s: "saturating_sub (packets_in bs) (batch_len b) = packets_in ys"
      using packets_in_remove[OF m] by (simp add: saturating_sub_def)
    from less[OF length_swap_remove[OF r], of "Suc k"] obtain t rest
      where IH: "discard_batches_randomly pick (Suc k) ys limit (packets_in ys) = Some (t, rest)"
        "t \<le> limit" "t = packets_in rest" "mset rest \<subseteq># mset ys"
        "rest = ys \<or> (\<exists>b. add_mset b (mset rest) \<subseteq># mset ys \<and> limit < packets_in rest + batch_len b)" by blast
    have d: "discard_batches_randomly pick k bs limit (packets_in bs) = Some (t, rest)"
      using True ne r s IH(1) by (subst discard_batches_randomly.simps) simp
    have sub: "mset rest \<subseteq># mset bs" unfolding m by (rule subset_mset.order_trans[OF IH(4)]) simp
    have "\<exists>b. add_mset b (mset rest) \<subseteq># mset bs \<and> limit < packets_in rest + batch_len b"
      using IH(5)
    proof
      assume "rest = ys"
      then show ?thesis using True packets_in_remove[OF m] m by (intro exI[of _ b]) simp
    next
      assume "\<exists>b. add_mset b (mset rest) \<subseteq># mset ys \<and> limit < packets_in rest + batch_len b"
      then obtain c where c: "add_mset c (mset rest) \<subseteq># mset ys" "limit < packets_in rest + batch_len c" by blast
      from c(1) have "add_mset c (mset rest) \<subseteq># mset bs" unfolding m by (rule subset_mset.order_trans) simp
      with c(2) show ?thesis by blast
    qed
    with d IH(2,3) sub show ?thesis by blast
  next
    case False
    then show ?thesis by (subst discard_batches_randomly.simps) simp
  qed
qed

theorem discard_ends_within_limit_witness:
  "\<exists>total rest. discard_batches_randomly (\<lambda>k n. 0) 0 (replicate 100 (Bytes [\<lparr>bp_buffer = [], bp_meta = ()\<rparr>])) 5 100 = Some (total, rest) \<and> total \<le> 5"
  using discard_ends_within_limit[of "\<lambda>k n. 0" 0 "replicate 100 (Bytes [\<lparr>bp_buffer = [], bp_meta = ()\<rparr>])" 5]
  by (auto simp: packets_in_def sum_list_replicate)

end
