(* ===== verification/Pinned_Vec.thy ===== *)
theory Pinned_Vec
  imports Prelude "HOL-Library.Multiset"
begin

section \<open>Page-pinned vectors (\<open>perf/src/cuda_runtime.rs\<close>)\<close>

text \<open>
  A \<open>PinnedVec\<close> registers its memory with the CUDA driver.  A Rust vector is its items with the
  address and capacity of its allocation; what the allocator answers when a vector grows is an
  argument (\<open>None\<close> when it fails, which aborts).  The driver is external: \<open>cuda_api\<close> holds the two
  calls, \<open>cuda_laws\<close> what they promise about the set of registered addresses; \<open>perf_libs::api()\<close> is an
  optional \<open>cuda_api\<close>.  A \<open>Weak\<close> reference to a recycler is the recycler's number or \<open>None\<close>.
\<close>

subsection \<open>Vectors\<close>

record ty_info =
  size_of_ty :: nat
  align_of_ty :: nat

record 'a vec =
  vec_items :: "'a list"
  vec_ptr :: nat
  vec_cap :: nat

type_synonym alloc = "(nat \<times> nat) option"

definition vec_new :: "ty_info \<Rightarrow> 'a vec" where
  "vec_new T = \<lparr>vec_items = [], vec_ptr = align_of_ty T, vec_cap = 0\<rparr>"

definition vec_reserve :: "alloc \<Rightarrow> 'a vec \<Rightarrow> nat \<Rightarrow> 'a vec option" where
  "vec_reserve al x additional =
     (if vec_cap x - length (vec_items x) < additional
      then map_option (\<lambda>(p, c). x\<lparr>vec_ptr := p, vec_cap := c\<rparr>) al
      else Some x)"

definition vec_extend :: "alloc \<Rightarrow> 'a vec \<Rightarrow> 'a list \<Rightarrow> 'a vec option" where
  "vec_extend al x ys = map_option (\<lambda>x'. x'\<lparr>vec_items := vec_items x @ ys\<rparr>) (vec_reserve al x (length ys))"

definition vec_resize :: "alloc \<Rightarrow> 'a vec \<Rightarrow> nat \<Rightarrow> 'a \<Rightarrow> 'a vec option" where
  "vec_resize al x n e =
     (if n > length (vec_items x) then vec_extend al x (replicate (n - length (vec_items x)) e)
      else Some (x\<lparr>vec_items := take n (vec_items x)\<rparr>))"

definition vec_clone :: "ty_info \<Rightarrow> alloc \<Rightarrow> 'a vec \<Rightarrow> 'a vec option" where
  "vec_clone T al x =
     (if vec_items x = [] then Some (vec_new T)
      else map_option (\<lambda>(p, c). \<lparr>vec_items = vec_items x, vec_ptr = p, vec_cap = c\<rparr>) al)"

subsection \<open>The driver\<close>

definition saturating_mul :: "nat \<Rightarrow> nat \<Rightarrow> nat" where
  "saturating_mul a b = min (a * b) usize_max"

record 'g cuda_api =
  cuda_host_register :: "'g \<Rightarrow> nat \<Rightarrow> nat \<Rightarrow> int \<times> 'g"
  cuda_host_unregister :: "'g \<Rightarrow> nat \<Rightarrow> int \<times> 'g"

definition CUDA_SUCCESS :: int where
  "CUDA_SUCCESS = 0"

definition pin :: "'g cuda_api option \<Rightarrow> ty_info \<Rightarrow> 'g \<Rightarrow> 'a vec \<Rightarrow> 'g option" where
  "pin api T g mem =
     (case api of
        None \<Rightarrow> Some g
      | Some A \<Rightarrow>
          let size' = saturating_mul (vec_cap mem) (size_of_ty T);
              (err, g') = cuda_host_register A g (vec_ptr mem) size'
          in if err = CUDA_SUCCESS then Some g' else None)"

definition unpin :: "'g cuda_api option \<Rightarrow> 'g \<Rightarrow> nat \<Rightarrow> 'g option" where
  "unpin api g mem =
     (case api of
        None \<Rightarrow> Some g
      | Some A \<Rightarrow>
          let (err, g') = cuda_host_unregister A g mem in if err = CUDA_SUCCESS then Some g' else None)"

subsection \<open>\<open>PinnedVec\<close>\<close>

record 'a pinned_vec =
  pv_x :: "'a vec"
  pinned :: bool
  pinnable :: bool
  pv_recycler :: "nat option"

definition from_vec :: "'a vec \<Rightarrow> 'a pinned_vec" where
  "from_vec source = \<lparr>pv_x = source, pinned = False, pinnable = False, pv_recycler = None\<rparr>"

definition PinnedVec_default :: "ty_info \<Rightarrow> 'a pinned_vec" where
  "PinnedVec_default T = \<lparr>pv_x = vec_new T, pinned = False, pinnable = False, pv_recycler = None\<rparr>"

definition pv_with_capacity :: "ty_info \<Rightarrow> alloc \<Rightarrow> nat \<Rightarrow> 'a pinned_vec option" where
  "pv_with_capacity T al capacity = map_option from_vec (vec_reserve al (vec_new T) capacity)"

definition set_pinnable :: "'a pinned_vec \<Rightarrow> 'a pinned_vec" where
  "set_pinnable v = v\<lparr>pinnable := True\<rparr>"

definition set_recycler :: "'a pinned_vec \<Rightarrow> nat option \<Rightarrow> 'a pinned_vec" where
  "set_recycler v r = v\<lparr>pv_recycler := r\<rparr>"

definition reserve_and_pin ::
  "'g cuda_api option \<Rightarrow> ty_info \<Rightarrow> 'g \<Rightarrow> alloc \<Rightarrow> 'a pinned_vec \<Rightarrow> nat \<Rightarrow> ('g \<times> 'a pinned_vec) option" where
  "reserve_and_pin api T g al v size' =
     do { (g1, v1) \<leftarrow>
            (if vec_cap (pv_x v) < size'
             then do { (g1, v1) \<leftarrow> (if pinned v
                                  then map_option (\<lambda>g1. (g1, v\<lparr>pinned := False\<rparr>)) (unpin api g (vec_ptr (pv_x v)))
                                  else Some (g, v));
                       x \<leftarrow> vec_reserve al (pv_x v1) size';
                       Some (g1, v1\<lparr>pv_x := x\<rparr>) }
             else Some (g, v));
          let v2 = set_pinnable v1;
          if \<not> pinned v2
          then map_option (\<lambda>g2. (g2, v2\<lparr>pinned := True\<rparr>)) (pin api T g1 (pv_x v2))
          else Some (g1, v2) }"

definition prepare_realloc ::
  "'g cuda_api option \<Rightarrow> 'g \<Rightarrow> 'a pinned_vec \<Rightarrow> nat \<Rightarrow> ('g \<times> 'a pinned_vec \<times> nat \<times> nat) option" where
  "prepare_realloc api g v new_size =
     (let old_ptr = vec_ptr (pv_x v); old_capacity = vec_cap (pv_x v)
      in if pinned v \<and> vec_cap (pv_x v) < new_size
         then map_option (\<lambda>g'. (g', v\<lparr>pinned := False\<rparr>, old_ptr, old_capacity)) (unpin api g old_ptr)
         else Some (g, v, old_ptr, old_capacity))"

definition check_ptr ::
  "'g cuda_api option \<Rightarrow> ty_info \<Rightarrow> 'g \<Rightarrow> 'a pinned_vec \<Rightarrow> nat \<Rightarrow> nat \<Rightarrow> ('g \<times> 'a pinned_vec) option" where
  "check_ptr api T g v old_ptr old_capacity =
     (if api \<noteq> None \<and> pinnable v \<and> (vec_ptr (pv_x v) \<noteq> old_ptr \<or> vec_cap (pv_x v) \<noteq> old_capacity)
      then do { g1 \<leftarrow> (if pinned v then unpin api g old_ptr else Some g);
                g2 \<leftarrow> pin api T g1 (pv_x v);
                Some (g2, v\<lparr>pinned := True\<rparr>) }
      else Some (g, v))"

definition pv_push ::
  "'g cuda_api option \<Rightarrow> ty_info \<Rightarrow> 'g \<Rightarrow> alloc \<Rightarrow> 'a pinned_vec \<Rightarrow> 'a \<Rightarrow> ('g \<times> 'a pinned_vec) option" where
  "pv_push api T g al v e =
     do { (g1, v1, old_ptr, old_capacity) \<leftarrow> prepare_realloc api g v (saturating_add (length (vec_items (pv_x v))) 1);
          x \<leftarrow> vec_extend al (pv_x v1) [e];
          check_ptr api T g1 (v1\<lparr>pv_x := x\<rparr>) old_ptr old_capacity }"

definition pv_resize ::
  "'g cuda_api option \<Rightarrow> ty_info \<Rightarrow> 'g \<Rightarrow> alloc \<Rightarrow> 'a pinned_vec \<Rightarrow> nat \<Rightarrow> 'a \<Rightarrow> ('g \<times> 'a pinned_vec) option" where
  "pv_resize api T g al v size' e =
     do { (g1, v1, old_ptr, old_capacity) \<leftarrow> prepare_realloc api g v size';
          x \<leftarrow> vec_resize al (pv_x v1) size' e;
          check_ptr api T g1 (v1\<lparr>pv_x := x\<rparr>) old_ptr old_capacity }"

definition pv_append ::
  "'g cuda_api option \<Rightarrow> ty_info \<Rightarrow> 'g \<Rightarrow> alloc \<Rightarrow> 'a pinned_vec \<Rightarrow> 'a list \<Rightarrow> ('g \<times> 'a pinned_vec) option" where
  "pv_append api T g al v other =
     do { (g1, v1, old_ptr, old_capacity) \<leftarrow>
            prepare_realloc api g v (saturating_add (length (vec_items (pv_x v))) (length other));
          x \<leftarrow> vec_extend al (pv_x v1) other;
          check_ptr api T g1 (v1\<lparr>pv_x := x\<rparr>) old_ptr old_capacity }"

text \<open>\<open>append\<close> leaves the other vector empty, with its allocation.\<close>

definition pv_append_pinned ::
  "'g cuda_api option \<Rightarrow> ty_info \<Rightarrow> 'g \<Rightarrow> alloc \<Rightarrow> 'a pinned_vec \<Rightarrow> 'a pinned_vec
   \<Rightarrow> ('g \<times> 'a pinned_vec \<times> 'a pinned_vec) option" where
  "pv_append_pinned api T g al v other =
     map_option (\<lambda>(g', v'). (g', v', other\<lparr>pv_x := (pv_x other)\<lparr>vec_items := []\<rparr>\<rparr>))
       (pv_append api T g al v (vec_items (pv_x other)))"

definition pv_shuffle :: "('a list \<Rightarrow> 'a list) \<Rightarrow> 'a pinned_vec \<Rightarrow> 'a pinned_vec" where
  "pv_shuffle permute v = v\<lparr>pv_x := (pv_x v)\<lparr>vec_items := permute (vec_items (pv_x v))\<rparr>\<rparr>"

definition pv_clone ::
  "'g cuda_api option \<Rightarrow> ty_info \<Rightarrow> 'g \<Rightarrow> alloc \<Rightarrow> 'a pinned_vec \<Rightarrow> ('g \<times> 'a pinned_vec) option" where
  "pv_clone api T g al v =
     do { x \<leftarrow> vec_clone T al (pv_x v);
          g' \<leftarrow> (if pinned v then pin api T g x else Some g);
          Some (g', \<lparr>pv_x = x, pinned = pinned v, pinnable = pinnable v, pv_recycler = pv_recycler v\<rparr>) }"

definition pv_reset ::
  "'g cuda_api option \<Rightarrow> ty_info \<Rightarrow> 'g \<Rightarrow> 'a \<Rightarrow> 'a pinned_vec \<Rightarrow> ('g \<times> 'a pinned_vec) option" where
  "pv_reset api T g default_elem v = pv_resize api T g None v 0 default_elem"

definition pv_warm ::
  "'g cuda_api option \<Rightarrow> ty_info \<Rightarrow> 'g \<Rightarrow> alloc \<Rightarrow> 'a \<Rightarrow> 'a pinned_vec \<Rightarrow> nat \<Rightarrow> ('g \<times> 'a pinned_vec) option" where
  "pv_warm api T g al default_elem v size_hint = pv_resize api T g al (set_pinnable v) size_hint default_elem"

text \<open>\<open>Drop\<close> of a vector without a live recycler; with one it is recycled instead.\<close>

definition pv_free :: "'g cuda_api option \<Rightarrow> 'g \<Rightarrow> 'a pinned_vec \<Rightarrow> 'g option" where
  "pv_free api g v = (if pinned v then unpin api g (vec_ptr (pv_x v)) else Some g)"


subsection \<open>What the driver promises\<close>

text \<open>\<open>R g\<close> are the addresses registered in driver state \<open>g\<close>: registering a nonempty block that is not
  registered succeeds, and so does unregistering a registered one.\<close>

definition cuda_laws :: "'g cuda_api \<Rightarrow> ('g \<Rightarrow> nat set) \<Rightarrow> bool" where
  "cuda_laws A R \<longleftrightarrow>
     (\<forall>g p n. p \<notin> R g \<and> 0 < n \<longrightarrow> (\<exists>g'. cuda_host_register A g p n = (CUDA_SUCCESS, g') \<and> R g' = insert p (R g)))
   \<and> (\<forall>g p. p \<in> R g \<longrightarrow> (\<exists>g'. cuda_host_unregister A g p = (CUDA_SUCCESS, g') \<and> R g' = R g - {p}))"

text \<open>The driver's view of an optional library: without one, nothing is ever registered.\<close>

definition api_laws :: "'g cuda_api option \<Rightarrow> ('g \<Rightarrow> nat set) \<Rightarrow> bool" where
  "api_laws api R \<longleftrightarrow> (case api of None \<Rightarrow> True | Some A \<Rightarrow> cuda_laws A R)"

lemma pin_ok:
  assumes "api_laws api R" "0 < size_of_ty T" "api \<noteq> None \<Longrightarrow> 0 < vec_cap x" "api \<noteq> None \<Longrightarrow> vec_ptr x \<notin> R g"
  obtains g' where "pin api T g x = Some g'" "api \<noteq> None \<longrightarrow> R g' = insert (vec_ptr x) (R g)"
proof (cases api)
  case (Some A)
  have "0 < saturating_mul (vec_cap x) (size_of_ty T)" using assms(2,3) Some by (simp add: saturating_mul_def usize_max_def)
  with assms(1,4) Some obtain g' where "cuda_host_register A g (vec_ptr x) (saturating_mul (vec_cap x) (size_of_ty T)) = (CUDA_SUCCESS, g')"
    "R g' = insert (vec_ptr x) (R g)" unfolding api_laws_def cuda_laws_def by (simp, blast)
  with Some show ?thesis by (intro that[of g']) (simp_all add: pin_def)
qed (use that in \<open>simp add: pin_def\<close>)

lemma unpin_ok:
  assumes "api_laws api R" "api \<noteq> None \<Longrightarrow> p \<in> R g"
  obtains g' where "unpin api g p = Some g'" "api \<noteq> None \<longrightarrow> R g' = R g - {p}"
proof (cases api)
  case (Some A)
  with assms obtain g' where "cuda_host_unregister A g p = (CUDA_SUCCESS, g')" "R g' = R g - {p}"
    unfolding api_laws_def cuda_laws_def by (simp, blast)
  with Some show ?thesis by (intro that[of g']) (simp_all add: unpin_def)
qed (use that in \<open>simp add: unpin_def\<close>)

subsection \<open>The invariant\<close>

text \<open>
  Of all vectors of a program: two vectors with memory have different addresses; and, when there is a
  driver, a pinned vector has memory and may be pinned again when it moves, and what is registered is
  exactly the memory of the pinned vectors, so no freed memory is.
\<close>

definition owns :: "'a pinned_vec \<Rightarrow> bool" where
  "owns v \<longleftrightarrow> 0 < vec_cap (pv_x v)"

definition pv_ptr :: "'a pinned_vec \<Rightarrow> nat" where
  "pv_ptr v = vec_ptr (pv_x v)"

definition pv_wf :: "'g cuda_api option \<Rightarrow> 'a pinned_vec \<Rightarrow> bool" where
  "pv_wf api v \<longleftrightarrow> length (vec_items (pv_x v)) \<le> vec_cap (pv_x v) \<and> (api \<noteq> None \<and> pinned v \<longrightarrow> pinnable v \<and> owns v)"

definition pin_inv :: "'g cuda_api option \<Rightarrow> ('g \<Rightarrow> nat set) \<Rightarrow> 'g \<Rightarrow> 'a pinned_vec list \<Rightarrow> bool" where
  "pin_inv api R g vs \<longleftrightarrow>
     distinct (map pv_ptr (filter owns vs)) \<and> (\<forall>v \<in> set vs. pv_wf api v)
   \<and> (api \<noteq> None \<longrightarrow> R g = pv_ptr ` {v \<in> set vs. pinned v})"

lemma pin_inv_perm:
  assumes "mset vs = mset ws"
  shows "pin_inv api R g vs \<longleftrightarrow> pin_inv api R g ws"
proof -
  have "mset (map pv_ptr (filter owns vs)) = mset (map pv_ptr (filter owns ws))" by (simp only: mset_map mset_filter assms)
  then have "distinct (map pv_ptr (filter owns vs)) \<longleftrightarrow> distinct (map pv_ptr (filter owns ws))" by (rule mset_eq_imp_distinct_iff)
  with mset_eq_setD[OF assms] show ?thesis by (simp add: pin_inv_def)
qed

definition others_free :: "'a pinned_vec list \<Rightarrow> nat \<Rightarrow> bool" where
  "others_free vs p \<longleftrightarrow> p \<notin> pv_ptr ` {v \<in> set vs. owns v}"

lemma pin_inv_Cons:
  "pin_inv api R g (v # vs) \<longleftrightarrow>
     pv_wf api v \<and> (owns v \<longrightarrow> others_free vs (pv_ptr v)) \<and> distinct (map pv_ptr (filter owns vs)) \<and> (\<forall>v \<in> set vs. pv_wf api v)
   \<and> (api \<noteq> None \<longrightarrow> R g = (if pinned v then {pv_ptr v} else {}) \<union> pv_ptr ` {v \<in> set vs. pinned v})"
  by (auto simp: pin_inv_def others_free_def)

lemma pinned_others: "api \<noteq> None \<Longrightarrow> \<forall>v \<in> set vs. pv_wf api v \<Longrightarrow> others_free vs p \<Longrightarrow> p \<notin> pv_ptr ` {v \<in> set vs. pinned v}"
  by (auto simp: others_free_def pv_wf_def)

text \<open>Unpinning a vector, and pinning one at an address no other vector has.\<close>

lemma pinned_update [simp]:
  "owns (v\<lparr>pinned := b\<rparr>) = owns v" "pv_ptr (v\<lparr>pinned := b\<rparr>) = pv_ptr v"
  "pv_wf api (v\<lparr>pinned := False\<rparr>) = (length (vec_items (pv_x v)) \<le> vec_cap (pv_x v))"
  "pv_wf api (v\<lparr>pinned := True\<rparr>) = (length (vec_items (pv_x v)) \<le> vec_cap (pv_x v) \<and> (api \<noteq> None \<longrightarrow> pinnable v \<and> owns v))"
  by (simp_all add: owns_def pv_ptr_def pv_wf_def)

lemma inv_unpin:
  assumes "api_laws api R" "pin_inv api R g (v # vs)" "pinned v"
  obtains g' where "unpin api g (pv_ptr v) = Some g'" "pin_inv api R g' (v\<lparr>pinned := False\<rparr> # vs)"
proof -
  let ?P = "pv_ptr ` {v \<in> set vs. pinned v}"
  note i = assms(2)[unfolded pin_inv_Cons]
  have len: "length (vec_items (pv_x v)) \<le> vec_cap (pv_x v)" and w: "\<forall>v \<in> set vs. pv_wf api v" using i by (simp_all add: pv_wf_def)
  have o: "others_free vs (pv_ptr v)" if "api \<noteq> None" using i assms(3) that by (simp add: pv_wf_def)
  have r: "api \<noteq> None \<Longrightarrow> R g = insert (pv_ptr v) ?P" using i assms(3) by simp
  obtain g' where g': "unpin api g (pv_ptr v) = Some g'" "api \<noteq> None \<longrightarrow> R g' = R g - {pv_ptr v}"
    by (rule unpin_ok[OF assms(1), of "pv_ptr v" g]) (use r in auto)
  have "R g' = ?P" if "api \<noteq> None" using g'(2) r that pinned_others[OF that w o[OF that]] by simp
  then have "pin_inv api R g' (v\<lparr>pinned := False\<rparr> # vs)" unfolding pin_inv_Cons using i len by simp
  with g'(1) show ?thesis by (rule that)
qed

lemma inv_pin:
  assumes "api_laws api R" "0 < size_of_ty T" "pin_inv api R g (v # vs)" "\<not> pinned v" "api \<noteq> None \<Longrightarrow> owns v" "api \<noteq> None \<Longrightarrow> pinnable v"
  obtains g' where "pin api T g (pv_x v) = Some g'" "pin_inv api R g' (v\<lparr>pinned := True\<rparr> # vs)"
proof -
  let ?P = "pv_ptr ` {v \<in> set vs. pinned v}"
  note i = assms(3)[unfolded pin_inv_Cons]
  have len: "length (vec_items (pv_x v)) \<le> vec_cap (pv_x v)" using i by (simp add: pv_wf_def)
  have w: "\<forall>v \<in> set vs. pv_wf api v" using i by simp
  have o: "others_free vs (pv_ptr v)" if "api \<noteq> None" using i assms(5)[OF that] by simp
  have r: "api \<noteq> None \<Longrightarrow> R g = ?P" using i assms(4) by simp
  have f: "vec_ptr (pv_x v) \<notin> R g" if "api \<noteq> None" using r[OF that] pinned_others[OF that w o[OF that]] by (simp add: pv_ptr_def)
  have c: "0 < vec_cap (pv_x v)" if "api \<noteq> None" using assms(5)[OF that] by (simp add: owns_def)
  obtain g' where g': "pin api T g (pv_x v) = Some g'" "api \<noteq> None \<longrightarrow> R g' = insert (vec_ptr (pv_x v)) (R g)"
    by (rule pin_ok[OF assms(1,2) c f])
  have "R g' = insert (pv_ptr v) ?P" if "api \<noteq> None" using g'(2) r that by (simp add: pv_ptr_def)
  then have "pin_inv api R g' (v\<lparr>pinned := True\<rparr> # vs)" unfolding pin_inv_Cons using i len assms(5,6) by simp
  with g'(1) show ?thesis by (rule that)
qed

text \<open>Moving the memory of an unpinned vector.\<close>

lemma inv_move:
  assumes "pin_inv api R g (v # vs)" "\<not> pinned v" "length (vec_items x) \<le> vec_cap x" "0 < vec_cap x \<Longrightarrow> others_free vs (vec_ptr x)"
  shows "pin_inv api R g (v\<lparr>pv_x := x\<rparr> # vs)"
  using assms by (auto simp: pin_inv_Cons pv_wf_def owns_def pv_ptr_def)

lemma inv_items:
  assumes "pin_inv api R g (v # vs)" "vec_ptr x = vec_ptr (pv_x v)" "vec_cap x = vec_cap (pv_x v)" "length (vec_items x) \<le> vec_cap x"
  shows "pin_inv api R g (v\<lparr>pv_x := x\<rparr> # vs)"
  using assms by (auto simp: pin_inv_Cons pv_wf_def owns_def pv_ptr_def)

subsection \<open>Growing\<close>

text \<open>An answer of the allocator for a block of at least \<open>n\<close> elements: no other vector has it.\<close>

definition alloc_ok :: "'a pinned_vec list \<Rightarrow> nat \<Rightarrow> alloc \<Rightarrow> bool" where
  "alloc_ok vs n al \<longleftrightarrow> (case al of None \<Rightarrow> False | Some (p, c) \<Rightarrow> n \<le> c \<and> others_free vs p)"

definition grown :: "'a pinned_vec list \<Rightarrow> 'a vec \<Rightarrow> nat \<Rightarrow> 'a vec \<Rightarrow> bool" where
  "grown vs x n x' \<longleftrightarrow> length (vec_items x') \<le> vec_cap x'
     \<and> (if n \<le> vec_cap x then vec_ptr x' = vec_ptr x \<and> vec_cap x' = vec_cap x
        else 0 < vec_cap x' \<and> others_free vs (vec_ptr x'))"

lemma vec_extend_grown:
  assumes "alloc_ok vs n al" "length (vec_items x) \<le> vec_cap x" "n = length (vec_items x) + length ys"
  obtains x' where "vec_extend al x ys = Some x'" "grown vs x n x'" "vec_items x' = vec_items x @ ys"
proof (cases "n \<le> vec_cap x")
  case True
  with assms show ?thesis
    by (intro that[of "x\<lparr>vec_items := vec_items x @ ys\<rparr>"]) (auto simp: vec_extend_def vec_reserve_def grown_def)
next
  case False
  from assms(1) obtain p c where al: "al = Some (p, c)" "n \<le> c" "others_free vs p"
    by (auto simp: alloc_ok_def split: option.splits)
  with False assms show ?thesis
    by (intro that[of "x\<lparr>vec_ptr := p, vec_cap := c, vec_items := vec_items x @ ys\<rparr>"])
       (auto simp: vec_extend_def vec_reserve_def grown_def)
qed

lemma vec_resize_grown:
  assumes "length (vec_items x) < n \<Longrightarrow> alloc_ok vs n al" "length (vec_items x) \<le> vec_cap x"
  obtains x' where "vec_resize al x n e = Some x'" "grown vs x n x'" "length (vec_items x') = n"
proof (cases "length (vec_items x) < n")
  case True
  have n: "n = length (vec_items x) + length (replicate (n - length (vec_items x)) e)" using True by simp
  obtain x' where "vec_extend al x (replicate (n - length (vec_items x)) e) = Some x'" "grown vs x n x'"
    "vec_items x' = vec_items x @ replicate (n - length (vec_items x)) e"
    by (rule vec_extend_grown[OF assms(1)[OF True] assms(2) n])
  with True show ?thesis by (intro that[of x']) (auto simp: vec_resize_def)
next
  case False
  with assms(2) show ?thesis
    by (intro that[of "x\<lparr>vec_items := take n (vec_items x)\<rparr>"]) (auto simp: vec_resize_def grown_def)
qed

lemma update_simps [simp]:
  "owns (v\<lparr>pv_x := x\<rparr>) \<longleftrightarrow> 0 < vec_cap x" "pv_ptr (v\<lparr>pv_x := x\<rparr>) = vec_ptr x"
  by (simp_all add: owns_def pv_ptr_def)

lemma realloc_ok:
  assumes laws: "api_laws api R" "0 < size_of_ty T" and inv: "pin_inv api R g (v # vs)" and x: "grown vs (pv_x v) n x"
  obtains g1 v1 g2 v2 where "prepare_realloc api g v n = Some (g1, v1, vec_ptr (pv_x v), vec_cap (pv_x v))" "pv_x v1 = pv_x v"
    "check_ptr api T g1 (v1\<lparr>pv_x := x\<rparr>) (vec_ptr (pv_x v)) (vec_cap (pv_x v)) = Some (g2, v2)"
    "pin_inv api R g2 (v2 # vs)" "pv_x v2 = x" "pv_recycler v2 = pv_recycler v"
proof (cases "n \<le> vec_cap (pv_x v)")
  case True
  with x have x': "vec_ptr x = vec_ptr (pv_x v)" "vec_cap x = vec_cap (pv_x v)" "length (vec_items x) \<le> vec_cap x"
    by (simp_all add: grown_def)
  have "prepare_realloc api g v n = Some (g, v, vec_ptr (pv_x v), vec_cap (pv_x v))" using True by (simp add: prepare_realloc_def)
  moreover have "check_ptr api T g (v\<lparr>pv_x := x\<rparr>) (vec_ptr (pv_x v)) (vec_cap (pv_x v)) = Some (g, v\<lparr>pv_x := x\<rparr>)"
    using x' by (simp add: check_ptr_def)
  moreover have "pin_inv api R g (v\<lparr>pv_x := x\<rparr> # vs)" by (rule inv_items[OF inv x'])
  ultimately show ?thesis by (intro that[of g v g "v\<lparr>pv_x := x\<rparr>"]) simp_all
next
  case False
  with x have x': "0 < vec_cap x" "others_free vs (vec_ptr x)" "length (vec_items x) \<le> vec_cap x" by (simp_all add: grown_def)
  let ?v1 = "v\<lparr>pinned := False\<rparr>" let ?w = "?v1\<lparr>pv_x := x\<rparr>"
  obtain g1 where p: "prepare_realloc api g v n = Some (g1, ?v1, vec_ptr (pv_x v), vec_cap (pv_x v))"
    and i1: "pin_inv api R g1 (?v1 # vs)"
  proof (cases "pinned v")
    case True
    obtain g1 where "unpin api g (pv_ptr v) = Some g1" "pin_inv api R g1 (?v1 # vs)" by (rule inv_unpin[OF laws(1) inv True])
    with True \<open>\<not> n \<le> vec_cap (pv_x v)\<close> show ?thesis by (intro that[of g1]) (simp_all add: prepare_realloc_def pv_ptr_def)
  next
    case False
    then have v: "?v1 = v" by simp
    have "pin_inv api R g (?v1 # vs)" unfolding v by (rule inv)
    with False show ?thesis by (intro that[of g]) (simp_all add: prepare_realloc_def)
  qed
  have i2: "pin_inv api R g1 (?w # vs)" using inv_move[OF i1 _ x'(3) x'(2)] by simp
  show ?thesis
  proof (cases "api \<noteq> None \<and> pinnable v \<and> (vec_ptr x \<noteq> vec_ptr (pv_x v) \<or> vec_cap x \<noteq> vec_cap (pv_x v))")
    case True
    obtain g2 where g2: "pin api T g1 (pv_x ?w) = Some g2" "pin_inv api R g2 (?w\<lparr>pinned := True\<rparr> # vs)"
      by (rule inv_pin[OF laws i2]) (use x'(1) True in simp_all)
    with True have "check_ptr api T g1 ?w (vec_ptr (pv_x v)) (vec_cap (pv_x v)) = Some (g2, ?w\<lparr>pinned := True\<rparr>)"
      by (simp add: check_ptr_def)
    with p g2 show ?thesis by (intro that[of g1 ?v1 g2 "?w\<lparr>pinned := True\<rparr>"]) simp_all
  next
    case False
    then have "check_ptr api T g1 ?w (vec_ptr (pv_x v)) (vec_cap (pv_x v)) = Some (g1, ?w)" by (auto simp: check_ptr_def)
    with p i2 show ?thesis by (intro that[of g1 ?v1 g1 ?w]) simp_all
  qed
qed

subsection \<open>The operations keep the invariant\<close>

lemma inv_len: "pin_inv api R g (v # vs) \<Longrightarrow> length (vec_items (pv_x v)) \<le> vec_cap (pv_x v)"
  by (simp add: pin_inv_Cons pv_wf_def)

lemma pv_append_ok:
  assumes laws: "api_laws api R" "0 < size_of_ty T" and inv: "pin_inv api R g (v # vs)"
    and al: "alloc_ok vs (length (vec_items (pv_x v)) + length ys) al" "length (vec_items (pv_x v)) + length ys \<le> usize_max"
  obtains g' v' where "pv_append api T g al v ys = Some (g', v')" "pin_inv api R g' (v' # vs)"
    "vec_items (pv_x v') = vec_items (pv_x v) @ ys" "pv_recycler v' = pv_recycler v"
proof -
  obtain x where x: "vec_extend al (pv_x v) ys = Some x" "grown vs (pv_x v) (length (vec_items (pv_x v)) + length ys) x"
    "vec_items x = vec_items (pv_x v) @ ys" by (rule vec_extend_grown[OF al(1) inv_len[OF inv] refl])
  obtain g1 v1 g2 v2 where s: "prepare_realloc api g v (length (vec_items (pv_x v)) + length ys) = Some (g1, v1, vec_ptr (pv_x v), vec_cap (pv_x v))"
    "pv_x v1 = pv_x v" "check_ptr api T g1 (v1\<lparr>pv_x := x\<rparr>) (vec_ptr (pv_x v)) (vec_cap (pv_x v)) = Some (g2, v2)"
    "pin_inv api R g2 (v2 # vs)" "pv_x v2 = x" "pv_recycler v2 = pv_recycler v"
    by (rule realloc_ok[OF laws inv x(2)])
  have "pv_append api T g al v ys = Some (g2, v2)" using s x al(2) by (simp add: pv_append_def saturating_add_def)
  with s x show ?thesis by (intro that[of g2 v2]) simp_all
qed

lemma pv_push_append: "pv_push api T g al v e = pv_append api T g al v [e]"
  by (simp add: pv_push_def pv_append_def)

lemma pv_resize_ok:
  assumes laws: "api_laws api R" "0 < size_of_ty T" and inv: "pin_inv api R g (v # vs)"
    and al: "length (vec_items (pv_x v)) < n \<Longrightarrow> alloc_ok vs n al"
  obtains g' v' where "pv_resize api T g al v n e = Some (g', v')" "pin_inv api R g' (v' # vs)"
    "length (vec_items (pv_x v')) = n" "pv_recycler v' = pv_recycler v" "vec_resize al (pv_x v) n e = Some (pv_x v')"
proof -
  obtain x where x: "vec_resize al (pv_x v) n e = Some x" "grown vs (pv_x v) n x" "length (vec_items x) = n"
    by (rule vec_resize_grown[OF al inv_len[OF inv]])
  obtain g1 v1 g2 v2 where s: "prepare_realloc api g v n = Some (g1, v1, vec_ptr (pv_x v), vec_cap (pv_x v))"
    "pv_x v1 = pv_x v" "check_ptr api T g1 (v1\<lparr>pv_x := x\<rparr>) (vec_ptr (pv_x v)) (vec_cap (pv_x v)) = Some (g2, v2)"
    "pin_inv api R g2 (v2 # vs)" "pv_x v2 = x" "pv_recycler v2 = pv_recycler v"
    by (rule realloc_ok[OF laws inv x(2)])
  have "pv_resize api T g al v n e = Some (g2, v2)" using s x by (simp add: pv_resize_def)
  with s x show ?thesis by (intro that[of g2 v2]) simp_all
qed

lemma inv_set_pinnable: "pin_inv api R g (v # vs) \<Longrightarrow> pin_inv api R g (set_pinnable v # vs)"
  by (simp add: pin_inv_Cons set_pinnable_def pv_wf_def owns_def pv_ptr_def)

lemma inv_set_recycler: "pin_inv api R g (v # vs) \<Longrightarrow> pin_inv api R g (set_recycler v r # vs)"
  by (simp add: pin_inv_Cons set_recycler_def pv_wf_def owns_def pv_ptr_def)

lemma inv_add:
  "pin_inv api R g vs \<Longrightarrow> \<not> pinned v \<Longrightarrow> length (vec_items (pv_x v)) \<le> vec_cap (pv_x v)
   \<Longrightarrow> owns v \<longrightarrow> others_free vs (pv_ptr v) \<Longrightarrow> pin_inv api R g (v # vs)"
  unfolding pin_inv_Cons pv_wf_def[of api v] by (simp add: pin_inv_def)

lemma inv_new: "pin_inv api R g vs \<Longrightarrow> pin_inv api R g (PinnedVec_default T # vs)"
  unfolding pin_inv_Cons by (simp add: PinnedVec_default_def vec_new_def pv_wf_def owns_def pin_inv_def)

lemma inv_unpinned_drop: "pin_inv api R g (v # vs) \<Longrightarrow> \<not> pinned v \<Longrightarrow> pin_inv api R g vs"
  unfolding pin_inv_Cons by (simp add: pin_inv_def)

lemma pv_free_ok:
  assumes "api_laws api R" "pin_inv api R g (v # vs)"
  obtains g' where "pv_free api g v = Some g'" "pin_inv api R g' vs"
proof (cases "pinned v")
  case True
  obtain g' where g': "unpin api g (pv_ptr v) = Some g'" "pin_inv api R g' (v\<lparr>pinned := False\<rparr> # vs)"
    by (rule inv_unpin[OF assms True])
  have "pin_inv api R g' vs" by (rule inv_unpinned_drop[OF g'(2)]) simp
  with g'(1) True show ?thesis by (intro that[of g']) (simp_all add: pv_free_def pv_ptr_def)
next
  case False
  with inv_unpinned_drop[OF assms(2)] show ?thesis by (intro that[of g]) (simp_all add: pv_free_def)
qed

lemma inv_unpin_if:
  assumes "api_laws api R" "pin_inv api R g (v # vs)"
  obtains g' where "(if pinned v then map_option (\<lambda>g1. (g1, v\<lparr>pinned := False\<rparr>)) (unpin api g (vec_ptr (pv_x v))) else Some (g, v))
      = Some (g', v\<lparr>pinned := False\<rparr>)" "pin_inv api R g' (v\<lparr>pinned := False\<rparr> # vs)"
proof (cases "pinned v")
  case True
  obtain g' where "unpin api g (pv_ptr v) = Some g'" "pin_inv api R g' (v\<lparr>pinned := False\<rparr> # vs)"
    by (rule inv_unpin[OF assms True])
  with True show ?thesis by (intro that[of g']) (simp_all add: pv_ptr_def)
next
  case False
  then have v: "v\<lparr>pinned := False\<rparr> = v" by simp
  have "pin_inv api R g (v\<lparr>pinned := False\<rparr> # vs)" unfolding v by (rule assms(2))
  with False show ?thesis by (intro that[of g]) simp_all
qed

lemma pin_if_needed_ok:
  assumes "api_laws api R" "0 < size_of_ty T" "pin_inv api R g (v # vs)" "api \<noteq> None \<Longrightarrow> owns v" "pinnable v"
  obtains g' where "(if \<not> pinned v then map_option (\<lambda>g2. (g2, v\<lparr>pinned := True\<rparr>)) (pin api T g (pv_x v)) else Some (g, v))
      = Some (g', v\<lparr>pinned := True\<rparr>)" "pin_inv api R g' (v\<lparr>pinned := True\<rparr> # vs)"
proof (cases "pinned v")
  case True
  then have v: "v\<lparr>pinned := True\<rparr> = v" by simp
  have "pin_inv api R g (v\<lparr>pinned := True\<rparr> # vs)" unfolding v by (rule assms(3))
  with True show ?thesis by (intro that[of g]) simp_all
next
  case False
  obtain g' where "pin api T g (pv_x v) = Some g'" "pin_inv api R g' (v\<lparr>pinned := True\<rparr> # vs)"
    by (rule inv_pin[OF assms(1-3) False assms(4) assms(5)])
  with False show ?thesis by (intro that[of g']) simp_all
qed

lemma reserve_and_pin_ok:
  assumes laws: "api_laws api R" "0 < size_of_ty T" and inv: "pin_inv api R g (v # vs)"
    and al: "vec_cap (pv_x v) < n \<Longrightarrow> alloc_ok vs (length (vec_items (pv_x v)) + n) al" and ne: "api \<noteq> None \<Longrightarrow> 0 < n \<or> owns v"
  obtains g' v' where "reserve_and_pin api T g al v n = Some (g', v')" "pin_inv api R g' (v' # vs)"
    "vec_items (pv_x v') = vec_items (pv_x v)" "pinned v'" "n \<le> vec_cap (pv_x v')" "pv_recycler v' = pv_recycler v"
proof -
  obtain g1 v1 where s: "(if vec_cap (pv_x v) < n
       then do { (g1, v1) \<leftarrow> (if pinned v then map_option (\<lambda>g1. (g1, v\<lparr>pinned := False\<rparr>)) (unpin api g (vec_ptr (pv_x v))) else Some (g, v));
                 x \<leftarrow> vec_reserve al (pv_x v1) n; Some (g1, v1\<lparr>pv_x := x\<rparr>) }
       else Some (g, v)) = Some (g1, v1)" and i: "pin_inv api R g1 (v1 # vs)"
    and f: "vec_items (pv_x v1) = vec_items (pv_x v)" "n \<le> vec_cap (pv_x v1)" "api \<noteq> None \<Longrightarrow> owns v1" "pv_recycler v1 = pv_recycler v"
  proof (cases "vec_cap (pv_x v) < n")
    case True
    let ?u = "v\<lparr>pinned := False\<rparr>"
    obtain g1 where g1: "(if pinned v then map_option (\<lambda>g1. (g1, ?u)) (unpin api g (vec_ptr (pv_x v))) else Some (g, v)) = Some (g1, ?u)"
      "pin_inv api R g1 (?u # vs)" by (rule inv_unpin_if[OF laws(1) inv])
    obtain p c where al': "al = Some (p, c)" "length (vec_items (pv_x v)) + n \<le> c" "others_free vs p"
      using al[OF True] by (auto simp: alloc_ok_def split: option.splits)
    let ?x = "(pv_x v)\<lparr>vec_ptr := p, vec_cap := c\<rparr>"
    have "pin_inv api R g1 (?u\<lparr>pv_x := ?x\<rparr> # vs)" by (rule inv_move[OF g1(2)]) (use al' in simp_all)
    moreover have "vec_reserve al (pv_x ?u) n = Some ?x" using True al'(1) by (simp add: vec_reserve_def)
    ultimately show ?thesis using True al' g1(1) by (intro that[of g1 "?u\<lparr>pv_x := ?x\<rparr>"]) simp_all
  next
    case False
    with inv ne show ?thesis by (intro that[of g v]) (auto simp: owns_def)
  qed
  have o: "api \<noteq> None \<Longrightarrow> owns (set_pinnable v1)" "pinnable (set_pinnable v1)" using f(3) by (simp_all add: set_pinnable_def owns_def)
  obtain g2 where g2: "(if \<not> pinned (set_pinnable v1) then map_option (\<lambda>g2. (g2, (set_pinnable v1)\<lparr>pinned := True\<rparr>)) (pin api T g1 (pv_x (set_pinnable v1)))
      else Some (g1, set_pinnable v1)) = Some (g2, (set_pinnable v1)\<lparr>pinned := True\<rparr>)" "pin_inv api R g2 ((set_pinnable v1)\<lparr>pinned := True\<rparr> # vs)"
    by (rule pin_if_needed_ok[OF laws inv_set_pinnable[OF i] o])
  have "reserve_and_pin api T g al v n = Some (g2, (set_pinnable v1)\<lparr>pinned := True\<rparr>)"
    unfolding reserve_and_pin_def s by (simp add: g2(1))
  with g2(2) f show ?thesis by (intro that[of g2 "(set_pinnable v1)\<lparr>pinned := True\<rparr>"]) (simp_all add: set_pinnable_def)
qed

lemma pv_clone_ok:
  assumes laws: "api_laws api R" "0 < size_of_ty T" and inv: "pin_inv api R g (v # vs)"
    and al: "vec_items (pv_x v) \<noteq> [] \<Longrightarrow> alloc_ok (v # vs) (length (vec_items (pv_x v))) al"
    and ne: "api \<noteq> None \<Longrightarrow> pinned v \<Longrightarrow> vec_items (pv_x v) \<noteq> []"
  obtains g' v' where "pv_clone api T g al v = Some (g', v')" "pin_inv api R g' (v' # v # vs)"
    "vec_items (pv_x v') = vec_items (pv_x v)"
proof -
  obtain x where x: "vec_clone T al (pv_x v) = Some x" "length (vec_items x) \<le> vec_cap x" "vec_items x = vec_items (pv_x v)"
    "0 < vec_cap x \<longrightarrow> others_free (v # vs) (vec_ptr x)" "vec_items x \<noteq> [] \<longrightarrow> 0 < vec_cap x"
  proof (cases "vec_items (pv_x v) = []")
    case False
    with al obtain p c where "al = Some (p, c)" "length (vec_items (pv_x v)) \<le> c" "others_free (v # vs) p"
      by (auto simp: alloc_ok_def split: option.splits)
    moreover from this(2) False have "0 < c" by (cases "vec_items (pv_x v)") simp_all
    ultimately show ?thesis using False
      by (intro that[of "\<lparr>vec_items = vec_items (pv_x v), vec_ptr = p, vec_cap = c\<rparr>"]) (simp_all add: vec_clone_def)
  qed (intro that[of "vec_new T"], simp_all add: vec_clone_def vec_new_def)
  let ?w = "\<lparr>pv_x = x, pinned = False, pinnable = pinnable v, pv_recycler = pv_recycler v\<rparr>"
  have i: "pin_inv api R g (?w # v # vs)"
    by (rule inv_add[OF inv]) (use x(2,4) in \<open>simp_all add: owns_def pv_ptr_def\<close>)
  show ?thesis
  proof (cases "pinned v")
    case True
    have w: "pinnable v" "owns ?w" if "api \<noteq> None"
      using inv True ne[OF that True] x(3,5) that by (simp_all add: pin_inv_Cons pv_wf_def owns_def)
    obtain g' where g': "pin api T g (pv_x ?w) = Some g'" "pin_inv api R g' (?w\<lparr>pinned := True\<rparr> # v # vs)"
      by (rule inv_pin[OF laws i]) (use w in simp_all)
    with True x show ?thesis by (intro that[of g' "?w\<lparr>pinned := True\<rparr>"]) (simp_all add: pv_clone_def)
  next
    case False
    with i x show ?thesis by (intro that[of g ?w]) (simp_all add: pv_clone_def)
  qed
qed
end
