(* ===== verification/Recycler.thy ===== *)
theory Recycler
  imports Pinned_Vec
begin

section \<open>Recycling pinned vectors (\<open>perf/src/recycler.rs\<close>)\<close>

text \<open>
  A recycler keeps dropped vectors, with their pinned memory, for the next allocation.  Its lock makes
  each operation atomic.  The statistics are wrapping \<open>usize\<close> counters.  The last section is the
  system of all vectors a program holds, a recycler, warmed or not, and the driver, under any sequence
  of operations.
\<close>

subsection \<open>The recycler\<close>

definition RECYCLER_SHRINK_SIZE :: nat where
  "RECYCLER_SHRINK_SIZE = 1024"

definition RECYCLER_SHRINK_WINDOW :: nat where
  "RECYCLER_SHRINK_WINDOW = 16384"

definition wrapping_add :: "nat \<Rightarrow> nat \<Rightarrow> nat" where
  "wrapping_add a b = (a + b) mod (usize_max + 1)"

record recycler_stats =
  total :: nat
  reuse :: nat
  freed :: nat
  max_gc :: nat

record 'a recyclerx =
  gc :: "'a pinned_vec list"
  stats :: recycler_stats
  size_factor :: nat


definition next_size_factor :: "nat \<Rightarrow> nat \<Rightarrow> nat" where
  "next_size_factor b len =
     saturating_add
       (saturating_add (saturating_mul b (RECYCLER_SHRINK_WINDOW - 1)) (RECYCLER_SHRINK_WINDOW div 2) div RECYCLER_SHRINK_WINDOW)
       len"


fun free_all :: "'g cuda_api option \<Rightarrow> 'g \<Rightarrow> 'a pinned_vec list \<Rightarrow> 'g option" where
  "free_all api g [] = Some g"
| "free_all api g (v # vs) = do { g' \<leftarrow> pv_free api g (set_recycler v None); free_all api g' vs }"

definition SIZE_FACTOR_AFTER_SHRINK :: nat where
  "SIZE_FACTOR_AFTER_SHRINK = RECYCLER_SHRINK_SIZE * RECYCLER_SHRINK_WINDOW"

definition recycle ::
  "'g cuda_api option \<Rightarrow> 'g \<Rightarrow> 'a recyclerx \<Rightarrow> 'a pinned_vec \<Rightarrow> ('g \<times> 'a recyclerx) option" where
  "recycle api g r x =
     (let gc1 = gc r @ [x]
      in do { (g1, r1) \<leftarrow>
                (if length gc1 > RECYCLER_SHRINK_SIZE \<and> size_factor r \<ge> SIZE_FACTOR_AFTER_SHRINK
                 then do { g' \<leftarrow> free_all api g (drop RECYCLER_SHRINK_SIZE gc1);
                           Some (g', r\<lparr>gc := take RECYCLER_SHRINK_SIZE gc1,
                             stats := (stats r)\<lparr>freed := wrapping_add (freed (stats r)) (saturating_sub (length gc1) RECYCLER_SHRINK_SIZE)\<rparr>,
                             size_factor := SIZE_FACTOR_AFTER_SHRINK\<rparr>) }
                 else Some (g, r\<lparr>gc := gc1\<rparr>));
              let len = length (gc r1);
              Some (g1, if len > max_gc (stats r1) then r1\<lparr>stats := (stats r1)\<lparr>max_gc := len\<rparr>\<rparr> else r1) })"






subsection \<open>The system\<close>














subsection \<open>The operations keep the invariant\<close>







definition warmed_vec :: "ty_info \<Rightarrow> nat \<Rightarrow> 'a pinned_vec" where
  "warmed_vec T rid = set_pinnable (set_recycler (PinnedVec_default T) (Some rid))"

lemma warmed_vec_x [simp]: "pv_x (warmed_vec T rid) = vec_new T"
  by (simp add: warmed_vec_def set_pinnable_def set_recycler_def PinnedVec_default_def)



























subsection \<open>Properties\<close>















text \<open>The moving average: while the recycler holds more than its size, the factor grows to the threshold and stays there.\<close>

lemma next_size_factor_grows:
  assumes "RECYCLER_SHRINK_SIZE < len"
  shows "min (Suc b) SIZE_FACTOR_AFTER_SHRINK \<le> next_size_factor b len"
proof -
  define c where "c = min b 16777216"
  have "(c * 16383 + 8192) div 16384 \<le> saturating_add (saturating_mul b 16383) 8192 div 16384"
    by (rule div_le_mono) (auto simp: c_def saturating_add_def saturating_mul_def usize_max_def)
  moreover have "min (Suc b) 16777216 \<le> min ((c * 16383 + 8192) div 16384 + len) usize_max"
    using assms by (auto simp: c_def RECYCLER_SHRINK_SIZE_def usize_max_def)
  ultimately show ?thesis
    by (simp add: next_size_factor_def saturating_add_def SIZE_FACTOR_AFTER_SHRINK_def RECYCLER_SHRINK_SIZE_def RECYCLER_SHRINK_WINDOW_def)
qed

lemma size_factor_reaches:
  "\<forall>len \<in> set lens. RECYCLER_SHRINK_SIZE < len \<Longrightarrow> min (length lens + b) SIZE_FACTOR_AFTER_SHRINK \<le> foldl next_size_factor b lens"
proof (induction lens arbitrary: b)
  case (Cons len lens)
  have "min (length lens + next_size_factor b len) SIZE_FACTOR_AFTER_SHRINK \<le> foldl next_size_factor b (len # lens)"
    using Cons.IH[of "next_size_factor b len"] Cons.prems by simp
  moreover have "min (Suc b) SIZE_FACTOR_AFTER_SHRINK \<le> next_size_factor b len" using Cons.prems by (intro next_size_factor_grows) simp
  ultimately show ?case by simp
qed simp

text \<open>Redundant vectors are released.  If at sufficiently many allocations in a row the recycler held more
  than \<open>RECYCLER_SHRINK_SIZE\<close> vectors, then, whatever it started from, the next vector that is
  recycled shrinks it to that size.\<close>

theorem recycler_shrinks:
  assumes "\<forall>len \<in> set lens. RECYCLER_SHRINK_SIZE < len" "SIZE_FACTOR_AFTER_SHRINK \<le> length lens"
    and "size_factor r = foldl next_size_factor b lens" "recycle api g r x = Some (g', r')"
  shows "length (gc r') = min (length (gc r) + 1) RECYCLER_SHRINK_SIZE"
proof -
  have "SIZE_FACTOR_AFTER_SHRINK \<le> size_factor r" using size_factor_reaches[OF assms(1), of b] assms(2,3) by simp
  with assms(4) show ?thesis
    by (auto simp: recycle_def Let_def bind_eq_Some_conv split: if_splits prod.splits)
qed

lemma free_all_None: "free_all None g vs = Some g"
  by (induction vs) (simp_all add: pv_free_def unpin_def)

theorem recycler_shrinks_witness:
  "\<exists>g' r'. recycle None () \<lparr>gc = replicate 1500 (from_vec (vec_new \<lparr>size_of_ty = 8, align_of_ty = 8\<rparr>) :: nat pinned_vec),
       stats = \<lparr>total = 1500, reuse = 0, freed = 0, max_gc = 1500\<rparr>,
       size_factor = foldl next_size_factor 0 (replicate SIZE_FACTOR_AFTER_SHRINK 1500)\<rparr>
     (from_vec (vec_new \<lparr>size_of_ty = 8, align_of_ty = 8\<rparr>)) = Some (g', r') \<and> length (gc r') = 1024"
proof -
  let ?v = "from_vec (vec_new \<lparr>size_of_ty = 8, align_of_ty = 8\<rparr>) :: nat pinned_vec"
  define r where "r = \<lparr>gc = replicate 1500 ?v, stats = \<lparr>total = 1500, reuse = 0, freed = 0, max_gc = 1500\<rparr>,
       size_factor = foldl next_size_factor 0 (replicate SIZE_FACTOR_AFTER_SHRINK 1500)\<rparr>"
  obtain g' r' where e: "recycle None () r ?v = Some (g', r')"
    by (cases "recycle None () r ?v") (auto simp: recycle_def Let_def free_all_None split: if_splits)
  have "length (gc r') = min (length (gc r) + 1) RECYCLER_SHRINK_SIZE"
    by (rule recycler_shrinks[OF _ _ _ e, where lens = "replicate SIZE_FACTOR_AFTER_SHRINK 1500" and b = 0])
      (simp_all add: r_def RECYCLER_SHRINK_SIZE_def)
  also have "\<dots> = 1024" by (simp add: r_def RECYCLER_SHRINK_SIZE_def)
  finally show ?thesis using e unfolding r_def by blast
qed
end
