(* ===== verification/Unpack.thy ===== *)
theory Unpack
  imports Prelude "HOL-Library.Sublist" "HOL-Library.List_Lexorder" "HOL-Library.Char_ord"
begin

section \<open>Unpacking archives (\<open>accounts-db/src/hardened_unpack.rs\<close>, \<open>file_io.rs\<close>)\<close>

text \<open>
  Archives of untrusted origin are unpacked below given directories, within given limits.  The \<open>tar\<close>
  crate gives the list of entries (\<open>tar_entry\<close>, with an error where reading fails), the operating system
  is the record \<open>os_env\<close> over a file system of any type; nothing is assumed of either.  A path is
  the list of its components, as \<open>Path::components\<close> gives it.  The state keeps, beside what the code keeps, the
  list of all calls made to the operating system.  File creation is the one of \<open>SyncIoFileCreator\<close>;
  error texts are the reasons \<open>archive_reason\<close>.
\<close>

subsection \<open>Paths\<close>

datatype component = PathPrefix string | RootDir | CurDir | ParentDir | Normal string

type_synonym path = "component list"

text \<open>Components are ordered as declared, and by their text.\<close>

fun component_key :: "component \<Rightarrow> nat \<times> string" where
  "component_key (PathPrefix s) = (0, s)"
| "component_key RootDir = (1, [])"
| "component_key CurDir = (2, [])"
| "component_key ParentDir = (3, [])"
| "component_key (Normal s) = (4, s)"

lemma component_key_inj: "component_key a = component_key b \<longleftrightarrow> a = b"
  by (cases a; cases b) auto

instantiation component :: linorder
begin

definition less_eq_component :: "component \<Rightarrow> component \<Rightarrow> bool" where
  "less_eq_component a b \<longleftrightarrow> fst (component_key a) < fst (component_key b)
     \<or> fst (component_key a) = fst (component_key b) \<and> snd (component_key a) \<le> snd (component_key b)"

definition less_component :: "component \<Rightarrow> component \<Rightarrow> bool" where
  "less_component a b \<longleftrightarrow> a \<le> b \<and> \<not> b \<le> a"

instance
proof
  fix a b c :: component
  show "(a < b) = (a \<le> b \<and> \<not> b \<le> a)" by (rule less_component_def)
  show "a \<le> a" by (simp add: less_eq_component_def)
  show "a \<le> b \<Longrightarrow> b \<le> c \<Longrightarrow> a \<le> c" by (auto simp: less_eq_component_def)
  show "a \<le> b \<Longrightarrow> b \<le> a \<Longrightarrow> a = b"
    unfolding component_key_inj[symmetric] by (auto simp: less_eq_component_def prod_eq_iff)
  show "a \<le> b \<or> b \<le> a" by (auto simp: less_eq_component_def)
qed

end

datatype ordering = Less | Equal | Greater

definition path_cmp :: "path \<Rightarrow> path \<Rightarrow> ordering" where
  "path_cmp a b = (if a < b then Less else if a = b then Equal else Greater)"

definition path_parent :: "path \<Rightarrow> path option" where
  "path_parent p =
     (if p = [] then None
      else case last p of CurDir \<Rightarrow> Some (butlast p) | ParentDir \<Rightarrow> Some (butlast p) | Normal _ \<Rightarrow> Some (butlast p) | _ \<Rightarrow> None)"

definition path_push :: "path \<Rightarrow> string \<Rightarrow> path" where
  "path_push p s = p @ [Normal s]"

definition path_starts_with :: "path \<Rightarrow> path \<Rightarrow> bool" where
  "path_starts_with p base = prefix base p"

text \<open>\<open>PathBuf::from\<close> of a single component's text.\<close>

definition path_from :: "string \<Rightarrow> path" where
  "path_from s = (if s = ''.'' then [CurDir] else [Normal s])"

text \<open>\<open>binary_search_by\<close>: \<open>Inr\<close> is \<open>Ok\<close>, \<open>Inl\<close> is the place to insert at.\<close>

function binary_search_in :: "('a \<Rightarrow> ordering) \<Rightarrow> 'a list \<Rightarrow> nat \<Rightarrow> nat \<Rightarrow> nat + nat" where
  "binary_search_in f xs lo hi =
     (if lo < hi then
        let mid = (lo + hi) div 2
        in case f (xs ! mid) of
             Less \<Rightarrow> binary_search_in f xs (Suc mid) hi
           | Greater \<Rightarrow> binary_search_in f xs lo mid
           | Equal \<Rightarrow> Inr mid
      else Inl lo)"
  by pat_completeness auto
termination
  by (relation "measure (\<lambda>(f, xs, lo, hi). hi - lo)") auto

declare binary_search_in.simps [simp del]

definition binary_search_by :: "('a \<Rightarrow> ordering) \<Rightarrow> 'a list \<Rightarrow> nat + nat" where
  "binary_search_by f xs = binary_search_in f xs 0 (length xs)"

definition insert_at :: "'a list \<Rightarrow> nat \<Rightarrow> 'a \<Rightarrow> 'a list" where
  "insert_at xs i x = take i xs @ x # drop i xs"

subsection \<open>Archives, errors and the operating system\<close>

datatype entry_type =
  Regular | Link | Symlink | CharDev | BlockDev | Directory | Fifo | Continuous
  | GNULongName | GNULongLink | GNUSparse | XGlobalHeader | XHeader | OtherType u8

record 'io tar_entry =
  en_path :: "'io + path"
  en_path_ends_slash :: bool
  en_is_ustar :: bool
  en_type :: entry_type
  en_size :: "'io + u64"
  en_entry_size :: "'io + u64"
  en_contents :: bytes

datatype archive_reason =
  TooLarge | TooMany | InvalidPath | ExtraEntry | FailedToUnpack | Canonicalizing | OutsideDestination

datatype 'io unpack_error = Io 'io | Archive archive_reason

record ('fs, 'file, 'io) os_env =
  os_create_dir_all :: "'fs \<Rightarrow> path \<Rightarrow> ('io + unit) \<times> 'fs"
  os_canonicalize :: "'fs \<Rightarrow> path \<Rightarrow> 'io + path"
  os_open_dir :: "'fs \<Rightarrow> path \<Rightarrow> 'io + 'file"
  os_create_file :: "'fs \<Rightarrow> path \<Rightarrow> nat \<Rightarrow> bytes \<Rightarrow> ('io + unit) \<times> 'fs"
  os_tar_unpack :: "'fs \<Rightarrow> path \<Rightarrow> 'io tar_entry \<Rightarrow> ('io + unit) \<times> 'fs"
  os_set_permissions :: "'fs \<Rightarrow> path \<Rightarrow> nat \<Rightarrow> ('io + unit) \<times> 'fs"

datatype 'file os_call =
    CreateDirAll path
  | OpenDir path 'file
  | CreateFile path nat 'file bytes
  | TarUnpack path entry_type
  | SetPermissions path nat

datatype unpack_path = Valid path | Ignore | Invalid

record ('fs, 'file, 's) unpacking =
  un_fs :: 'fs
  open_dirs :: "(path \<times> 'file) list"
  calls :: "'file os_call list"
  completed :: "path list"
  checker_state :: 's
  apparent_total_size :: u64
  actual_total_size :: u64
  total_count :: u64

subsection \<open>Limits\<close>

definition MAX_SNAPSHOT_ARCHIVE_UNPACKED_APPARENT_SIZE :: u64 where
  "MAX_SNAPSHOT_ARCHIVE_UNPACKED_APPARENT_SIZE = 64 * 1024 * 1024 * 1024 * 1024"

definition MAX_SNAPSHOT_ARCHIVE_UNPACKED_ACTUAL_SIZE :: u64 where
  "MAX_SNAPSHOT_ARCHIVE_UNPACKED_ACTUAL_SIZE = 4 * 1024 * 1024 * 1024 * 1024"

definition MAX_SNAPSHOT_ARCHIVE_UNPACKED_COUNT :: u64 where
  "MAX_SNAPSHOT_ARCHIVE_UNPACKED_COUNT = 5000000"

definition MAX_GENESIS_ARCHIVE_UNPACKED_COUNT :: u64 where
  "MAX_GENESIS_ARCHIVE_UNPACKED_COUNT = 100"

definition MAX_UNPACK_WRITE_BUF_SIZE :: nat where
  "MAX_UNPACK_WRITE_BUF_SIZE = 512 * 1024 * 1024"

definition checked_total_size_sum :: "u64 \<Rightarrow> u64 \<Rightarrow> u64 \<Rightarrow> 'io unpack_error + u64" where
  "checked_total_size_sum total_size entry_size limit_size =
     (let total_size = u64_saturating_add total_size entry_size
      in if total_size > limit_size then Inl (Archive TooLarge) else Inr total_size)"

text \<open>The addition is unchecked: \<open>None\<close> on overflow.\<close>

definition checked_total_count_increment :: "u64 \<Rightarrow> u64 \<Rightarrow> ('io unpack_error + u64) option" where
  "checked_total_count_increment count limit_count =
     do { count' \<leftarrow> u64_add count 1;
          Some (if count' > limit_count then Inl (Archive TooMany) else Inr count') }"

definition check_unpack_result :: "'io unpack_error + unit \<Rightarrow> 'io unpack_error + unit" where
  "check_unpack_result r = (case r of Inl _ \<Rightarrow> Inl (Archive FailedToUnpack) | Inr _ \<Rightarrow> Inr ())"

subsection \<open>Sanitizing a path\<close>

text \<open>\<open>None\<close>: skip the entry.\<close>

fun push_parts :: "path \<Rightarrow> path \<Rightarrow> path option" where
  "push_parts dst [] = Some dst"
| "push_parts dst (PathPrefix s # ps) = push_parts dst ps"
| "push_parts dst (RootDir # ps) = push_parts dst ps"
| "push_parts dst (CurDir # ps) = push_parts dst ps"
| "push_parts dst (ParentDir # ps) = None"
| "push_parts dst (Normal s # ps) = push_parts (path_push dst s) ps"

definition validate_inside_dst :: "('fs, 'file, 'io) os_env \<Rightarrow> 'fs \<Rightarrow> path \<Rightarrow> path \<Rightarrow> 'io unpack_error + path" where
  "validate_inside_dst E fs dst file_dst =
     (case os_canonicalize E fs file_dst of
        Inl _ \<Rightarrow> Inl (Archive Canonicalizing)
      | Inr canon_parent \<Rightarrow>
          case os_canonicalize E fs dst of
            Inl _ \<Rightarrow> Inl (Archive Canonicalizing)
          | Inr canon_target \<Rightarrow>
              if \<not> path_starts_with canon_parent canon_target then Inl (Archive OutsideDestination) else Inr canon_target)"

definition open_dst_dir ::
  "('fs, 'file, 'io) os_env \<Rightarrow> path \<Rightarrow> path \<Rightarrow> ('fs, 'file, 's) unpacking
   \<Rightarrow> ('io unpack_error + 'file) \<times> ('fs, 'file, 's) unpacking" where
  "open_dst_dir E dst parent u =
     (case binary_search_by (\<lambda>(key, _). path_cmp parent key) (open_dirs u) of
        Inr index \<Rightarrow> (Inr (snd (open_dirs u ! index)), u)
      | Inl at \<Rightarrow>
          let (r, fs1) = os_create_dir_all E (un_fs u) parent;
              u1 = u\<lparr>un_fs := fs1, calls := calls u @ [CreateDirAll parent]\<rparr>
          in case r of
               Inl e \<Rightarrow> (Inl (Io e), u1)
             | Inr _ \<Rightarrow>
                 case validate_inside_dst E fs1 dst parent of
                   Inl e \<Rightarrow> (Inl e, u1)
                 | Inr _ \<Rightarrow>
                     case os_open_dir E fs1 parent of
                       Inl e \<Rightarrow> (Inl (Io e), u1)
                     | Inr d \<Rightarrow>
                         (Inr d, u1\<lparr>open_dirs := insert_at (open_dirs u1) at (parent, d), calls := calls u1 @ [OpenDir parent d]\<rparr>))"

definition sanitize_path_and_open_dir ::
  "('fs, 'file, 'io) os_env \<Rightarrow> path \<Rightarrow> path \<Rightarrow> ('fs, 'file, 's) unpacking
   \<Rightarrow> ('io unpack_error + (path \<times> 'file) option) \<times> ('fs, 'file, 's) unpacking" where
  "sanitize_path_and_open_dir E entry_path dst u =
     (case push_parts dst entry_path of
        None \<Rightarrow> (Inr None, u)
      | Some file_dst \<Rightarrow>
          if dst = file_dst then (Inr None, u)
          else case path_parent file_dst of
                 None \<Rightarrow> (Inr None, u)
               | Some parent \<Rightarrow>
                   let (r, u') = open_dst_dir E dst parent u
                   in case r of Inl e \<Rightarrow> (Inl e, u') | Inr d \<Rightarrow> (Inr (Some (file_dst, d)), u'))"

subsection \<open>Unpacking an entry\<close>

definition fallback_kind :: "entry_type \<Rightarrow> bool" where
  "fallback_kind k =
     (case k of
        Directory \<Rightarrow> True | Link \<Rightarrow> True | Symlink \<Rightarrow> True | XGlobalHeader \<Rightarrow> True | XHeader \<Rightarrow> True
      | GNULongName \<Rightarrow> True | GNULongLink \<Rightarrow> True | _ \<Rightarrow> False)"

definition should_fallback_to_tar_unpack :: "'io tar_entry \<Rightarrow> bool" where
  "should_fallback_to_tar_unpack e \<longleftrightarrow> fallback_kind (en_type e) \<or> \<not> en_is_ustar e \<and> en_path_ends_slash e"

definition entry_mode :: "entry_type \<Rightarrow> nat" where
  "entry_mode t = (case t of GNUSparse \<Rightarrow> 420 | Regular \<Rightarrow> 420 | _ \<Rightarrow> 493)"

definition file_complete :: "('fs, 'file, 's) unpacking \<Rightarrow> path \<Rightarrow> ('fs, 'file, 's) unpacking" where
  "file_complete u p = u\<lparr>completed := completed u @ [p]\<rparr>"

definition schedule_create_at_dir ::
  "('fs, 'file, 'io) os_env \<Rightarrow> path \<Rightarrow> nat \<Rightarrow> 'file \<Rightarrow> bytes \<Rightarrow> ('fs, 'file, 's) unpacking
   \<Rightarrow> ('io + unit) \<times> ('fs, 'file, 's) unpacking" where
  "schedule_create_at_dir E path mode parent_dir_handle contents u =
     (let (r, fs1) = os_create_file E (un_fs u) path mode contents;
          u1 = u\<lparr>un_fs := fs1, calls := calls u @ [CreateFile path mode parent_dir_handle contents]\<rparr>
      in case r of Inl e \<Rightarrow> (Inl e, u1) | Inr _ \<Rightarrow> (Inr (), file_complete u1 path))"

definition unpack_entry ::
  "('fs, 'file, 'io) os_env \<Rightarrow> 'io tar_entry \<Rightarrow> path \<Rightarrow> 'file \<Rightarrow> ('fs, 'file, 's) unpacking
   \<Rightarrow> ('io unpack_error + unit) \<times> ('fs, 'file, 's) unpacking" where
  "unpack_entry E e dst dst_open_dir u =
     (let mode = entry_mode (en_type e)
      in if should_fallback_to_tar_unpack e then
           let (r, fs1) = os_tar_unpack E (un_fs u) dst e;
               u1 = u\<lparr>un_fs := fs1, calls := calls u @ [TarUnpack dst (en_type e)]\<rparr>
           in case r of
                Inl err \<Rightarrow> (Inl (Io err), u1)
              | Inr _ \<Rightarrow>
                  let (r2, fs2) = os_set_permissions E fs1 dst mode;
                      u2 = u1\<lparr>un_fs := fs2, calls := calls u1 @ [SetPermissions dst mode]\<rparr>
                  in case r2 of
                       Inl err \<Rightarrow> (Inl (Io err), u2)
                     | Inr _ \<Rightarrow> (Inr (), if en_type e \<noteq> Directory then file_complete u2 dst else u2)
         else
           let (r, u1) = schedule_create_at_dir E dst mode dst_open_dir (en_contents e) u
           in case r of Inl err \<Rightarrow> (Inl (Io err), u1) | Inr _ \<Rightarrow> (Inr (), u1))"

subsection \<open>Unpacking an archive\<close>

text \<open>\<open>utf8\<close> tells whether a component's text is valid UTF-8 (\<open>OsStr::to_str\<close>).\<close>

fun entry_parts :: "(string \<Rightarrow> bool) \<Rightarrow> path \<Rightarrow> string list option" where
  "entry_parts utf8 [] = Some []"
| "entry_parts utf8 (CurDir # ps) = map_option ((#) ''.'') (entry_parts utf8 ps)"
| "entry_parts utf8 (Normal s # ps) = (if utf8 s then map_option ((#) s) (entry_parts utf8 ps) else None)"
| "entry_parts utf8 (_ # ps) = None"

definition unpack_target :: "string list \<Rightarrow> path \<Rightarrow> path" where
  "unpack_target parts path = (case parts of [a, f] \<Rightarrow> if a = ''accounts'' then path_from f else path | _ \<Rightarrow> path)"

record limits =
  apparent_limit_size :: u64
  actual_limit_size :: u64
  limit_count :: u64

definition count_entry ::
  "limits \<Rightarrow> 'io tar_entry \<Rightarrow> ('fs, 'file, 's) unpacking \<Rightarrow> ('io unpack_error + ('fs, 'file, 's) unpacking) option" where
  "count_entry L e u =
     (case and_then (map_sum Io id (en_size e)) (\<lambda>n. checked_total_size_sum (apparent_total_size u) n (apparent_limit_size L)) of
        Inl err \<Rightarrow> Some (Inl err)
      | Inr apparent \<Rightarrow>
          case and_then (map_sum Io id (en_entry_size e)) (\<lambda>n. checked_total_size_sum (actual_total_size u) n (actual_limit_size L)) of
            Inl err \<Rightarrow> Some (Inl err)
          | Inr actual \<Rightarrow>
              map_option (map_sum id (\<lambda>c. u\<lparr>apparent_total_size := apparent, actual_total_size := actual, total_count := c\<rparr>))
                (checked_total_count_increment (total_count u) (limit_count L)))"

type_synonym 's checker = "'s \<Rightarrow> string list \<Rightarrow> entry_type \<Rightarrow> (unpack_path \<times> 's) option"

text \<open>\<open>None\<close> is a panic; a checker may panic too.\<close>

definition unpack_one ::
  "('fs, 'file, 'io) os_env \<Rightarrow> (string \<Rightarrow> bool) \<Rightarrow> limits \<Rightarrow> 's checker \<Rightarrow> 'io + 'io tar_entry \<Rightarrow> ('fs, 'file, 's) unpacking
   \<Rightarrow> (('io unpack_error + unit) \<times> ('fs, 'file, 's) unpacking) option" where
  "unpack_one E utf8 L checker entry u =
     (case and_then entry (\<lambda>e. and_then (en_path e) (\<lambda>p. Inr (e, p))) of
        Inl err \<Rightarrow> Some (Inl (Io err), u)
      | Inr (e, path) \<Rightarrow>
          let kind = en_type e;
              legacy_dir_entry = (\<not> en_is_ustar e \<and> en_path_ends_slash e);
              reject_legacy_dir_entry = (legacy_dir_entry \<and> kind \<noteq> Directory)
          in case entry_parts utf8 path of
               None \<Rightarrow> Some (Inl (Archive InvalidPath), u)
             | Some parts \<Rightarrow>
                 if reject_legacy_dir_entry then Some (Inl (Archive InvalidPath), u)
                 else
                   do { (verdict, s') \<leftarrow> checker (checker_state u) parts kind;
                        let u0 = u\<lparr>checker_state := s'\<rparr>;
                        case verdict of
                          Invalid \<Rightarrow> Some (Inl (Archive ExtraEntry), u0)
                        | Ignore \<Rightarrow> Some (Inr (), u0)
                        | Valid unpack_dir \<Rightarrow>
                            do { counted \<leftarrow> count_entry L e u0;
                                 case counted of
                                   Inl err \<Rightarrow> Some (Inl err, u0)
                                 | Inr u1 \<Rightarrow>
                                     let (r, u2) = sanitize_path_and_open_dir E (unpack_target parts path) unpack_dir u1
                                     in Some (case r of
                                          Inl err \<Rightarrow> (Inl err, u2)
                                        | Inr None \<Rightarrow> (Inr (), u2)
                                        | Inr (Some (entry_path, open_dir)) \<Rightarrow>
                                            let (r3, u3) = unpack_entry E e entry_path open_dir u2
                                            in (check_unpack_result r3, u3)) } })"

fun unpack_entries ::
  "('fs, 'file, 'io) os_env \<Rightarrow> (string \<Rightarrow> bool) \<Rightarrow> limits \<Rightarrow> 's checker \<Rightarrow> ('io + 'io tar_entry) list \<Rightarrow> ('fs, 'file, 's) unpacking
   \<Rightarrow> (('io unpack_error + unit) \<times> ('fs, 'file, 's) unpacking) option" where
  "unpack_entries E utf8 L checker [] u = Some (Inr (), u)"
| "unpack_entries E utf8 L checker (e # es) u =
     do { (r, u') \<leftarrow> unpack_one E utf8 L checker e u;
          case r of Inl err \<Rightarrow> Some (Inl err, u') | Inr _ \<Rightarrow> unpack_entries E utf8 L checker es u' }"

definition unpack_start :: "'fs \<Rightarrow> 's \<Rightarrow> ('fs, 'file, 's) unpacking" where
  "unpack_start fs s = \<lparr>un_fs = fs, open_dirs = [], calls = [], completed = [], checker_state = s,
     apparent_total_size = 0, actual_total_size = 0, total_count = 0\<rparr>"

definition unpack_archive ::
  "('fs, 'file, 'io) os_env \<Rightarrow> (string \<Rightarrow> bool) \<Rightarrow> limits \<Rightarrow> 's checker \<Rightarrow> 's \<Rightarrow> 'io + ('io + 'io tar_entry) list \<Rightarrow> 'fs
   \<Rightarrow> (('io unpack_error + unit) \<times> ('fs, 'file, 's) unpacking) option" where
  "unpack_archive E utf8 L checker s archive fs =
     (case archive of
        Inl err \<Rightarrow> Some (Inl (Io err), unpack_start fs s)
      | Inr entries \<Rightarrow> unpack_entries E utf8 L checker entries (unpack_start fs s))"


subsection \<open>Snapshots\<close>

definition is_ascii_digit :: "char \<Rightarrow> bool" where
  "is_ascii_digit c \<longleftrightarrow> CHR ''0'' \<le> c \<and> c \<le> CHR ''9''"

definition all_digits :: "string \<Rightarrow> bool" where
  "all_digits v \<longleftrightarrow> v \<noteq> [] \<and> list_all is_ascii_digit v"

fun like_storage_loop :: "nat \<Rightarrow> bool \<Rightarrow> string \<Rightarrow> bool" where
  "like_storage_loop periods saw_numbers [] \<longleftrightarrow> saw_numbers \<and> periods = 1"
| "like_storage_loop periods saw_numbers (x # xs) =
     (if \<not> is_ascii_digit x then
        if x = CHR ''.'' then
          if periods > 0 \<or> \<not> saw_numbers then False else like_storage_loop (periods + 1) False xs
        else False
      else like_storage_loop periods True xs)"

definition like_storage :: "string \<Rightarrow> bool" where
  "like_storage v = like_storage_loop 0 False v"

definition is_valid_snapshot_archive_entry :: "string list \<Rightarrow> entry_type \<Rightarrow> bool" where
  "is_valid_snapshot_archive_entry parts kind =
     (case parts of
        [a] \<Rightarrow> a = ''version'' \<and> kind = Regular \<or> a = ''accounts'' \<and> kind = Directory \<or> a = ''snapshots'' \<and> kind = Directory
      | [a, b] \<Rightarrow>
          a = ''accounts'' \<and> (kind = GNUSparse \<or> kind = Regular) \<and> like_storage b
        \<or> a = ''snapshots'' \<and> b = ''status_cache'' \<and> (kind = GNUSparse \<or> kind = Regular)
        \<or> a = ''snapshots'' \<and> kind = Directory \<and> all_digits b
      | [a, b, c] \<Rightarrow> a = ''snapshots'' \<and> (kind = GNUSparse \<or> kind = Regular) \<and> all_digits b \<and> all_digits c
      | _ \<Rightarrow> False)"

text \<open>The checker of snapshots: the state counts the random numbers drawn and collects what the
  accounts path processor was called with.  \<open>pick k n\<close> is the \<open>k\<close>-th number drawn from \<open>0..n\<close>.\<close>

record snapshot_state =
  drawn :: nat
  append_vecs :: "(string \<times> path) list"

definition snapshot_checker :: "(nat \<Rightarrow> nat \<Rightarrow> nat) \<Rightarrow> path \<Rightarrow> path list \<Rightarrow> snapshot_state checker" where
  "snapshot_checker pick ledger_dir account_paths s parts kind =
     (if is_valid_snapshot_archive_entry parts kind then
        case parts of
          [a, file] \<Rightarrow>
            if a = ''accounts'' then
              if account_paths = [] then None
              else case slice_get account_paths (pick (drawn s) (length account_paths)) of
                     Some path \<Rightarrow> Some (Valid path, s\<lparr>drawn := Suc (drawn s), append_vecs := append_vecs s @ [(file, path)]\<rparr>)
                   | None \<Rightarrow> Some (Invalid, s\<lparr>drawn := Suc (drawn s)\<rparr>)
            else Some (Valid ledger_dir, s)
        | _ \<Rightarrow> Some (Valid ledger_dir, s)
      else Some (Invalid, s))"

definition snapshot_limits :: limits where
  "snapshot_limits = \<lparr>apparent_limit_size = MAX_SNAPSHOT_ARCHIVE_UNPACKED_APPARENT_SIZE,
     actual_limit_size = MAX_SNAPSHOT_ARCHIVE_UNPACKED_ACTUAL_SIZE, limit_count = MAX_SNAPSHOT_ARCHIVE_UNPACKED_COUNT\<rparr>"

definition unpack_snapshot_with_processors ::
  "('fs, 'file, 'io) os_env \<Rightarrow> (string \<Rightarrow> bool) \<Rightarrow> (nat \<Rightarrow> nat \<Rightarrow> nat) \<Rightarrow> 'io + ('io + 'io tar_entry) list \<Rightarrow> path \<Rightarrow> path list \<Rightarrow> 'fs
   \<Rightarrow> (('io unpack_error + unit) \<times> ('fs, 'file, snapshot_state) unpacking) option" where
  "unpack_snapshot_with_processors E utf8 pick archive ledger_dir account_paths fs =
     (if account_paths = [] then None
      else unpack_archive E utf8 snapshot_limits (snapshot_checker pick ledger_dir account_paths)
             \<lparr>drawn = 0, append_vecs = []\<rparr> archive fs)"

text \<open>The map of append vectors, in the order of insertion.\<close>

definition unpack_snapshot ::
  "('fs, 'file, 'io) os_env \<Rightarrow> (string \<Rightarrow> bool) \<Rightarrow> (nat \<Rightarrow> nat \<Rightarrow> nat) \<Rightarrow> 'io + ('io + 'io tar_entry) list \<Rightarrow> path \<Rightarrow> path list \<Rightarrow> 'fs
   \<Rightarrow> (('io unpack_error + (string \<rightharpoonup> path)) \<times> ('fs, 'file, snapshot_state) unpacking) option" where
  "unpack_snapshot E utf8 pick archive ledger_dir account_paths fs =
     do { (r, u) \<leftarrow> unpack_snapshot_with_processors E utf8 pick archive ledger_dir account_paths fs;
          let m = foldl (\<lambda>m (file, path). m(file \<mapsto> path_push (path_push path ''accounts'') file)) (\<lambda>_. None) (append_vecs (checker_state u));
          Some (map_sum id (\<lambda>_. m) r, u) }"

text \<open>\<open>sends n\<close>: the channel takes the \<open>n\<close>-th path; when it is closed the code panics.\<close>

definition streaming_unpack_snapshot ::
  "('fs, 'file, 'io) os_env \<Rightarrow> (string \<Rightarrow> bool) \<Rightarrow> (nat \<Rightarrow> nat \<Rightarrow> nat) \<Rightarrow> (nat \<Rightarrow> bool) \<Rightarrow> 'io + ('io + 'io tar_entry) list
   \<Rightarrow> path \<Rightarrow> path list \<Rightarrow> 'fs \<Rightarrow> (('io unpack_error + unit) \<times> ('fs, 'file, snapshot_state) unpacking) option" where
  "streaming_unpack_snapshot E utf8 pick sends archive ledger_dir account_paths fs =
     do { (r, u) \<leftarrow> unpack_snapshot_with_processors E utf8 pick archive ledger_dir account_paths fs;
          if \<forall>n < length (completed u). sends n then Some (r, u) else None }"

subsection \<open>Genesis archives\<close>

text \<open>\<open>DEFAULT_GENESIS_FILE\<close> and \<open>DEFAULT_GENESIS_ARCHIVE\<close> are constants of another crate: arguments.\<close>

definition is_valid_genesis_archive_entry :: "string \<Rightarrow> path \<Rightarrow> string list \<Rightarrow> entry_type \<Rightarrow> unpack_path" where
  "is_valid_genesis_archive_entry genesis_file unpack_dir parts kind =
     (case parts of
        [a] \<Rightarrow>
          if a = genesis_file \<and> (kind = GNUSparse \<or> kind = Regular) then Valid unpack_dir
          else if (a = ''rocksdb'' \<or> a = ''rocksdb_fifo'') \<and> kind = Directory then Ignore
          else Invalid
      | [a, b] \<Rightarrow> if (a = ''rocksdb'' \<or> a = ''rocksdb_fifo'') \<and> (kind = GNUSparse \<or> kind = Regular) then Ignore else Invalid
      | _ \<Rightarrow> Invalid)"

definition unpack_genesis ::
  "('fs, 'file, 'io) os_env \<Rightarrow> (string \<Rightarrow> bool) \<Rightarrow> string \<Rightarrow> 'io + ('io + 'io tar_entry) list \<Rightarrow> path \<Rightarrow> u64 \<Rightarrow> 'fs
   \<Rightarrow> (('io unpack_error + unit) \<times> ('fs, 'file, unit) unpacking) option" where
  "unpack_genesis E utf8 genesis_file archive unpack_dir max_size fs =
     unpack_archive E utf8
       \<lparr>apparent_limit_size = max_size, actual_limit_size = max_size, limit_count = MAX_GENESIS_ARCHIVE_UNPACKED_COUNT\<rparr>
       (\<lambda>s parts kind. Some (is_valid_genesis_archive_entry genesis_file unpack_dir parts kind, s)) () archive fs"

text \<open>\<open>read_archive\<close> opens, sizes and decompresses the file.\<close>

definition unpack_genesis_archive ::
  "('fs, 'file, 'io) os_env \<Rightarrow> (string \<Rightarrow> bool) \<Rightarrow> string \<Rightarrow> ('fs \<Rightarrow> path \<Rightarrow> 'io + ('io + ('io + 'io tar_entry) list))
   \<Rightarrow> path \<Rightarrow> path \<Rightarrow> u64 \<Rightarrow> 'fs \<Rightarrow> (('io unpack_error + unit) \<times> 'fs) option" where
  "unpack_genesis_archive E utf8 genesis_file read_archive archive_filename destination_dir max_size fs =
     (let (r, fs1) = os_create_dir_all E fs destination_dir
      in case and_then r (\<lambda>_. read_archive fs1 archive_filename) of
           Inl err \<Rightarrow> Some (Inl (Io err), fs1)
         | Inr archive \<Rightarrow> map_option (map_prod id un_fs) (unpack_genesis E utf8 genesis_file archive destination_dir max_size fs1))"

datatype 'io open_genesis_config_error = Unpack_Error "'io unpack_error" | Load 'io

definition open_genesis_config ::
  "('fs, 'file, 'io) os_env \<Rightarrow> (string \<Rightarrow> bool) \<Rightarrow> string \<Rightarrow> string \<Rightarrow> ('fs \<Rightarrow> path \<Rightarrow> 'io + ('io + ('io + 'io tar_entry) list))
   \<Rightarrow> ('fs \<Rightarrow> path \<Rightarrow> 'io + 'genesis) \<Rightarrow> path \<Rightarrow> u64 \<Rightarrow> 'fs \<Rightarrow> (('io open_genesis_config_error + 'genesis) \<times> 'fs) option" where
  "open_genesis_config E utf8 genesis_file genesis_archive read_archive load ledger_path max_size fs =
     (case load fs ledger_path of
        Inr g \<Rightarrow> Some (Inr g, fs)
      | Inl _ \<Rightarrow>
          do { (r, fs1) \<leftarrow> unpack_genesis_archive E utf8 genesis_file read_archive (path_push ledger_path genesis_archive)
                            ledger_path max_size fs;
               Some (case r of Inl e \<Rightarrow> (Inl (Unpack_Error e), fs1) | Inr _ \<Rightarrow> (map_sum Load id (load fs1 ledger_path), fs1)) })"

definition unpack_buf_size :: "u64 \<Rightarrow> u64 \<Rightarrow> nat" where
  "unpack_buf_size input_archive_size actual_limit = min (unat (min input_archive_size actual_limit)) MAX_UNPACK_WRITE_BUF_SIZE"

subsection \<open>The cache of open directories\<close>

definition dirs_sorted :: "(path \<times> 'file) list \<Rightarrow> bool" where
  "dirs_sorted ds = sorted_wrt (\<lambda>a b. fst b < fst a) ds"

definition below_from :: "path \<Rightarrow> (path \<times> 'file) list \<Rightarrow> nat \<Rightarrow> nat \<Rightarrow> bool" where
  "below_from p ds lo hi \<longleftrightarrow> lo \<le> hi \<and> hi \<le> length ds \<and> (\<forall>j < lo. p < fst (ds ! j)) \<and> (\<forall>j < length ds. hi \<le> j \<longrightarrow> fst (ds ! j) < p)"

lemma binary_search_in_correct:
  assumes "dirs_sorted ds" "below_from p ds lo hi"
  shows "case binary_search_in (\<lambda>(key, _). path_cmp p key) ds lo hi of
      Inr i \<Rightarrow> i < length ds \<and> fst (ds ! i) = p | Inl i \<Rightarrow> below_from p ds i i"
  using assms(2)
proof (induction "hi - lo" arbitrary: lo hi rule: less_induct)
  case less
  show ?case
  proof (cases "lo < hi")
    case True
    define mid where "mid = (lo + hi) div 2"
    have mid: "lo \<le> mid" "mid < hi" "mid < length ds" using True less.prems by (auto simp: mid_def below_from_def)
    have before: "fst (ds ! mid) < fst (ds ! j)" if "j < mid" for j
      using assms(1) that mid(3) by (auto simp: dirs_sorted_def sorted_wrt_iff_nth_less)
    have after: "fst (ds ! j) < fst (ds ! mid)" if "mid < j" "j < length ds" for j
      using assms(1) that by (auto simp: dirs_sorted_def sorted_wrt_iff_nth_less)
    obtain k h where kh: "ds ! mid = (k, h)" by (cases "ds ! mid")
    show ?thesis
    proof (cases "path_cmp p k")
      case Less
      then have "p < k" by (auto simp: path_cmp_def split: if_splits)
      then have "below_from p ds (Suc mid) hi" using less.prems mid before kh
        by (auto simp: below_from_def less_Suc_eq dest: less_trans)
      from less.hyps[OF _ this] mid have "case binary_search_in (\<lambda>(key, _). path_cmp p key) ds (Suc mid) hi of
        Inr i \<Rightarrow> i < length ds \<and> fst (ds ! i) = p | Inl i \<Rightarrow> below_from p ds i i" by simp
      then show ?thesis using True Less kh by (subst binary_search_in.simps) (simp add: mid_def[symmetric])
    next
      case Greater
      then have "k < p" by (auto simp: path_cmp_def split: if_splits)
      have "fst (ds ! j) < p" if "j < length ds" "mid \<le> j" for j
        using that after[of j] \<open>k < p\<close> kh by (cases "j = mid") (auto intro: less_trans)
      then have "below_from p ds lo mid" using less.prems mid by (auto simp: below_from_def)
      from less.hyps[OF _ this] mid have "case binary_search_in (\<lambda>(key, _). path_cmp p key) ds lo mid of
        Inr i \<Rightarrow> i < length ds \<and> fst (ds ! i) = p | Inl i \<Rightarrow> below_from p ds i i" by simp
      then show ?thesis using True Greater kh by (subst binary_search_in.simps) (simp add: mid_def[symmetric])
    next
      case Equal
      then show ?thesis using True kh mid
        by (subst binary_search_in.simps) (simp add: mid_def[symmetric] path_cmp_def split: if_splits)
    qed
  next
    case False
    with less.prems show ?thesis by (subst binary_search_in.simps) (simp add: below_from_def)
  qed
qed

lemma binary_search_dirs:
  assumes "dirs_sorted ds"
  shows "binary_search_by (\<lambda>(key, _). path_cmp p key) ds = Inr i \<Longrightarrow> i < length ds \<and> fst (ds ! i) = p"
    "binary_search_by (\<lambda>(key, _). path_cmp p key) ds = Inl i \<Longrightarrow> dirs_sorted (insert_at ds i (p, h))"
proof -
  have "below_from p ds 0 (length ds)" by (simp add: below_from_def)
  note c = binary_search_in_correct[OF assms this]
  show "binary_search_by (\<lambda>(key, _). path_cmp p key) ds = Inr i \<Longrightarrow> i < length ds \<and> fst (ds ! i) = p"
    using c by (simp add: binary_search_by_def)
  assume "binary_search_by (\<lambda>(key, _). path_cmp p key) ds = Inl i"
  with c have b: "below_from p ds i i" by (simp add: binary_search_by_def)
  then have "p < fst x" if "x \<in> set (take i ds)" for x using that by (fastforce simp: below_from_def in_set_conv_nth)
  moreover from b have "fst x < p" if "x \<in> set (drop i ds)" for x
    using that by (fastforce simp: below_from_def in_set_conv_nth)
  moreover have "sorted_wrt (\<lambda>a b. fst b < fst a) (take i ds @ drop i ds)" using assms by (simp add: dirs_sorted_def)
  ultimately show "dirs_sorted (insert_at ds i (p, h))"
    unfolding insert_at_def dirs_sorted_def sorted_wrt_append by (auto dest: less_trans)
qed

subsection \<open>What is unpacked where\<close>

text \<open>
  An entry policy: \<open>tgt kind\<close> are the paths at which the checker lets an entry of a kind be unpacked.
  Whatever the archive and the file system, the calls made are confined to these paths and the
  directories that hold them, and every file is created through the handle of its own directory.
\<close>

definition call_ok :: "(entry_type \<Rightarrow> path set) \<Rightarrow> 'file os_call set \<Rightarrow> 'file os_call \<Rightarrow> bool" where
  "call_ok tgt made c =
     (case c of
        CreateDirAll p \<Rightarrow> \<exists>k. \<exists>q \<in> tgt k. p = butlast q
      | OpenDir p h \<Rightarrow> \<exists>k. \<exists>q \<in> tgt k. p = butlast q
      | CreateFile p m h b \<Rightarrow> OpenDir (butlast p) h \<in> made \<and> (\<exists>k. p \<in> tgt k \<and> m = entry_mode k \<and> \<not> fallback_kind k)
      | TarUnpack p k \<Rightarrow> p \<in> tgt k \<and> fallback_kind k
      | SetPermissions p m \<Rightarrow> \<exists>k. p \<in> tgt k \<and> fallback_kind k \<and> m = entry_mode k)"

lemma call_ok_mono: "call_ok tgt A c \<Longrightarrow> A \<subseteq> B \<Longrightarrow> call_ok tgt B c"
  by (auto simp: call_ok_def split: os_call.splits)

definition unpack_inv :: "(entry_type \<Rightarrow> path set) \<Rightarrow> ('fs, 'file, 's) unpacking \<Rightarrow> bool" where
  "unpack_inv tgt u \<longleftrightarrow> dirs_sorted (open_dirs u) \<and> (\<forall>(p, h) \<in> set (open_dirs u). OpenDir p h \<in> set (calls u))
     \<and> (\<forall>c \<in> set (calls u). call_ok tgt (set (calls u)) c)"

lemma unpack_inv_call:
  assumes "unpack_inv tgt u" "call_ok tgt (insert c (set (calls u))) c"
  shows "unpack_inv tgt (u\<lparr>un_fs := fs, calls := calls u @ [c]\<rparr>)"
  using assms by (auto simp: unpack_inv_def intro: call_ok_mono)

lemma unpack_inv_same [simp]:
  "unpack_inv tgt (u\<lparr>checker_state := s\<rparr>) = unpack_inv tgt u"
  "unpack_inv tgt (u\<lparr>completed := ps\<rparr>) = unpack_inv tgt u"
  "unpack_inv tgt (u\<lparr>apparent_total_size := a, actual_total_size := b, total_count := c\<rparr>) = unpack_inv tgt u"
  by (simp_all add: unpack_inv_def)

lemma path_parent_push: "push_parts dst ps = Some q \<Longrightarrow> q \<noteq> dst \<Longrightarrow> path_parent q = Some (butlast q)"
proof (induction dst ps arbitrary: q rule: push_parts.induct)
  case (6 dst s ps)
  show ?case
  proof (cases "q = path_push dst s")
    case True
    then show ?thesis by (simp add: path_parent_def path_push_def)
  next
    case False
    with 6 show ?thesis by simp
  qed
qed auto

lemma open_dst_dir_inv:
  assumes inv: "unpack_inv tgt u" and q: "q \<in> tgt k" "parent = butlast q" and o: "open_dst_dir E dst parent u = (r, u')"
  shows "unpack_inv tgt u' \<and> (\<forall>h. r = Inr h \<longrightarrow> OpenDir parent h \<in> set (calls u'))"
proof (cases "binary_search_by (\<lambda>(key, _). path_cmp parent key) (open_dirs u)")
  case (Inr i)
  have s: "dirs_sorted (open_dirs u)" using inv by (simp add: unpack_inv_def)
  from binary_search_dirs(1)[OF s Inr] have i: "i < length (open_dirs u)" "fst (open_dirs u ! i) = parent" by simp_all
  then have "(parent, snd (open_dirs u ! i)) \<in> set (open_dirs u)" by (metis nth_mem prod.collapse)
  then show ?thesis using inv o Inr by (auto simp: open_dst_dir_def unpack_inv_def)
next
  case (Inl i)
  have s: "dirs_sorted (open_dirs u)" using inv by (simp add: unpack_inv_def)
  obtain r1 fs1 where c: "os_create_dir_all E (un_fs u) parent = (r1, fs1)" by (cases "os_create_dir_all E (un_fs u) parent")
  let ?u1 = "u\<lparr>un_fs := fs1, calls := calls u @ [CreateDirAll parent]\<rparr>"
  have u1: "unpack_inv tgt ?u1" by (rule unpack_inv_call[OF inv]) (use q in \<open>auto simp: call_ok_def\<close>)
  consider (err) e where "(r, u') = (Inl e, ?u1)"
    | (ok) d where "(r, u') = (Inr d, ?u1\<lparr>open_dirs := insert_at (open_dirs u) i (parent, d), calls := calls ?u1 @ [OpenDir parent d]\<rparr>)"
    using o Inl c by (auto simp: open_dst_dir_def Let_def split: sum.splits)
  then show ?thesis
  proof cases
    case err
    then show ?thesis using u1 by simp
  next
    case ok
    let ?u2 = "?u1\<lparr>un_fs := fs1, calls := calls ?u1 @ [OpenDir parent d]\<rparr>"
    have "unpack_inv tgt ?u2" by (rule unpack_inv_call[OF u1]) (use q in \<open>auto simp: call_ok_def\<close>)
    then have "unpack_inv tgt (?u1\<lparr>open_dirs := insert_at (open_dirs u) i (parent, d), calls := calls ?u1 @ [OpenDir parent d]\<rparr>)"
      using binary_search_dirs(2)[OF s Inl, of d] by (auto simp: unpack_inv_def insert_at_def dest: in_set_takeD in_set_dropD)
    then show ?thesis using ok by simp
  qed
qed

definition legacy_ok :: "'io tar_entry \<Rightarrow> bool" where
  "legacy_ok e \<longleftrightarrow> en_is_ustar e \<or> \<not> en_path_ends_slash e \<or> en_type e = Directory"

lemma unpack_inv_complete: "unpack_inv tgt u \<Longrightarrow> unpack_inv tgt (file_complete u p)"
  by (simp add: file_complete_def)

lemma unpack_entry_inv:
  assumes inv: "unpack_inv tgt u" and q: "q \<in> tgt (en_type e)" and h: "OpenDir (butlast q) h \<in> set (calls u)"
    and e: "legacy_ok e" and o: "unpack_entry E e q h u = (r, u')"
  shows "unpack_inv tgt u'"
proof (cases "should_fallback_to_tar_unpack e")
  case True
  obtain r1 fs1 where c1: "os_tar_unpack E (un_fs u) q e = (r1, fs1)" by (cases "os_tar_unpack E (un_fs u) q e")
  obtain r2 fs2 where c2: "os_set_permissions E fs1 q (entry_mode (en_type e)) = (r2, fs2)"
    by (cases "os_set_permissions E fs1 q (entry_mode (en_type e))")
  let ?u1 = "u\<lparr>un_fs := fs1, calls := calls u @ [TarUnpack q (en_type e)]\<rparr>"
  let ?u2 = "?u1\<lparr>un_fs := fs2, calls := calls ?u1 @ [SetPermissions q (entry_mode (en_type e))]\<rparr>"
  have k: "fallback_kind (en_type e)"
    using True e by (auto simp: should_fallback_to_tar_unpack_def legacy_ok_def fallback_kind_def)
  have 1: "unpack_inv tgt ?u1" by (rule unpack_inv_call[OF inv]) (use q k in \<open>simp add: call_ok_def\<close>)
  have 2: "unpack_inv tgt ?u2" by (rule unpack_inv_call[OF 1]) (use q k in \<open>auto simp: call_ok_def\<close>)
  have "u' = ?u1 \<or> u' = ?u2 \<or> u' = file_complete ?u2 q"
    using o True c1 c2 by (auto simp: unpack_entry_def Let_def split: sum.splits if_splits)
  then show ?thesis using 1 2 unpack_inv_complete[OF 2] by blast
next
  case False
  then have k: "\<not> fallback_kind (en_type e)" by (simp add: should_fallback_to_tar_unpack_def)
  obtain r1 fs1 where c1: "os_create_file E (un_fs u) q (entry_mode (en_type e)) (en_contents e) = (r1, fs1)"
    by (cases "os_create_file E (un_fs u) q (entry_mode (en_type e)) (en_contents e)")
  let ?u1 = "u\<lparr>un_fs := fs1, calls := calls u @ [CreateFile q (entry_mode (en_type e)) h (en_contents e)]\<rparr>"
  have 1: "unpack_inv tgt ?u1" by (rule unpack_inv_call[OF inv]) (use q h k in \<open>auto simp: call_ok_def\<close>)
  have "u' = ?u1 \<or> u' = file_complete ?u1 q"
    using o False c1 by (auto simp: unpack_entry_def schedule_create_at_dir_def Let_def split: sum.splits)
  then show ?thesis using 1 unpack_inv_complete[OF 1] by blast
qed

lemma sanitize_inv:
  assumes inv: "unpack_inv tgt u" and q: "\<And>q. push_parts dst p = Some q \<Longrightarrow> q \<noteq> dst \<Longrightarrow> q \<in> tgt k"
    and o: "sanitize_path_and_open_dir E p dst u = (r, u')"
  shows "unpack_inv tgt u' \<and> (\<forall>q h. r = Inr (Some (q, h)) \<longrightarrow> q \<in> tgt k \<and> OpenDir (butlast q) h \<in> set (calls u'))"
proof (cases "\<exists>q. push_parts dst p = Some q \<and> q \<noteq> dst")
  case True
  then obtain q where pq: "push_parts dst p = Some q" "q \<noteq> dst" by blast
  obtain r1 u1 where d: "open_dst_dir E dst (butlast q) u = (r1, u1)" by (cases "open_dst_dir E dst (butlast q) u")
  note i = open_dst_dir_inv[OF inv q[OF pq] refl d]
  show ?thesis using o pq path_parent_push[OF pq] d i q[OF pq]
    by (auto simp: sanitize_path_and_open_dir_def Let_def split: sum.splits)
next
  case False
  then have "u' = u \<and> r = Inr None" using o by (auto simp: sanitize_path_and_open_dir_def split: option.splits if_splits)
  with inv show ?thesis by simp
qed

lemma count_entry_fields:
  assumes "count_entry L e u = Some (Inr u')"
  shows "\<exists>a b c. u' = u\<lparr>apparent_total_size := a, actual_total_size := b, total_count := c\<rparr>"
  using assms by (auto simp: count_entry_def map_sum_def split: sum.split_asm)

text \<open>How an entry is dealt with: it changes at most the checker's state, or it is unpacked.\<close>

definition unpacked_by ::
  "('fs, 'file, 'io) os_env \<Rightarrow> (string \<Rightarrow> bool) \<Rightarrow> limits \<Rightarrow> 's checker \<Rightarrow> 'io + 'io tar_entry
   \<Rightarrow> ('fs, 'file, 's) unpacking \<Rightarrow> ('fs, 'file, 's) unpacking \<Rightarrow> bool" where
  "unpacked_by E utf8 L checker entry u u' \<longleftrightarrow>
     (\<exists>e path parts dir s' u1 r2 u2. entry = Inr e \<and> en_path e = Inr path \<and> entry_parts utf8 path = Some parts \<and> legacy_ok e
        \<and> checker (checker_state u) parts (en_type e) = Some (Valid dir, s')
        \<and> count_entry L e (u\<lparr>checker_state := s'\<rparr>) = Some (Inr u1)
        \<and> sanitize_path_and_open_dir E (unpack_target parts path) dir u1 = (r2, u2)
        \<and> (u' = u2 \<or> (\<exists>p d r3. r2 = Inr (Some (p, d)) \<and> unpack_entry E e p d u2 = (r3, u'))))"

lemma unpack_one_cases:
  assumes "unpack_one E utf8 L checker entry u = Some (r, u')"
  shows "(\<exists>s'. u' = u\<lparr>checker_state := s'\<rparr> \<and> (s' = checker_state u \<or> (\<exists>parts k v. checker (checker_state u) parts k = Some (v, s'))))
    \<or> unpacked_by E utf8 L checker entry u u'"
proof (cases "and_then entry (\<lambda>e. and_then (en_path e) (\<lambda>p. Inr (e, p)))")
  case (Inl err)
  with assms have "u' = u\<lparr>checker_state := checker_state u\<rparr>" by (simp add: unpack_one_def)
  then show ?thesis by blast
next
  case (Inr ep)
  then obtain e path where e: "entry = Inr e" "en_path e = Inr path" "ep = (e, path)" by (auto simp: result_simps)
  let ?bad = "\<not> en_is_ustar e \<and> en_path_ends_slash e \<and> en_type e \<noteq> Directory"
  show ?thesis
  proof (cases "entry_parts utf8 path = None \<or> ?bad")
    case True
    with assms Inr e have "u' = u\<lparr>checker_state := checker_state u\<rparr>"
      by (auto simp: unpack_one_def Let_def split: option.splits if_splits)
    then show ?thesis by blast
  next
    case False
    then obtain parts where parts: "entry_parts utf8 path = Some parts" and l: "legacy_ok e" by (auto simp: legacy_ok_def)
    let ?rest = "\<lambda>v s'. case v of Invalid \<Rightarrow> Some (Inl (Archive ExtraEntry), u\<lparr>checker_state := s'\<rparr>)
        | Ignore \<Rightarrow> Some (Inr (), u\<lparr>checker_state := s'\<rparr>)
        | Valid unpack_dir \<Rightarrow> do { counted \<leftarrow> count_entry L e (u\<lparr>checker_state := s'\<rparr>);
            case counted of Inl err \<Rightarrow> Some (Inl err, u\<lparr>checker_state := s'\<rparr>)
            | Inr u1 \<Rightarrow> let (r, u2) = sanitize_path_and_open_dir E (unpack_target parts path) unpack_dir u1
                in Some (case r of Inl err \<Rightarrow> (Inl err, u2) | Inr None \<Rightarrow> (Inr (), u2)
                  | Inr (Some (p, d)) \<Rightarrow> let (r3, u3) = unpack_entry E e p d u2 in (check_unpack_result r3, u3)) }"
    obtain v s' where c: "checker (checker_state u) parts (en_type e) = Some (v, s')" and rest: "?rest v s' = Some (r, u')"
      using assms Inr e parts False unfolding unpack_one_def by (auto simp: Let_def bind_eq_Some_conv split: if_splits)
    show ?thesis
    proof (cases v)
      case (Valid dir)
      with rest obtain cnt where cnt: "count_entry L e (u\<lparr>checker_state := s'\<rparr>) = Some cnt"
        by (auto simp: bind_eq_Some_conv)
      show ?thesis
      proof (cases cnt)
        case (Inl err)
        with rest Valid cnt c show ?thesis by auto
      next
        case (Inr u1)
        obtain r2 u2 where s: "sanitize_path_and_open_dir E (unpack_target parts path) dir u1 = (r2, u2)"
          by (cases "sanitize_path_and_open_dir E (unpack_target parts path) dir u1")
        have "u' = u2 \<or> (\<exists>p d r3. r2 = Inr (Some (p, d)) \<and> unpack_entry E e p d u2 = (r3, u'))"
          using rest Valid cnt Inr s by (auto split: sum.splits option.splits prod.splits)
        then show ?thesis unfolding unpacked_by_def using e parts l c cnt Inr s Valid by blast
      qed
    qed (use rest c in auto)
  qed
qed

locale entry_policy =
  fixes checker :: "'s checker"
    and utf8 :: "string \<Rightarrow> bool"
    and tgt :: "entry_type \<Rightarrow> path set"
  assumes policy:
    "checker s parts kind = Some (Valid dir, s') \<Longrightarrow> entry_parts utf8 path = Some parts
     \<Longrightarrow> push_parts dir (unpack_target parts path) = Some q \<Longrightarrow> q \<noteq> dir \<Longrightarrow> q \<in> tgt kind"
begin

lemma unpack_one_inv:
  assumes inv: "unpack_inv tgt u" and o: "unpack_one E utf8 L checker entry u = Some (r, u')"
  shows "unpack_inv tgt u'"
  using unpack_one_cases[OF o]
proof
  assume "\<exists>s'. u' = u\<lparr>checker_state := s'\<rparr> \<and> (s' = checker_state u \<or> (\<exists>parts k v. checker (checker_state u) parts k = Some (v, s')))"
  with inv show ?thesis by auto
next
  assume "unpacked_by E utf8 L checker entry u u'"
  then obtain e path parts dir s' u1 r2 u2 where
    e: "entry = Inr e" "en_path e = Inr path" "entry_parts utf8 path = Some parts" "legacy_ok e"
      "checker (checker_state u) parts (en_type e) = Some (Valid dir, s')"
    and c: "count_entry L e (u\<lparr>checker_state := s'\<rparr>) = Some (Inr u1)"
    and s: "sanitize_path_and_open_dir E (unpack_target parts path) dir u1 = (r2, u2)"
    and u': "u' = u2 \<or> (\<exists>p d r3. r2 = Inr (Some (p, d)) \<and> unpack_entry E e p d u2 = (r3, u'))"
    unfolding unpacked_by_def by (elim exE conjE) (rule that)
  have u1: "unpack_inv tgt u1" using count_entry_fields[OF c] inv by auto
  note i = sanitize_inv[OF u1 policy[OF e(5,3)] s]
  from u' show ?thesis
  proof
    assume "u' = u2" with i show ?thesis by simp
  next
    assume "\<exists>p d r3. r2 = Inr (Some (p, d)) \<and> unpack_entry E e p d u2 = (r3, u')"
    then obtain p d r3 where p: "r2 = Inr (Some (p, d))" "unpack_entry E e p d u2 = (r3, u')" by blast
    show ?thesis by (rule unpack_entry_inv[OF _ _ _ e(4) p(2)]) (use i p(1) in simp_all)
  qed
qed

lemma unpack_entries_inv:
  "unpack_inv tgt u \<Longrightarrow> unpack_entries E utf8 L checker es u = Some (r, u') \<Longrightarrow> unpack_inv tgt u'"
proof (induction es arbitrary: u)
  case (Cons e es)
  then obtain r1 u1 where o: "unpack_one E utf8 L checker e u = Some (r1, u1)" by (auto simp: bind_eq_Some_conv)
  with Cons show ?case using unpack_one_inv[OF Cons.prems(1) o] by (auto split: sum.splits)
qed simp

lemma archive_confined:
  assumes "unpack_archive E utf8 L checker s archive fs = Some (r, u)" "c \<in> set (calls u)"
  shows "call_ok tgt (set (calls u)) c"
proof -
  have "unpack_inv tgt (unpack_start fs s)" by (simp add: unpack_inv_def unpack_start_def dirs_sorted_def)
  with assms(1) have "unpack_inv tgt u" by (auto simp: unpack_archive_def split: sum.splits dest: unpack_entries_inv)
  with assms(2) show ?thesis by (simp add: unpack_inv_def)
qed

end

subsection \<open>The policies of snapshots and genesis archives\<close>

lemma entry_parts_normal: "entry_parts utf8 path = Some parts \<Longrightarrow> ''.'' \<notin> set parts \<Longrightarrow> path = map Normal parts"
  by (induction utf8 path arbitrary: parts rule: entry_parts.induct) (auto split: if_splits)

lemma push_parts_normal: "push_parts dst (map Normal ns) = Some (dst @ map Normal ns)"
  by (induction ns arbitrary: dst) (simp_all add: path_push_def)

lemma is_ascii_digit_dot: "\<not> is_ascii_digit (CHR ''.'')"
  by (simp add: is_ascii_digit_def less_eq_char_def)

lemma like_storage_after: "like_storage_loop 1 saw v \<longleftrightarrow> list_all is_ascii_digit v \<and> (saw \<or> v \<noteq> [])"
  by (induction v arbitrary: saw) auto

lemma like_storage_before:
  "like_storage_loop 0 saw v \<longleftrightarrow> (\<exists>a b. v = a @ CHR ''.'' # b \<and> list_all is_ascii_digit a \<and> (saw \<or> a \<noteq> []) \<and> all_digits b)"
proof (induction v arbitrary: saw)
  case (Cons x xs)
  show ?case
  proof (cases "is_ascii_digit x")
    case True
    then have "x \<noteq> CHR ''.''" using is_ascii_digit_dot by metis
    have "(\<exists>a b. x # xs = a @ CHR ''.'' # b \<and> list_all is_ascii_digit a \<and> (saw \<or> a \<noteq> []) \<and> all_digits b)
      \<longleftrightarrow> (\<exists>a b. xs = a @ CHR ''.'' # b \<and> list_all is_ascii_digit a \<and> all_digits b)" (is "?l \<longleftrightarrow> ?r")
    proof
      assume ?l
      then obtain a b where "x # xs = a @ CHR ''.'' # b" "list_all is_ascii_digit a" "all_digits b" by blast
      then show ?r using \<open>x \<noteq> CHR ''.''\<close> by (cases a) auto
    next
      assume ?r
      then obtain a b where "xs = a @ CHR ''.'' # b" "list_all is_ascii_digit a" "all_digits b" by blast
      then show ?l using True by (intro exI[of _ "x # a"] exI[of _ b]) simp
    qed
    with True Cons[of True] show ?thesis by simp
  next
    case False
    have "(\<exists>a b. x # xs = a @ CHR ''.'' # b \<and> list_all is_ascii_digit a \<and> (saw \<or> a \<noteq> []) \<and> all_digits b)
      \<longleftrightarrow> x = CHR ''.'' \<and> saw \<and> all_digits xs" (is "?l \<longleftrightarrow> ?r")
    proof
      assume ?l
      then obtain a b where "x # xs = a @ CHR ''.'' # b" "list_all is_ascii_digit a" "saw \<or> a \<noteq> []" "all_digits b" by blast
      then show ?r using False by (cases a) auto
    next
      assume ?r
      then show ?l by (intro exI[of _ "[]"] exI[of _ xs]) simp
    qed
    with False show ?thesis using like_storage_after[of False xs] by (auto simp: all_digits_def)
  qed
qed simp

text \<open>The name of an account file: two numbers with a period between them.\<close>

lemma like_storage_iff: "like_storage v \<longleftrightarrow> (\<exists>a b. v = a @ CHR ''.'' # b \<and> all_digits a \<and> all_digits b)"
  by (auto simp: like_storage_def like_storage_before all_digits_def)

lemma not_dot: "\<not> like_storage ''.''" "\<not> all_digits ''.''"
  by (simp_all add: like_storage_iff all_digits_def is_ascii_digit_dot Cons_eq_append_conv)

definition snapshot_file :: "path \<Rightarrow> path list \<Rightarrow> path \<Rightarrow> bool" where
  "snapshot_file ledger_dir account_paths p \<longleftrightarrow>
     (\<exists>a \<in> set account_paths. \<exists>f. like_storage f \<and> p = a @ [Normal f])
   \<or> p = ledger_dir @ [Normal ''version''] \<or> p = ledger_dir @ [Normal ''snapshots'', Normal ''status_cache'']
   \<or> (\<exists>d f. all_digits d \<and> all_digits f \<and> p = ledger_dir @ [Normal ''snapshots'', Normal d, Normal f])"

definition snapshot_dir :: "path \<Rightarrow> path \<Rightarrow> bool" where
  "snapshot_dir ledger_dir p \<longleftrightarrow>
     p = ledger_dir @ [Normal ''accounts''] \<or> p = ledger_dir @ [Normal ''snapshots'']
   \<or> (\<exists>d. all_digits d \<and> p = ledger_dir @ [Normal ''snapshots'', Normal d])"

definition snapshot_targets :: "path \<Rightarrow> path list \<Rightarrow> entry_type \<Rightarrow> path set" where
  "snapshot_targets ledger_dir account_paths kind =
     (if kind = Regular \<or> kind = GNUSparse then {p. snapshot_file ledger_dir account_paths p}
      else if kind = Directory then {p. snapshot_dir ledger_dir p} else {})"

lemma snapshot_parts:
  assumes "is_valid_snapshot_archive_entry parts kind" "entry_parts utf8 path = Some parts"
  shows "path = map Normal parts"
  using assms not_dot by (intro entry_parts_normal) (auto simp: is_valid_snapshot_archive_entry_def split: list.splits)

lemma snapshot_policy:
  assumes c: "snapshot_checker pick ledger_dir account_paths s parts kind = Some (Valid dir, s')"
    and p: "entry_parts utf8 path = Some parts" and q: "push_parts dir (unpack_target parts path) = Some q"
  shows "q \<in> snapshot_targets ledger_dir account_paths kind"
proof -
  have v: "is_valid_snapshot_archive_entry parts kind" using c by (auto simp: snapshot_checker_def split: if_splits)
  note n = snapshot_parts[OF v p]
  show ?thesis
  proof (cases "\<exists>f. parts = [''accounts'', f]")
    case True
    then obtain f where f: "parts = [''accounts'', f]" by blast
    with v have l: "like_storage f" "kind = Regular \<or> kind = GNUSparse" by (auto simp: is_valid_snapshot_archive_entry_def)
    have "f \<noteq> ''.''" using l(1) not_dot(1) by auto
    then have "q = dir @ [Normal f]" using q push_parts_normal[of dir "[f]"] by (simp add: f unpack_target_def path_from_def)
    moreover have "dir \<in> set account_paths"
      using c v by (auto simp: snapshot_checker_def f slice_get_eq_Some split: if_splits option.splits)
    ultimately show ?thesis using l by (auto simp: snapshot_targets_def snapshot_file_def)
  next
    case False
    then have "unpack_target parts path = map Normal parts" by (auto simp: unpack_target_def n split: list.splits)
    then have q': "q = dir @ map Normal parts" using q push_parts_normal[of dir parts] by simp
    have "dir = ledger_dir" using c v False by (auto simp: snapshot_checker_def split: if_splits list.splits)
    then show ?thesis using v False q'
      by (auto simp: is_valid_snapshot_archive_entry_def snapshot_targets_def snapshot_file_def snapshot_dir_def split: list.splits)
  qed
qed

interpretation snapshot_unpack: entry_policy "snapshot_checker pick ledger_dir account_paths" utf8 "snapshot_targets ledger_dir account_paths"
  for pick ledger_dir account_paths utf8
  by unfold_locales (rule snapshot_policy)

definition genesis_targets :: "string \<Rightarrow> path \<Rightarrow> entry_type \<Rightarrow> path set" where
  "genesis_targets genesis_file unpack_dir kind =
     (if kind = Regular \<or> kind = GNUSparse then {unpack_dir @ [Normal genesis_file]} else {})"

lemma genesis_policy:
  assumes c: "is_valid_genesis_archive_entry genesis_file unpack_dir parts kind = Valid dir"
    and p: "entry_parts utf8 path = Some parts" and q: "push_parts dir (unpack_target parts path) = Some q" "q \<noteq> dir"
  shows "q \<in> genesis_targets genesis_file unpack_dir kind"
proof -
  from c have f: "parts = [genesis_file]" "dir = unpack_dir" "kind = Regular \<or> kind = GNUSparse"
    by (auto simp: is_valid_genesis_archive_entry_def split: list.splits if_splits)
  have Nil: "entry_parts utf8 ps = Some [] \<longleftrightarrow> ps = []" for ps
    by (cases "(utf8, ps)" rule: entry_parts.cases) auto
  have "path = [Normal genesis_file] \<or> path = [CurDir]"
    using p f(1) Nil by (cases "(utf8, path)" rule: entry_parts.cases) (auto split: if_splits)
  then show ?thesis using q f by (auto simp: unpack_target_def path_push_def genesis_targets_def)
qed

interpretation genesis_unpack:
  entry_policy "\<lambda>s parts kind. Some (is_valid_genesis_archive_entry genesis_file unpack_dir parts kind, s)" utf8 "genesis_targets genesis_file unpack_dir"
  for genesis_file unpack_dir utf8
  by unfold_locales (auto intro: genesis_policy)

subsection \<open>Properties\<close>

lemma snapshot_parents:
  "\<exists>k. \<exists>q \<in> snapshot_targets ledger_dir account_paths k. p = butlast q \<Longrightarrow>
     p = ledger_dir \<or> p \<in> set account_paths \<or> snapshot_dir ledger_dir p"
  by (auto simp: snapshot_targets_def snapshot_file_def snapshot_dir_def butlast_append split: if_splits)

lemma snapshot_kinds:
  "p \<in> snapshot_targets ledger_dir account_paths k \<Longrightarrow> fallback_kind k \<longleftrightarrow> k = Directory \<and> snapshot_dir ledger_dir p"
  "p \<in> snapshot_targets ledger_dir account_paths k \<Longrightarrow> \<not> fallback_kind k \<longleftrightarrow> entry_mode k = 420 \<and> snapshot_file ledger_dir account_paths p"
  by (cases k; auto simp: snapshot_targets_def fallback_kind_def entry_mode_def split: if_splits)+

text \<open>C15: A snapshot stays in its place.  Whatever is in the archive and whatever the file system answers,
  files are created only as \<open>version\<close>, \<open>snapshots/status_cache\<close> and \<open>snapshots/<number>/<number>\<close> below the
  ledger directory, and as \<open><number>.<number>\<close> directly in one of the account directories, with mode 0644
  and through the handle of the directory that holds them; only directories are left to the archive
  library, so no link is ever created; and directories are made only at these places.\<close>

theorem snapshot_unpack_confined:
  assumes "unpack_snapshot_with_processors E utf8 pick archive ledger_dir account_paths fs = Some (r, u)" "c \<in> set (calls u)"
  shows "case c of
      CreateFile p mode h contents \<Rightarrow> mode = 420 \<and> snapshot_file ledger_dir account_paths p \<and> OpenDir (butlast p) h \<in> set (calls u)
    | TarUnpack p kind \<Rightarrow> kind = Directory \<and> snapshot_dir ledger_dir p
    | SetPermissions p mode \<Rightarrow> mode = 493 \<and> snapshot_dir ledger_dir p
    | CreateDirAll p \<Rightarrow> p = ledger_dir \<or> p \<in> set account_paths \<or> snapshot_dir ledger_dir p
    | OpenDir p h \<Rightarrow> p = ledger_dir \<or> p \<in> set account_paths \<or> snapshot_dir ledger_dir p"
proof -
  have "unpack_archive E utf8 snapshot_limits (snapshot_checker pick ledger_dir account_paths) \<lparr>drawn = 0, append_vecs = []\<rparr> archive fs = Some (r, u)"
    using assms(1) by (simp add: unpack_snapshot_with_processors_def split: if_splits)
  from snapshot_unpack.archive_confined[OF this assms(2)]
  have ok: "call_ok (snapshot_targets ledger_dir account_paths) (set (calls u)) c" .
  have dir: "entry_mode Directory = 493" by (simp add: entry_mode_def)
  show ?thesis
  proof (cases c)
    case (CreateFile p m h b)
    with ok show ?thesis using snapshot_kinds(2)[of p ledger_dir account_paths] by (auto simp: call_ok_def)
  next
    case (TarUnpack p k)
    with ok show ?thesis using snapshot_kinds(1)[of p ledger_dir account_paths k] by (simp add: call_ok_def)
  next
    case (SetPermissions p m)
    with ok show ?thesis using snapshot_kinds(1)[of p ledger_dir account_paths] dir by (auto simp: call_ok_def)
  qed (use ok snapshot_parents in \<open>simp_all add: call_ok_def\<close>)
qed

text \<open>A file system that never fails and whose directories are canonical.\<close>

definition plain_os :: "(unit, nat, string) os_env" where
  "plain_os = \<lparr>os_create_dir_all = (\<lambda>fs p. (Inr (), fs)), os_canonicalize = (\<lambda>fs p. Inr p), os_open_dir = (\<lambda>fs p. Inr (length p)),
     os_create_file = (\<lambda>fs p m b. (Inr (), fs)), os_tar_unpack = (\<lambda>fs p e. (Inr (), fs)), os_set_permissions = (\<lambda>fs p m. (Inr (), fs))\<rparr>"

definition account_entry :: "string tar_entry" where
  "account_entry = \<lparr>en_path = Inr [Normal ''accounts'', Normal ''12.3''], en_path_ends_slash = False, en_is_ustar = True,
     en_type = Regular, en_size = Inr 2, en_entry_size = Inr 2, en_contents = [7, 8]\<rparr>"

definition plain_snapshot :: "((string unpack_error + unit) \<times> (unit, nat, snapshot_state) unpacking) option" where
  "plain_snapshot = unpack_snapshot_with_processors plain_os (\<lambda>_. True) (\<lambda>k n. 0) (Inr [Inr account_entry]) [RootDir, Normal ''l''] [[RootDir, Normal ''a'']] ()"

lemma plain_snapshot_calls:
  "map_option (\<lambda>(r, u). (r, calls u, append_vecs (checker_state u))) plain_snapshot =
     Some (Inr (), [CreateDirAll [RootDir, Normal ''a''], OpenDir [RootDir, Normal ''a''] 2,
       CreateFile [RootDir, Normal ''a'', Normal ''12.3''] 420 2 [7, 8]], [(''12.3'', [RootDir, Normal ''a''])])"
  by code_simp

theorem snapshot_unpack_confined_witness:
  "snapshot_file [RootDir, Normal ''l''] [[RootDir, Normal ''a'']] [RootDir, Normal ''a'', Normal ''12.3'']"
proof -
  obtain r u where s: "plain_snapshot = Some (r, u)"
    "CreateFile [RootDir, Normal ''a'', Normal ''12.3''] 420 2 [7, 8] \<in> set (calls u)"
    using plain_snapshot_calls by auto
  show ?thesis using snapshot_unpack_confined[OF s(1)[unfolded plain_snapshot_def] s(2)] by simp
qed

text \<open>What unpacking has written: entries given to the operating system, and bytes.\<close>

definition created :: "('fs, 'file, 's) unpacking \<Rightarrow> nat" where
  "created u = length (filter (\<lambda>c. case c of CreateFile _ _ _ _ \<Rightarrow> True | TarUnpack _ _ \<Rightarrow> True | _ \<Rightarrow> False) (calls u))"

definition written :: "('fs, 'file, 's) unpacking \<Rightarrow> nat" where
  "written u = sum_list (map (\<lambda>c. case c of CreateFile _ _ _ b \<Rightarrow> length b | _ \<Rightarrow> 0) (calls u))"

definition totals :: "('fs, 'file, 's) unpacking \<Rightarrow> u64 \<times> u64 \<times> 's" where
  "totals u = (apparent_total_size u, total_count u, checker_state u)"

lemma sanitize_frame:
  assumes "sanitize_path_and_open_dir E p dst u = (r, u')"
  shows "totals u' = totals u \<and> created u' = created u \<and> written u' = written u"
proof -
  have d: "totals u2 = totals u \<and> created u2 = created u \<and> written u2 = written u" if "open_dst_dir E dst q u = (r2, u2)" for q r2 u2
    using that by (auto simp: open_dst_dir_def Let_def totals_def created_def written_def split: sum.splits prod.splits)
  show ?thesis
    using assms d by (auto simp: sanitize_path_and_open_dir_def Let_def split: option.splits if_splits sum.splits prod.splits)
qed

lemma unpack_entry_frame:
  assumes "unpack_entry E e p d u = (r, u')"
  shows "totals u' = totals u \<and> created u' \<le> created u + 1 \<and> written u' \<le> written u + length (en_contents e)"
  using assms
  by (auto simp: unpack_entry_def schedule_create_at_dir_def file_complete_def Let_def totals_def created_def written_def
      split: sum.splits prod.splits if_splits)

lemma count_entry_bounds:
  assumes "count_entry L e u = Some (Inr u1)" "apparent_limit_size L < u64_max"
  shows "\<exists>n. en_size e = Inr n \<and> unat (apparent_total_size u1) = unat (apparent_total_size u) + unat n"
    "apparent_total_size u1 \<le> apparent_limit_size L" "unat (total_count u1) = Suc (unat (total_count u))" "total_count u1 \<le> limit_count L"
    "created u1 = created u" "written u1 = written u" "checker_state u1 = checker_state u"
proof -
  obtain n a b c where s: "en_size e = Inr n" "a = u64_saturating_add (apparent_total_size u) n" "\<not> a > apparent_limit_size L"
    "u64_add (total_count u) 1 = Some c" "\<not> c > limit_count L"
    "u1 = u\<lparr>apparent_total_size := a, actual_total_size := b, total_count := c\<rparr>"
    using assms(1)
    by (auto simp: count_entry_def checked_total_size_sum_def checked_total_count_increment_def Let_def result_simps map_sum_def
        bind_eq_Some_conv split: sum.split_asm if_split_asm)
  have "unat a < unat u64_max" using s(3) assms(2) by (simp add: not_less word_less_nat_alt word_le_nat_alt)
  then have "unat a = unat (apparent_total_size u) + unat n" by (simp add: s(2) unat_u64_saturating_add)
  then show "\<exists>n. en_size e = Inr n \<and> unat (apparent_total_size u1) = unat (apparent_total_size u) + unat n" using s by auto
  show "unat (total_count u1) = Suc (unat (total_count u))" using s(4,6) by (simp add: u64_add_eq_Some)
qed (use assms(1) in \<open>auto simp: count_entry_def checked_total_size_sum_def checked_total_count_increment_def Let_def result_simps
    map_sum_def created_def written_def bind_eq_Some_conv not_less split: sum.split_asm if_split_asm\<close>)

text \<open>The limits are checked against the sizes in the headers.  \<open>excess\<close> is how much longer than that the contents
  of the entries are.\<close>

definition entry_excess :: "'io + 'io tar_entry \<Rightarrow> nat" where
  "entry_excess entry =
     (case entry of
        Inl _ \<Rightarrow> 0
      | Inr e \<Rightarrow> (case en_size e of Inl _ \<Rightarrow> 0 | Inr n \<Rightarrow> length (en_contents e) - unat n))"

definition excess :: "('io + 'io tar_entry) list \<Rightarrow> nat" where
  "excess es = sum_list (map entry_excess es)"

definition within_limits :: "limits \<Rightarrow> nat \<Rightarrow> ('fs, 'file, 's) unpacking \<Rightarrow> bool" where
  "within_limits L k u \<longleftrightarrow> created u \<le> unat (total_count u) \<and> total_count u \<le> limit_count L
     \<and> written u \<le> unat (apparent_total_size u) + k \<and> apparent_total_size u \<le> apparent_limit_size L"

lemma unpack_one_within:
  assumes w: "within_limits L k u" and o: "unpack_one E utf8 L checker entry u = Some (r, u')"
    and l: "apparent_limit_size L < u64_max"
  shows "within_limits L (k + entry_excess entry) u'"
  using unpack_one_cases[OF o]
proof
  assume "\<exists>s'. u' = u\<lparr>checker_state := s'\<rparr> \<and> (s' = checker_state u \<or> (\<exists>parts k v. checker (checker_state u) parts k = Some (v, s')))"
  with w show ?thesis by (auto simp: within_limits_def created_def written_def)
next
  assume "unpacked_by E utf8 L checker entry u u'"
  then obtain e path parts dir s' u1 r2 u2 where e: "entry = Inr e"
    and c: "count_entry L e (u\<lparr>checker_state := s'\<rparr>) = Some (Inr u1)"
    and sn: "sanitize_path_and_open_dir E (unpack_target parts path) dir u1 = (r2, u2)"
    and u': "u' = u2 \<or> (\<exists>p d r3. r2 = Inr (Some (p, d)) \<and> unpack_entry E e p d u2 = (r3, u'))"
    unfolding unpacked_by_def by (elim exE conjE) (rule that)
  note b = count_entry_bounds[OF c l] and f = sanitize_frame[OF sn]
  obtain n where n: "en_size e = Inr n" "unat (apparent_total_size u1) = unat (apparent_total_size u) + unat n" using b(1) by auto
  have len: "length (en_contents e) \<le> unat n + entry_excess entry" using e n(1) by (simp add: entry_excess_def)
  have w0: "created u \<le> unat (total_count u)" "written u \<le> unat (apparent_total_size u) + k" using w by (simp_all add: within_limits_def)
  have "totals u' = totals u1 \<and> created u' \<le> created u1 + 1 \<and> written u' \<le> written u1 + length (en_contents e)"
    using u' f by (auto dest: unpack_entry_frame)
  moreover have "created u1 = created u" "written u1 = written u" using b(5,6) by (simp_all add: created_def written_def)
  ultimately show ?thesis using b(2-4) n(2) len w0 by (auto simp: within_limits_def totals_def)
qed

lemma unpack_one_total:
  fixes u :: "('fs, 'file, 's) unpacking"
  assumes c: "\<And>s parts kind. checker s parts kind \<noteq> None" and t: "total_count u < u64_max"
  shows "unpack_one E utf8 L checker entry u \<noteq> None"
proof -
  have cnt: "\<exists>r. count_entry L e u0 = Some r" if "total_count u0 = total_count u" for e and u0 :: "('fs, 'file, 's) unpacking"
    using t that by (auto simp: count_entry_def checked_total_count_increment_def u64_add_def word_less_nat_alt split: sum.splits)
  show ?thesis
  proof (cases "and_then entry (\<lambda>e. and_then (en_path e) (\<lambda>p. Inr (e, p)))")
    case (Inr ep)
    obtain e path where ep: "ep = (e, path)" by (cases ep)
    show ?thesis
    proof (cases "entry_parts utf8 path")
      case (Some parts)
      obtain v s' where v: "checker (checker_state u) parts (en_type e) = Some (v, s')"
        using c[of "checker_state u" parts "en_type e"] by auto
      obtain r where r: "count_entry L e (u\<lparr>checker_state := s'\<rparr>) = Some r" using cnt[of "u\<lparr>checker_state := s'\<rparr>"] by auto
      show ?thesis using Inr ep Some v r
        by (cases v; cases r) (auto simp: unpack_one_def Let_def split: prod.splits)
    qed (simp add: unpack_one_def Inr ep Let_def)
  qed (simp add: unpack_one_def)
qed

lemma within_limits_mono: "within_limits L k u \<Longrightarrow> k \<le> k' \<Longrightarrow> within_limits L k' u"
  by (simp add: within_limits_def)

lemma unpack_entries_within:
  assumes c: "\<And>s parts kind. checker s parts kind \<noteq> None" and l: "apparent_limit_size L < u64_max" "limit_count L < u64_max"
  shows "within_limits L k u \<Longrightarrow> \<exists>r u'. unpack_entries E utf8 L checker es u = Some (r, u') \<and> within_limits L (k + excess es) u'"
proof (induction es arbitrary: k u)
  case (Cons e es)
  have "total_count u < u64_max" using Cons.prems l(2) by (auto simp: within_limits_def)
  then obtain r u1 where o: "unpack_one E utf8 L checker e u = Some (r, u1)" using unpack_one_total[of checker u E utf8 L e] c by fastforce
  note w = unpack_one_within[OF Cons.prems o l(1)]
  have x: "k + excess (e # es) = k + entry_excess e + excess es" by (simp add: excess_def)
  show ?case
    unfolding x using Cons.IH[OF w] within_limits_mono[OF w, of "k + entry_excess e + excess es"] o by (cases r) auto
qed (simp add: excess_def)

text \<open>C30: Unpacking a snapshot always ends with a result, and within the limits.  Whatever the archive holds, at
  most 5 million entries are written, and the contents that are written, as far as they do not exceed
  the sizes their headers declare, are at most 64 TiB; in particular all the contents are at most
  64 TiB if no entry is longer than its header declares.  The code checks only the declared sizes.\<close>

theorem snapshot_unpack_bounded:
  fixes E :: "('fs, 'file, 'io) os_env"
  assumes "account_paths \<noteq> []"
  shows "\<exists>r u. unpack_snapshot_with_processors E utf8 pick (Inr entries) ledger_dir account_paths fs = Some (r, u)
    \<and> created u \<le> 5000000 \<and> written u \<le> 64 * 1024 ^ 4 + excess entries"
proof -
  let ?c = "snapshot_checker pick ledger_dir account_paths"
  have c: "?c s parts kind \<noteq> None" for s parts kind
    using assms(1) by (auto simp: snapshot_checker_def split: list.splits option.splits)
  have l: "apparent_limit_size snapshot_limits < u64_max" "limit_count snapshot_limits < u64_max"
    by (simp_all add: snapshot_limits_def MAX_SNAPSHOT_ARCHIVE_UNPACKED_APPARENT_SIZE_def MAX_SNAPSHOT_ARCHIVE_UNPACKED_COUNT_def u64_max_def word_less_nat_alt)
  have "within_limits snapshot_limits 0 (unpack_start fs \<lparr>drawn = 0, append_vecs = []\<rparr> :: ('fs, 'file, snapshot_state) unpacking)"
    by (simp add: within_limits_def unpack_start_def created_def written_def)
  from unpack_entries_within[where checker = ?c, OF c l this, of E utf8 entries] obtain r u
    where "unpack_entries E utf8 snapshot_limits ?c entries (unpack_start fs \<lparr>drawn = 0, append_vecs = []\<rparr>) = Some (r, u)"
      "within_limits snapshot_limits (excess entries) u" by auto
  then show ?thesis
    using assms(1)
    by (auto simp: unpack_snapshot_with_processors_def unpack_archive_def within_limits_def snapshot_limits_def word_le_nat_alt
        MAX_SNAPSHOT_ARCHIVE_UNPACKED_APPARENT_SIZE_def MAX_SNAPSHOT_ARCHIVE_UNPACKED_COUNT_def)
qed

theorem snapshot_unpack_bounded_witness:
  "\<exists>r u. plain_snapshot = Some (r, u) \<and> created u \<le> 5000000 \<and> written u \<le> 64 * 1024 ^ 4"
proof -
  have "excess [Inr account_entry :: string + string tar_entry] = 0"
    by (simp add: excess_def entry_excess_def account_entry_def)
  moreover have "\<exists>r u. plain_snapshot = Some (r, u) \<and> created u \<le> 5000000
      \<and> written u \<le> 64 * 1024 ^ 4 + excess [Inr account_entry :: string + string tar_entry]"
    unfolding plain_snapshot_def by (rule snapshot_unpack_bounded) simp
  ultimately show ?thesis by simp
qed

text \<open>What holds of the checker's state, whatever is unpacked.\<close>

lemma unpack_entries_checker:
  assumes I: "\<forall>s parts kind v s'. I s \<and> checker s parts kind = Some (v, s') \<longrightarrow> I s'"
  shows "I (checker_state u) \<Longrightarrow> unpack_entries E utf8 L checker es u = Some (r, u') \<Longrightarrow> I (checker_state u')"
proof (induction es arbitrary: u)
  case (Cons e es)
  then obtain r1 u1 where o: "unpack_one E utf8 L checker e u = Some (r1, u1)" by (auto simp: bind_eq_Some_conv)
  have "I (checker_state u1)"
    using unpack_one_cases[OF o]
  proof
    assume "\<exists>s'. u1 = u\<lparr>checker_state := s'\<rparr> \<and> (s' = checker_state u \<or> (\<exists>parts k v. checker (checker_state u) parts k = Some (v, s')))"
    then show ?thesis using Cons.prems(1) I by auto
  next
    assume "unpacked_by E utf8 L checker e u u1"
    then obtain e' path parts dir s' w r2 w2 where c: "checker (checker_state u) parts (en_type e') = Some (Valid dir, s')"
      and n: "count_entry L e' (u\<lparr>checker_state := s'\<rparr>) = Some (Inr w)"
      and s: "sanitize_path_and_open_dir E (unpack_target parts path) dir w = (r2, w2)"
      and u1: "u1 = w2 \<or> (\<exists>p d r3. r2 = Inr (Some (p, d)) \<and> unpack_entry E e' p d w2 = (r3, u1))"
      unfolding unpacked_by_def by (elim exE conjE) (rule that)
    have "checker_state u1 = s'"
      using u1 sanitize_frame[OF s] count_entry_fields[OF n] by (auto dest: unpack_entry_frame simp: totals_def)
    with I Cons.prems(1) c show ?thesis by blast
  qed
  with Cons o show ?case by (auto split: sum.splits)
qed simp

lemma append_vec_map:
  "foldl (\<lambda>m (file, path). m(file \<mapsto> path_push (path_push path ''accounts'') file)) m0 avs x = Some p
   \<Longrightarrow> m0 x = Some p \<or> (\<exists>a. (x, a) \<in> set avs \<and> p = a @ [Normal ''accounts'', Normal x])"
  by (induction avs arbitrary: m0) (fastforce simp: path_push_def split: if_splits)+

lemma append_vecs_named:
  assumes "unpack_snapshot_with_processors E utf8 pick archive ledger_dir account_paths fs = Some (r, u)"
  shows "\<forall>(f, a) \<in> set (append_vecs (checker_state u)). like_storage f \<and> a \<in> set account_paths"
proof -
  let ?I = "\<lambda>s. \<forall>(f, a) \<in> set (append_vecs s). like_storage f \<and> a \<in> set account_paths"
  have I: "\<forall>s parts kind v s'. ?I s \<and> snapshot_checker pick ledger_dir account_paths s parts kind = Some (v, s') \<longrightarrow> ?I s'"
    by (auto simp: snapshot_checker_def is_valid_snapshot_archive_entry_def slice_get_eq_Some
        split: if_splits list.splits option.splits)
  note run = unpack_entries_checker[where I = ?I and checker = "snapshot_checker pick ledger_dir account_paths", OF I]
  show ?thesis
  proof (cases archive)
    case (Inr es)
    then have "unpack_entries E utf8 snapshot_limits (snapshot_checker pick ledger_dir account_paths) es
        (unpack_start fs \<lparr>drawn = 0, append_vecs = []\<rparr>) = Some (r, u)"
      using assms by (simp add: unpack_snapshot_with_processors_def unpack_archive_def split: if_splits)
    then show ?thesis by (rule run[rotated 1]) (simp add: unpack_start_def)
  qed (use assms in \<open>auto simp: unpack_snapshot_with_processors_def unpack_archive_def unpack_start_def split: if_splits\<close>)
qed

lemma snapshot_file_created:
  assumes "unpack_snapshot_with_processors E utf8 pick archive ledger_dir account_paths fs = Some (r, u)" "CreateFile p m h b \<in> set (calls u)"
  shows "snapshot_file ledger_dir account_paths p"
proof -
  have "unpack_archive E utf8 snapshot_limits (snapshot_checker pick ledger_dir account_paths) \<lparr>drawn = 0, append_vecs = []\<rparr> archive fs = Some (r, u)"
    using assms(1) by (simp add: unpack_snapshot_with_processors_def split: if_splits)
  from snapshot_unpack.archive_confined[OF this assms(2)] show ?thesis
    using snapshot_kinds(2)[of p ledger_dir account_paths] by (auto simp: call_ok_def)
qed

text \<open>C31: The map \<open>unpack_snapshot\<close> returns does not say where the files are: it gives \<open><account
  path>/accounts/<file>\<close>, where, unless that directory is itself an account path, no file was created,
  since account files are put into the account path directly.\<close>

theorem append_vec_map_misses:
  assumes "unpack_snapshot E utf8 pick archive ledger_dir account_paths fs = Some (Inr m, u)" "m file = Some p"
    and "\<forall>a \<in> set account_paths. a @ [Normal ''accounts''] \<notin> set account_paths"
  shows "\<exists>a \<in> set account_paths. p = a @ [Normal ''accounts'', Normal file] \<and> (\<forall>mode h b. CreateFile p mode h b \<notin> set (calls u))"
proof -
  obtain r where r: "unpack_snapshot_with_processors E utf8 pick archive ledger_dir account_paths fs = Some (r, u)"
    and m: "foldl (\<lambda>m (file, path). m(file \<mapsto> path_push (path_push path ''accounts'') file)) (\<lambda>_. None) (append_vecs (checker_state u)) = m"
  proof (cases "unpack_snapshot_with_processors E utf8 pick archive ledger_dir account_paths fs")
    case (Some ru)
    then show ?thesis using assms(1) that by (cases ru; cases "fst ru") (auto simp: unpack_snapshot_def)
  qed (use assms(1) in \<open>simp add: unpack_snapshot_def\<close>)
  obtain a where a: "(file, a) \<in> set (append_vecs (checker_state u))" and p: "p = a @ [Normal ''accounts'', Normal file]"
    using append_vec_map[of "\<lambda>_. None"] assms(2) m by fastforce
  from append_vecs_named[OF r] a have f: "like_storage file" and ap: "a \<in> set account_paths" by auto
  have nd: "\<not> all_digits file" using f by (auto simp: like_storage_iff all_digits_def is_ascii_digit_dot)
  have "\<not> like_storage ''version''" "\<not> like_storage ''status_cache''"
    by (simp_all add: like_storage_def is_ascii_digit_def less_eq_char_def)
  with f have nv: "file \<noteq> ''version''" "file \<noteq> ''status_cache''" by auto
  have "\<not> snapshot_file ledger_dir account_paths p"
  proof
    assume "snapshot_file ledger_dir account_paths p"
    moreover have "a @ [Normal ''accounts''] \<notin> set account_paths" using assms(3) ap by blast
    moreover have "p = (a @ [Normal ''accounts'']) @ [Normal file]" by (simp add: p)
    ultimately show False using nd nv by (auto simp: snapshot_file_def p)
  qed
  with snapshot_file_created[OF r] ap p show ?thesis by blast
qed

theorem append_vec_map_misses_witness:
  "\<exists>m u. unpack_snapshot plain_os (\<lambda>_. True) (\<lambda>k n. 0) (Inr [Inr account_entry]) [RootDir, Normal ''l''] [[RootDir, Normal ''a'']] () = Some (Inr m, u)
     \<and> m ''12.3'' = Some [RootDir, Normal ''a'', Normal ''accounts'', Normal ''12.3'']
     \<and> (\<forall>mode h b. CreateFile [RootDir, Normal ''a'', Normal ''accounts'', Normal ''12.3''] mode h b \<notin> set (calls u))"
proof -
  obtain u where u: "plain_snapshot = Some (Inr (), u)" "append_vecs (checker_state u) = [(''12.3'', [RootDir, Normal ''a''])]"
    using plain_snapshot_calls by auto
  let ?m = "(\<lambda>_. None)(''12.3'' \<mapsto> [RootDir, Normal ''a'', Normal ''accounts'', Normal ''12.3''])"
  have s: "unpack_snapshot plain_os (\<lambda>_. True) (\<lambda>k n. 0) (Inr [Inr account_entry]) [RootDir, Normal ''l''] [[RootDir, Normal ''a'']] () = Some (Inr ?m, u)"
    unfolding unpack_snapshot_def u(1)[unfolded plain_snapshot_def] by (simp add: u(2) path_push_def)
  have "\<forall>a \<in> set [[RootDir, Normal ''a'']]. a @ [Normal ''accounts''] \<notin> set [[RootDir, Normal ''a'']]" by simp
  from append_vec_map_misses[OF s _ this, of "''12.3''"] s show ?thesis by auto
qed

text \<open>A genesis archive yields one file: whatever is in it, only the genesis file is created, directly in
  the destination directory, with mode 0644; nothing is left to the archive library.\<close>

theorem genesis_unpack_confined:
  assumes "unpack_genesis E utf8 genesis_file archive unpack_dir max_size fs = Some (r, u)" "c \<in> set (calls u)"
  shows "case c of
      CreateFile p mode h contents \<Rightarrow> p = unpack_dir @ [Normal genesis_file] \<and> mode = 420 \<and> OpenDir unpack_dir h \<in> set (calls u)
    | CreateDirAll p \<Rightarrow> p = unpack_dir
    | OpenDir p h \<Rightarrow> p = unpack_dir
    | _ \<Rightarrow> False"
  using genesis_unpack.archive_confined[OF assms[unfolded unpack_genesis_def]]
  by (auto simp: call_ok_def genesis_targets_def fallback_kind_def entry_mode_def split: os_call.splits if_splits)

definition plain_genesis :: "((string unpack_error + unit) \<times> (unit, nat, unit) unpacking) option" where
  "plain_genesis = unpack_genesis plain_os (\<lambda>_. True) ''genesis.bin''
     (Inr [Inr (account_entry\<lparr>en_path := Inr [Normal ''genesis.bin'']\<rparr>)]) [RootDir, Normal ''l''] 100 ()"

lemma plain_genesis_calls:
  "map_option (\<lambda>(r, u). calls u) plain_genesis = Some [CreateDirAll [RootDir, Normal ''l''], OpenDir [RootDir, Normal ''l''] 2,
     CreateFile [RootDir, Normal ''l'', Normal ''genesis.bin''] 420 2 [7, 8]]"
  by code_simp

theorem genesis_unpack_confined_witness:
  "\<exists>r u. plain_genesis = Some (r, u) \<and> OpenDir [RootDir, Normal ''l''] 2 \<in> set (calls u)"
proof -
  obtain r u where s: "plain_genesis = Some (r, u)"
    "CreateFile [RootDir, Normal ''l'', Normal ''genesis.bin''] 420 2 [7, 8] \<in> set (calls u)"
    using plain_genesis_calls by auto
  show ?thesis using s genesis_unpack_confined[OF s(1)[unfolded plain_genesis_def] s(2)] by auto
qed
end
