(* ===== verification/Tx_Errors.thy ===== *)
theory Tx_Errors
  imports Prelude
begin

section \<open>Transaction errors in the address index\<close>

text \<open>
  The conversions of \<open>TransactionError\<close> to and from the messages of
  \<open>src/storage-proto/proto/transaction_by_addr.proto\<close>, in \<open>src/storage-proto/src/convert.rs\<close>.  The two
  error enumerations have the variants the conversions match on; the generated message types are
  those the protocol file declares.  A code is an \<open>i32\<close> as the generated code stores it, here an
  integer; encoding composes the match to the generated enumeration with its number in the protocol file; \<open>match\<close> on a code is the lookup in the table of its arms.
\<close>

subsection \<open>Types\<close>

datatype (plugins only: code) tx_instruction_error =
    IE_GenericError | IE_InvalidArgument | IE_InvalidInstructionData | IE_InvalidAccountData
    | IE_AccountDataTooSmall | IE_InsufficientFunds | IE_IncorrectProgramId | IE_MissingRequiredSignature
    | IE_AccountAlreadyInitialized | IE_UninitializedAccount | IE_UnbalancedInstruction | IE_ModifiedProgramId
    | IE_ExternalAccountLamportSpend | IE_ExternalAccountDataModified | IE_ReadonlyLamportChange
    | IE_ReadonlyDataModified | IE_DuplicateAccountIndex | IE_ExecutableModified | IE_RentEpochModified
    | IE_NotEnoughAccountKeys | IE_AccountDataSizeChanged | IE_AccountNotExecutable | IE_AccountBorrowFailed
    | IE_AccountBorrowOutstanding | IE_DuplicateAccountOutOfSync | IE_Custom u32 | IE_InvalidError
    | IE_ExecutableDataModified | IE_ExecutableLamportChange | IE_ExecutableAccountNotRentExempt
    | IE_UnsupportedProgramId | IE_CallDepth | IE_MissingAccount | IE_ReentrancyNotAllowed
    | IE_MaxSeedLengthExceeded | IE_InvalidSeeds | IE_InvalidRealloc | IE_ComputationalBudgetExceeded
    | IE_PrivilegeEscalation | IE_ProgramEnvironmentSetupFailure | IE_ProgramFailedToComplete
    | IE_ProgramFailedToCompile | IE_Immutable | IE_IncorrectAuthority | IE_BorshIoError
    | IE_AccountNotRentExempt | IE_InvalidAccountOwner | IE_ArithmeticOverflow | IE_UnsupportedSysvar
    | IE_IllegalOwner | IE_MaxAccountsDataAllocationsExceeded | IE_MaxAccountsExceeded
    | IE_MaxInstructionTraceLengthExceeded | IE_BuiltinProgramsMustConsumeComputeUnits

datatype (plugins only: code) transaction_error =
    TE_AccountInUse | TE_AccountLoadedTwice | TE_AccountNotFound | TE_ProgramAccountNotFound
    | TE_InsufficientFundsForFee | TE_InvalidAccountForFee | TE_AlreadyProcessed | TE_BlockhashNotFound
    | TE_CallChainTooDeep | TE_MissingSignatureForFee | TE_InvalidAccountIndex | TE_SignatureFailure
    | TE_InvalidProgramForExecution | TE_SanitizeFailure | TE_ClusterMaintenance
    | TE_InstructionError u8 tx_instruction_error | TE_AccountBorrowOutstanding
    | TE_WouldExceedMaxBlockCostLimit | TE_UnsupportedVersion | TE_InvalidWritableAccount
    | TE_WouldExceedMaxAccountCostLimit | TE_WouldExceedAccountDataBlockLimit | TE_TooManyAccountLocks
    | TE_AddressLookupTableNotFound | TE_InvalidAddressLookupTableOwner | TE_InvalidAddressLookupTableData
    | TE_InvalidAddressLookupTableIndex | TE_InvalidRentPayingAccount | TE_WouldExceedMaxVoteCostLimit
    | TE_WouldExceedAccountDataTotalLimit | TE_DuplicateInstruction u8 | TE_InsufficientFundsForRent u8
    | TE_MaxLoadedAccountsDataSizeExceeded | TE_InvalidLoadedAccountsDataSizeLimit | TE_ResanitizationNeeded
    | TE_ProgramExecutionTemporarilyRestricted u8 | TE_UnbalancedTransaction | TE_ProgramCacheHitMaxLimit
    | TE_CommitCancelled

datatype custom_error = CustomError (custom: u32)

record proto_instruction_error =
  pie_index :: u32
  pie_error :: int
  pie_custom :: "custom_error option"

datatype transaction_details = TransactionDetails (details_index: u32)

record proto_transaction_error =
  pte_transaction_error :: int
  pte_instruction_error :: "proto_instruction_error option"
  pte_transaction_details :: "transaction_details option"

datatype by_addr_error = InvalidInstructionError | InvalidTransactionError | InvalidSignature

subsection \<open>Conversions\<close>

primrec instruction_error_as_i32 :: "tx_instruction_error \<Rightarrow> int" where
  "instruction_error_as_i32 IE_GenericError = 0"
| "instruction_error_as_i32 IE_InvalidArgument = 1"
| "instruction_error_as_i32 IE_InvalidInstructionData = 2"
| "instruction_error_as_i32 IE_InvalidAccountData = 3"
| "instruction_error_as_i32 IE_AccountDataTooSmall = 4"
| "instruction_error_as_i32 IE_InsufficientFunds = 5"
| "instruction_error_as_i32 IE_IncorrectProgramId = 6"
| "instruction_error_as_i32 IE_MissingRequiredSignature = 7"
| "instruction_error_as_i32 IE_AccountAlreadyInitialized = 8"
| "instruction_error_as_i32 IE_UninitializedAccount = 9"
| "instruction_error_as_i32 IE_UnbalancedInstruction = 10"
| "instruction_error_as_i32 IE_ModifiedProgramId = 11"
| "instruction_error_as_i32 IE_ExternalAccountLamportSpend = 12"
| "instruction_error_as_i32 IE_ExternalAccountDataModified = 13"
| "instruction_error_as_i32 IE_ReadonlyLamportChange = 14"
| "instruction_error_as_i32 IE_ReadonlyDataModified = 15"
| "instruction_error_as_i32 IE_DuplicateAccountIndex = 16"
| "instruction_error_as_i32 IE_ExecutableModified = 17"
| "instruction_error_as_i32 IE_RentEpochModified = 18"
| "instruction_error_as_i32 IE_NotEnoughAccountKeys = 19"
| "instruction_error_as_i32 IE_AccountDataSizeChanged = 20"
| "instruction_error_as_i32 IE_AccountNotExecutable = 21"
| "instruction_error_as_i32 IE_AccountBorrowFailed = 22"
| "instruction_error_as_i32 IE_AccountBorrowOutstanding = 23"
| "instruction_error_as_i32 IE_DuplicateAccountOutOfSync = 24"
| "instruction_error_as_i32 (IE_Custom _) = 25"
| "instruction_error_as_i32 IE_InvalidError = 26"
| "instruction_error_as_i32 IE_ExecutableDataModified = 27"
| "instruction_error_as_i32 IE_ExecutableLamportChange = 28"
| "instruction_error_as_i32 IE_ExecutableAccountNotRentExempt = 29"
| "instruction_error_as_i32 IE_UnsupportedProgramId = 30"
| "instruction_error_as_i32 IE_CallDepth = 31"
| "instruction_error_as_i32 IE_MissingAccount = 32"
| "instruction_error_as_i32 IE_ReentrancyNotAllowed = 33"
| "instruction_error_as_i32 IE_MaxSeedLengthExceeded = 34"
| "instruction_error_as_i32 IE_InvalidSeeds = 35"
| "instruction_error_as_i32 IE_InvalidRealloc = 36"
| "instruction_error_as_i32 IE_ComputationalBudgetExceeded = 37"
| "instruction_error_as_i32 IE_PrivilegeEscalation = 38"
| "instruction_error_as_i32 IE_ProgramEnvironmentSetupFailure = 39"
| "instruction_error_as_i32 IE_ProgramFailedToComplete = 40"
| "instruction_error_as_i32 IE_ProgramFailedToCompile = 41"
| "instruction_error_as_i32 IE_Immutable = 42"
| "instruction_error_as_i32 IE_IncorrectAuthority = 43"
| "instruction_error_as_i32 IE_BorshIoError = 44"
| "instruction_error_as_i32 IE_AccountNotRentExempt = 45"
| "instruction_error_as_i32 IE_InvalidAccountOwner = 46"
| "instruction_error_as_i32 IE_ArithmeticOverflow = 47"
| "instruction_error_as_i32 IE_UnsupportedSysvar = 48"
| "instruction_error_as_i32 IE_IllegalOwner = 49"
| "instruction_error_as_i32 IE_MaxAccountsDataAllocationsExceeded = 50"
| "instruction_error_as_i32 IE_MaxAccountsExceeded = 51"
| "instruction_error_as_i32 IE_MaxInstructionTraceLengthExceeded = 52"
| "instruction_error_as_i32 IE_BuiltinProgramsMustConsumeComputeUnits = 53"

primrec transaction_error_as_i32 :: "transaction_error \<Rightarrow> int" where
  "transaction_error_as_i32 TE_AccountInUse = 0"
| "transaction_error_as_i32 TE_AccountLoadedTwice = 1"
| "transaction_error_as_i32 TE_AccountNotFound = 2"
| "transaction_error_as_i32 TE_ProgramAccountNotFound = 3"
| "transaction_error_as_i32 TE_InsufficientFundsForFee = 4"
| "transaction_error_as_i32 TE_InvalidAccountForFee = 5"
| "transaction_error_as_i32 TE_AlreadyProcessed = 6"
| "transaction_error_as_i32 TE_BlockhashNotFound = 7"
| "transaction_error_as_i32 TE_CallChainTooDeep = 9"
| "transaction_error_as_i32 TE_MissingSignatureForFee = 10"
| "transaction_error_as_i32 TE_InvalidAccountIndex = 11"
| "transaction_error_as_i32 TE_SignatureFailure = 12"
| "transaction_error_as_i32 TE_InvalidProgramForExecution = 13"
| "transaction_error_as_i32 TE_SanitizeFailure = 14"
| "transaction_error_as_i32 TE_ClusterMaintenance = 15"
| "transaction_error_as_i32 (TE_InstructionError _ _) = 8"
| "transaction_error_as_i32 TE_AccountBorrowOutstanding = 16"
| "transaction_error_as_i32 TE_WouldExceedMaxBlockCostLimit = 17"
| "transaction_error_as_i32 TE_UnsupportedVersion = 18"
| "transaction_error_as_i32 TE_InvalidWritableAccount = 19"
| "transaction_error_as_i32 TE_WouldExceedMaxAccountCostLimit = 20"
| "transaction_error_as_i32 TE_WouldExceedAccountDataBlockLimit = 21"
| "transaction_error_as_i32 TE_TooManyAccountLocks = 22"
| "transaction_error_as_i32 TE_AddressLookupTableNotFound = 23"
| "transaction_error_as_i32 TE_InvalidAddressLookupTableOwner = 24"
| "transaction_error_as_i32 TE_InvalidAddressLookupTableData = 25"
| "transaction_error_as_i32 TE_InvalidAddressLookupTableIndex = 26"
| "transaction_error_as_i32 TE_InvalidRentPayingAccount = 27"
| "transaction_error_as_i32 TE_WouldExceedMaxVoteCostLimit = 28"
| "transaction_error_as_i32 TE_WouldExceedAccountDataTotalLimit = 29"
| "transaction_error_as_i32 (TE_DuplicateInstruction _) = 30"
| "transaction_error_as_i32 (TE_InsufficientFundsForRent _) = 31"
| "transaction_error_as_i32 TE_MaxLoadedAccountsDataSizeExceeded = 32"
| "transaction_error_as_i32 TE_InvalidLoadedAccountsDataSizeLimit = 33"
| "transaction_error_as_i32 TE_ResanitizationNeeded = 34"
| "transaction_error_as_i32 (TE_ProgramExecutionTemporarilyRestricted _) = 35"
| "transaction_error_as_i32 TE_UnbalancedTransaction = 36"
| "transaction_error_as_i32 TE_ProgramCacheHitMaxLimit = 37"
| "transaction_error_as_i32 TE_CommitCancelled = 38"

definition instruction_error_codes :: "(int \<times> tx_instruction_error) list" where
  "instruction_error_codes =
     [(0, IE_GenericError), (1, IE_InvalidArgument), (2, IE_InvalidInstructionData), (3, IE_InvalidAccountData)
      , (4, IE_AccountDataTooSmall), (5, IE_InsufficientFunds), (6, IE_IncorrectProgramId)
      , (7, IE_MissingRequiredSignature), (8, IE_AccountAlreadyInitialized), (9, IE_UninitializedAccount)
      , (10, IE_UnbalancedInstruction), (11, IE_ModifiedProgramId), (12, IE_ExternalAccountLamportSpend)
      , (13, IE_ExternalAccountDataModified), (14, IE_ReadonlyLamportChange), (15, IE_ReadonlyDataModified)
      , (16, IE_DuplicateAccountIndex), (17, IE_ExecutableModified), (18, IE_RentEpochModified)
      , (19, IE_NotEnoughAccountKeys), (20, IE_AccountDataSizeChanged), (21, IE_AccountNotExecutable)
      , (22, IE_AccountBorrowFailed), (23, IE_AccountBorrowOutstanding), (24, IE_DuplicateAccountOutOfSync)
      , (26, IE_InvalidError), (27, IE_ExecutableDataModified), (28, IE_ExecutableLamportChange)
      , (29, IE_ExecutableAccountNotRentExempt), (30, IE_UnsupportedProgramId), (31, IE_CallDepth)
      , (32, IE_MissingAccount), (33, IE_ReentrancyNotAllowed), (34, IE_MaxSeedLengthExceeded)
      , (35, IE_InvalidSeeds), (36, IE_InvalidRealloc), (37, IE_ComputationalBudgetExceeded)
      , (38, IE_PrivilegeEscalation), (39, IE_ProgramEnvironmentSetupFailure), (40, IE_ProgramFailedToComplete)
      , (41, IE_ProgramFailedToCompile), (42, IE_Immutable), (43, IE_IncorrectAuthority), (44, IE_BorshIoError)
      , (45, IE_AccountNotRentExempt), (46, IE_InvalidAccountOwner), (47, IE_ArithmeticOverflow)
      , (48, IE_UnsupportedSysvar), (49, IE_IllegalOwner), (50, IE_MaxAccountsDataAllocationsExceeded)
      , (51, IE_MaxAccountsExceeded), (52, IE_MaxInstructionTraceLengthExceeded)
      , (53, IE_BuiltinProgramsMustConsumeComputeUnits)]"

definition transaction_error_codes :: "(int \<times> transaction_error) list" where
  "transaction_error_codes =
     [(0, TE_AccountInUse), (1, TE_AccountLoadedTwice), (2, TE_AccountNotFound), (3, TE_ProgramAccountNotFound)
      , (4, TE_InsufficientFundsForFee), (5, TE_InvalidAccountForFee), (6, TE_AlreadyProcessed)
      , (7, TE_BlockhashNotFound), (9, TE_CallChainTooDeep), (10, TE_MissingSignatureForFee)
      , (11, TE_InvalidAccountIndex), (12, TE_SignatureFailure), (13, TE_InvalidProgramForExecution)
      , (14, TE_SanitizeFailure), (15, TE_ClusterMaintenance), (16, TE_AccountBorrowOutstanding)
      , (17, TE_WouldExceedMaxBlockCostLimit), (18, TE_UnsupportedVersion), (19, TE_InvalidWritableAccount)
      , (20, TE_WouldExceedMaxAccountCostLimit), (21, TE_WouldExceedAccountDataBlockLimit)
      , (22, TE_TooManyAccountLocks), (23, TE_AddressLookupTableNotFound)
      , (24, TE_InvalidAddressLookupTableOwner), (25, TE_InvalidAddressLookupTableData)
      , (26, TE_InvalidAddressLookupTableIndex), (27, TE_InvalidRentPayingAccount)
      , (28, TE_WouldExceedMaxVoteCostLimit), (29, TE_WouldExceedAccountDataTotalLimit)
      , (32, TE_MaxLoadedAccountsDataSizeExceeded), (33, TE_InvalidLoadedAccountsDataSizeLimit)
      , (34, TE_ResanitizationNeeded), (36, TE_UnbalancedTransaction), (37, TE_ProgramCacheHitMaxLimit)
      , (38, TE_CommitCancelled)]"

definition instruction_error_into :: "u8 \<Rightarrow> tx_instruction_error \<Rightarrow> proto_instruction_error" where
  "instruction_error_into index e =
     \<lparr>pie_index = ucast index,
      pie_error = instruction_error_as_i32 e,
      pie_custom = (case e of IE_Custom c \<Rightarrow> Some (CustomError c) | _ \<Rightarrow> None)\<rparr>"

definition transaction_error_into :: "transaction_error \<Rightarrow> proto_transaction_error" where
  "transaction_error_into e =
     \<lparr>pte_transaction_error = transaction_error_as_i32 e,
      pte_instruction_error = (case e of TE_InstructionError index ie \<Rightarrow> Some (instruction_error_into index ie) | _ \<Rightarrow> None),
      pte_transaction_details =
        (case e of
           TE_DuplicateInstruction index \<Rightarrow> Some (TransactionDetails (ucast index))
         | TE_InsufficientFundsForRent account_index \<Rightarrow> Some (TransactionDetails (ucast account_index))
         | TE_ProgramExecutionTemporarilyRestricted account_index \<Rightarrow> Some (TransactionDetails (ucast account_index))
         | _ \<Rightarrow> None)\<rparr>"

definition instruction_error_try_from :: "proto_instruction_error \<Rightarrow> by_addr_error + transaction_error" where
  "instruction_error_try_from p =
     (case pie_custom p of
        Some c \<Rightarrow> Inr (TE_InstructionError (ucast (pie_index p)) (IE_Custom (custom c)))
      | None \<Rightarrow>
          (case map_of instruction_error_codes (pie_error p) of
             None \<Rightarrow> Inl InvalidInstructionError
           | Some ie \<Rightarrow> Inr (TE_InstructionError (ucast (pie_index p)) ie)))"

definition transaction_details_error :: "int \<Rightarrow> u8 \<Rightarrow> transaction_error option" where
  \<comment> \<open>the three codes that carry an index\<close>
  "transaction_details_error code index =
     (if code = 30 then Some (TE_DuplicateInstruction index)
      else if code = 31 then Some (TE_InsufficientFundsForRent index)
      else if code = 35 then Some (TE_ProgramExecutionTemporarilyRestricted index)
      else None)"

definition transaction_error_try_from :: "proto_transaction_error \<Rightarrow> by_addr_error + transaction_error" where
  "transaction_error_try_from p =
     (case (if pte_transaction_error p = 8 then pte_instruction_error p else None) of
        Some ie \<Rightarrow> instruction_error_try_from ie
      | None \<Rightarrow>
          (case Option.bind (pte_transaction_details p)
                  (\<lambda>d. transaction_details_error (pte_transaction_error p) (ucast (details_index d))) of
             Some e \<Rightarrow> Inr e
           | None \<Rightarrow>
               (case map_of transaction_error_codes (pte_transaction_error p) of
                  None \<Rightarrow> Inl InvalidTransactionError
                | Some e \<Rightarrow> Inr e)))"

subsection \<open>Round trip\<close>

lemma ucast_u8_u32 [simp]: "ucast (ucast (w :: u8) :: u32) = w"
  by (simp add: ucast_up_ucast_id is_up)

lemma instruction_error_code_roundtrip:
  "(case e of IE_Custom c \<Rightarrow> True
    | _ \<Rightarrow> map_of instruction_error_codes (instruction_error_as_i32 e) = Some e)"
  by (cases e) (simp_all add: instruction_error_codes_def)

lemma instruction_error_roundtrip:
  "instruction_error_try_from (instruction_error_into index e) = Inr (TE_InstructionError index e)"
  using instruction_error_code_roundtrip[of e]
  by (cases e) (simp_all add: instruction_error_try_from_def instruction_error_into_def)

lemma transaction_error_roundtrip: "transaction_error_try_from (transaction_error_into e) = Inr e"
  by (cases e)
    (simp_all add: transaction_error_try_from_def transaction_error_into_def instruction_error_roundtrip
      transaction_error_codes_def transaction_details_error_def)

subsection \<open>What is decoded\<close>

lemma codes_domains:
  "map fst instruction_error_codes = [0..24] @ [26..53]"
  "map fst transaction_error_codes = [0..7] @ [9..29] @ [32..34] @ [36..38]"
  by code_simp+

lemma codes_values:
  "list_all (\<lambda>(c, e). instruction_error_as_i32 e = c) instruction_error_codes"
  "list_all (\<lambda>(c, e). transaction_error_as_i32 e = c) transaction_error_codes"
  by (simp_all add: instruction_error_codes_def transaction_error_codes_def)

lemma codes_None:
  "map_of instruction_error_codes c = None \<longleftrightarrow> \<not> (0 \<le> c \<and> c \<le> 53 \<and> c \<noteq> 25)"
  "map_of transaction_error_codes c = None \<longleftrightarrow> \<not> (0 \<le> c \<and> c \<le> 38 \<and> c \<noteq> 8 \<and> c \<noteq> 30 \<and> c \<noteq> 31 \<and> c \<noteq> 35)"
proof -
  have "map_of l c = None \<longleftrightarrow> c \<notin> set (map fst l)" for l :: "(int \<times> 'a) list"
    by (simp add: map_of_eq_None_iff)
  note * = this[of instruction_error_codes] and ** = this[of transaction_error_codes]
  show "map_of instruction_error_codes c = None \<longleftrightarrow> \<not> (0 \<le> c \<and> c \<le> 53 \<and> c \<noteq> 25)"
    unfolding * codes_domains set_append set_upto Un_iff atLeastAtMost_iff by linarith
  show "map_of transaction_error_codes c = None \<longleftrightarrow> \<not> (0 \<le> c \<and> c \<le> 38 \<and> c \<noteq> 8 \<and> c \<noteq> 30 \<and> c \<noteq> 31 \<and> c \<noteq> 35)"
    unfolding ** codes_domains set_append set_upto Un_iff atLeastAtMost_iff by linarith
qed

lemma map_of_codes_value: "list_all (\<lambda>(c, e). f e = c) l \<Longrightarrow> map_of l c = Some e \<Longrightarrow> f e = c"
  by (auto simp: list_all_iff dest: map_of_SomeD)

definition decodable_instruction_error :: "proto_instruction_error \<Rightarrow> bool" where
  "decodable_instruction_error p \<longleftrightarrow>
     pie_custom p \<noteq> None \<or> 0 \<le> pie_error p \<and> pie_error p \<le> 53 \<and> pie_error p \<noteq> 25"

definition decodable_transaction_error :: "proto_transaction_error \<Rightarrow> bool" where
  "decodable_transaction_error p \<longleftrightarrow>
     (let c = pte_transaction_error p
      in if c = 8 then (case pte_instruction_error p of None \<Rightarrow> False | Some ie \<Rightarrow> decodable_instruction_error ie)
         else if c \<in> {30, 31, 35} then pte_transaction_details p \<noteq> None
         else 0 \<le> c \<and> c \<le> 38)"

lemma instruction_error_decoded:
  "(case instruction_error_try_from p of
      Inl m \<Rightarrow> \<not> decodable_instruction_error p \<and> m = InvalidInstructionError
    | Inr e \<Rightarrow> decodable_instruction_error p
        \<and> (\<exists>ie. e = TE_InstructionError (ucast (pie_index p)) ie
              \<and> (pie_custom p = None \<longrightarrow> instruction_error_as_i32 ie = pie_error p)
              \<and> (\<forall>c. pie_custom p = Some c \<longrightarrow> ie = IE_Custom (custom c))))"
proof (cases "pie_custom p")
  case (Some c)
  then show ?thesis by (simp add: instruction_error_try_from_def decodable_instruction_error_def)
next
  case None
  show ?thesis
  proof (cases "map_of instruction_error_codes (pie_error p)")
    case (Some ie)
    then have "instruction_error_as_i32 ie = pie_error p" by (rule map_of_codes_value[OF codes_values(1)])
    moreover have "0 \<le> pie_error p \<and> pie_error p \<le> 53 \<and> pie_error p \<noteq> 25"
      using Some codes_None(1)[of "pie_error p"] by (metis option.distinct(1))
    ultimately show ?thesis
      using None Some by (simp add: instruction_error_try_from_def decodable_instruction_error_def)
  qed (use None codes_None(1)[of "pie_error p"] in
      \<open>simp add: instruction_error_try_from_def decodable_instruction_error_def\<close>)
qed

lemma transaction_details_error_cases:
  "transaction_details_error c i = None \<longleftrightarrow> c \<notin> {30, 31, 35}"
  "transaction_details_error c i = Some e \<Longrightarrow> transaction_error_as_i32 e = c"
  by (auto simp: transaction_details_error_def split: if_splits)

text \<open>C32: Reading a transaction error of the address index accepts exactly the messages that denote
  one: an instruction error (code 8) with a custom number or with a code from 0 to 53 other than 25,
  one of the three codes with an index together with the index, or another code from 0 to 38.  What
  is read has the code of the message, and a rejected message is reported as an instruction error
  only when its code is 8 and it carries one.\<close>

theorem transaction_error_decoded:
  "(case transaction_error_try_from p of
      Inl m \<Rightarrow> \<not> decodable_transaction_error p
        \<and> m = (if pte_transaction_error p = 8 \<and> pte_instruction_error p \<noteq> None
               then InvalidInstructionError else InvalidTransactionError)
    | Inr e \<Rightarrow> decodable_transaction_error p \<and> transaction_error_as_i32 e = pte_transaction_error p)"
proof (cases "pte_transaction_error p = 8 \<and> pte_instruction_error p \<noteq> None")
  case True
  then obtain ie where ie: "pte_instruction_error p = Some ie" by blast
  show ?thesis
    using True ie instruction_error_decoded[of ie]
    by (auto simp: transaction_error_try_from_def decodable_transaction_error_def Let_def split: sum.split)
next
  case False
  let ?c = "pte_transaction_error p"
  have none: "(if ?c = 8 then pte_instruction_error p else None) = None" using False by auto
  show ?thesis
  proof (cases "?c \<in> {30, 31, 35} \<and> pte_transaction_details p \<noteq> None")
    case True
    then obtain d e where d: "pte_transaction_details p = Some d"
      and e: "transaction_details_error ?c (ucast (details_index d)) = Some e"
      using transaction_details_error_cases(1)[of ?c] by (metis not_None_eq)
    then have "transaction_error_try_from p = Inr e" by (simp add: transaction_error_try_from_def none)
    moreover have "decodable_transaction_error p" using True d by (auto simp: decodable_transaction_error_def Let_def)
    ultimately show ?thesis using transaction_details_error_cases(2)[OF e] by simp
  next
    case False
    then have "Option.bind (pte_transaction_details p)
        (\<lambda>d. transaction_details_error ?c (ucast (details_index d))) = None"
      using transaction_details_error_cases(1)[of ?c] by (auto simp: bind_eq_None_conv)
    then have eq: "transaction_error_try_from p =
        (case map_of transaction_error_codes ?c of None \<Rightarrow> Inl InvalidTransactionError | Some e \<Rightarrow> Inr e)"
      by (simp add: transaction_error_try_from_def none)
    have dec: "decodable_transaction_error p \<longleftrightarrow> map_of transaction_error_codes ?c \<noteq> None"
      using False \<open>\<not> (?c = 8 \<and> pte_instruction_error p \<noteq> None)\<close>
      unfolding codes_None(2) by (auto simp: decodable_transaction_error_def Let_def)
    show ?thesis
      using \<open>\<not> (?c = 8 \<and> pte_instruction_error p \<noteq> None)\<close> map_of_codes_value[OF codes_values(2), of ?c] dec
      unfolding eq by (cases "map_of transaction_error_codes ?c") auto
  qed
qed

end
