(* ===== verification/Option_Results.thy ===== *)
theory Option_Results
  imports Prelude
begin

section \<open>Collecting results\<close>

text \<open>
  What Rust's iterators do with fallible items: \<open>collect\<close> into a \<open>Result\<close> stops at the first error,
  a \<open>map\<close> whose function panics panics, and \<open>transpose\<close> swaps an \<open>Option\<close> with a \<open>Result\<close>.  A step that
  both may panic and may fail has type \<open>('e + 'a) option\<close>, with \<open>None\<close> for the panic; \<open>bind_step\<close> is the
  sequence of two such steps.
\<close>

fun collect_results :: "('e + 'a) list \<Rightarrow> 'e + 'a list" where
  "collect_results [] = Inr []"
| "collect_results (r # rs) = and_then r (\<lambda>x. and_then (collect_results rs) (\<lambda>xs. Inr (x # xs)))"

fun collect_somes :: "'a option list \<Rightarrow> 'a list option" where
  "collect_somes [] = Some []"
| "collect_somes (x # xs) = (case x of None \<Rightarrow> None | Some y \<Rightarrow> map_option ((#) y) (collect_somes xs))"

definition transpose_result :: "('e + 'a) option \<Rightarrow> 'e + 'a option" where
  "transpose_result x = (case x of None \<Rightarrow> Inr None | Some r \<Rightarrow> and_then r (\<lambda>y. Inr (Some y)))"

definition bind_step :: "('e + 'a) option \<Rightarrow> ('a \<Rightarrow> ('e + 'b) option) \<Rightarrow> ('e + 'b) option" where
  "bind_step m f = (case m of None \<Rightarrow> None | Some (Inl e) \<Rightarrow> Some (Inl e) | Some (Inr x) \<Rightarrow> f x)"

definition expect :: "'a option \<Rightarrow> ('e + 'a) option" where
  \<comment> \<open>\<open>unwrap\<close> or \<open>expect\<close> of an option inside a fallible function\<close>
  "expect x = map_option Inr x"

fun collect_steps :: "('e + 'a) option list \<Rightarrow> ('e + 'a list) option" where
  \<comment> \<open>items are produced one after the other; the first that panics or fails decides\<close>
  "collect_steps [] = Some (Inr [])"
| "collect_steps (m # ms) = bind_step m (\<lambda>x. bind_step (collect_steps ms) (\<lambda>xs. Some (Inr (x # xs))))"

lemma bind_step_simps [simp]:
  "bind_step None f = None" "bind_step (Some (Inl e)) f = Some (Inl e)" "bind_step (Some (Inr x)) f = f x"
  by (simp_all add: bind_step_def)

lemma bind_step_eq_None:
  "bind_step m f = None \<longleftrightarrow> m = None \<or> (\<exists>x. m = Some (Inr x) \<and> f x = None)"
  by (auto simp: bind_step_def split: option.split sum.split)

lemma bind_step_eq_Ok:
  "bind_step m f = Some (Inr y) \<longleftrightarrow> (\<exists>x. m = Some (Inr x) \<and> f x = Some (Inr y))"
  by (auto simp: bind_step_def split: option.split sum.split)

lemma bind_step_eq_Err:
  "bind_step m f = Some (Inl e) \<longleftrightarrow> m = Some (Inl e) \<or> (\<exists>x. m = Some (Inr x) \<and> f x = Some (Inl e))"
  by (auto simp: bind_step_def split: option.split sum.split)

lemma expect_simps [simp]: "expect None = None" "expect (Some x) = Some (Inr x)"
  by (simp_all add: expect_def)

lemma expect_eq_Ok [simp]: "expect x = Some (Inr y) \<longleftrightarrow> x = Some y"
  by (cases x) simp_all

lemma expect_not_Err [simp]: "expect x \<noteq> Some (Inl e)"
  by (cases x) simp_all

lemma transpose_result_simps [simp]:
  "transpose_result None = Inr None" "transpose_result (Some (Inr y)) = Inr (Some y)"
  "transpose_result (Some (Inl e)) = Inl e"
  by (simp_all add: transpose_result_def)

lemma collect_results_Inr [simp]: "collect_results (map Inr xs) = Inr xs"
  by (induction xs) simp_all

lemma collect_options_Some [simp]: "collect_somes (map Some xs) = Some xs"
  by (induction xs) simp_all

lemma collect_steps_Ok [simp]: "collect_steps (map (\<lambda>x. Some (Inr x)) xs) = Some (Inr xs)"
  by (induction xs) simp_all

text \<open>Decoding the encoded items of a list gives the list back.\<close>

lemma collect_results_roundtrip:
  "(\<And>x. x \<in> set xs \<Longrightarrow> d (e x) = Inr x) \<Longrightarrow> collect_results (map (d \<circ> e) xs) = Inr xs"
  by (induction xs) simp_all

lemma collect_options_roundtrip:
  "(\<And>x. x \<in> set xs \<Longrightarrow> d (e x) = Some x) \<Longrightarrow> collect_somes (map (d \<circ> e) xs) = Some xs"
  by (induction xs) simp_all

lemma collect_options_eq_Some:
  "collect_somes xs = Some ys \<longleftrightarrow> xs = map Some ys"
  by (induction xs arbitrary: ys) (auto split: option.split simp: Cons_eq_map_conv)

lemma collect_steps_eq_Ok:
  "collect_steps ms = Some (Inr ys) \<longleftrightarrow> ms = map (\<lambda>x. Some (Inr x)) ys"
  by (induction ms arbitrary: ys) (auto simp: bind_step_eq_Ok Cons_eq_map_conv)

end
