(* ===== verification/Tx_By_Addr.thy ===== *)
theory Tx_By_Addr
  imports Tx_Errors Option_Results
begin

section \<open>The address index and the stored entries\<close>

text \<open>
  The rest of the conversions for \<open>transaction_by_addr.proto\<close> and \<open>entries.proto\<close>
  (\<open>src/storage-proto/src/convert.rs\<close>).  Keys, signatures and hashes are types of third-party crates:
  \<open>key_env\<close> has the conversions the code calls, and \<open>key_laws\<close> says that the bytes of a value convert
  back to it and that a hash has 32 bytes.
\<close>

record ('sig, 'pk, 'hash) key_env =
  signature_as_ref :: "'sig \<Rightarrow> bytes"
  signature_try_from :: "bytes \<Rightarrow> 'sig option"
  pubkey_as_ref :: "'pk \<Rightarrow> bytes"
  pubkey_try_from :: "bytes \<Rightarrow> 'pk option"
  hash_to_bytes :: "'hash \<Rightarrow> bytes"
  hash_new_from_array :: "bytes \<Rightarrow> 'hash"

definition key_laws :: "('sig, 'pk, 'hash, 'm) key_env_scheme \<Rightarrow> bool" where
  "key_laws K \<longleftrightarrow>
     (\<forall>s. signature_try_from K (signature_as_ref K s) = Some s)
     \<and> (\<forall>k. pubkey_try_from K (pubkey_as_ref K k) = Some k)
     \<and> (\<forall>h. length (hash_to_bytes K h) = 32 \<and> hash_new_from_array K (hash_to_bytes K h) = h)"

definition hash_from_vec :: "('sig, 'pk, 'hash, 'm) key_env_scheme \<Rightarrow> bytes \<Rightarrow> 'hash option" where
  \<comment> \<open>\<open><[u8; HASH_BYTES]>::try_from(v).map(Hash::new_from_array).unwrap()\<close>\<close>
  "hash_from_vec K v = (if length v = 32 then Some (hash_new_from_array K v) else None)"

datatype memo_message = Memo (memo: string)

datatype unix_timestamp = UnixTimestamp (timestamp: int)

record 'sig by_addr_info =
  bai_signature :: 'sig
  bai_err :: "transaction_error option"
  bai_index :: u32
  bai_memo :: "string option"
  bai_block_time :: "int option"

record proto_by_addr_info =
  pbi_signature :: bytes
  pbi_err :: "proto_transaction_error option"
  pbi_index :: u32
  pbi_memo :: "memo_message option"
  pbi_block_time :: "unix_timestamp option"

definition by_addr_info_into :: "('sig, 'pk, 'hash, 'm) key_env_scheme \<Rightarrow> 'sig by_addr_info \<Rightarrow> proto_by_addr_info" where
  "by_addr_info_into K b =
     \<lparr>pbi_signature = signature_as_ref K (bai_signature b),
      pbi_err = map_option transaction_error_into (bai_err b),
      pbi_index = bai_index b,
      pbi_memo = map_option Memo (bai_memo b),
      pbi_block_time = map_option UnixTimestamp (bai_block_time b)\<rparr>"

definition by_addr_info_try_from ::
  "('sig, 'pk, 'hash, 'm) key_env_scheme \<Rightarrow> proto_by_addr_info \<Rightarrow> by_addr_error + 'sig by_addr_info" where
  "by_addr_info_try_from K p =
     and_then (transpose_result (map_option transaction_error_try_from (pbi_err p))) (\<lambda>err.
     and_then (ok_or (signature_try_from K (pbi_signature p)) InvalidSignature) (\<lambda>signature.
     Inr \<lparr>bai_signature = signature, bai_err = err, bai_index = pbi_index p,
          bai_memo = map_option memo (pbi_memo p),
          bai_block_time = map_option timestamp (pbi_block_time p)\<rparr>))"

definition tx_by_addr_try_from ::
  "('sig, 'pk, 'hash, 'm) key_env_scheme \<Rightarrow> proto_by_addr_info list \<Rightarrow> by_addr_error + 'sig by_addr_info list" where
  "tx_by_addr_try_from K collection = collect_results (map (by_addr_info_try_from K) collection)"

record 'hash entry_summary =
  es_num_hashes :: u64
  es_hash :: 'hash
  es_num_transactions :: u64
  es_starting_transaction_index :: nat

record proto_entry =
  pe_index :: u32
  pe_num_hashes :: u64
  pe_hash :: bytes
  pe_num_transactions :: u64
  pe_starting_transaction_index :: u32

definition entry_from_summary :: "('sig, 'pk, 'hash, 'm) key_env_scheme \<Rightarrow> nat \<times> 'hash entry_summary \<Rightarrow> proto_entry" where
  "entry_from_summary K p =
     (case p of (index, e) \<Rightarrow>
        \<lparr>pe_index = word_of_nat index, pe_num_hashes = es_num_hashes e, pe_hash = hash_to_bytes K (es_hash e),
         pe_num_transactions = es_num_transactions e,
         pe_starting_transaction_index = word_of_nat (es_starting_transaction_index e)\<rparr>)"

definition summary_from_entry :: "('sig, 'pk, 'hash, 'm) key_env_scheme \<Rightarrow> proto_entry \<Rightarrow> 'hash entry_summary option" where
  "summary_from_entry K p =
     (case hash_from_vec K (pe_hash p) of
        None \<Rightarrow> None
      | Some h \<Rightarrow> Some \<lparr>es_num_hashes = pe_num_hashes p, es_hash = h, es_num_transactions = pe_num_transactions p,
                       es_starting_transaction_index = unat (pe_starting_transaction_index p)\<rparr>)"

subsection \<open>Laws\<close>

lemma key_laws_simps [simp]:
  assumes "key_laws K"
  shows "signature_try_from K (signature_as_ref K s) = Some s"
    "pubkey_try_from K (pubkey_as_ref K k) = Some k"
    "hash_from_vec K (hash_to_bytes K h) = Some h"
  using assms by (simp_all add: key_laws_def hash_from_vec_def)

text \<open>An instance: signatures and keys are their bytes, and a hash repeats one byte.\<close>

definition plain_keys :: "(bytes, bytes, byte) key_env" where
  "plain_keys =
     \<lparr>signature_as_ref = \<lambda>s. s, signature_try_from = Some, pubkey_as_ref = \<lambda>k. k, pubkey_try_from = Some,
      hash_to_bytes = replicate 32, hash_new_from_array = hd\<rparr>"

lemma key_laws_plain: "key_laws plain_keys"
  by (simp add: key_laws_def plain_keys_def numeral_eq_Suc)

subsection \<open>Round trips\<close>

lemma by_addr_info_roundtrip:
  "key_laws K \<Longrightarrow> by_addr_info_try_from K (by_addr_info_into K b) = Inr b"
  by (cases "bai_err b")
    (simp_all add: by_addr_info_try_from_def by_addr_info_into_def transaction_error_roundtrip
      option.map_comp comp_def option.map_ident)

text \<open>C33: The index of the transactions of an address is read back as it was written: for every list
  of entries, whatever their errors, memos and times, decoding the encoded list succeeds and returns
  the list.\<close>

theorem tx_by_addr_roundtrip:
  assumes "key_laws K"
  shows "tx_by_addr_try_from K (map (by_addr_info_into K) infos) = Inr infos"
  unfolding tx_by_addr_try_from_def map_map
  by (rule collect_results_roundtrip) (rule by_addr_info_roundtrip[OF assms])

theorem tx_by_addr_roundtrip_witness:
  "let infos = [\<lparr>bai_signature = [1, 2], bai_err = Some (TE_InstructionError 3 (IE_Custom 7)), bai_index = 9,
                 bai_memo = Some ''hi'', bai_block_time = None\<rparr>,
                \<lparr>bai_signature = [], bai_err = Some (TE_InsufficientFundsForRent 255), bai_index = 0,
                 bai_memo = None, bai_block_time = Some (- 1)\<rparr>]
   in tx_by_addr_try_from plain_keys (map (by_addr_info_into plain_keys) infos) = Inr infos"
  unfolding Let_def by (rule tx_by_addr_roundtrip[OF key_laws_plain])

text \<open>A stored entry gives back the summary it was made from, except that the index of its first
  transaction, which is stored in 32 bits, is reduced modulo \<open>2^32\<close>.\<close>

theorem entry_summary_roundtrip:
  assumes "key_laws K"
  shows "summary_from_entry K (entry_from_summary K (index, e)) =
    Some (e\<lparr>es_starting_transaction_index := es_starting_transaction_index e mod 2 ^ 32\<rparr>)"
  using assms by (simp add: summary_from_entry_def entry_from_summary_def unat_of_nat)

theorem entry_summary_roundtrip_witness:
  "summary_from_entry plain_keys (entry_from_summary plain_keys
     (7, \<lparr>es_num_hashes = 5, es_hash = 3, es_num_transactions = 1, es_starting_transaction_index = 2 ^ 32 + 4\<rparr>)) =
   Some \<lparr>es_num_hashes = 5, es_hash = 3, es_num_transactions = 1, es_starting_transaction_index = 4\<rparr>"
  using entry_summary_roundtrip[OF key_laws_plain, of 7
      "\<lparr>es_num_hashes = 5, es_hash = 3, es_num_transactions = 1, es_starting_transaction_index = 2 ^ 32 + 4\<rparr>"]
  by simp

end
