(* ===== verification/Decimal.thy ===== *)
theory Decimal
  imports Prelude
begin

section \<open>Decimal numerals\<close>

text \<open>
  The decimal strings of Rust's standard library, as the components that follow use them:
  \<open>to_string\<close> of an unsigned integer (\<open>show_nat\<close>), the zero-padded \<open>{:0width}\<close> (\<open>show_padded\<close>),
  \<open>from_str\<close> of an unsigned integer type with a largest value (\<open>parse_unsigned\<close>), and
  \<open>trim_end_matches\<close> of a character.  The lemmas are their round trips.
\<close>

definition digit_char :: "nat \<Rightarrow> char" where
  "digit_char d = char_of (48 + d)"

definition char_digit :: "char \<Rightarrow> nat option" where
  "char_digit c = (if 48 \<le> (of_char c :: nat) \<and> (of_char c :: nat) \<le> 57 then Some (of_char c - 48) else None)"

fun show_nat :: "nat \<Rightarrow> string" where
  "show_nat n = (if n < 10 then [digit_char n] else show_nat (n div 10) @ [digit_char (n mod 10)])"

declare show_nat.simps [simp del]

definition show_padded :: "nat \<Rightarrow> nat \<Rightarrow> string" where
  \<comment> \<open>\<open>format!("{:0width}", n)\<close>\<close>
  "show_padded width n = (let s = show_nat n in replicate (width - length s) (CHR ''0'') @ s)"

fun parse_digits :: "nat \<Rightarrow> string \<Rightarrow> nat option" where
  "parse_digits acc [] = Some acc"
| "parse_digits acc (c # cs) =
     (case char_digit c of None \<Rightarrow> None | Some d \<Rightarrow> parse_digits (acc * 10 + d) cs)"

definition parse_unsigned :: "nat \<Rightarrow> string \<Rightarrow> nat option" where
  \<comment> \<open>\<open>u8::from_str\<close>, \<open>u64::from_str\<close>: an optional plus sign, then digits only, at least one; an error
    when the value is larger than the type's\<close>
  "parse_unsigned limit s =
     (let ds = (case s of [] \<Rightarrow> [] | c # cs \<Rightarrow> if c = CHR ''+'' then cs else s)
      in if ds = [] then None
         else case parse_digits 0 ds of
                None \<Rightarrow> None
              | Some n \<Rightarrow> if n \<le> limit then Some n else None)"

definition trim_end_matches :: "char \<Rightarrow> string \<Rightarrow> string" where
  "trim_end_matches c s = rev (dropWhile ((=) c) (rev s))"

definition decimal_digits :: "string \<Rightarrow> bool" where
  "decimal_digits s = list_all (\<lambda>c. char_digit c \<noteq> None) s"

subsection \<open>Digits\<close>

lemma of_char_digit_char: "d < 10 \<Longrightarrow> (of_char (digit_char d) :: nat) = 48 + d"
  by (simp add: digit_char_def)

lemma char_digit_digit_char [simp]: "d < 10 \<Longrightarrow> char_digit (digit_char d) = Some d"
  by (simp add: char_digit_def of_char_digit_char)

lemma digit_char_eq_zero: "d < 10 \<Longrightarrow> digit_char d = CHR ''0'' \<longleftrightarrow> d = 0"
proof -
  assume d: "d < 10"
  have "digit_char d = CHR ''0'' \<longleftrightarrow> (of_char (digit_char d) :: nat) = of_char (CHR ''0'')"
    by (rule of_char_eq_iff[symmetric])
  also have "\<dots> \<longleftrightarrow> d = 0" by (simp add: of_char_digit_char[OF d])
  finally show ?thesis .
qed

lemma char_digit_zero [simp]: "char_digit (CHR ''0'') = Some 0"
  by (simp add: char_digit_def)

lemma char_digit_point [simp]: "char_digit (CHR ''.'') = None"
  by (simp add: char_digit_def)

lemma char_digit_plus [simp]: "char_digit (CHR ''+'') = None"
  by (simp add: char_digit_def)

lemma parse_digits_append:
  "parse_digits acc (xs @ ys) = Option.bind (parse_digits acc xs) (\<lambda>a. parse_digits a ys)"
  by (induction acc xs rule: parse_digits.induct) (simp_all split: option.split)

lemma parse_digits_shift:
  "parse_digits acc s = map_option (\<lambda>n. acc * 10 ^ length s + n) (parse_digits 0 s)"
proof (induction s arbitrary: acc)
  case (Cons c cs)
  show ?case
  proof (cases "char_digit c")
    case (Some d)
    have "parse_digits (acc * 10 + d) cs = map_option (\<lambda>n. (acc * 10 + d) * 10 ^ length cs + n) (parse_digits 0 cs)"
      by (rule Cons.IH)
    moreover have "parse_digits d cs = map_option (\<lambda>n. d * 10 ^ length cs + n) (parse_digits 0 cs)"
      by (rule Cons.IH)
    ultimately show ?thesis using Some by (simp add: option.map_comp comp_def algebra_simps)
  qed simp
qed simp

lemma parse_digits_zeros: "parse_digits 0 (replicate k (CHR ''0'') @ s) = parse_digits 0 s"
  by (induction k) simp_all

lemma all_digits_simps [simp]:
  "decimal_digits []" "decimal_digits (c # s) \<longleftrightarrow> char_digit c \<noteq> None \<and> decimal_digits s"
  "decimal_digits (s @ t) \<longleftrightarrow> decimal_digits s \<and> decimal_digits t"
  "decimal_digits (rev s) \<longleftrightarrow> decimal_digits s"
  by (auto simp: decimal_digits_def list_all_iff)

lemma all_digits_replicate [simp]: "decimal_digits (replicate k c) \<longleftrightarrow> k = 0 \<or> char_digit c \<noteq> None"
  by (auto simp: decimal_digits_def list_all_iff)

lemma all_digits_takeWhile: "decimal_digits s \<Longrightarrow> decimal_digits (take n s) \<and> decimal_digits (drop n s)"
  by (auto simp: decimal_digits_def list_all_iff dest: in_set_takeD in_set_dropD)

lemma parse_digits_all_digits: "decimal_digits s \<longleftrightarrow> (\<exists>n. parse_digits acc s = Some n)"
  by (induction s arbitrary: acc) (auto split: option.split)

subsection \<open>Printing and reading\<close>

lemma show_nat_not_Nil [simp]: "show_nat n \<noteq> []"
  by (simp add: show_nat.simps[of n])

lemma all_digits_show_nat [simp]: "decimal_digits (show_nat n)"
  by (induction n rule: show_nat.induct) (subst show_nat.simps, simp)

lemma parse_digits_show_nat [simp]: "parse_digits 0 (show_nat n) = Some n"
  by (induction n rule: show_nat.induct) (subst show_nat.simps, simp add: parse_digits_append)

lemma hd_show_nat: "hd (show_nat n) \<noteq> CHR ''+''"
  using all_digits_show_nat[of n] by (cases "show_nat n") auto

lemma show_nat_inject: "show_nat m = show_nat n \<longleftrightarrow> m = n"
  by (metis parse_digits_show_nat option.inject)

lemma parse_unsigned_show_nat [simp]:
  "parse_unsigned limit (show_nat n) = (if n \<le> limit then Some n else None)"
proof -
  obtain c cs where s: "show_nat n = c # cs" by (cases "show_nat n") auto
  then have "c \<noteq> CHR ''+''" using hd_show_nat[of n] by simp
  then show ?thesis
    using parse_digits_show_nat[of n] unfolding s by (simp add: parse_unsigned_def del: parse_digits.simps)
qed

lemma parse_unsigned_le: "parse_unsigned limit s = Some n \<Longrightarrow> n \<le> limit"
  by (auto simp: parse_unsigned_def Let_def split: if_splits option.splits)

lemma parse_unsigned_Nil [simp]: "parse_unsigned limit [] = None"
  by (simp add: parse_unsigned_def)

lemma show_padded_props:
  "decimal_digits (show_padded w n)" "parse_digits 0 (show_padded w n) = Some n" "w \<le> length (show_padded w n)"
  by (simp_all add: show_padded_def Let_def parse_digits_zeros)

subsection \<open>Trimming\<close>

lemma trim_end_split: "\<exists>k. s = trim_end_matches c s @ replicate k c"
proof -
  have "rev s = takeWhile ((=) c) (rev s) @ dropWhile ((=) c) (rev s)" by simp
  moreover have "takeWhile ((=) c) (rev s) = replicate (length (takeWhile ((=) c) (rev s))) c"
    by (rule replicate_length_same[symmetric]) (metis set_takeWhileD)
  ultimately have "s = rev (dropWhile ((=) c) (rev s)) @ rev (replicate (length (takeWhile ((=) c) (rev s))) c)"
    by (metis rev_append rev_rev_ident)
  then show ?thesis unfolding trim_end_matches_def by (metis rev_replicate)
qed

lemma trim_end_last: "trim_end_matches c s \<noteq> [] \<Longrightarrow> last (trim_end_matches c s) \<noteq> c"
  using hd_dropWhile[of "(=) c" "rev s"] by (auto simp: trim_end_matches_def last_rev)

lemma trim_end_append: "trim_end_matches c t \<noteq> [] \<Longrightarrow> trim_end_matches c (s @ t) = s @ trim_end_matches c t"
  by (auto simp: trim_end_matches_def dropWhile_append dropWhile_eq_Nil_conv)

lemma trim_end_id: "s \<noteq> [] \<Longrightarrow> last s \<noteq> c \<Longrightarrow> trim_end_matches c s = s"
  by (cases s rule: rev_cases) (simp_all add: trim_end_matches_def)

lemma trim_end_snoc [simp]: "trim_end_matches c (s @ [c]) = trim_end_matches c s"
  by (simp add: trim_end_matches_def)

end
