(* ===== verification/F64.thy ===== *)
theory F64
  imports Prelude Complex_Main "HOL-Library.Log_Nat"
begin

section \<open>Binary floating point numbers\<close>

text \<open>
  \<open>f64\<close> as far as the code uses it: the conversion of an unsigned integer, the quotient of two
  converted integers, and the comparison of a magnitude with \<open>f64::EPSILON\<close>.  A finite number is its
  rational value; the rounding is to nearest with ties to even, in the 53 digits of the format.  All
  numbers here are far inside the range of normal numbers, so neither overflow nor subnormal numbers
  occur.
\<close>

datatype f64 = F64_NaN | F64_Inf bool | F64_NegZero | F64 rat

definition f64_zero :: f64 where
  \<comment> \<open>\<open>f64::default()\<close>\<close>
  "f64_zero = F64 0"

fun f64_abs_exceeds_epsilon :: "f64 \<Rightarrow> bool" where
  \<comment> \<open>\<open>(x - f64::default()).abs() > f64::EPSILON\<close>; the subtraction of zero is exact, a comparison with a
    not-a-number is false, and \<open>EPSILON\<close> is \<open>2^-52\<close>\<close>
  "f64_abs_exceeds_epsilon F64_NaN = False"
| "f64_abs_exceeds_epsilon (F64_Inf _) = True"
| "f64_abs_exceeds_epsilon F64_NegZero = False"
| "f64_abs_exceeds_epsilon (F64 x) = (1 / 2 ^ 52 < \<bar>x\<bar>)"

definition round_half_even :: "nat \<Rightarrow> nat \<Rightarrow> nat" where
  \<comment> \<open>the integer nearest to \<open>n / d\<close>\<close>
  "round_half_even n d =
     (let q = n div d; r = n mod d
      in if 2 * r < d \<or> 2 * r = d \<and> even q then q else q + 1)"

definition quotient_scale :: "nat \<Rightarrow> nat \<Rightarrow> nat" where
  \<comment> \<open>a shift after which the quotient has at least 53 binary digits\<close>
  "quotient_scale n d = 53 + floorlog 2 d - floorlog 2 n"

definition quotient_excess :: "nat \<Rightarrow> nat \<Rightarrow> nat" where
  \<comment> \<open>the number of binary digits to drop, so that 53 remain\<close>
  "quotient_excess m d = floorlog 2 (m div d) - 53"

definition f64_quotient :: "nat \<Rightarrow> nat \<Rightarrow> rat" where
  \<comment> \<open>the number of 53 binary digits nearest to \<open>n / d\<close>\<close>
  "f64_quotient n d =
     (let k = quotient_scale n d; m = n * 2 ^ k; s = quotient_excess m d
      in of_nat (round_half_even m (d * 2 ^ s) * 2 ^ s) / 2 ^ k)"

definition f64_of_nat :: "nat \<Rightarrow> nat" where
  \<comment> \<open>\<open>n as f64\<close> for an unsigned integer, which is an integer again\<close>
  "f64_of_nat n = (let s = floorlog 2 n - 53 in round_half_even n (2 ^ s) * 2 ^ s)"

definition f64_div_nat :: "nat \<Rightarrow> nat \<Rightarrow> f64" where
  \<comment> \<open>\<open>n as f64 / d as f64\<close>, for \<open>d > 0\<close>\<close>
  "f64_div_nat n d = F64 (f64_quotient (f64_of_nat n) (f64_of_nat d))"

subsection \<open>Rounding\<close>

lemma round_half_even_error:
  assumes "0 < d"
  shows "\<bar>2 * (of_nat (round_half_even n d) * of_nat d - of_nat n)\<bar> \<le> (of_nat d :: rat)"
proof -
  define q r where "q = n div d" and "r = n mod d"
  have n: "n = q * d + r" "r < d" using assms by (simp_all add: q_def r_def)
  have "round_half_even n d = q \<and> 2 * r \<le> d \<or> round_half_even n d = q + 1 \<and> d \<le> 2 * r"
    unfolding round_half_even_def Let_def q_def r_def by auto
  then show ?thesis
  proof
    assume *: "round_half_even n d = q \<and> 2 * r \<le> d"
    then have "of_nat (2 * r) \<le> (of_nat d :: rat)" by (simp only: of_nat_le_iff)
    with * n show ?thesis by (simp add: algebra_simps)
  next
    assume *: "round_half_even n d = q + 1 \<and> d \<le> 2 * r"
    then have "of_nat d \<le> (of_nat (2 * r) :: rat)" by (simp only: of_nat_le_iff)
    moreover have "of_nat r < (of_nat d :: rat)" using n by simp
    ultimately show ?thesis using * n(1) by (simp add: algebra_simps)
  qed
qed

lemma round_half_even_one [simp]: "round_half_even n (Suc 0) = n"
  by (simp add: round_half_even_def)

lemma floorlog_excess:
  assumes "0 < n"
  shows "2 ^ (floorlog 2 n - 53) * 2 ^ 52 \<le> n \<or> floorlog 2 n \<le> 53"
proof (cases "floorlog 2 n \<le> 53")
  case False
  then have e: "floorlog 2 n - 53 + 52 = floorlog 2 n - 1" by simp
  have "2 ^ (floorlog 2 n - 53) * 2 ^ 52 = (2 :: nat) ^ (floorlog 2 n - 1)"
    unfolding e[symmetric] by (simp only: power_add)
  also have "\<dots> \<le> n" using floorlog_bounds[of n 2] assms by simp
  finally show ?thesis by blast
qed blast

lemma half_error:
  fixes y e n :: rat
  assumes "e * 2 ^ 52 \<le> n" "\<bar>2 * y\<bar> \<le> e"
  shows "\<bar>y\<bar> \<le> n / 2 ^ 53"
proof -
  have "2 * \<bar>y\<bar> \<le> e" using assms(2) by (simp add: abs_mult)
  with assms(1) show ?thesis by simp
qed

lemma f64_of_nat_error:
  "\<bar>of_nat (f64_of_nat n) - of_nat n\<bar> \<le> (of_nat n :: rat) / 2 ^ 53"
proof (cases "floorlog 2 n \<le> 53")
  case True
  then show ?thesis by (simp add: f64_of_nat_def)
next
  case False
  define s where "s = floorlog 2 n - 53"
  from False have "0 < n" by (cases n) (simp_all add: floorlog_def)
  with False have "2 ^ s * 2 ^ 52 \<le> n" using floorlog_excess[of n] by (simp add: s_def)
  then have "of_nat (2 ^ s * 2 ^ 52) \<le> (of_nat n :: rat)" by (simp only: of_nat_le_iff)
  then have "of_nat (2 ^ s) * 2 ^ 52 \<le> (of_nat n :: rat)" by simp
  moreover have "\<bar>2 * (of_nat (f64_of_nat n) - of_nat n)\<bar> \<le> (of_nat (2 ^ s) :: rat)"
    using round_half_even_error[of "2 ^ s" n] by (simp add: f64_of_nat_def Let_def s_def)
  ultimately show ?thesis by (rule half_error)
qed

lemma f64_of_nat_exact: "n < 2 ^ 53 \<Longrightarrow> f64_of_nat n = n"
proof -
  assume "n < 2 ^ 53"
  then have "floorlog 2 n \<le> 53" by (simp add: floorlog_le_iff)
  then show ?thesis by (simp add: f64_of_nat_def)
qed

lemma quotient_has_digits:
  assumes "0 < n" "0 < d"
  shows "2 ^ 52 \<le> n * 2 ^ quotient_scale n d div d"
proof -
  let ?k = "quotient_scale n d" let ?a = "floorlog 2 n" let ?b = "floorlog 2 d"
  have n: "2 ^ (?a - 1) \<le> n" and d: "d < 2 ^ ?b"
    using floorlog_bounds[of n 2] floorlog_bounds[of d 2] assms by simp_all
  have a: "0 < ?a" using assms(1) by (simp add: floorlog_def)
  have "2 ^ 52 * d \<le> 2 ^ 52 * 2 ^ ?b" using d by simp
  also have "\<dots> = (2 :: nat) ^ (52 + ?b)" by (simp add: power_add)
  also have "\<dots> \<le> 2 ^ (?a - 1 + ?k)" using a by (intro power_increasing) (simp_all add: quotient_scale_def)
  also have "\<dots> = 2 ^ (?a - 1) * 2 ^ ?k" by (simp add: power_add)
  also have "\<dots> \<le> n * 2 ^ ?k" using n by simp
  finally show ?thesis using assms(2) by (simp add: less_eq_div_iff_mult_less_eq)
qed

lemma f64_quotient_error:
  assumes "0 < d"
  shows "\<bar>f64_quotient n d - of_nat n / of_nat d\<bar> \<le> of_nat n / of_nat d / 2 ^ 53"
proof (cases "n = 0")
  case True
  then show ?thesis by (simp add: f64_quotient_def Let_def round_half_even_def quotient_excess_def)
next
  case False
  define k where "k = quotient_scale n d"
  define m where "m = n * 2 ^ k"
  define s where "s = quotient_excess m d"
  define D where "D = d * 2 ^ s"
  define x where "x = (of_nat (round_half_even m D) :: rat)"
  have dig: "2 ^ 52 \<le> m div d" using quotient_has_digits[of n d] False assms by (simp add: m_def k_def)
  then have "0 < m div d" by (rule less_le_trans[rotated]) simp
  have "2 ^ s * 2 ^ 52 \<le> m div d"
  proof (cases "floorlog 2 (m div d) \<le> 53")
    case True
    then show ?thesis using dig by (simp add: s_def quotient_excess_def)
  next
    case False
    then show ?thesis using floorlog_excess[OF \<open>0 < m div d\<close>] by (simp add: s_def quotient_excess_def)
  qed
  then have "2 ^ s * 2 ^ 52 * d \<le> m" using assms by (simp add: less_eq_div_iff_mult_less_eq)
  then have "of_nat (D * 2 ^ 52) \<le> (of_nat m :: rat)" by (simp only: of_nat_le_iff D_def mult_ac)
  then have "of_nat D * 2 ^ 52 \<le> (of_nat m :: rat)" by simp
  moreover have "\<bar>2 * (x * of_nat D - of_nat m)\<bar> \<le> of_nat D"
    using round_half_even_error[of D m] assms by (simp add: x_def D_def)
  ultimately have "\<bar>x * of_nat D - of_nat m\<bar> \<le> of_nat m / 2 ^ 53" by (rule half_error)
  then have "\<bar>x * of_nat D - of_nat m\<bar> / (of_nat d * 2 ^ k) \<le> of_nat m / 2 ^ 53 / (of_nat d * 2 ^ k)"
    by (rule divide_right_mono) simp
  moreover have "\<bar>x * of_nat D - of_nat m\<bar> / (of_nat d * 2 ^ k) = \<bar>(x * of_nat D - of_nat m) / (of_nat d * 2 ^ k)\<bar>"
    by (simp add: abs_divide abs_mult)
  moreover have "(x * of_nat D - of_nat m) / (of_nat d * 2 ^ k) = f64_quotient n d - of_nat n / of_nat d"
    using assms by (simp add: f64_quotient_def Let_def x_def D_def m_def s_def k_def field_simps)
  moreover have "of_nat m / 2 ^ 53 / (of_nat d * 2 ^ k) = of_nat n / of_nat d / (2 ^ 53 :: rat)"
    by (simp add: m_def)
  ultimately show ?thesis by simp
qed

end
