(* ===== verification/Token_Amount.thy ===== *)
theory Token_Amount
  imports Decimal F64
begin

section \<open>Token amounts for display\<close>

text \<open>
  \<open>UiTokenAmount\<close> (\<open>src/account-decoder-client-types/src/token.rs\<close>) and its construction from a raw
  amount (\<open>token_amount_to_ui_amount_v3\<close> of \<open>src/account-decoder/src/parse_token.rs\<close>).  The amounts of
  the two token extensions, which are functions of a third-party crate, are arguments, and so is the
  reading of a floating point number from the string they return.
\<close>

record ui_token_amount =
  ui_amount :: "f64 option"
  decimals :: u8
  amount :: string
  ui_amount_string :: string

definition real_number_string :: "u64 \<Rightarrow> u8 \<Rightarrow> string" where
  "real_number_string a dec =
     (let d = unat dec
      in if 0 < d
         then let s = show_padded (d + 1) (unat a); p = length s - d
              in take p s @ CHR ''.'' # drop p s
         else show_nat (unat a))"

definition real_number_string_trimmed :: "u64 \<Rightarrow> u8 \<Rightarrow> string" where
  "real_number_string_trimmed a dec =
     (let s = real_number_string a dec
      in if 0 < dec then trim_end_matches (CHR ''.'') (trim_end_matches (CHR ''0'') s) else s)"

definition parse_u64_or_zero :: "string \<Rightarrow> u64" where
  \<comment> \<open>\<open>u64::from_str(s).unwrap_or_default()\<close>\<close>
  "parse_u64_or_zero s = (case parse_unsigned (2 ^ 64 - 1) s of Some n \<Rightarrow> word_of_nat n | None \<Rightarrow> 0)"

definition UiTokenAmount_real_number_string :: "ui_token_amount \<Rightarrow> string" where
  "UiTokenAmount_real_number_string t = real_number_string (parse_u64_or_zero (amount t)) (decimals t)"

definition UiTokenAmount_real_number_string_trimmed :: "ui_token_amount \<Rightarrow> string" where
  "UiTokenAmount_real_number_string_trimmed t =
     (if ui_amount_string t \<noteq> [] then ui_amount_string t
      else real_number_string_trimmed (parse_u64_or_zero (amount t)) (decimals t))"

record ('ib, 'su) spl_token_additional_data =
  mint_decimals :: u8
  interest_bearing_config :: "('ib \<times> int) option"
  scaled_ui_amount_config :: "('su \<times> int) option"

definition with_decimals :: "u8 \<Rightarrow> ('ib, 'su) spl_token_additional_data" where
  "with_decimals d = \<lparr>mint_decimals = d, interest_bearing_config = None, scaled_ui_amount_config = None\<rparr>"

record ('ib, 'su) token_extension_env =
  interest_amount_to_ui_amount :: "'ib \<Rightarrow> u64 \<Rightarrow> u8 \<Rightarrow> int \<Rightarrow> string option"
  scaled_amount_to_ui_amount :: "'su \<Rightarrow> u64 \<Rightarrow> u8 \<Rightarrow> int \<Rightarrow> string option"
  f64_from_str :: "string \<Rightarrow> f64 option"

definition checked_pow10 :: "nat \<Rightarrow> nat option" where
  \<comment> \<open>\<open>10_usize.checked_pow(n)\<close>\<close>
  "checked_pow10 n = (if 10 ^ n \<le> usize_max then Some (10 ^ n) else None)"

definition token_amount_to_ui_amount_v3 ::
  "('ib, 'su) token_extension_env \<Rightarrow> u64 \<Rightarrow> ('ib, 'su) spl_token_additional_data \<Rightarrow> ui_token_amount" where
  "token_amount_to_ui_amount_v3 E a ad =
     (let dec = mint_decimals ad;
          of_string = (\<lambda>s. (Option.bind s (f64_from_str E), case s of Some x \<Rightarrow> x | None \<Rightarrow> []));
          (f, s) = (case interest_bearing_config ad of
                      Some (c, unix_timestamp) \<Rightarrow> of_string (interest_amount_to_ui_amount E c a dec unix_timestamp)
                    | None \<Rightarrow>
                        (case scaled_ui_amount_config ad of
                           Some (c, unix_timestamp) \<Rightarrow> of_string (scaled_amount_to_ui_amount E c a dec unix_timestamp)
                         | None \<Rightarrow> (map_option (f64_div_nat (unat a)) (checked_pow10 (unat dec)),
                                    real_number_string_trimmed a dec)))
      in \<lparr>ui_amount = f, decimals = dec, amount = show_nat (unat a), ui_amount_string = s\<rparr>)"

definition plain_ui_amount :: "u64 \<Rightarrow> u8 \<Rightarrow> ui_token_amount" where
  \<comment> \<open>the amount with \<open>SplTokenAdditionalDataV2::with_decimals\<close>, where no extension applies\<close>
  "plain_ui_amount a dec =
     \<lparr>ui_amount = map_option (f64_div_nat (unat a)) (checked_pow10 (unat dec)), decimals = dec,
      amount = show_nat (unat a), ui_amount_string = real_number_string_trimmed a dec\<rparr>"

lemma token_amount_with_decimals: "token_amount_to_ui_amount_v3 E a (with_decimals dec) = plain_ui_amount a dec"
  by (simp add: token_amount_to_ui_amount_v3_def with_decimals_def plain_ui_amount_def Let_def)

subsection \<open>The value of a decimal string\<close>

text \<open>The specification: digits, or digits with a decimal point and digits after it.\<close>

definition decimal_value :: "string \<Rightarrow> rat option" where
  "decimal_value s =
     (let i = takeWhile (\<lambda>c. c \<noteq> CHR ''.'') s; r = dropWhile (\<lambda>c. c \<noteq> CHR ''.'') s
      in if i = [] then None
         else case r of
                [] \<Rightarrow> map_option of_nat (parse_digits 0 i)
              | _ # f \<Rightarrow> if f = [] then None
                        else (case (parse_digits 0 i, parse_digits 0 f) of
                                (Some m, Some n) \<Rightarrow> Some (of_nat m + of_nat n / 10 ^ length f)
                              | _ \<Rightarrow> None))"

lemma all_digits_no_point: "decimal_digits s \<Longrightarrow> CHR ''.'' \<notin> set s"
  by (auto simp: decimal_digits_def list_all_iff)

lemma split_at_point:
  assumes "decimal_digits i"
  shows "takeWhile (\<lambda>c. c \<noteq> CHR ''.'') i = i" "dropWhile (\<lambda>c. c \<noteq> CHR ''.'') i = []"
    "takeWhile (\<lambda>c. c \<noteq> CHR ''.'') (i @ CHR ''.'' # f) = i"
    "dropWhile (\<lambda>c. c \<noteq> CHR ''.'') (i @ CHR ''.'' # f) = CHR ''.'' # f"
  using all_digits_no_point[OF assms]
  by (auto simp: takeWhile_eq_all_conv dropWhile_eq_Nil_conv takeWhile_append dropWhile_append)

lemma decimal_value_integer:
  "decimal_digits i \<Longrightarrow> i \<noteq> [] \<Longrightarrow> decimal_value i = map_option of_nat (parse_digits 0 i)"
  by (simp add: decimal_value_def split_at_point)

lemma decimal_value_fraction:
  assumes "decimal_digits i" "i \<noteq> []" "decimal_digits f" "f \<noteq> []" "parse_digits 0 (i @ f) = Some n"
  shows "decimal_value (i @ CHR ''.'' # f) = Some (of_nat n / 10 ^ length f)"
proof -
  obtain a b where a: "parse_digits 0 i = Some a" and b: "parse_digits 0 f = Some b"
    using assms(1,3) parse_digits_all_digits by metis
  have "n = a * 10 ^ length f + b"
    using assms(5) a b parse_digits_shift[of a f] by (simp add: parse_digits_append)
  then show ?thesis
    using assms a b by (simp add: decimal_value_def split_at_point field_simps)
qed

lemma parse_digits_append_zeros:
  "parse_digits acc (s @ replicate k (CHR ''0'')) = map_option (\<lambda>n. n * 10 ^ k) (parse_digits acc s)"
proof (induction k)
  case (Suc k)
  have "replicate (Suc k) (CHR ''0'') = replicate k (CHR ''0'') @ ''0''"
    by (simp add: replicate_append_same)
  then show ?case
    using Suc by (simp only: append_assoc[symmetric] parse_digits_append[of _ "s @ replicate k CHR ''0''"])
      (cases "parse_digits acc s", simp_all)
qed (simp add: option.map_ident)

subsection \<open>The strings\<close>

text \<open>With decimals, the string is the digits of the padded number with the point before the last
  \<open>d\<close> of them.\<close>

lemma real_number_string_parts:
  assumes "0 < dec"
  obtains i f where "real_number_string a dec = i @ CHR ''.'' # f" "decimal_digits i" "i \<noteq> []"
    "decimal_digits f" "length f = unat dec" "f \<noteq> []" "parse_digits 0 (i @ f) = Some (unat a)"
proof -
  have d: "0 < unat dec" using assms by (simp add: word_less_nat_alt)
  define s where "s = show_padded (unat dec + 1) (unat a)"
  define p where "p = length s - unat dec"
  have s: "decimal_digits s" "parse_digits 0 s = Some (unat a)" "unat dec + 1 \<le> length s"
    unfolding s_def by (rule show_padded_props)+
  have "real_number_string a dec = take p s @ CHR ''.'' # drop p s"
    using d by (simp add: real_number_string_def Let_def s_def p_def)
  moreover have "length (drop p s) = unat dec" "0 < p" using s(3) by (simp_all add: p_def)
  moreover from this have "take p s \<noteq> []" "drop p s \<noteq> []" using s(3) d by auto
  ultimately show thesis
    using that[of "take p s" "drop p s"] s all_digits_takeWhile[OF s(1)] by simp
qed

lemma real_number_string_value:
  "decimal_value (real_number_string a dec) = Some (of_nat (unat a) / 10 ^ unat dec)"
proof (cases "0 < dec")
  case True
  from real_number_string_parts[OF True] obtain i f where
    *: "real_number_string a dec = i @ CHR ''.'' # f" "decimal_digits i" "i \<noteq> []"
    "decimal_digits f" "length f = unat dec" "f \<noteq> []" "parse_digits 0 (i @ f) = Some (unat a)" .
  then show ?thesis using decimal_value_fraction[of i f] by simp
next
  case False
  then have "dec = 0" by (metis word_neq_0_conv)
  then show ?thesis by (simp add: real_number_string_def decimal_value_integer)
qed

text \<open>Trimming removes the trailing zeros of the fraction, and the point with them when nothing of
  the fraction remains.\<close>

lemma trimmed_parts:
  assumes "0 < dec"
  obtains i f k where "decimal_digits i" "i \<noteq> []" "decimal_digits f" "f = [] \<or> last f \<noteq> CHR ''0''"
    "length f + k = unat dec" "parse_digits 0 (i @ f @ replicate k (CHR ''0'')) = Some (unat a)"
    "real_number_string_trimmed a dec = (if f = [] then i else i @ CHR ''.'' # f)"
proof -
  from real_number_string_parts[OF assms] obtain i g where
    g: "real_number_string a dec = i @ CHR ''.'' # g" "decimal_digits i" "i \<noteq> []"
    "decimal_digits g" "length g = unat dec" "g \<noteq> []" "parse_digits 0 (i @ g) = Some (unat a)" .
  define f where "f = trim_end_matches (CHR ''0'') g"
  obtain k where k: "g = f @ replicate k (CHR ''0'')" using trim_end_split[of g] unfolding f_def by blast
  have i: "last i \<noteq> CHR ''.''" using g(2,3) all_digits_no_point[of i] by (metis last_in_set)
  have "trim_end_matches (CHR ''.'') (trim_end_matches (CHR ''0'') (i @ CHR ''.'' # g))
      = (if f = [] then i else i @ CHR ''.'' # f)"
  proof (cases "f = []")
    case True
    then have "trim_end_matches (CHR ''0'') (CHR ''.'' # g) = ''.''"
      unfolding f_def trim_end_matches_def by (simp add: dropWhile_append dropWhile_eq_Nil_conv)
    then have "trim_end_matches (CHR ''0'') (i @ CHR ''.'' # g) = i @ ''.''"
      using trim_end_append[of "CHR ''0''" "CHR ''.'' # g" i] by simp
    then show ?thesis using True i g(3) by (simp add: trim_end_id)
  next
    case False
    then have "trim_end_matches (CHR ''0'') ((i @ ''.'') @ g) = (i @ ''.'') @ f"
      unfolding f_def by (rule trim_end_append)
    moreover have "last f \<noteq> CHR ''.''"
      using False g(4) k all_digits_no_point[of f] by (metis all_digits_simps(3) last_in_set)
    ultimately show ?thesis using False by (simp add: trim_end_id)
  qed
  then have "real_number_string_trimmed a dec = (if f = [] then i else i @ CHR ''.'' # f)"
    using assms g(1) by (simp add: real_number_string_trimmed_def Let_def)
  moreover have "f = [] \<or> last f \<noteq> CHR ''0''" unfolding f_def using trim_end_last by blast
  ultimately show thesis using that[of i f k] g k by simp
qed

lemma real_number_string_trimmed_value:
  "decimal_value (real_number_string_trimmed a dec) = Some (of_nat (unat a) / 10 ^ unat dec)"
proof (cases "0 < dec")
  case True
  from trimmed_parts[OF True] obtain i f k where
    *: "decimal_digits i" "i \<noteq> []" "decimal_digits f" "f = [] \<or> last f \<noteq> CHR ''0''" "length f + k = unat dec"
    "parse_digits 0 (i @ f @ replicate k (CHR ''0'')) = Some (unat a)"
    "real_number_string_trimmed a dec = (if f = [] then i else i @ CHR ''.'' # f)" .
  obtain n where n: "parse_digits 0 (i @ f) = Some n" "unat a = n * 10 ^ k"
    using *(6) parse_digits_append_zeros[of 0 "i @ f" k] by (cases "parse_digits 0 (i @ f)") auto
  have "(of_nat (unat a) :: rat) / 10 ^ unat dec = of_nat n / 10 ^ length f"
    by (simp add: n(2) *(5)[symmetric] power_add)
  then show ?thesis
    using * n(1) decimal_value_integer[of i] decimal_value_fraction[of i f] by auto
next
  case False
  then have "dec = 0" by (metis word_neq_0_conv)
  then show ?thesis using real_number_string_value[of a dec] by (simp add: real_number_string_trimmed_def)
qed

lemma trimmed_canonical:
  assumes "CHR ''.'' \<in> set (real_number_string_trimmed a dec)"
  shows "char_digit (last (real_number_string_trimmed a dec)) \<noteq> None"
    "last (real_number_string_trimmed a dec) \<noteq> CHR ''0''"
proof -
  have "0 < dec"
  proof (rule ccontr)
    assume "\<not> 0 < dec"
    then have "dec = 0" by (metis word_neq_0_conv)
    with assms show False
      using all_digits_no_point[of "show_nat (unat a)"]
      by (simp add: real_number_string_trimmed_def real_number_string_def)
  qed
  from trimmed_parts[OF this] obtain i f k where
    *: "decimal_digits i" "i \<noteq> []" "decimal_digits f" "f = [] \<or> last f \<noteq> CHR ''0''" "length f + k = unat dec"
    "parse_digits 0 (i @ f @ replicate k (CHR ''0'')) = Some (unat a)"
    "real_number_string_trimmed a dec = (if f = [] then i else i @ CHR ''.'' # f)" .
  have "f \<noteq> []" using assms *(1,7) all_digits_no_point[of i] by auto
  with * have "last (real_number_string_trimmed a dec) = last f" "last f \<in> set f" "last f \<noteq> CHR ''0''" by simp_all
  then show "last (real_number_string_trimmed a dec) \<noteq> CHR ''0''"
    "char_digit (last (real_number_string_trimmed a dec)) \<noteq> None"
    using *(3) by (auto simp: decimal_digits_def list_all_iff)
qed

subsection \<open>The displayed amount\<close>

lemma checked_pow10_eq: "checked_pow10 n = (if n \<le> 19 then Some (10 ^ n) else None)"
proof (cases "n \<le> 19")
  case True
  then have "(10 :: nat) ^ n \<le> 10 ^ 19" by (intro power_increasing) simp_all
  also have "\<dots> \<le> usize_max" by (simp add: usize_max_def)
  finally show ?thesis using True by (simp add: checked_pow10_def)
next
  case False
  then have "(10 :: nat) ^ 20 \<le> 10 ^ n" by (intro power_increasing) simp_all
  moreover have "usize_max < 10 ^ 20" by (simp add: usize_max_def)
  ultimately have "\<not> 10 ^ n \<le> usize_max" by linarith
  then show ?thesis using False by (simp add: checked_pow10_def)
qed

lemma f64_of_pow10:
  assumes "n \<le> 19"
  shows "f64_of_nat (10 ^ n) = 10 ^ n"
proof -
  define s where "s = floorlog 2 (10 ^ n) - 53"
  have ten: "(10 :: nat) ^ n = 5 ^ n * 2 ^ n" by (simp flip: power_mult_distrib)
  have "(5 :: nat) ^ n \<le> 5 ^ 19" using assms by (intro power_increasing) simp_all
  then have "(5 :: nat) ^ n < 2 ^ 53" by simp
  then have "(10 :: nat) ^ n < 2 ^ 53 * 2 ^ n" by (simp only: ten mult_less_cancel2) simp
  then have "floorlog 2 (10 ^ n) \<le> 53 + n" by (simp add: floorlog_le_iff power_add)
  then have "s \<le> n" by (simp add: s_def)
  then have "(2 :: nat) ^ s dvd 10 ^ n" unfolding ten by (intro dvd_mult le_imp_power_dvd)
  then have "round_half_even (10 ^ n) (2 ^ s) * 2 ^ s = 10 ^ n" by (simp add: round_half_even_def)
  then show ?thesis by (simp add: f64_of_nat_def Let_def s_def)
qed

lemma f64_div_pow10_error:
  assumes "n \<le> 19"
  obtains q where "f64_div_nat a (10 ^ n) = F64 q"
    "\<bar>q - of_nat a / 10 ^ n\<bar> \<le> of_nat a / 10 ^ n * (1 / 2 ^ 52 + 1 / 2 ^ 106)"
proof -
  define A where "A = f64_of_nat a"
  define q where "q = f64_quotient A (10 ^ n)"
  have "\<bar>of_nat A - of_nat a\<bar> \<le> (of_nat a :: rat) / 2 ^ 53" unfolding A_def by (rule f64_of_nat_error)
  then have A: "\<bar>of_nat A - of_nat a\<bar> / 10 ^ n \<le> (of_nat a :: rat) / 2 ^ 53 / 10 ^ n"
    by (rule divide_right_mono) simp
  have "\<bar>(of_nat A - of_nat a) / 10 ^ n\<bar> = \<bar>of_nat A - of_nat a\<bar> / (10 ^ n :: rat)" by (simp add: abs_divide)
  with A have 1: "\<bar>of_nat A / 10 ^ n - of_nat a / 10 ^ n\<bar> \<le> (of_nat a :: rat) / 10 ^ n / 2 ^ 53"
    by (simp add: diff_divide_distrib)
  have 2: "\<bar>q - of_nat A / 10 ^ n\<bar> \<le> of_nat A / 10 ^ n / 2 ^ 53"
    using f64_quotient_error[of "10 ^ n" A] by (simp add: q_def)
  have "f64_div_nat a (10 ^ n) = F64 q" using f64_of_pow10[OF assms] by (simp add: f64_div_nat_def q_def A_def)
  moreover have "\<bar>q - of_nat a / 10 ^ n\<bar> \<le> of_nat a / 10 ^ n * (1 / 2 ^ 52 + 1 / 2 ^ 106)"
    using 1 2 by (simp add: abs_le_iff algebra_simps)
  ultimately show thesis by (rule that)
qed

lemma parse_u64_show_nat [simp]: "parse_u64_or_zero (show_nat (unat a)) = a"
  using unat_u64_less[of a] by (simp add: parse_u64_or_zero_def)

text \<open>C19: For a mint without the two extensions, the displayed amount is right in each of its forms.
  The raw amount reads back as the same integer.  The decimal string denotes exactly the amount
  divided by \<open>10^decimals\<close> and is trimmed: if it has a point, it ends in a digit that is not zero.  The
  floating point number is absent exactly for more than 19 decimals, where the divisor does not fit
  a \<open>usize\<close>, and otherwise its relative error is at most \<open>2^-52 + 2^-106\<close>, from two roundings.\<close>

theorem ui_amount_correct:
  assumes "interest_bearing_config ad = None" "scaled_ui_amount_config ad = None"
    and u: "u = token_amount_to_ui_amount_v3 E a ad"
    and v: "v = of_nat (unat a) / 10 ^ unat (mint_decimals ad)"
  shows "parse_u64_or_zero (amount u) = a
    \<and> decimal_value (ui_amount_string u) = Some v
    \<and> (CHR ''.'' \<in> set (ui_amount_string u) \<longrightarrow>
          char_digit (last (ui_amount_string u)) \<noteq> None \<and> last (ui_amount_string u) \<noteq> CHR ''0'')
    \<and> (ui_amount u = None \<longleftrightarrow> 19 < mint_decimals ad)
    \<and> (\<forall>f. ui_amount u = Some f \<longrightarrow> (\<exists>q. f = F64 q \<and> \<bar>q - v\<bar> \<le> v * (1 / 2 ^ 52 + 1 / 2 ^ 106)))"
proof -
  have u': "u = \<lparr>ui_amount = map_option (f64_div_nat (unat a)) (checked_pow10 (unat (mint_decimals ad))),
      decimals = mint_decimals ad, amount = show_nat (unat a),
      ui_amount_string = real_number_string_trimmed a (mint_decimals ad)\<rparr>"
    using assms(1,2) by (simp add: u token_amount_to_ui_amount_v3_def Let_def)
  have "char_digit (last (ui_amount_string u)) \<noteq> None \<and> last (ui_amount_string u) \<noteq> CHR ''0''"
    if "CHR ''.'' \<in> set (ui_amount_string u)"
    using trimmed_canonical[of a "mint_decimals ad"] that by (simp add: u')
  moreover have "ui_amount u = None \<longleftrightarrow> 19 < mint_decimals ad"
    by (simp add: u' checked_pow10_eq word_less_nat_alt not_le)
  moreover have "\<exists>q. f = F64 q \<and> \<bar>q - v\<bar> \<le> v * (1 / 2 ^ 52 + 1 / 2 ^ 106)" if f: "ui_amount u = Some f" for f
  proof -
    have n: "unat (mint_decimals ad) \<le> 19" and q: "f = f64_div_nat (unat a) (10 ^ unat (mint_decimals ad))"
      using f by (auto simp: u' checked_pow10_eq split: if_splits)
    show ?thesis unfolding q v by (rule f64_div_pow10_error[OF n, of "unat a"]) blast
  qed
  moreover have "parse_u64_or_zero (amount u) = a" "decimal_value (ui_amount_string u) = Some v"
    by (simp_all add: u' v real_number_string_trimmed_value)
  ultimately show ?thesis by blast
qed

theorem ui_amount_correct_witness:
  "\<exists>u. u = token_amount_to_ui_amount_v3 \<lparr>interest_amount_to_ui_amount = \<lambda>c a d t. None,
           scaled_amount_to_ui_amount = \<lambda>c a d t. None, f64_from_str = \<lambda>s. None\<rparr> 1230
           (with_decimals 3 :: (unit, unit) spl_token_additional_data)
     \<and> ui_amount_string u = ''1.23'' \<and> amount u = ''1230''
     \<and> decimal_value (ui_amount_string u) = Some (123 / 100)"
proof -
  let ?E = "\<lparr>interest_amount_to_ui_amount = \<lambda>(c :: unit) a d t. None,
    scaled_amount_to_ui_amount = \<lambda>(c :: unit) a d t. None, f64_from_str = \<lambda>s. None\<rparr>"
  let ?u = "token_amount_to_ui_amount_v3 ?E 1230 (with_decimals 3)"
  have "decimal_value (ui_amount_string ?u) = Some (123 / 100)"
    using ui_amount_correct[of "with_decimals 3" ?u ?E 1230 "1230 / 10 ^ 3"]
    by (simp add: with_decimals_def)
  moreover have "real_number_string_trimmed 1230 3 = ''1.23''" "show_nat 1230 = ''1230''" by code_simp+
  then have "ui_amount_string ?u = ''1.23''" "amount ?u = ''1230''"
    by (simp_all add: token_amount_to_ui_amount_v3_def with_decimals_def)
  ultimately show ?thesis by blast
qed

end
