(* ===== verification/Storage_Proto.thy ===== *)
theory Storage_Proto
  imports Tx_By_Addr Token_Amount
begin

section \<open>Stored blocks\<close>

text \<open>
  The conversions between blocks with their transactions and status metadata and the messages of
  \<open>src/storage-proto/proto/confirmed_block.proto\<close> (\<open>src/storage-proto/src/convert.rs\<close>), and those of the
  older bincode format (\<open>src/storage-proto/src/lib.rs\<close>).  A field type of a generated message is that
  of the protocol file: \<open>uint32\<close> for the small integers, bytes for keys, an option for a nested
  message, \<open>i32\<close> for an enumeration.  A conversion with an \<open>unwrap\<close> or \<open>expect\<close> returns \<open>None\<close> when that
  panics.  Of third-party crates the conversions use the bincode serialization of a transaction
  error, its error type, and the conversion of a versioned transaction to a legacy one: these extend
  the parameters of the key types.
\<close>

subsection \<open>Instructions and messages\<close>

record compiled_instruction =
  ci_program_id_index :: u8
  ci_accounts :: bytes
  ci_data :: bytes

record proto_compiled_instruction =
  pci_program_id_index :: u32
  pci_accounts :: bytes
  pci_data :: bytes

definition compiled_instruction_into :: "compiled_instruction \<Rightarrow> proto_compiled_instruction" where
  "compiled_instruction_into v =
     \<lparr>pci_program_id_index = ucast (ci_program_id_index v), pci_accounts = ci_accounts v, pci_data = ci_data v\<rparr>"

definition compiled_instruction_from :: "proto_compiled_instruction \<Rightarrow> compiled_instruction" where
  "compiled_instruction_from v =
     \<lparr>ci_program_id_index = ucast (pci_program_id_index v), ci_accounts = pci_accounts v, ci_data = pci_data v\<rparr>"

record inner_instruction =
  ii_instruction :: compiled_instruction
  ii_stack_height :: "u32 option"

record proto_inner_instruction =
  pii_program_id_index :: u32
  pii_accounts :: bytes
  pii_data :: bytes
  pii_stack_height :: "u32 option"

definition inner_instruction_into :: "inner_instruction \<Rightarrow> proto_inner_instruction" where
  "inner_instruction_into v =
     \<lparr>pii_program_id_index = ucast (ci_program_id_index (ii_instruction v)),
      pii_accounts = ci_accounts (ii_instruction v), pii_data = ci_data (ii_instruction v),
      pii_stack_height = ii_stack_height v\<rparr>"

definition inner_instruction_from :: "proto_inner_instruction \<Rightarrow> inner_instruction" where
  "inner_instruction_from v =
     \<lparr>ii_instruction = \<lparr>ci_program_id_index = ucast (pii_program_id_index v),
        ci_accounts = pii_accounts v, ci_data = pii_data v\<rparr>,
      ii_stack_height = pii_stack_height v\<rparr>"

record inner_instructions =
  iis_index :: u8
  iis_instructions :: "inner_instruction list"

record proto_inner_instructions =
  piis_index :: u32
  piis_instructions :: "proto_inner_instruction list"

definition inner_instructions_into :: "inner_instructions \<Rightarrow> proto_inner_instructions" where
  "inner_instructions_into v =
     \<lparr>piis_index = ucast (iis_index v), piis_instructions = map inner_instruction_into (iis_instructions v)\<rparr>"

definition inner_instructions_from :: "proto_inner_instructions \<Rightarrow> inner_instructions" where
  "inner_instructions_from v =
     \<lparr>iis_index = ucast (piis_index v), iis_instructions = map inner_instruction_from (piis_instructions v)\<rparr>"

record message_header =
  num_required_signatures :: u8
  num_readonly_signed_accounts :: u8
  num_readonly_unsigned_accounts :: u8

record proto_message_header =
  p_num_required_signatures :: u32
  p_num_readonly_signed_accounts :: u32
  p_num_readonly_unsigned_accounts :: u32

definition message_header_into :: "message_header \<Rightarrow> proto_message_header" where
  "message_header_into v =
     \<lparr>p_num_required_signatures = ucast (num_required_signatures v),
      p_num_readonly_signed_accounts = ucast (num_readonly_signed_accounts v),
      p_num_readonly_unsigned_accounts = ucast (num_readonly_unsigned_accounts v)\<rparr>"

definition message_header_from :: "proto_message_header \<Rightarrow> message_header" where
  "message_header_from v =
     \<lparr>num_required_signatures = ucast (p_num_required_signatures v),
      num_readonly_signed_accounts = ucast (p_num_readonly_signed_accounts v),
      num_readonly_unsigned_accounts = ucast (p_num_readonly_unsigned_accounts v)\<rparr>"

record 'pk address_table_lookup =
  atl_account_key :: 'pk
  atl_writable_indexes :: bytes
  atl_readonly_indexes :: bytes

definition address_table_lookup_into ::
  "('sig, 'pk, 'hash, 'm) key_env_scheme \<Rightarrow> 'pk address_table_lookup \<Rightarrow> bytes address_table_lookup" where
  "address_table_lookup_into K v =
     \<lparr>atl_account_key = pubkey_as_ref K (atl_account_key v),
      atl_writable_indexes = atl_writable_indexes v, atl_readonly_indexes = atl_readonly_indexes v\<rparr>"

definition address_table_lookup_from ::
  "('sig, 'pk, 'hash, 'm) key_env_scheme \<Rightarrow> bytes address_table_lookup \<Rightarrow> 'pk address_table_lookup option" where
  "address_table_lookup_from K v =
     map_option (\<lambda>k. \<lparr>atl_account_key = k, atl_writable_indexes = atl_writable_indexes v,
                      atl_readonly_indexes = atl_readonly_indexes v\<rparr>)
       (pubkey_try_from K (atl_account_key v))"

record ('pk, 'hash) legacy_message =
  lm_header :: message_header
  lm_account_keys :: "'pk list"
  lm_recent_blockhash :: 'hash
  lm_instructions :: "compiled_instruction list"

record ('pk, 'hash) v0_message =
  v0_header :: message_header
  v0_account_keys :: "'pk list"
  v0_recent_blockhash :: 'hash
  v0_instructions :: "compiled_instruction list"
  v0_address_table_lookups :: "'pk address_table_lookup list"

datatype ('pk, 'hash) versioned_message = Legacy "('pk, 'hash) legacy_message" | V0 "('pk, 'hash) v0_message"

record proto_message =
  pm_header :: "proto_message_header option"
  pm_account_keys :: "bytes list"
  pm_recent_blockhash :: bytes
  pm_instructions :: "proto_compiled_instruction list"
  pm_versioned :: bool
  pm_address_table_lookups :: "bytes address_table_lookup list"

definition legacy_message_into :: "('sig, 'pk, 'hash, 'm) key_env_scheme \<Rightarrow> ('pk, 'hash) legacy_message \<Rightarrow> proto_message" where
  "legacy_message_into K m =
     \<lparr>pm_header = Some (message_header_into (lm_header m)),
      pm_account_keys = map (pubkey_as_ref K) (lm_account_keys m),
      pm_recent_blockhash = hash_to_bytes K (lm_recent_blockhash m),
      pm_instructions = map compiled_instruction_into (lm_instructions m),
      pm_versioned = False,
      pm_address_table_lookups = []\<rparr>"

fun versioned_message_into :: "('sig, 'pk, 'hash, 'm) key_env_scheme \<Rightarrow> ('pk, 'hash) versioned_message \<Rightarrow> proto_message" where
  "versioned_message_into K (Legacy m) = legacy_message_into K m"
| "versioned_message_into K (V0 m) =
     \<lparr>pm_header = Some (message_header_into (v0_header m)),
      pm_account_keys = map (pubkey_as_ref K) (v0_account_keys m),
      pm_recent_blockhash = hash_to_bytes K (v0_recent_blockhash m),
      pm_instructions = map compiled_instruction_into (v0_instructions m),
      pm_versioned = True,
      pm_address_table_lookups = map (address_table_lookup_into K) (v0_address_table_lookups m)\<rparr>"

definition versioned_message_from ::
  "('sig, 'pk, 'hash, 'm) key_env_scheme \<Rightarrow> proto_message \<Rightarrow> ('pk, 'hash) versioned_message option" where
  "versioned_message_from K p =
     do { header \<leftarrow> map_option message_header_from (pm_header p);
          keys \<leftarrow> collect_somes (map (pubkey_try_from K) (pm_account_keys p));
          blockhash \<leftarrow> hash_from_vec K (pm_recent_blockhash p);
          let instructions = map compiled_instruction_from (pm_instructions p);
          lookups \<leftarrow> collect_somes (map (address_table_lookup_from K) (pm_address_table_lookups p));
          Some (if \<not> pm_versioned p
                then Legacy \<lparr>lm_header = header, lm_account_keys = keys, lm_recent_blockhash = blockhash,
                             lm_instructions = instructions\<rparr>
                else V0 \<lparr>v0_header = header, v0_account_keys = keys, v0_recent_blockhash = blockhash,
                         v0_instructions = instructions, v0_address_table_lookups = lookups\<rparr>) }"

subsection \<open>Transactions\<close>

record ('sig, 'pk, 'hash) legacy_transaction =
  lt_signatures :: "'sig list"
  lt_message :: "('pk, 'hash) legacy_message"

record ('sig, 'pk, 'hash) versioned_transaction =
  vt_signatures :: "'sig list"
  vt_message :: "('pk, 'hash) versioned_message"

record proto_transaction =
  pt_signatures :: "bytes list"
  pt_message :: "proto_message option"

definition legacy_transaction_into ::
  "('sig, 'pk, 'hash, 'm) key_env_scheme \<Rightarrow> ('sig, 'pk, 'hash) legacy_transaction \<Rightarrow> proto_transaction" where
  "legacy_transaction_into K t =
     \<lparr>pt_signatures = map (signature_as_ref K) (lt_signatures t),
      pt_message = Some (legacy_message_into K (lt_message t))\<rparr>"

definition versioned_transaction_into ::
  "('sig, 'pk, 'hash, 'm) key_env_scheme \<Rightarrow> ('sig, 'pk, 'hash) versioned_transaction \<Rightarrow> proto_transaction" where
  "versioned_transaction_into K t =
     \<lparr>pt_signatures = map (signature_as_ref K) (vt_signatures t),
      pt_message = Some (versioned_message_into K (vt_message t))\<rparr>"

definition versioned_transaction_from ::
  "('sig, 'pk, 'hash, 'm) key_env_scheme \<Rightarrow> proto_transaction \<Rightarrow> ('sig, 'pk, 'hash) versioned_transaction option" where
  "versioned_transaction_from K p =
     do { sigs \<leftarrow> collect_somes (map (signature_try_from K) (pt_signatures p));
          pm \<leftarrow> pt_message p;
          m \<leftarrow> versioned_message_from K pm;
          Some \<lparr>vt_signatures = sigs, vt_message = m\<rparr> }"

subsection \<open>Rewards and token balances\<close>

datatype reward_type = Fee | Rent | Staking | Voting

record reward =
  rw_pubkey :: string
  rw_lamports :: int
  rw_post_balance :: u64
  rw_reward_type :: "reward_type option"
  rw_commission :: "u8 option"

record proto_reward =
  prw_pubkey :: string
  prw_lamports :: int
  prw_post_balance :: u64
  prw_reward_type :: int
  prw_commission :: string

definition reward_into :: "reward \<Rightarrow> proto_reward" where
  "reward_into r =
     \<lparr>prw_pubkey = rw_pubkey r, prw_lamports = rw_lamports r, prw_post_balance = rw_post_balance r,
      prw_reward_type = (case rw_reward_type r of None \<Rightarrow> 0 | Some Fee \<Rightarrow> 1 | Some Rent \<Rightarrow> 2 | Some Staking \<Rightarrow> 3 | Some Voting \<Rightarrow> 4),
      prw_commission = (case rw_commission r of None \<Rightarrow> [] | Some c \<Rightarrow> show_nat (unat c))\<rparr>"

definition reward_from :: "proto_reward \<Rightarrow> reward" where
  "reward_from r =
     \<lparr>rw_pubkey = prw_pubkey r, rw_lamports = prw_lamports r, rw_post_balance = prw_post_balance r,
      rw_reward_type = (let t = prw_reward_type r
        in if t = 0 then None else if t = 1 then Some Fee else if t = 2 then Some Rent
           else if t = 3 then Some Staking else if t = 4 then Some Voting else None),
      rw_commission = map_option word_of_nat (parse_unsigned 255 (prw_commission r))\<rparr>"

datatype num_partitions_message = NumPartitions (num_partitions: u64)

record proto_rewards =
  prs_rewards :: "proto_reward list"
  prs_num_partitions :: "num_partitions_message option"

definition rewards_into :: "reward list \<Rightarrow> proto_rewards" where
  "rewards_into rs = \<lparr>prs_rewards = map reward_into rs, prs_num_partitions = None\<rparr>"

definition rewards_and_num_partitions_into :: "reward list \<Rightarrow> u64 option \<Rightarrow> proto_rewards" where
  "rewards_and_num_partitions_into rs n = \<lparr>prs_rewards = map reward_into rs, prs_num_partitions = map_option NumPartitions n\<rparr>"

definition rewards_from :: "proto_rewards \<Rightarrow> reward list" where
  "rewards_from p = map reward_from (prs_rewards p)"

definition rewards_and_num_partitions_from :: "proto_rewards \<Rightarrow> reward list \<times> u64 option" where
  "rewards_and_num_partitions_from p =
     (map reward_from (prs_rewards p), map_option num_partitions (prs_num_partitions p))"

record token_balance =
  tb_account_index :: u8
  tb_mint :: string
  tb_ui_token_amount :: ui_token_amount
  tb_owner :: string
  tb_program_id :: string

record proto_ui_token_amount =
  pua_ui_amount :: f64
  pua_decimals :: u32
  pua_amount :: string
  pua_ui_amount_string :: string

definition proto_ui_token_amount_default :: proto_ui_token_amount where
  "proto_ui_token_amount_default =
     \<lparr>pua_ui_amount = f64_zero, pua_decimals = 0, pua_amount = [], pua_ui_amount_string = []\<rparr>"

record proto_token_balance =
  ptb_account_index :: u32
  ptb_mint :: string
  ptb_ui_token_amount :: "proto_ui_token_amount option"
  ptb_owner :: string
  ptb_program_id :: string

definition token_balance_into :: "token_balance \<Rightarrow> proto_token_balance" where
  "token_balance_into v =
     \<lparr>ptb_account_index = ucast (tb_account_index v), ptb_mint = tb_mint v,
      ptb_ui_token_amount = Some
        \<lparr>pua_ui_amount = (case ui_amount (tb_ui_token_amount v) of Some f \<Rightarrow> f | None \<Rightarrow> f64_zero),
         pua_decimals = ucast (decimals (tb_ui_token_amount v)),
         pua_amount = amount (tb_ui_token_amount v),
         pua_ui_amount_string = ui_amount_string (tb_ui_token_amount v)\<rparr>,
      ptb_owner = tb_owner v, ptb_program_id = tb_program_id v\<rparr>"

definition token_balance_from :: "proto_token_balance \<Rightarrow> token_balance" where
  "token_balance_from v =
     (let u = (case ptb_ui_token_amount v of Some u \<Rightarrow> u | None \<Rightarrow> proto_ui_token_amount_default)
      in \<lparr>tb_account_index = ucast (ptb_account_index v), tb_mint = ptb_mint v,
          tb_ui_token_amount =
            \<lparr>ui_amount = (if f64_abs_exceeds_epsilon (pua_ui_amount u) then Some (pua_ui_amount u) else None),
             decimals = ucast (pua_decimals u),
             amount = pua_amount u,
             ui_amount_string =
               (if pua_ui_amount_string u \<noteq> [] then pua_ui_amount_string u
                else real_number_string_trimmed (parse_u64_or_zero (pua_amount u)) (ucast (pua_decimals u)))\<rparr>,
          tb_owner = ptb_owner v, tb_program_id = ptb_program_id v\<rparr>)"

record 'pk tx_return_data =
  rd_program_id :: 'pk
  rd_data :: bytes

definition return_data_into :: "('sig, 'pk, 'hash, 'm) key_env_scheme \<Rightarrow> 'pk tx_return_data \<Rightarrow> bytes tx_return_data" where
  "return_data_into K v = \<lparr>rd_program_id = pubkey_as_ref K (rd_program_id v), rd_data = rd_data v\<rparr>"

definition return_data_from :: "('sig, 'pk, 'hash, 'm) key_env_scheme \<Rightarrow> bytes tx_return_data \<Rightarrow> 'pk tx_return_data option" where
  "return_data_from K v =
     map_option (\<lambda>k. \<lparr>rd_program_id = k, rd_data = rd_data v\<rparr>) (pubkey_try_from K (rd_program_id v))"

subsection \<open>Status metadata\<close>

record ('sig, 'pk, 'hash, 'be) storage_env = "('sig, 'pk, 'hash) key_env" +
  error_serialize :: "transaction_error \<Rightarrow> bytes option"
  error_deserialize :: "bytes \<Rightarrow> 'be + transaction_error"
  bincode_custom :: "string \<Rightarrow> bytes \<Rightarrow> 'be"
  into_legacy_transaction :: "('sig, 'pk, 'hash) versioned_transaction \<Rightarrow> ('sig, 'pk, 'hash) legacy_transaction option"

record 'pk loaded_addresses =
  la_writable :: "'pk list"
  la_readonly :: "'pk list"

record 'pk status_meta =
  sm_status :: "transaction_error + unit"
  sm_fee :: u64
  sm_pre_balances :: "u64 list"
  sm_post_balances :: "u64 list"
  sm_inner_instructions :: "inner_instructions list option"
  sm_log_messages :: "string list option"
  sm_pre_token_balances :: "token_balance list option"
  sm_post_token_balances :: "token_balance list option"
  sm_rewards :: "reward list option"
  sm_loaded_addresses :: "'pk loaded_addresses"
  sm_return_data :: "'pk tx_return_data option"
  sm_compute_units_consumed :: "u64 option"
  sm_cost_units :: "u64 option"

datatype stored_error = StoredError (stored_err: bytes)

record proto_status_meta =
  psm_err :: "stored_error option"
  psm_fee :: u64
  psm_pre_balances :: "u64 list"
  psm_post_balances :: "u64 list"
  psm_inner_instructions :: "proto_inner_instructions list"
  psm_inner_instructions_none :: bool
  psm_log_messages :: "string list"
  psm_log_messages_none :: bool
  psm_pre_token_balances :: "proto_token_balance list"
  psm_post_token_balances :: "proto_token_balance list"
  psm_rewards :: "proto_reward list"
  psm_loaded_writable_addresses :: "bytes list"
  psm_loaded_readonly_addresses :: "bytes list"
  psm_return_data :: "bytes tx_return_data option"
  psm_return_data_none :: bool
  psm_compute_units_consumed :: "u64 option"
  psm_cost_units :: "u64 option"

definition unwrap_or_default :: "'a list option \<Rightarrow> 'a list" where
  "unwrap_or_default x = (case x of None \<Rightarrow> [] | Some l \<Rightarrow> l)"

definition status_meta_into ::
  "('sig, 'pk, 'hash, 'be) storage_env \<Rightarrow> 'pk status_meta \<Rightarrow> proto_status_meta option" where
  "status_meta_into K v =
     do { err \<leftarrow> (case sm_status v of
                  Inr _ \<Rightarrow> Some None
                | Inl e \<Rightarrow> map_option (\<lambda>b. Some (StoredError b)) (error_serialize K e));
          Some \<lparr>psm_err = err, psm_fee = sm_fee v,
            psm_pre_balances = sm_pre_balances v, psm_post_balances = sm_post_balances v,
            psm_inner_instructions = map inner_instructions_into (unwrap_or_default (sm_inner_instructions v)),
            psm_inner_instructions_none = (sm_inner_instructions v = None),
            psm_log_messages = unwrap_or_default (sm_log_messages v),
            psm_log_messages_none = (sm_log_messages v = None),
            psm_pre_token_balances = map token_balance_into (unwrap_or_default (sm_pre_token_balances v)),
            psm_post_token_balances = map token_balance_into (unwrap_or_default (sm_post_token_balances v)),
            psm_rewards = map reward_into (unwrap_or_default (sm_rewards v)),
            psm_loaded_writable_addresses = map (pubkey_as_ref K) (la_writable (sm_loaded_addresses v)),
            psm_loaded_readonly_addresses = map (pubkey_as_ref K) (la_readonly (sm_loaded_addresses v)),
            psm_return_data = map_option (return_data_into K) (sm_return_data v),
            psm_return_data_none = (sm_return_data v = None),
            psm_compute_units_consumed = sm_compute_units_consumed v,
            psm_cost_units = sm_cost_units v\<rparr> }"

definition loaded_addresses_from ::
  "('sig, 'pk, 'hash, 'be) storage_env \<Rightarrow> string \<Rightarrow> bytes list \<Rightarrow> 'be + 'pk list" where
  "loaded_addresses_from K message addresses =
     collect_results (map (\<lambda>a. ok_or (pubkey_try_from K a) (bincode_custom K message a)) addresses)"

definition status_meta_try_from ::
  "('sig, 'pk, 'hash, 'be) storage_env \<Rightarrow> proto_status_meta \<Rightarrow> ('be + 'pk status_meta) option" where
  "status_meta_try_from K v =
     bind_step (Some (case psm_err v of
                        None \<Rightarrow> Inr (Inr ())
                      | Some e \<Rightarrow> and_then (error_deserialize K (stored_err e)) (\<lambda>e'. Inr (Inl e')))) (\<lambda>status.
     bind_step (Some (loaded_addresses_from K ''Invalid writable address'' (psm_loaded_writable_addresses v))) (\<lambda>writable.
     bind_step (Some (loaded_addresses_from K ''Invalid readonly address'' (psm_loaded_readonly_addresses v))) (\<lambda>readonly.
     bind_step (if psm_return_data_none v then Some (Inr None)
                else case psm_return_data v of
                       None \<Rightarrow> Some (Inr None)
                     | Some r \<Rightarrow> expect (map_option Some (return_data_from K r))) (\<lambda>return_data.
     Some (Inr
       \<lparr>sm_status = status, sm_fee = psm_fee v,
        sm_pre_balances = psm_pre_balances v, sm_post_balances = psm_post_balances v,
        sm_inner_instructions =
          (if psm_inner_instructions_none v then None else Some (map inner_instructions_from (psm_inner_instructions v))),
        sm_log_messages = (if psm_log_messages_none v then None else Some (psm_log_messages v)),
        sm_pre_token_balances = Some (map token_balance_from (psm_pre_token_balances v)),
        sm_post_token_balances = Some (map token_balance_from (psm_post_token_balances v)),
        sm_rewards = Some (map reward_from (psm_rewards v)),
        sm_loaded_addresses = \<lparr>la_writable = writable, la_readonly = readonly\<rparr>,
        sm_return_data = return_data,
        sm_compute_units_consumed = psm_compute_units_consumed v,
        sm_cost_units = psm_cost_units v\<rparr>)))))"

subsection \<open>Transactions with metadata and blocks\<close>

record ('sig, 'pk, 'hash) versioned_tx_with_meta =
  vm_transaction :: "('sig, 'pk, 'hash) versioned_transaction"
  vm_meta :: "'pk status_meta"

datatype ('sig, 'pk, 'hash) tx_with_meta =
    MissingMetadata "('sig, 'pk, 'hash) legacy_transaction"
  | Complete "('sig, 'pk, 'hash) versioned_tx_with_meta"

record proto_confirmed_transaction =
  pct_transaction :: "proto_transaction option"
  pct_meta :: "proto_status_meta option"

definition versioned_tx_with_meta_into ::
  "('sig, 'pk, 'hash, 'be) storage_env \<Rightarrow> ('sig, 'pk, 'hash) versioned_tx_with_meta \<Rightarrow> proto_confirmed_transaction option" where
  "versioned_tx_with_meta_into K v =
     map_option (\<lambda>m. \<lparr>pct_transaction = Some (versioned_transaction_into K (vm_transaction v)), pct_meta = Some m\<rparr>)
       (status_meta_into K (vm_meta v))"

fun tx_with_meta_into ::
  "('sig, 'pk, 'hash, 'be) storage_env \<Rightarrow> ('sig, 'pk, 'hash) tx_with_meta \<Rightarrow> proto_confirmed_transaction option" where
  "tx_with_meta_into K (MissingMetadata t) =
     Some \<lparr>pct_transaction = Some (legacy_transaction_into K t), pct_meta = None\<rparr>"
| "tx_with_meta_into K (Complete v) = versioned_tx_with_meta_into K v"

definition tx_with_meta_try_from ::
  "('sig, 'pk, 'hash, 'be) storage_env \<Rightarrow> proto_confirmed_transaction \<Rightarrow> ('be + ('sig, 'pk, 'hash) tx_with_meta) option" where
  "tx_with_meta_try_from K p =
     bind_step (case pct_meta p of
                  None \<Rightarrow> Some (Inr None)
                | Some m \<Rightarrow> bind_step (status_meta_try_from K m) (\<lambda>m'. Some (Inr (Some m')))) (\<lambda>meta.
     bind_step (expect (Option.bind (pct_transaction p) (versioned_transaction_from K))) (\<lambda>transaction.
     case meta of
       Some m \<Rightarrow> Some (Inr (Complete \<lparr>vm_transaction = transaction, vm_meta = m\<rparr>))
     | None \<Rightarrow> expect (map_option MissingMetadata (into_legacy_transaction K transaction))))"

datatype block_height_message = BlockHeight (block_height: u64)

record ('tx) confirmed_block =
  cb_previous_blockhash :: string
  cb_blockhash :: string
  cb_parent_slot :: u64
  cb_transactions :: "'tx list"
  cb_rewards :: "reward list"
  cb_num_partitions :: "u64 option"
  cb_block_time :: "int option"
  cb_block_height :: "u64 option"

record proto_confirmed_block =
  pcb_previous_blockhash :: string
  pcb_blockhash :: string
  pcb_parent_slot :: u64
  pcb_transactions :: "proto_confirmed_transaction list"
  pcb_rewards :: "proto_reward list"
  pcb_num_partitions :: "num_partitions_message option"
  pcb_block_time :: "unix_timestamp option"
  pcb_block_height :: "block_height_message option"

definition confirmed_block_into ::
  "('sig, 'pk, 'hash, 'be) storage_env \<Rightarrow> ('sig, 'pk, 'hash) versioned_tx_with_meta confirmed_block \<Rightarrow> proto_confirmed_block option" where
  "confirmed_block_into K b =
     do { txs \<leftarrow> collect_somes (map (versioned_tx_with_meta_into K) (cb_transactions b));
          Some \<lparr>pcb_previous_blockhash = cb_previous_blockhash b, pcb_blockhash = cb_blockhash b,
            pcb_parent_slot = cb_parent_slot b, pcb_transactions = txs,
            pcb_rewards = map reward_into (cb_rewards b),
            pcb_num_partitions = map_option NumPartitions (cb_num_partitions b),
            pcb_block_time = map_option UnixTimestamp (cb_block_time b),
            pcb_block_height = map_option BlockHeight (cb_block_height b)\<rparr> }"

definition confirmed_block_try_from ::
  "('sig, 'pk, 'hash, 'be) storage_env \<Rightarrow> proto_confirmed_block \<Rightarrow> ('be + ('sig, 'pk, 'hash) tx_with_meta confirmed_block) option" where
  "confirmed_block_try_from K p =
     bind_step (collect_steps (map (tx_with_meta_try_from K) (pcb_transactions p))) (\<lambda>txs.
     Some (Inr \<lparr>cb_previous_blockhash = pcb_previous_blockhash p, cb_blockhash = pcb_blockhash p,
       cb_parent_slot = pcb_parent_slot p, cb_transactions = txs,
       cb_rewards = map reward_from (pcb_rewards p),
       cb_num_partitions = map_option num_partitions (pcb_num_partitions p),
       cb_block_time = map_option timestamp (pcb_block_time p),
       cb_block_height = map_option block_height (pcb_block_height p)\<rparr>))"

end
