(* ===== verification/Storage_Roundtrip.thy ===== *)
theory Storage_Roundtrip
  imports Storage_Proto
begin

section \<open>Stored blocks are read back\<close>

text \<open>
  Round trips of the conversions of stored blocks.  The conversions that lose nothing share one
  contract, a decoder after its encoder is the identity; the others are characterised by the
  canonical form that reading gives.  \<open>storage_laws\<close> states what is assumed of the third-party code:
  the laws of the keys, that bincode reads back a serialized transaction error, and that exactly
  the transactions with a legacy message convert to legacy transactions.
\<close>

locale lossless_codec =
  fixes enc :: "'a \<Rightarrow> 'b" and dec :: "'b \<Rightarrow> 'a"
  assumes dec_enc: "dec (enc x) = x"
begin

lemma enc_inject: "enc x = enc y \<longleftrightarrow> x = y"
  using dec_enc by metis

lemma dec_comp_enc: "dec \<circ> enc = id"
  by (simp add: fun_eq_iff dec_enc)

lemma map_dec_enc: "map (\<lambda>x. dec (enc x)) xs = xs"
  by (simp add: dec_enc)

end

subsection \<open>Lossless conversions\<close>

interpretation compiled: lossless_codec compiled_instruction_into compiled_instruction_from
  by unfold_locales (simp add: compiled_instruction_into_def compiled_instruction_from_def)

interpretation inner: lossless_codec inner_instruction_into inner_instruction_from
  by unfold_locales (simp add: inner_instruction_into_def inner_instruction_from_def)

interpretation inners: lossless_codec inner_instructions_into inner_instructions_from
  by unfold_locales (simp add: inner_instructions_into_def inner_instructions_from_def inner.dec_comp_enc)

interpretation header: lossless_codec message_header_into message_header_from
  by unfold_locales (simp add: message_header_into_def message_header_from_def)

lemma unat_u8_le [simp]: "unat (c :: u8) \<le> 255"
  using unsigned_less[of c, where ?'a = nat] by simp

interpretation reward: lossless_codec reward_into reward_from
proof
  fix r :: reward
  show "reward_from (reward_into r) = r"
    by (cases "rw_reward_type r"; cases "rw_commission r")
      (auto simp: reward_into_def reward_from_def split: reward_type.split)
qed

lemmas lossless = compiled.dec_comp_enc inner.dec_comp_enc inners.dec_comp_enc header.dec_enc reward.dec_comp_enc

subsection \<open>Messages and transactions\<close>

definition storage_laws :: "('sig, 'pk, 'hash, 'be) storage_env \<Rightarrow> bool" where
  "storage_laws K \<longleftrightarrow>
     key_laws K
     \<and> (\<forall>e. \<exists>b. error_serialize K e = Some b \<and> error_deserialize K b = Inr e)
     \<and> (\<forall>s m. into_legacy_transaction K \<lparr>vt_signatures = s, vt_message = Legacy m\<rparr> = Some \<lparr>lt_signatures = s, lt_message = m\<rparr>)
     \<and> (\<forall>s m. into_legacy_transaction K \<lparr>vt_signatures = s, vt_message = V0 m\<rparr> = None)"

lemma collect_pubkeys [simp]:
  "key_laws K \<Longrightarrow> collect_somes (map (pubkey_try_from K) (map (pubkey_as_ref K) ks)) = Some ks"
  unfolding map_map by (rule collect_options_roundtrip) simp

lemma collect_signatures [simp]:
  "key_laws K \<Longrightarrow> collect_somes (map (signature_try_from K) (map (signature_as_ref K) ks)) = Some ks"
  unfolding map_map by (rule collect_options_roundtrip) simp

lemma collect_lookups [simp]:
  "key_laws K \<Longrightarrow> collect_somes (map (address_table_lookup_from K) (map (address_table_lookup_into K) ls)) = Some ls"
  unfolding map_map
  by (rule collect_options_roundtrip) (simp add: address_table_lookup_from_def address_table_lookup_into_def)

lemma versioned_message_roundtrip:
  "key_laws K \<Longrightarrow> versioned_message_from K (versioned_message_into K m) = Some m"
  by (cases m)
    (simp_all add: versioned_message_from_def legacy_message_into_def lossless del: map_map, simp_all add: lossless)

lemma versioned_transaction_roundtrip:
  "key_laws K \<Longrightarrow> versioned_transaction_from K (versioned_transaction_into K t) = Some t"
  by (simp add: versioned_transaction_from_def versioned_transaction_into_def versioned_message_roundtrip del: map_map)

lemma legacy_transaction_roundtrip:
  assumes "key_laws K"
  shows "versioned_transaction_from K (legacy_transaction_into K t) =
    Some \<lparr>vt_signatures = lt_signatures t, vt_message = Legacy (lt_message t)\<rparr>"
proof -
  have "versioned_message_from K (legacy_message_into K (lt_message t)) = Some (Legacy (lt_message t))"
    using versioned_message_roundtrip[OF assms, of "Legacy (lt_message t)"] by simp
  then show ?thesis
    using assms by (simp add: versioned_transaction_from_def legacy_transaction_into_def del: map_map)
qed

subsection \<open>Token balances and metadata\<close>

text \<open>What reading gives: a displayed amount of magnitude at most \<open>f64::EPSILON\<close> is dropped, an empty
  string is computed, and absent token balances and rewards become empty ones.\<close>

definition canonical_amount :: "ui_token_amount \<Rightarrow> ui_token_amount" where
  "canonical_amount u =
     u\<lparr>ui_amount := (case ui_amount u of
                        Some f \<Rightarrow> if f64_abs_exceeds_epsilon f then Some f else None | None \<Rightarrow> None),
       ui_amount_string := UiTokenAmount_real_number_string_trimmed u\<rparr>"

definition canonical_balance :: "token_balance \<Rightarrow> token_balance" where
  "canonical_balance b = b\<lparr>tb_ui_token_amount := canonical_amount (tb_ui_token_amount b)\<rparr>"

definition canonical_meta :: "'pk status_meta \<Rightarrow> 'pk status_meta" where
  "canonical_meta m =
     m\<lparr>sm_pre_token_balances := Some (map canonical_balance (unwrap_or_default (sm_pre_token_balances m))),
       sm_post_token_balances := Some (map canonical_balance (unwrap_or_default (sm_post_token_balances m))),
       sm_rewards := Some (unwrap_or_default (sm_rewards m))\<rparr>"

lemma token_balance_roundtrip: "token_balance_from (token_balance_into b) = canonical_balance b"
  by (simp add: token_balance_from_def token_balance_into_def canonical_balance_def canonical_amount_def
      UiTokenAmount_real_number_string_trimmed_def f64_zero_def Let_def split: option.split)

lemma canonical_balance_idem: "canonical_balance (canonical_balance b) = canonical_balance b"
proof -
  have "real_number_string_trimmed a d \<noteq> []" for a d
    using real_number_string_trimmed_value[of a d] by (auto simp: decimal_value_def)
  then show ?thesis
    by (simp add: canonical_balance_def canonical_amount_def UiTokenAmount_real_number_string_trimmed_def
        split: option.split)
qed

lemma canonical_meta_idem: "canonical_meta (canonical_meta m) = canonical_meta m"
  by (simp add: canonical_meta_def unwrap_or_default_def canonical_balance_idem comp_def)

lemma loaded_addresses_roundtrip:
  "key_laws K \<Longrightarrow> loaded_addresses_from K message (map (pubkey_as_ref K) ks) = Inr ks"
  by (induction ks) (simp_all add: loaded_addresses_from_def)

lemma return_data_roundtrip: "key_laws K \<Longrightarrow> return_data_from K (return_data_into K r) = Some r"
  by (simp add: return_data_from_def return_data_into_def)

lemma stored_option_roundtrip:
  "(if x = None then None else Some (map f (map g (unwrap_or_default x)))) = map_option (map (\<lambda>y. f (g y))) x"
  by (cases x) (simp_all add: unwrap_or_default_def comp_def)

lemma stored_return_data_roundtrip:
  assumes "key_laws K"
  shows "(if r = None then Some (Inr None)
     else case map_option (return_data_into K) r of
            None \<Rightarrow> Some (Inr None)
          | Some r' \<Rightarrow> expect (map_option Some (return_data_from K r'))) = Some (Inr r)"
  by (cases r) (simp_all add: return_data_roundtrip[OF assms])

lemma stored_error_roundtrip:
  assumes "storage_laws K"
  obtains e where
    "(case s of Inr _ \<Rightarrow> Some None | Inl e \<Rightarrow> map_option (\<lambda>b. Some (StoredError b)) (error_serialize K e)) = Some e"
    "(case e of None \<Rightarrow> Inr (Inr ())
      | Some e' \<Rightarrow> and_then (error_deserialize K (stored_err e')) (\<lambda>e''. Inr (Inl e''))) = Inr s"
proof (cases s)
  case (Inl err)
  obtain b where "error_serialize K err = Some b" "error_deserialize K b = Inr err"
    using assms unfolding storage_laws_def by blast
  then show thesis using Inl that[of "Some (StoredError b)"] by simp
next
  case (Inr u)
  then show thesis using that[of None] by simp
qed

lemma status_meta_roundtrip:
  assumes "storage_laws K"
  obtains p where "status_meta_into K m = Some p" "status_meta_try_from K p = Some (Inr (canonical_meta m))"
proof -
  have K: "key_laws K" using assms by (simp add: storage_laws_def)
  from stored_error_roundtrip[OF assms, of "sm_status m"] obtain e where
    e: "(case sm_status m of Inr _ \<Rightarrow> Some None
          | Inl e \<Rightarrow> map_option (\<lambda>b. Some (StoredError b)) (error_serialize K e)) = Some e"
      "(case e of None \<Rightarrow> Inr (Inr ())
          | Some e' \<Rightarrow> and_then (error_deserialize K (stored_err e')) (\<lambda>e''. Inr (Inl e''))) = Inr (sm_status m)" .
  obtain p where p: "status_meta_into K m = Some p" by (simp add: status_meta_into_def e(1))
  have logs: "(if sm_log_messages m = None then None else Some (unwrap_or_default (sm_log_messages m))) = sm_log_messages m"
    by (cases "sm_log_messages m") (simp_all add: unwrap_or_default_def)
  have "status_meta_try_from K p = Some (Inr (canonical_meta m))"
    using p unfolding status_meta_into_def e(1) Option.bind.bind_lunit option.inject
    by hypsubst (simp only: status_meta_try_from_def proto_status_meta.simps e(2) bind_step_simps
        loaded_addresses_roundtrip[OF K] stored_return_data_roundtrip[OF K] stored_option_roundtrip logs,
        simp add: canonical_meta_def inners.dec_enc reward.dec_enc token_balance_roundtrip comp_def option.map_ident)
  with p show thesis by (rule that)
qed

subsection \<open>Transactions and blocks\<close>

definition canonical_tx :: "('sig, 'pk, 'hash) tx_with_meta \<Rightarrow> ('sig, 'pk, 'hash) tx_with_meta" where
  "canonical_tx t =
     (case t of MissingMetadata l \<Rightarrow> MissingMetadata l
      | Complete v \<Rightarrow> Complete (v\<lparr>vm_meta := canonical_meta (vm_meta v)\<rparr>))"

definition map_block :: "('a \<Rightarrow> 'b) \<Rightarrow> 'a confirmed_block \<Rightarrow> 'b confirmed_block" where
  "map_block f b =
     \<lparr>cb_previous_blockhash = cb_previous_blockhash b, cb_blockhash = cb_blockhash b,
      cb_parent_slot = cb_parent_slot b, cb_transactions = map f (cb_transactions b),
      cb_rewards = cb_rewards b, cb_num_partitions = cb_num_partitions b,
      cb_block_time = cb_block_time b, cb_block_height = cb_block_height b\<rparr>"

lemma canonical_tx_idem: "canonical_tx (canonical_tx t) = canonical_tx t"
  by (cases t) (simp_all add: canonical_tx_def canonical_meta_idem)

lemma tx_with_meta_roundtrip:
  assumes "storage_laws K"
  obtains p where "tx_with_meta_into K t = Some p" "tx_with_meta_try_from K p = Some (Inr (canonical_tx t))"
proof (cases t)
  case (MissingMetadata l)
  have K: "key_laws K" using assms by (simp add: storage_laws_def)
  have "into_legacy_transaction K \<lparr>vt_signatures = lt_signatures l, vt_message = Legacy (lt_message l)\<rparr> = Some l"
    using assms by (simp add: storage_laws_def)
  then show thesis
    using MissingMetadata that
    by (simp add: tx_with_meta_try_from_def legacy_transaction_roundtrip[OF K] canonical_tx_def)
next
  case (Complete v)
  have K: "key_laws K" using assms by (simp add: storage_laws_def)
  from status_meta_roundtrip[OF assms, of "vm_meta v"] obtain m where
    "status_meta_into K (vm_meta v) = Some m" "status_meta_try_from K m = Some (Inr (canonical_meta (vm_meta v)))" .
  then show thesis
    using Complete that
    by (simp add: versioned_tx_with_meta_into_def tx_with_meta_try_from_def versioned_transaction_roundtrip[OF K]
        canonical_tx_def)
qed

lemma collect_txs_roundtrip:
  assumes "storage_laws K"
  obtains ps where "collect_somes (map (versioned_tx_with_meta_into K) vs) = Some ps"
    "collect_steps (map (tx_with_meta_try_from K) ps) = Some (Inr (map (\<lambda>v. canonical_tx (Complete v)) vs))"
proof (induction vs arbitrary: thesis)
  case (Cons v vs)
  obtain ps where "collect_somes (map (versioned_tx_with_meta_into K) vs) = Some ps"
    "collect_steps (map (tx_with_meta_try_from K) ps) = Some (Inr (map (\<lambda>v. canonical_tx (Complete v)) vs))"
    by (rule Cons.IH)
  moreover from tx_with_meta_roundtrip[OF assms, of "Complete v"] obtain p where
    "tx_with_meta_into K (Complete v) = Some p" "tx_with_meta_try_from K p = Some (Inr (canonical_tx (Complete v)))" .
  ultimately show ?case using Cons.prems[of "p # ps"] by simp
qed simp

text \<open>C14: Every block can be stored, and what is stored is read back: the block itself, with each of
  its transactions in canonical form, which keeps everything except that absent token balances and
  rewards are read as empty, that an empty amount string is computed from the amount, and that a
  displayed amount of magnitude at most \<open>2^-52\<close> is dropped.  The canonical form loses nothing more
  when it is stored again.\<close>

theorem confirmed_block_roundtrip:
  assumes "storage_laws K"
  shows "(\<exists>p. confirmed_block_into K b = Some p
        \<and> confirmed_block_try_from K p = Some (Inr (map_block (\<lambda>v. canonical_tx (Complete v)) b)))
    \<and> (\<forall>t. \<exists>p. tx_with_meta_into K (canonical_tx t) = Some p
        \<and> tx_with_meta_try_from K p = Some (Inr (canonical_tx t)))"
proof (intro conjI allI)
  from collect_txs_roundtrip[OF assms, of "cb_transactions b"] obtain ps where
    "collect_somes (map (versioned_tx_with_meta_into K) (cb_transactions b)) = Some ps"
    "collect_steps (map (tx_with_meta_try_from K) ps) = Some (Inr (map (\<lambda>v. canonical_tx (Complete v)) (cb_transactions b)))" .
  then show "\<exists>p. confirmed_block_into K b = Some p
      \<and> confirmed_block_try_from K p = Some (Inr (map_block (\<lambda>v. canonical_tx (Complete v)) b))"
    by (simp add: confirmed_block_into_def confirmed_block_try_from_def map_block_def reward.dec_enc
        option.map_comp comp_def option.map_ident)
next
  fix t
  show "\<exists>p. tx_with_meta_into K (canonical_tx t) = Some p
      \<and> tx_with_meta_try_from K p = Some (Inr (canonical_tx t))"
    using tx_with_meta_roundtrip[OF assms, of "canonical_tx t"] by (auto simp: canonical_tx_idem)
qed

subsection \<open>Panics while reading\<close>

text \<open>What a stored transaction must have to be read.\<close>

definition readable_message :: "('sig, 'pk, 'hash, 'm) key_env_scheme \<Rightarrow> proto_message \<Rightarrow> bool" where
  "readable_message K m \<longleftrightarrow>
     pm_header m \<noteq> None
     \<and> (\<forall>k \<in> set (pm_account_keys m). pubkey_try_from K k \<noteq> None)
     \<and> length (pm_recent_blockhash m) = 32
     \<and> (\<forall>l \<in> set (pm_address_table_lookups m). pubkey_try_from K (atl_account_key l) \<noteq> None)"

definition readable_transaction :: "('sig, 'pk, 'hash, 'm) key_env_scheme \<Rightarrow> proto_transaction \<Rightarrow> bool" where
  "readable_transaction K t \<longleftrightarrow>
     (\<forall>s \<in> set (pt_signatures t). signature_try_from K s \<noteq> None)
     \<and> (\<exists>m. pt_message t = Some m \<and> readable_message K m)"

lemma collect_map_None: "collect_somes (map f xs) = None \<longleftrightarrow> (\<exists>x \<in> set xs. f x = None)"
  by (induction xs) (auto split: option.split)

lemma versioned_message_from_None: "versioned_message_from K m = None \<longleftrightarrow> \<not> readable_message K m"
proof -
  have "versioned_message_from K m = None \<longleftrightarrow>
      pm_header m = None \<or> collect_somes (map (pubkey_try_from K) (pm_account_keys m)) = None
      \<or> hash_from_vec K (pm_recent_blockhash m) = None
      \<or> collect_somes (map (address_table_lookup_from K) (pm_address_table_lookups m)) = None"
    unfolding versioned_message_from_def Let_def
    by (cases "pm_header m"; cases "collect_somes (map (pubkey_try_from K) (pm_account_keys m))";
        cases "hash_from_vec K (pm_recent_blockhash m)";
        cases "collect_somes (map (address_table_lookup_from K) (pm_address_table_lookups m))") simp_all
  then show ?thesis
    by (simp add: readable_message_def collect_map_None hash_from_vec_def address_table_lookup_from_def)
qed

lemma versioned_transaction_from_None: "versioned_transaction_from K t = None \<longleftrightarrow> \<not> readable_transaction K t"
proof -
  have "versioned_transaction_from K t = None \<longleftrightarrow>
      collect_somes (map (signature_try_from K) (pt_signatures t)) = None
      \<or> Option.bind (pt_message t) (versioned_message_from K) = None"
    unfolding versioned_transaction_from_def
    by (cases "collect_somes (map (signature_try_from K) (pt_signatures t))"; cases "pt_message t")
      (auto simp: bind_eq_None_conv split: option.split)
  then show ?thesis
    by (cases "pt_message t")
      (auto simp: readable_transaction_def collect_map_None versioned_message_from_None)
qed

lemma status_meta_try_from_None:
  "status_meta_try_from K m = None \<Longrightarrow>
     \<not> psm_return_data_none m \<and> (\<exists>r. psm_return_data m = Some r \<and> pubkey_try_from K (rd_program_id r) = None)"
  by (auto simp: status_meta_try_from_def bind_step_eq_None return_data_from_def expect_def split: if_splits option.splits)

lemma tx_with_meta_try_from_panic:
  assumes "storage_laws K" "tx_with_meta_try_from K p = None"
  shows "(\<exists>m r. pct_meta p = Some m \<and> psm_return_data m = Some r \<and> pubkey_try_from K (rd_program_id r) = None)
      \<or> (\<forall>t. pct_transaction p = Some t \<longrightarrow> \<not> readable_transaction K t)
      \<or> (pct_meta p = None \<and> (\<exists>t m. pct_transaction p = Some t \<and> pt_message t = Some m \<and> pm_versioned m))"
proof (cases "Option.bind (pct_transaction p) (versioned_transaction_from K)")
  case None
  then show ?thesis by (cases "pct_transaction p") (simp_all add: versioned_transaction_from_None)
next
  case (Some v)
  show ?thesis
  proof (cases "pct_meta p")
    case (Some m)
    with \<open>_ = Some v\<close> status_meta_try_from_None[of K m] assms(2) show ?thesis
      by (auto simp: tx_with_meta_try_from_def bind_step_eq_None bind_step_eq_Ok)
  next
    case None
    obtain t m where t: "pct_transaction p = Some t" "pt_message t = Some m" "versioned_message_from K m = Some (vt_message v)"
      using Some by (auto simp: bind_eq_Some_conv versioned_transaction_from_def)
    have "into_legacy_transaction K v = None"
      using assms(2) None Some by (cases "into_legacy_transaction K v") (auto simp: tx_with_meta_try_from_def)
    moreover have "into_legacy_transaction K v \<noteq> None" if "vt_message v = Legacy l" for l
    proof -
      from that have "v = \<lparr>vt_signatures = vt_signatures v, vt_message = Legacy l\<rparr>" by simp
      then show ?thesis using assms(1) unfolding storage_laws_def by (metis option.distinct(1))
    qed
    ultimately have "pm_versioned m"
      using t(3) by (cases "vt_message v") (auto simp: versioned_message_from_def Let_def bind_eq_Some_conv split: if_splits)
    then show ?thesis using None t(1,2) by auto
  qed
qed

text \<open>C34: Reading a stored transaction panics on no record that the writer produces: whatever
  transaction was written, its record is read without a panic and without an error.  If reading
  some other record panics, then its return data names a program with an invalid key, or the
  transaction is missing or unreadable (a signature, a key or a lookup table key of the wrong
  size, no message, no header, or a block hash that is not 32 bytes), or it has no metadata and its
  message is versioned.  Conversely an unreadable or missing transaction is never read, and without
  metadata it does panic, while with metadata the metadata's error comes first.\<close>

theorem stored_transaction_panics:
  assumes "storage_laws K"
  shows "(\<exists>w. tx_with_meta_into K x = Some w \<and> (\<exists>v. tx_with_meta_try_from K w = Some (Inr v)))
    \<and> (tx_with_meta_try_from K p = None \<longrightarrow>
        (\<exists>m r. pct_meta p = Some m \<and> psm_return_data m = Some r \<and> pubkey_try_from K (rd_program_id r) = None)
        \<or> (\<forall>t. pct_transaction p = Some t \<longrightarrow> \<not> readable_transaction K t)
        \<or> (pct_meta p = None \<and> (\<exists>t m. pct_transaction p = Some t \<and> pt_message t = Some m \<and> pm_versioned m)))
    \<and> ((\<forall>t. pct_transaction p = Some t \<longrightarrow> \<not> readable_transaction K t) \<longrightarrow>
         (\<forall>v. tx_with_meta_try_from K p \<noteq> Some (Inr v)) \<and> (pct_meta p = None \<longrightarrow> tx_with_meta_try_from K p = None))"
proof (intro conjI)
  show "\<exists>w. tx_with_meta_into K x = Some w \<and> (\<exists>v. tx_with_meta_try_from K w = Some (Inr v))"
    by (rule tx_with_meta_roundtrip[OF assms, of x]) blast
  have "Option.bind (pct_transaction p) (versioned_transaction_from K) = None"
    if "\<forall>t. pct_transaction p = Some t \<longrightarrow> \<not> readable_transaction K t"
    using that by (cases "pct_transaction p") (simp_all add: versioned_transaction_from_None)
  then show "(\<forall>t. pct_transaction p = Some t \<longrightarrow> \<not> readable_transaction K t) \<longrightarrow>
      (\<forall>v. tx_with_meta_try_from K p \<noteq> Some (Inr v)) \<and> (pct_meta p = None \<longrightarrow> tx_with_meta_try_from K p = None)"
    by (auto simp: tx_with_meta_try_from_def bind_step_eq_Ok)
qed (use tx_with_meta_try_from_panic[OF assms, of p] in blast)

subsection \<open>An instance\<close>

text \<open>A serialization of transaction errors, as the codes of the address index with a custom number
  in unary, for concrete values of the theorems.\<close>

definition plain_error_bytes :: "transaction_error \<Rightarrow> bytes" where
  "plain_error_bytes e =
     (let p = transaction_error_into e
      in word_of_int (pte_transaction_error p) #
         (case pte_instruction_error p of
            Some ie \<Rightarrow> ucast (pie_index ie) # word_of_int (pie_error ie)
                        # (case pie_custom ie of None \<Rightarrow> [] | Some c \<Rightarrow> replicate (unat (custom c)) 0)
          | None \<Rightarrow> (case pte_transaction_details p of None \<Rightarrow> [] | Some d \<Rightarrow> [ucast (details_index d)])))"

definition plain_error_of_bytes :: "bytes \<Rightarrow> unit + transaction_error" where
  "plain_error_of_bytes b =
     (case b of
        [] \<Rightarrow> Inl ()
      | c # r \<Rightarrow>
          (let p = \<lparr>pte_transaction_error = uint c,
                 pte_instruction_error =
                   (case r of
                      i # e # u \<Rightarrow> if c = 8 then Some \<lparr>pie_index = ucast i, pie_error = uint e,
                        pie_custom = (if e = 25 then Some (CustomError (word_of_nat (length u))) else None)\<rparr> else None
                    | _ \<Rightarrow> None),
                 pte_transaction_details = (case r of i # _ \<Rightarrow> if c = 8 then None else Some (TransactionDetails (ucast i)) | [] \<Rightarrow> None)\<rparr>
           in case transaction_error_try_from p of Inl _ \<Rightarrow> Inl () | Inr e \<Rightarrow> Inr e))"

definition plain_storage :: "(bytes, bytes, byte, unit) storage_env" where
  "plain_storage =
     \<lparr>signature_as_ref = \<lambda>s. s, signature_try_from = Some, pubkey_as_ref = \<lambda>k. k, pubkey_try_from = Some,
      hash_to_bytes = replicate 32, hash_new_from_array = hd,
      error_serialize = \<lambda>e. Some (plain_error_bytes e), error_deserialize = plain_error_of_bytes,
      bincode_custom = \<lambda>m a. (),
      into_legacy_transaction =
        \<lambda>t. case vt_message t of Legacy m \<Rightarrow> Some \<lparr>lt_signatures = vt_signatures t, lt_message = m\<rparr> | V0 m \<Rightarrow> None\<rparr>"

lemma plain_error_roundtrip: "plain_error_of_bytes (plain_error_bytes e) = Inr e"
proof (cases "\<exists>index ie. e = TE_InstructionError index ie")
  case True
  then obtain index ie where e: "e = TE_InstructionError index ie" by blast
  have "plain_error_of_bytes (plain_error_bytes e) =
      (case transaction_error_try_from (transaction_error_into e) of Inl _ \<Rightarrow> Inl () | Inr e \<Rightarrow> Inr e)"
    unfolding e
    by (cases ie) (simp_all add: plain_error_of_bytes_def plain_error_bytes_def transaction_error_into_def Let_def
        instruction_error_into_def)
  then show ?thesis by (simp add: transaction_error_roundtrip)
next
  case False
  then have "plain_error_of_bytes (plain_error_bytes e) =
      (case transaction_error_try_from (transaction_error_into e) of Inl _ \<Rightarrow> Inl () | Inr e \<Rightarrow> Inr e)"
    by (cases e) (simp_all add: plain_error_of_bytes_def plain_error_bytes_def transaction_error_into_def Let_def)
  then show ?thesis by (simp add: transaction_error_roundtrip)
qed

lemma storage_laws_plain: "storage_laws plain_storage"
proof -
  have "key_laws plain_storage = key_laws plain_keys"
    by (simp add: key_laws_def plain_storage_def plain_keys_def)
  moreover have "\<exists>b. error_serialize plain_storage e = Some b \<and> error_deserialize plain_storage b = Inr e" for e
    by (simp add: plain_storage_def plain_error_roundtrip)
  moreover have
    "into_legacy_transaction plain_storage \<lparr>vt_signatures = s, vt_message = Legacy m\<rparr> = Some \<lparr>lt_signatures = s, lt_message = m\<rparr>"
    "into_legacy_transaction plain_storage \<lparr>vt_signatures = s, vt_message = V0 v\<rparr> = None" for s m v
    by (simp_all add: plain_storage_def)
  ultimately show ?thesis unfolding storage_laws_def using key_laws_plain by blast
qed

definition example_meta :: "bytes status_meta" where
  "example_meta =
     \<lparr>sm_status = Inl (TE_InstructionError 1 (IE_Custom 3)), sm_fee = 5000, sm_pre_balances = [7], sm_post_balances = [2],
      sm_inner_instructions = None, sm_log_messages = Some [''log''],
      sm_pre_token_balances = Some [\<lparr>tb_account_index = 200, tb_mint = ''m'',
        tb_ui_token_amount = \<lparr>ui_amount = Some (F64 0), decimals = 2, amount = ''0'', ui_amount_string = ''0''\<rparr>,
        tb_owner = ''o'', tb_program_id = ''p''\<rparr>],
      sm_post_token_balances = None, sm_rewards = None,
      sm_loaded_addresses = \<lparr>la_writable = [[1]], la_readonly = []\<rparr>, sm_return_data = None,
      sm_compute_units_consumed = Some 9, sm_cost_units = None\<rparr>"

definition example_block :: "(bytes, bytes, byte) versioned_tx_with_meta confirmed_block" where
  "example_block =
     \<lparr>cb_previous_blockhash = ''a'', cb_blockhash = ''b'', cb_parent_slot = 3,
      cb_transactions = [\<lparr>vm_transaction = \<lparr>vt_signatures = [[4]],
        vt_message = V0 \<lparr>v0_header = \<lparr>num_required_signatures = 1, num_readonly_signed_accounts = 0,
            num_readonly_unsigned_accounts = 255\<rparr>,
          v0_account_keys = [[5], [6]], v0_recent_blockhash = 8,
          v0_instructions = [\<lparr>ci_program_id_index = 1, ci_accounts = [0], ci_data = [9]\<rparr>],
          v0_address_table_lookups = []\<rparr>\<rparr>, vm_meta = example_meta\<rparr>],
      cb_rewards = [\<lparr>rw_pubkey = ''k'', rw_lamports = - 4, rw_post_balance = 1, rw_reward_type = Some Staking, rw_commission = Some 100\<rparr>],
      cb_num_partitions = None, cb_block_time = Some 17, cb_block_height = Some 2\<rparr>"

theorem confirmed_block_roundtrip_witness:
  "(\<exists>p. confirmed_block_into plain_storage example_block = Some p
      \<and> confirmed_block_try_from plain_storage p =
          Some (Inr (map_block (\<lambda>v. canonical_tx (Complete v)) example_block)))
   \<and> map_option (map (\<lambda>b. ui_amount (tb_ui_token_amount b))) (sm_pre_token_balances (canonical_meta example_meta)) = Some [None]
   \<and> sm_rewards (canonical_meta example_meta) = Some []"
  using confirmed_block_roundtrip[OF storage_laws_plain, of example_block]
  by (simp add: canonical_meta_def example_meta_def canonical_balance_def canonical_amount_def unwrap_or_default_def)

theorem stored_transaction_panics_witness:
  "(\<exists>w. tx_with_meta_into plain_storage (Complete (hd (cb_transactions example_block))) = Some w
        \<and> (\<exists>v. tx_with_meta_try_from plain_storage w = Some (Inr v)))
   \<and> tx_with_meta_try_from plain_storage \<lparr>pct_transaction = None, pct_meta = None\<rparr> = None"
  using stored_transaction_panics[OF storage_laws_plain, of "Complete (hd (cb_transactions example_block))"
      "\<lparr>pct_transaction = None, pct_meta = None\<rparr>"] by simp

end
