(* ===== verification/Storage_Stored.thy ===== *)
theory Storage_Stored
  imports Storage_Roundtrip
begin

section \<open>The bincode format of status metadata\<close>

text \<open>
  The types of \<open>src/storage-proto/src/lib.rs\<close> for data stored before the protocol buffers, and their
  conversions.  The serialization itself is derived and not modelled.  The test whether loaded
  addresses are empty is a method of a third-party crate and an argument.
\<close>

record stored_reward =
  srw_pubkey :: string
  srw_lamports :: int
  srw_post_balance :: u64
  srw_reward_type :: "reward_type option"
  srw_commission :: "u8 option"

definition stored_reward_into :: "stored_reward \<Rightarrow> reward" where
  "stored_reward_into v =
     \<lparr>rw_pubkey = srw_pubkey v, rw_lamports = srw_lamports v, rw_post_balance = srw_post_balance v,
      rw_reward_type = srw_reward_type v, rw_commission = srw_commission v\<rparr>"

definition stored_reward_from :: "reward \<Rightarrow> stored_reward" where
  "stored_reward_from v =
     \<lparr>srw_pubkey = rw_pubkey v, srw_lamports = rw_lamports v, srw_post_balance = rw_post_balance v,
      srw_reward_type = rw_reward_type v, srw_commission = rw_commission v\<rparr>"

definition stored_rewards_into_proto :: "stored_reward list \<Rightarrow> proto_rewards" where
  "stored_rewards_into_proto rs =
     \<lparr>prs_rewards = map (\<lambda>r. reward_into (stored_reward_into r)) rs, prs_num_partitions = None\<rparr>"

definition stored_rewards_from_proto :: "proto_rewards \<Rightarrow> stored_reward list" where
  "stored_rewards_from_proto p = map (\<lambda>r. stored_reward_from (reward_from r)) (prs_rewards p)"

record stored_token_amount =
  sta_ui_amount :: f64
  sta_decimals :: u8
  sta_amount :: string

definition stored_token_amount_into :: "stored_token_amount \<Rightarrow> ui_token_amount" where
  "stored_token_amount_into v =
     \<lparr>ui_amount = Some (sta_ui_amount v), decimals = sta_decimals v, amount = sta_amount v,
      ui_amount_string = real_number_string_trimmed (parse_u64_or_zero (sta_amount v)) (sta_decimals v)\<rparr>"

definition stored_token_amount_from :: "ui_token_amount \<Rightarrow> stored_token_amount" where
  "stored_token_amount_from v =
     \<lparr>sta_ui_amount = (case ui_amount v of Some f \<Rightarrow> f | None \<Rightarrow> f64_zero),
      sta_decimals = decimals v, sta_amount = amount v\<rparr>"

record stored_token_balance =
  stb_account_index :: u8
  stb_mint :: string
  stb_ui_token_amount :: stored_token_amount
  stb_owner :: string
  stb_program_id :: string

definition stored_token_balance_into :: "stored_token_balance \<Rightarrow> token_balance" where
  "stored_token_balance_into v =
     \<lparr>tb_account_index = stb_account_index v, tb_mint = stb_mint v,
      tb_ui_token_amount = stored_token_amount_into (stb_ui_token_amount v),
      tb_owner = stb_owner v, tb_program_id = stb_program_id v\<rparr>"

definition stored_token_balance_from :: "token_balance \<Rightarrow> stored_token_balance" where
  "stored_token_balance_from v =
     \<lparr>stb_account_index = tb_account_index v, stb_mint = tb_mint v,
      stb_ui_token_amount = stored_token_amount_from (tb_ui_token_amount v),
      stb_owner = tb_owner v, stb_program_id = tb_program_id v\<rparr>"

record 'pk stored_status_meta =
  ssm_status :: "transaction_error + unit"
  ssm_fee :: u64
  ssm_pre_balances :: "u64 list"
  ssm_post_balances :: "u64 list"
  ssm_inner_instructions :: "inner_instructions list option"
  ssm_log_messages :: "string list option"
  ssm_pre_token_balances :: "stored_token_balance list option"
  ssm_post_token_balances :: "stored_token_balance list option"
  ssm_rewards :: "stored_reward list option"
  ssm_return_data :: "'pk tx_return_data option"
  ssm_compute_units_consumed :: "u64 option"
  ssm_cost_units :: "u64 option"

definition stored_status_meta_into :: "'pk stored_status_meta \<Rightarrow> 'pk status_meta" where
  "stored_status_meta_into v =
     \<lparr>sm_status = ssm_status v, sm_fee = ssm_fee v,
      sm_pre_balances = ssm_pre_balances v, sm_post_balances = ssm_post_balances v,
      sm_inner_instructions = ssm_inner_instructions v, sm_log_messages = ssm_log_messages v,
      sm_pre_token_balances = map_option (map stored_token_balance_into) (ssm_pre_token_balances v),
      sm_post_token_balances = map_option (map stored_token_balance_into) (ssm_post_token_balances v),
      sm_rewards = map_option (map stored_reward_into) (ssm_rewards v),
      sm_loaded_addresses = \<lparr>la_writable = [], la_readonly = []\<rparr>,
      sm_return_data = ssm_return_data v,
      sm_compute_units_consumed = ssm_compute_units_consumed v, sm_cost_units = ssm_cost_units v\<rparr>"

datatype stored_meta_error = BincodeDeprecated

definition stored_status_meta_try_from ::
  "('pk loaded_addresses \<Rightarrow> bool) \<Rightarrow> 'pk status_meta \<Rightarrow> stored_meta_error + 'pk stored_status_meta" where
  "stored_status_meta_try_from is_empty v =
     (if \<not> is_empty (sm_loaded_addresses v) then Inl BincodeDeprecated
      else Inr
       \<lparr>ssm_status = sm_status v, ssm_fee = sm_fee v,
        ssm_pre_balances = sm_pre_balances v, ssm_post_balances = sm_post_balances v,
        ssm_inner_instructions = sm_inner_instructions v, ssm_log_messages = sm_log_messages v,
        ssm_pre_token_balances = map_option (map stored_token_balance_from) (sm_pre_token_balances v),
        ssm_post_token_balances = map_option (map stored_token_balance_from) (sm_post_token_balances v),
        ssm_rewards = map_option (map stored_reward_from) (sm_rewards v),
        ssm_return_data = sm_return_data v,
        ssm_compute_units_consumed = sm_compute_units_consumed v, ssm_cost_units = sm_cost_units v\<rparr>)"

definition stored_status_meta_into_proto ::
  "('sig, 'pk, 'hash, 'be) storage_env \<Rightarrow> 'pk stored_status_meta \<Rightarrow> proto_status_meta option" where
  "stored_status_meta_into_proto K m = status_meta_into K (stored_status_meta_into m)"

definition stored_transaction_error_into ::
  "('sig, 'pk, 'hash, 'be) storage_env \<Rightarrow> transaction_error \<Rightarrow> stored_error option" where
  \<comment> \<open>also the conversion to the generated message, which wraps the same bytes\<close>
  "stored_transaction_error_into K e = map_option StoredError (error_serialize K e)"

definition stored_transaction_error_from ::
  "('sig, 'pk, 'hash, 'be) storage_env \<Rightarrow> stored_error \<Rightarrow> transaction_error option" where
  "stored_transaction_error_from K s =
     (case error_deserialize K (stored_err s) of Inl _ \<Rightarrow> None | Inr e \<Rightarrow> Some e)"

subsection \<open>Round trips\<close>

interpretation stored_reward: lossless_codec stored_reward_from stored_reward_into
  by unfold_locales (simp add: stored_reward_from_def stored_reward_into_def)

interpretation stored_reward_back: lossless_codec stored_reward_into stored_reward_from
  by unfold_locales (simp add: stored_reward_from_def stored_reward_into_def)

text \<open>What the bincode format keeps of a token balance: the amount, from which the string is
  computed again, and a number that is always present.\<close>

definition bincode_balance :: "token_balance \<Rightarrow> token_balance" where
  "bincode_balance b =
     (let u = tb_ui_token_amount b
      in b\<lparr>tb_ui_token_amount := u\<lparr>ui_amount := Some (case ui_amount u of Some f \<Rightarrow> f | None \<Rightarrow> f64_zero),
             ui_amount_string := real_number_string_trimmed (parse_u64_or_zero (amount u)) (decimals u)\<rparr>\<rparr>)"

lemma stored_token_balance_roundtrip:
  "stored_token_balance_into (stored_token_balance_from b) = bincode_balance b"
  by (simp add: stored_token_balance_into_def stored_token_balance_from_def bincode_balance_def
      stored_token_amount_into_def stored_token_amount_from_def Let_def)

lemma stored_transaction_error_roundtrip:
  assumes "storage_laws K"
  shows "\<exists>s. stored_transaction_error_into K e = Some s \<and> stored_transaction_error_from K s = Some e"
proof -
  obtain b where "error_serialize K e = Some b" "error_deserialize K b = Inr e"
    using assms unfolding storage_laws_def by blast
  then show ?thesis by (simp add: stored_transaction_error_into_def stored_transaction_error_from_def)
qed

text \<open>C35: Status metadata converts to the older bincode format exactly when the transaction loaded no
  addresses, and is otherwise refused.  Converted back it is the same except for the token
  balances, whose amounts are displayed anew from their raw amounts; the rewards of a block keep
  all their fields through both formats.\<close>

theorem stored_status_meta_roundtrip:
  assumes "\<And>a. is_empty a \<longleftrightarrow> la_writable a = [] \<and> la_readonly a = []"
  shows "(case stored_status_meta_try_from is_empty m of
      Inl e \<Rightarrow> la_writable (sm_loaded_addresses m) \<noteq> [] \<or> la_readonly (sm_loaded_addresses m) \<noteq> []
    | Inr s \<Rightarrow> sm_loaded_addresses m = \<lparr>la_writable = [], la_readonly = []\<rparr>
        \<and> stored_status_meta_into s =
            m\<lparr>sm_pre_token_balances := map_option (map bincode_balance) (sm_pre_token_balances m),
              sm_post_token_balances := map_option (map bincode_balance) (sm_post_token_balances m)\<rparr>)
    \<and> stored_rewards_from_proto (stored_rewards_into_proto rs) = rs"
proof
  show "stored_rewards_from_proto (stored_rewards_into_proto rs) = rs"
    by (simp add: stored_rewards_from_proto_def stored_rewards_into_proto_def reward.dec_enc
        stored_reward_back.dec_enc comp_def)
  show "case stored_status_meta_try_from is_empty m of
      Inl e \<Rightarrow> la_writable (sm_loaded_addresses m) \<noteq> [] \<or> la_readonly (sm_loaded_addresses m) \<noteq> []
    | Inr s \<Rightarrow> sm_loaded_addresses m = \<lparr>la_writable = [], la_readonly = []\<rparr>
        \<and> stored_status_meta_into s =
            m\<lparr>sm_pre_token_balances := map_option (map bincode_balance) (sm_pre_token_balances m),
              sm_post_token_balances := map_option (map bincode_balance) (sm_post_token_balances m)\<rparr>"
    by (cases "is_empty (sm_loaded_addresses m)"; cases "sm_loaded_addresses m")
      (auto simp: assms stored_status_meta_try_from_def stored_status_meta_into_def option.map_comp comp_def
        stored_token_balance_roundtrip stored_reward.dec_enc option.map_ident)
qed

theorem stored_status_meta_roundtrip_witness:
  "stored_status_meta_try_from (\<lambda>a. la_writable a = [] \<and> la_readonly a = []) example_meta = Inl BincodeDeprecated
   \<and> (let rs = [\<lparr>srw_pubkey = ''k'', srw_lamports = 1, srw_post_balance = 2, srw_reward_type = None, srw_commission = Some 3\<rparr>]
      in stored_rewards_from_proto (stored_rewards_into_proto rs) = rs)"
  using stored_status_meta_roundtrip[of "\<lambda>a. la_writable a = [] \<and> la_readonly a = []" example_meta
      "[\<lparr>srw_pubkey = ''k'', srw_lamports = 1, srw_post_balance = 2, srw_reward_type = None, srw_commission = Some 3\<rparr>]"]
  by (simp add: stored_status_meta_try_from_def example_meta_def)

end
