(* ===== verification/Parse_Instruction.thy ===== *)
theory Parse_Instruction
  imports Storage_Proto
begin

section \<open>Parsing instructions: values, checks and errors\<close>

text \<open>
  What the instruction parsers of \<open>src/transaction-status/src\<close> share: JSON values, the type of a
  parsed instruction, the errors, the check of the number of accounts
  (\<open>parse_instruction.rs\<close>) and the signers of a token instruction (\<open>parse_token.rs\<close>).

  A parser may fail with an error or panic, by an index that is out of range or an \<open>unwrap\<close>: its
  result is \<open>None\<close> for a panic and otherwise an error or a parsed instruction.  An object is the list
  of its members.  Account keys are a list, as \<open>AccountKeys\<close> numbers them.  The strings of keys and
  hashes, base64 and the serialization of values of third-party types are parameters, \<open>show_env\<close>.
\<close>

subsection \<open>JSON values\<close>

datatype json = JNull | JBool bool | JInt int | JFloat f64 | JStr string | JArr "json list" | JObj "(string \<times> json) list"

fun obj_insert :: "string \<Rightarrow> json \<Rightarrow> (string \<times> json) list \<Rightarrow> (string \<times> json) list" where
  \<comment> \<open>\<open>Map::insert\<close>: replaces the value of a key that is present\<close>
  "obj_insert k v [] = [(k, v)]"
| "obj_insert k v ((k', v') # m) = (if k = k' then (k, v) # m else (k', v') # obj_insert k v m)"

definition json_object :: "(string \<times> json option) list \<Rightarrow> json option" where
  \<comment> \<open>\<open>json!({...})\<close>, where the expression of a member may panic\<close>
  "json_object ms = map_option JObj (collect_somes (map (\<lambda>(k, v). map_option (Pair k) v) ms))"

definition map_insert :: "string \<Rightarrow> json option \<Rightarrow> json option \<Rightarrow> json option" where
  \<comment> \<open>\<open>value.as_object_mut().unwrap()\<close> and an \<open>insert\<close> into it\<close>
  "map_insert k v value =
     (case value of Some (JObj m) \<Rightarrow> map_option (\<lambda>v'. JObj (obj_insert k v' m)) v | _ \<Rightarrow> None)"

definition jstr :: "string \<Rightarrow> json option" where "jstr s = Some (JStr s)"
definition jnat :: "nat \<Rightarrow> json option" where "jnat n = Some (JInt (int n))"
definition jint :: "int \<Rightarrow> json option" where "jint n = Some (JInt n)"
definition jbool :: "bool \<Rightarrow> json option" where "jbool b = Some (JBool b)"
definition jarr :: "json list \<Rightarrow> json option" where "jarr vs = Some (JArr vs)"

definition jopt :: "('a \<Rightarrow> json option) \<Rightarrow> 'a option \<Rightarrow> json option" where
  \<comment> \<open>an \<open>Option\<close> in \<open>json!\<close>: \<open>null\<close> for \<open>None\<close>\<close>
  "jopt f x = (case x of None \<Rightarrow> Some JNull | Some y \<Rightarrow> f y)"

fun f64_value :: "f64 \<Rightarrow> json" where
  \<comment> \<open>numbers that are not finite are \<open>null\<close>\<close>
  "f64_value F64_NaN = JNull"
| "f64_value (F64_Inf _) = JNull"
| "f64_value x = JFloat x"

definition ui_token_amount_value :: "ui_token_amount \<Rightarrow> json" where
  \<comment> \<open>the derived serialization of \<open>UiTokenAmount\<close>\<close>
  "ui_token_amount_value u =
     JObj [(''uiAmount'', case ui_amount u of None \<Rightarrow> JNull | Some f \<Rightarrow> f64_value f),
           (''decimals'', JInt (uint (decimals u))),
           (''amount'', JStr (amount u)),
           (''uiAmountString'', JStr (ui_amount_string u))]"

subsection \<open>Errors and results\<close>

datatype parsable_program =
  AddressLookupTable | SplAssociatedTokenAccount | SplMemo | SplToken | BpfLoader | BpfUpgradeableLoader
  | Stake | System | Vote

datatype parse_error =
  InstructionNotParsable parsable_program | InstructionKeyMismatch parsable_program | ProgramNotParsable
  | SerdeJsonError \<comment> \<open>serializing a parsed value; no parser gives it\<close>

record parsed_instruction_enum =
  instruction_type :: string
  info :: json

type_synonym 'a parsed = "(parse_error + 'a) option"

record ('pk, 'h, 'v) show_env =
  pubkey_string :: "'pk \<Rightarrow> string"
  hash_string :: "'h \<Rightarrow> string"
  to_value :: "'v \<Rightarrow> json"
  base64_encode :: "bytes \<Rightarrow> string"

subsection \<open>Accounts\<close>

definition check_num_accounts :: "bytes \<Rightarrow> nat \<Rightarrow> parsable_program \<Rightarrow> parse_error + unit" where
  "check_num_accounts accounts num program =
     (if length accounts < num then Inl (InstructionKeyMismatch program) else Inr ())"

fun slice_max :: "bytes \<Rightarrow> byte option" where
  "slice_max [] = None"
| "slice_max (x # xs) = Some (fold max xs x)"

definition check_account_indexes :: "bytes \<Rightarrow> 'pk list \<Rightarrow> parsable_program \<Rightarrow> parse_error + unit" where
  \<comment> \<open>\<open>match instruction.accounts.iter().max()\<close> at the head of a parser\<close>
  "check_account_indexes accounts keys program =
     (case slice_max accounts of
        Some index \<Rightarrow> if unat index < length keys then Inr () else Inl (InstructionKeyMismatch program)
      | None \<Rightarrow> Inl (InstructionKeyMismatch program))"

definition key_string :: "('pk, 'h, 'v, 'm) show_env_scheme \<Rightarrow> 'pk list \<Rightarrow> byte \<Rightarrow> string option" where
  \<comment> \<open>\<open>account_keys[i as usize].to_string()\<close>\<close>
  "key_string E keys i = map_option (pubkey_string E) (slice_get keys (unat i))"

definition account :: "('pk, 'h, 'v, 'm) show_env_scheme \<Rightarrow> 'pk list \<Rightarrow> bytes \<Rightarrow> nat \<Rightarrow> json option" where
  \<comment> \<open>\<open>account_keys[accounts[i] as usize].to_string()\<close>\<close>
  "account E keys accounts i = map_option JStr (Option.bind (slice_get accounts i) (key_string E keys))"

definition parse_arm ::
  "parsable_program \<Rightarrow> bytes \<Rightarrow> nat \<Rightarrow> string \<Rightarrow> json option \<Rightarrow> parsed_instruction_enum parsed" where
  \<comment> \<open>an arm of a parser: the check of the number of accounts, then the type and the information\<close>
  "parse_arm program accounts num ty value =
     bind_step (Some (check_num_accounts accounts num program)) (\<lambda>_.
     expect (map_option (\<lambda>v. \<lparr>instruction_type = ty, info = v\<rparr>) value))"

definition optional_account ::
  "('pk, 'h, 'v, 'm) show_env_scheme \<Rightarrow> 'pk list \<Rightarrow> bytes \<Rightarrow> nat \<Rightarrow> nat \<Rightarrow> string \<Rightarrow> json option \<Rightarrow> json option" where
  \<comment> \<open>\<open>if accounts.len() >= n { map.insert(name, account i) }\<close>\<close>
  "optional_account E keys accounts n i name value =
     (if n \<le> length accounts then map_insert name (account E keys accounts i) value else value)"

definition insert_some :: "string \<Rightarrow> ('a \<Rightarrow> json option) \<Rightarrow> 'a option \<Rightarrow> json option \<Rightarrow> json option" where
  \<comment> \<open>\<open>if let Some(y) = x { map.insert(k, f(y)) }\<close>\<close>
  "insert_some k f x value = (case x of None \<Rightarrow> value | Some y \<Rightarrow> map_insert k (f y) value)"

definition account_or_null :: "('pk, 'h, 'v, 'm) show_env_scheme \<Rightarrow> 'pk list \<Rightarrow> bytes \<Rightarrow> nat \<Rightarrow> json option" where
  \<comment> \<open>\<open>if accounts.len() > i { Some(account i) } else { None }\<close>\<close>
  "account_or_null E keys accounts i =
     (if i < length accounts then account E keys accounts i else Some JNull)"

definition signer_strings :: "('pk, 'h, 'v, 'm) show_env_scheme \<Rightarrow> 'pk list \<Rightarrow> bytes \<Rightarrow> nat \<Rightarrow> json option" where
  \<comment> \<open>\<open>for i in accounts[n..]\<close>: the keys from index \<open>n\<close> on; the slice panics when \<open>n\<close> is too large\<close>
  "signer_strings E keys accounts n =
     Option.bind (slice_from accounts n)
       (\<lambda>is. map_option (\<lambda>ss. JArr (map JStr ss)) (collect_somes (map (key_string E keys) is)))"

definition parse_signers ::
  "('pk, 'h, 'v, 'm) show_env_scheme \<Rightarrow> nat \<Rightarrow> 'pk list \<Rightarrow> bytes \<Rightarrow> string \<Rightarrow> string \<Rightarrow> json option \<Rightarrow> json option" where
  "parse_signers E last_nonsigner_index keys accounts owner_field_name multisig_field_name value =
     (if last_nonsigner_index + 1 < length accounts
      then map_insert ''signers'' (signer_strings E keys accounts (last_nonsigner_index + 1))
             (map_insert multisig_field_name (account E keys accounts last_nonsigner_index) value)
      else map_insert owner_field_name (account E keys accounts last_nonsigner_index) value)"

definition parse_with ::
  "parsable_program \<Rightarrow> 'i option \<Rightarrow> bytes \<Rightarrow> 'pk list \<Rightarrow> ('i \<Rightarrow> parsed_instruction_enum parsed) \<Rightarrow> parsed_instruction_enum parsed" where
  \<comment> \<open>the frame of most parsers: decode the data, check the indexes, then parse by the variant\<close>
  "parse_with program decoded accounts keys body =
     bind_step (Some (ok_or decoded (InstructionNotParsable program))) (\<lambda>i.
     bind_step (Some (check_account_indexes accounts keys program)) (\<lambda>_. body i))"

subsection \<open>No panic\<close>

text \<open>The facts that carry the proofs that the parsers do not panic: \<open>panic_free\<close>.  Once all indexes
  of the instruction are in range, an account exists when its position does, and an arm is safe
  when its information is an object for as many accounts as it checks (\<open>panic_intro\<close>).\<close>

named_theorems panic_free
named_theorems panic_intro

definition indexes_ok :: "bytes \<Rightarrow> 'pk list \<Rightarrow> bool" where
  "indexes_ok accounts keys \<longleftrightarrow> (\<forall>i \<in> set accounts. unat i < length keys)"

lemma slice_max_Max: "slice_max xs = (if xs = [] then None else Some (Max (set xs)))"
proof (cases xs)
  case (Cons y ys)
  show ?thesis unfolding Cons slice_max.simps Max.set_eq_fold by simp
qed simp

lemma slice_max_ge: "slice_max xs = Some m \<Longrightarrow> x \<in> set xs \<Longrightarrow> x \<le> m"
  by (auto simp: slice_max_Max split: if_splits)

lemma slice_max_in: "slice_max xs = Some m \<Longrightarrow> m \<in> set xs"
  by (auto simp: slice_max_Max split: if_splits)

lemma check_account_indexes_iff:
  "check_account_indexes accounts keys program = Inr () \<longleftrightarrow> accounts \<noteq> [] \<and> indexes_ok accounts keys"
proof (cases "slice_max accounts")
  case None
  then have "accounts = []" by (cases accounts) simp_all
  then show ?thesis by (simp add: check_account_indexes_def)
next
  case (Some m)
  then have "accounts \<noteq> []" by auto
  moreover have "unat x \<le> unat m" if "x \<in> set accounts" for x
    using slice_max_ge[OF Some that] by (simp add: word_le_nat_alt)
  moreover have "m \<in> set accounts" by (rule slice_max_in[OF Some])
  ultimately show ?thesis
    using Some by (auto simp: check_account_indexes_def indexes_ok_def intro: le_less_trans)
qed

lemma check_account_indexes_cases:
  "check_account_indexes accounts keys program =
     (if accounts \<noteq> [] \<and> indexes_ok accounts keys then Inr () else Inl (InstructionKeyMismatch program))"
proof -
  have "check_account_indexes accounts keys program \<in> {Inr (), Inl (InstructionKeyMismatch program)}"
    by (simp add: check_account_indexes_def split: option.split)
  then show ?thesis using check_account_indexes_iff[of accounts keys program] by auto
qed

lemma key_string_ok: "indexes_ok accounts keys \<Longrightarrow> i \<in> set accounts \<Longrightarrow> \<exists>s. key_string E keys i = Some s"
  by (simp add: indexes_ok_def key_string_def)

lemma account_ok [panic_free]:
  assumes "indexes_ok accounts keys" "i < length accounts"
  shows "account E keys accounts i = Some (JStr (pubkey_string E (keys ! unat (accounts ! i))))"
  using assms by (simp add: account_def key_string_def indexes_ok_def)

lemma account_or_null_ok [panic_free]:
  "indexes_ok accounts keys \<Longrightarrow>
     account_or_null E keys accounts i =
       Some (if i < length accounts then JStr (pubkey_string E (keys ! unat (accounts ! i))) else JNull)"
  by (simp add: account_or_null_def account_ok)

lemma collect_options_not_None: "(\<forall>x \<in> set xs. x \<noteq> None) \<Longrightarrow> \<exists>ys. collect_somes xs = Some ys"
  by (induction xs) auto

lemma signer_strings_ok:
  assumes "indexes_ok accounts keys" "n \<le> length accounts"
  shows "\<exists>vs. signer_strings E keys accounts n = Some (JArr vs)"
proof -
  have "\<forall>x \<in> set (map (key_string E keys) (drop n accounts)). x \<noteq> None"
    using assms key_string_ok[of accounts keys _ E] by (auto dest!: in_set_dropD)
  from collect_options_not_None[OF this] show ?thesis
    using assms(2) by (auto simp: signer_strings_def slice_from_def)
qed

text \<open>An information that is an object: what \<open>map_insert\<close> needs and keeps.  A member is \<open>present\<close> when
  its expression does not panic.\<close>

definition is_object :: "json option \<Rightarrow> bool" where
  "is_object v \<longleftrightarrow> (\<exists>m. v = Some (JObj m))"

definition present :: "json option \<Rightarrow> bool" where
  "present v \<longleftrightarrow> v \<noteq> None"

lemma present_Some [panic_free]: "present (Some v)"
  by (simp add: present_def)

lemma present_object [panic_free]: "is_object v \<Longrightarrow> present v"
  by (auto simp: present_def is_object_def)

lemma present_signer_strings [panic_free]:
  "indexes_ok accounts keys \<Longrightarrow> n \<le> length accounts \<Longrightarrow> present (signer_strings E keys accounts n)"
  using signer_strings_ok[of accounts keys n E] by (auto simp: present_def)

lemma is_object_json_object [panic_free]: "is_object (json_object ms) \<longleftrightarrow> (\<forall>(k, v) \<in> set ms. present v)"
proof -
  have "(\<exists>ys. collect_somes (map (\<lambda>(k, v). map_option (Pair k) v) ms) = Some ys) \<longleftrightarrow> (\<forall>(k, v) \<in> set ms. present v)"
    by (induction ms) (auto simp: present_def split: option.split)
  then show ?thesis by (simp add: is_object_def json_object_def)
qed

lemma is_object_map_insert [panic_free]:
  "is_object (map_insert k v value) \<longleftrightarrow> present v \<and> is_object value"
  by (auto simp: is_object_def present_def map_insert_def split: option.split json.split)

lemma is_object_insert_some [panic_free]:
  "is_object (insert_some k f x value) \<longleftrightarrow> is_object value \<and> (\<forall>y. x = Some y \<longrightarrow> present (f y))"
  by (auto simp: insert_some_def is_object_map_insert split: option.split)

lemma is_object_optional_account [panic_free]:
  "indexes_ok accounts keys \<Longrightarrow> i < n \<Longrightarrow>
     is_object (optional_account E keys accounts n i name value) \<longleftrightarrow> is_object value"
  by (simp add: optional_account_def is_object_map_insert account_ok present_Some)

lemma is_object_parse_signers [panic_free]:
  "indexes_ok accounts keys \<Longrightarrow> n < length accounts \<Longrightarrow>
     is_object (parse_signers E n keys accounts owner multisig value) \<longleftrightarrow> is_object value"
  by (simp add: parse_signers_def is_object_map_insert account_ok present_Some present_signer_strings)

lemma is_object_not_None: "is_object v \<Longrightarrow> v \<noteq> None"
  by (auto simp: is_object_def)

lemma parse_arm_eq_None: "parse_arm program accounts num ty value = None \<longleftrightarrow> num \<le> length accounts \<and> value = None"
  by (cases "value") (auto simp: parse_arm_def check_num_accounts_def)

lemma parse_arm_safe [panic_intro]:
  "(num \<le> length accounts \<Longrightarrow> is_object value) \<Longrightarrow> parse_arm program accounts num ty value \<noteq> None"
  by (auto simp: parse_arm_eq_None dest: is_object_not_None)

lemma parse_arm_Ok: "is_ok r \<longleftrightarrow> num \<le> length accounts" if "parse_arm program accounts num ty value = Some r"
  using that by (cases "value") (auto simp: parse_arm_def check_num_accounts_def split: if_splits)

lemma parse_arm_Err:
  "parse_arm program accounts num ty value = Some (Inl e) \<longleftrightarrow> length accounts < num \<and> e = InstructionKeyMismatch program"
  by (auto simp: parse_arm_def check_num_accounts_def)

lemma present_values [panic_free]:
  "present (jstr s)" "present (jnat n)" "present (jint i)" "present (jbool b)" "present (jarr vs)"
  by (simp_all add: present_def jstr_def jnat_def jint_def jbool_def jarr_def)

lemma present_jopt [panic_free]: "present (jopt f x) \<longleftrightarrow> (\<forall>y. x = Some y \<longrightarrow> present (f y))"
  by (auto simp: jopt_def present_def split: option.split)

subsection \<open>The contract of a parser\<close>

text \<open>What the arms of one program promise, and what follows for the whole parser.  \<open>required\<close> is the
  number of accounts an instruction needs.\<close>

definition arm_result :: "parsable_program \<Rightarrow> nat \<Rightarrow> bytes \<Rightarrow> parsed_instruction_enum parsed \<Rightarrow> bool" where
  "arm_result program num accounts r \<longleftrightarrow>
     (case r of
        None \<Rightarrow> False
      | Some (Inl e) \<Rightarrow> length accounts < num \<and> e = InstructionKeyMismatch program
      | Some (Inr v) \<Rightarrow> num \<le> length accounts)"

lemma arm_result_parse_arm [panic_intro]:
  "(num \<le> length accounts \<Longrightarrow> is_object value) \<Longrightarrow> arm_result program num accounts (parse_arm program accounts num ty value)"
  by (cases "num \<le> length accounts"; cases "value")
    (auto simp: arm_result_def parse_arm_def check_num_accounts_def is_object_def)

locale instruction_parser =
  fixes program :: parsable_program
    and body :: "'pk list \<Rightarrow> bytes \<Rightarrow> 'i \<Rightarrow> parsed_instruction_enum parsed"
    and required :: "'i \<Rightarrow> nat"
  assumes body_result: "accounts \<noteq> [] \<Longrightarrow> indexes_ok accounts keys \<Longrightarrow>
      arm_result program (required i) accounts (body keys accounts i)"
begin

text \<open>The parser does not panic.  It succeeds exactly on decodable data, with at least one account,
  all of them keys of the transaction, and as many as the instruction needs; its errors name its
  program and say which of the two kinds of checks failed.\<close>

lemma parse_result:
  "(case parse_with program decoded accounts keys (body keys accounts) of
      None \<Rightarrow> False
    | Some (Inr v) \<Rightarrow> accounts \<noteq> [] \<and> indexes_ok accounts keys
        \<and> (\<exists>i. decoded = Some i \<and> required i \<le> length accounts \<and> body keys accounts i = Some (Inr v))
    | Some (Inl e) \<Rightarrow> (decoded = None \<and> e = InstructionNotParsable program)
        \<or> (\<exists>i. decoded = Some i \<and> e = InstructionKeyMismatch program
              \<and> (accounts = [] \<or> \<not> indexes_ok accounts keys \<or> length accounts < required i)))"
proof (cases decoded)
  case None
  then show ?thesis by (simp add: parse_with_def)
next
  case (Some i)
  show ?thesis
  proof (cases "accounts \<noteq> [] \<and> indexes_ok accounts keys")
    case True
    then have "arm_result program (required i) accounts (body keys accounts i)" using body_result by blast
    moreover have "parse_with program decoded accounts keys (body keys accounts) = body keys accounts i"
      using True Some by (simp add: parse_with_def check_account_indexes_cases)
    ultimately show ?thesis using True Some by (auto simp: arm_result_def split: option.splits sum.splits)
  next
    case False
    then have "check_account_indexes accounts keys program = Inl (InstructionKeyMismatch program)"
      by (auto simp: check_account_indexes_cases)
    then have "parse_with program decoded accounts keys (body keys accounts) = Some (Inl (InstructionKeyMismatch program))"
      using Some by (simp add: parse_with_def)
    then show ?thesis using False Some by auto
  qed
qed

end

end
