(* ===== verification/Memo.thy ===== *)
theory Memo
  imports Parse_Instruction
begin

section \<open>Memos\<close>

text \<open>
  Text of memo instructions: \<open>parse_memo_data\<close> of \<open>src/transaction-status/src/parse_instruction.rs\<close> and
  the memos of a transaction, \<open>src/transaction-status/src/extract_memos.rs\<close>.  A string is the list of its
  bytes in UTF-8, as Rust stores it; \<open>from_utf8\<close> of the standard library is written out.

  \<open>extract_memos_inner\<close> keeps for each account key whether it is a memo program, and finds out at
  the first instruction that uses it.  \<open>memos_of\<close> is the same selection without the memory.
\<close>

subsection \<open>UTF-8\<close>

definition byte_in :: "nat \<Rightarrow> nat \<Rightarrow> byte \<Rightarrow> bool" where
  "byte_in l h b \<longleftrightarrow> l \<le> unat b \<and> unat b \<le> h"

definition cont :: "byte \<Rightarrow> bool" where
  "cont = byte_in 128 191"

fun utf8_valid :: "bytes \<Rightarrow> bool" where
  \<comment> \<open>the well-formed sequences: no overlong forms, no surrogates, nothing above U+10FFFF\<close>
  "utf8_valid [] = True"
| "utf8_valid (a # r) =
     (if byte_in 0 127 a then utf8_valid r
      else if byte_in 194 223 a then (case r of b # r1 \<Rightarrow> cont b \<and> utf8_valid r1 | _ \<Rightarrow> False)
      else if byte_in 224 239 a then
        (case r of
           b # c # r2 \<Rightarrow>
             (if unat a = 224 then byte_in 160 191 b else if unat a = 237 then byte_in 128 159 b else cont b)
             \<and> cont c \<and> utf8_valid r2
         | _ \<Rightarrow> False)
      else if byte_in 240 244 a then
        (case r of
           b # c # d # r3 \<Rightarrow>
             (if unat a = 240 then byte_in 144 191 b else if unat a = 244 then byte_in 128 143 b else cont b)
             \<and> cont c \<and> cont d \<and> utf8_valid r3
         | _ \<Rightarrow> False)
      else False)"

definition bytes_string :: "bytes \<Rightarrow> string" where
  "bytes_string d = map (\<lambda>b. char_of (unat b)) d"

definition from_utf8 :: "bytes \<Rightarrow> string option" where
  "from_utf8 d = (if utf8_valid d then Some (bytes_string d) else None)"

definition string_bytes :: "string \<Rightarrow> bytes" where
  "string_bytes s = map (\<lambda>c. word_of_nat (of_char c)) s"

lemma string_bytes_inverse [simp]: "string_bytes (bytes_string d) = d"
proof -
  have "word_of_nat (of_char (char_of (unat b) :: char)) = b" for b :: byte
    using unsigned_less[of b, where ?'a = nat] by simp
  then show ?thesis by (simp add: string_bytes_def bytes_string_def comp_def)
qed

lemma string_bytes_from_utf8: "from_utf8 d = Some s \<Longrightarrow> string_bytes s = d"
  by (auto simp: from_utf8_def split: if_splits)

lemma utf8_ascii: "(\<forall>b \<in> set d. unat b < 128) \<Longrightarrow> utf8_valid d"
  by (induction d) (auto simp: byte_in_def)

subsection \<open>Parsing a memo\<close>

definition parse_memo_data :: "bytes \<Rightarrow> string option" where
  "parse_memo_data d = from_utf8 d"

definition parse_memo :: "compiled_instruction \<Rightarrow> parse_error + json" where
  "parse_memo instruction =
     (case parse_memo_data (ci_data instruction) of
        Some s \<Rightarrow> Inr (JStr s)
      | None \<Rightarrow> Inl (InstructionNotParsable SplMemo))"

subsection \<open>The memos of a transaction\<close>

definition extract_and_fmt_memo_data :: "bytes \<Rightarrow> string" where
  "extract_and_fmt_memo_data d =
     ''['' @ show_nat (length d) @ ''] ''
       @ (case parse_memo_data d of Some s \<Rightarrow> s | None \<Rightarrow> ''(unparseable)'')"

datatype 'pk key_type = MemoProgram | OtherProgram | Unknown 'pk

definition memo_step ::
  "'pk \<times> 'pk \<Rightarrow> 'pk key_type list \<Rightarrow> compiled_instruction \<Rightarrow> string option \<times> 'pk key_type list" where
  \<comment> \<open>the closure of the \<open>filter_map\<close>, with the keys it updates; the two identifiers are those of the
      memo programs\<close>
  "memo_step ids account_keys ix =
     (let index = unat (ci_program_id_index ix)
      in case slice_get account_keys index of
           None \<Rightarrow> (None, account_keys)
         | Some MemoProgram \<Rightarrow> (Some (extract_and_fmt_memo_data (ci_data ix)), account_keys)
         | Some OtherProgram \<Rightarrow> (None, account_keys)
         | Some (Unknown program_id) \<Rightarrow>
             if program_id = fst ids \<or> program_id = snd ids
             then (Some (extract_and_fmt_memo_data (ci_data ix)), account_keys[index := MemoProgram])
             else (None, account_keys[index := OtherProgram]))"

fun memo_loop :: "'pk \<times> 'pk \<Rightarrow> 'pk key_type list \<Rightarrow> compiled_instruction list \<Rightarrow> string list" where
  "memo_loop ids account_keys [] = []"
| "memo_loop ids account_keys (ix # ixs) =
     (let (memo, account_keys') = memo_step ids account_keys ix
      in (case memo of Some m \<Rightarrow> [m] | None \<Rightarrow> []) @ memo_loop ids account_keys' ixs)"

definition extract_memos_inner :: "'pk \<times> 'pk \<Rightarrow> 'pk list \<Rightarrow> compiled_instruction list \<Rightarrow> string list" where
  "extract_memos_inner ids account_keys instructions = memo_loop ids (map Unknown account_keys) instructions"

fun join_strings :: "string \<Rightarrow> string list \<Rightarrow> string" where
  \<comment> \<open>\<open>[String]::join\<close>\<close>
  "join_strings sep [] = ''''"
| "join_strings sep [s] = s"
| "join_strings sep (s # t # ss) = s @ sep @ join_strings sep (t # ss)"

definition extract_and_fmt_memos :: "'pk \<times> 'pk \<Rightarrow> 'pk list \<Rightarrow> compiled_instruction list \<Rightarrow> string option" where
  "extract_and_fmt_memos ids account_keys instructions =
     (let memos = extract_memos_inner ids account_keys instructions
      in if memos = [] then None else Some (join_strings ''; '' memos))"

subsection \<open>The memory changes nothing\<close>

definition is_memo :: "'pk \<times> 'pk \<Rightarrow> 'pk list \<Rightarrow> compiled_instruction \<Rightarrow> bool" where
  "is_memo ids keys ix \<longleftrightarrow>
     (case slice_get keys (unat (ci_program_id_index ix)) of
        Some k \<Rightarrow> k = fst ids \<or> k = snd ids | None \<Rightarrow> False)"

definition memos_of :: "'pk \<times> 'pk \<Rightarrow> 'pk list \<Rightarrow> compiled_instruction list \<Rightarrow> string list" where
  "memos_of ids keys instructions =
     map (\<lambda>ix. extract_and_fmt_memo_data (ci_data ix)) (filter (is_memo ids keys) instructions)"

definition key_known :: "'pk \<times> 'pk \<Rightarrow> 'pk \<Rightarrow> 'pk key_type \<Rightarrow> bool" where
  "key_known ids k t \<longleftrightarrow>
     (case t of MemoProgram \<Rightarrow> k = fst ids \<or> k = snd ids
      | OtherProgram \<Rightarrow> \<not> (k = fst ids \<or> k = snd ids)
      | Unknown k' \<Rightarrow> k' = k)"

lemma memo_step_ok:
  assumes "list_all2 (key_known ids) keys ts"
  shows "fst (memo_step ids ts ix) = (if is_memo ids keys ix then Some (extract_and_fmt_memo_data (ci_data ix)) else None)"
    and "list_all2 (key_known ids) keys (snd (memo_step ids ts ix))"
proof -
  let ?i = "unat (ci_program_id_index ix)"
  have len: "length keys = length ts" using assms by (rule list_all2_lengthD)
  have known: "key_known ids (keys ! ?i) (ts ! ?i)" if "?i < length ts"
    using assms that len by (simp add: list_all2_nthD)
  show "fst (memo_step ids ts ix) = (if is_memo ids keys ix then Some (extract_and_fmt_memo_data (ci_data ix)) else None)"
    using known len
    by (cases "ts ! ?i"; cases "?i < length ts") (auto simp: memo_step_def is_memo_def key_known_def Let_def slice_get_def)
  have upd: "list_all2 (key_known ids) keys (ts[?i := t])" if "?i < length ts \<Longrightarrow> key_known ids (keys ! ?i) t" for t
    using assms that len
    by (cases "?i < length ts") (auto simp: list_all2_conv_all_nth nth_list_update)
  show "list_all2 (key_known ids) keys (snd (memo_step ids ts ix))"
    using assms known upd
    by (cases "ts ! ?i"; cases "?i < length ts") (auto simp: memo_step_def key_known_def Let_def slice_get_def)
qed

lemma memo_loop_eq: "list_all2 (key_known ids) keys ts \<Longrightarrow> memo_loop ids ts ixs = memos_of ids keys ixs"
proof (induction ixs arbitrary: ts)
  case (Cons ix ixs)
  note step = memo_step_ok[OF Cons.prems, of ix]
  show ?case using step(1) Cons.IH[OF step(2)]
    by (cases "memo_step ids ts ix") (auto simp: memos_of_def)
qed (simp add: memos_of_def)

text \<open>C37: Extracting the memos of a transaction with the memory of key types gives exactly the memo
  instructions in their order, each as its length and its text, whatever the keys and the indexes:
  an instruction is taken when its program index is in range and the key there is one of the two
  memo programs, and the joined text is absent exactly when there is no such instruction.\<close>

theorem extract_memos_equiv:
  "extract_memos_inner ids keys instructions = memos_of ids keys instructions
   \<and> (extract_and_fmt_memos ids keys instructions = None \<longleftrightarrow> filter (is_memo ids keys) instructions = [])"
proof -
  have "list_all2 (key_known ids) keys (map Unknown keys)"
    by (simp add: list_all2_conv_all_nth key_known_def)
  from memo_loop_eq[OF this] have "extract_memos_inner ids keys instructions = memos_of ids keys instructions"
    by (simp add: extract_memos_inner_def)
  then show ?thesis by (simp add: extract_and_fmt_memos_def memos_of_def Let_def)
qed

end
