(* ===== verification/Parse_System.thy ===== *)
theory Parse_System
  imports Parse_Instruction
begin

section \<open>System instructions\<close>

text \<open>
  \<open>parse_system\<close> (\<open>src/transaction-status/src/parse_system.rs\<close>).  The instruction is the enumeration the
  parser matches on; its decoding by bincode is the argument \<open>deserialize\<close>.  \<open>system_required\<close> is the
  number of accounts each instruction needs.
\<close>

datatype 'pk system_instruction =
    SysCreateAccount u64 u64 'pk
  | SysAssign 'pk
  | SysTransfer u64
  | SysCreateAccountWithSeed 'pk string u64 u64 'pk
  | SysAdvanceNonceAccount
  | SysWithdrawNonceAccount u64
  | SysInitializeNonceAccount 'pk
  | SysAuthorizeNonceAccount 'pk
  | SysUpgradeNonceAccount
  | SysAllocate u64
  | SysAllocateWithSeed 'pk string u64 'pk
  | SysAssignWithSeed 'pk string 'pk
  | SysTransferWithSeed u64 string 'pk

definition parse_system_instruction ::
  "('pk, 'h, 'v, 'm) show_env_scheme \<Rightarrow> 'pk list \<Rightarrow> bytes \<Rightarrow> 'pk system_instruction \<Rightarrow> parsed_instruction_enum parsed" where
  "parse_system_instruction E keys accounts i =
     (let A = account E keys accounts; arm = parse_arm System accounts
      in case i of
       SysCreateAccount lamports space owner \<Rightarrow>
       arm 2 ''createAccount'' (json_object
         [(''source'', A 0), (''newAccount'', A 1), (''lamports'', jnat (unat lamports)),
          (''space'', jnat (unat space)), (''owner'', jstr (pubkey_string E owner))])
     | SysAssign owner \<Rightarrow>
       arm 1 ''assign'' (json_object
         [(''account'', A 0), (''owner'', jstr (pubkey_string E owner))])
     | SysTransfer lamports \<Rightarrow>
       arm 2 ''transfer'' (json_object
         [(''source'', A 0), (''destination'', A 1), (''lamports'', jnat (unat lamports))])
     | SysCreateAccountWithSeed base seed lamports space owner \<Rightarrow>
       arm 2 ''createAccountWithSeed'' (json_object
         [(''source'', A 0), (''newAccount'', A 1), (''base'', jstr (pubkey_string E base)), (''seed'', jstr seed),
          (''lamports'', jnat (unat lamports)), (''space'', jnat (unat space)),
          (''owner'', jstr (pubkey_string E owner))])
     | SysAdvanceNonceAccount \<Rightarrow>
       arm 3 ''advanceNonce'' (json_object
         [(''nonceAccount'', A 0), (''recentBlockhashesSysvar'', A 1), (''nonceAuthority'', A 2)])
     | SysWithdrawNonceAccount lamports \<Rightarrow>
       arm 5 ''withdrawFromNonce'' (json_object
         [(''nonceAccount'', A 0), (''destination'', A 1), (''recentBlockhashesSysvar'', A 2), (''rentSysvar'', A 3),
          (''nonceAuthority'', A 4), (''lamports'', jnat (unat lamports))])
     | SysInitializeNonceAccount authority \<Rightarrow>
       arm 3 ''initializeNonce'' (json_object
         [(''nonceAccount'', A 0), (''recentBlockhashesSysvar'', A 1), (''rentSysvar'', A 2),
          (''nonceAuthority'', jstr (pubkey_string E authority))])
     | SysAuthorizeNonceAccount authority \<Rightarrow>
       arm 2 ''authorizeNonce'' (json_object
         [(''nonceAccount'', A 0), (''nonceAuthority'', A 1), (''newAuthorized'', jstr (pubkey_string E authority))])
     | SysUpgradeNonceAccount \<Rightarrow>
       arm 1 ''upgradeNonce'' (json_object
         [(''nonceAccount'', A 0)])
     | SysAllocate space \<Rightarrow>
       arm 1 ''allocate'' (json_object
         [(''account'', A 0), (''space'', jnat (unat space))])
     | SysAllocateWithSeed base seed space owner \<Rightarrow>
       arm 2 ''allocateWithSeed'' (json_object
         [(''account'', A 0), (''base'', jstr (pubkey_string E base)), (''seed'', jstr seed),
          (''space'', jnat (unat space)), (''owner'', jstr (pubkey_string E owner))])
     | SysAssignWithSeed base seed owner \<Rightarrow>
       arm 2 ''assignWithSeed'' (json_object
         [(''account'', A 0), (''base'', jstr (pubkey_string E base)), (''seed'', jstr seed),
          (''owner'', jstr (pubkey_string E owner))])
     | SysTransferWithSeed lamports from_seed from_owner \<Rightarrow>
       arm 3 ''transferWithSeed'' (json_object
         [(''source'', A 0), (''sourceBase'', A 1), (''destination'', A 2), (''lamports'', jnat (unat lamports)),
          (''sourceSeed'', jstr from_seed), (''sourceOwner'', jstr (pubkey_string E from_owner))]))"

definition parse_system ::
  "('pk, 'h, 'v, 'm) show_env_scheme \<Rightarrow> (bytes \<Rightarrow> 'pk system_instruction option) \<Rightarrow> compiled_instruction \<Rightarrow> 'pk list \<Rightarrow> parsed_instruction_enum parsed" where
  "parse_system E deserialize instruction keys =
     parse_with System (deserialize (ci_data instruction)) (ci_accounts instruction) keys
       (parse_system_instruction E keys (ci_accounts instruction))"

primrec system_required :: "'pk system_instruction \<Rightarrow> nat" where
  "system_required (SysCreateAccount _ _ _) = 2"
| "system_required (SysAssign _) = 1"
| "system_required (SysTransfer _) = 2"
| "system_required (SysCreateAccountWithSeed _ _ _ _ _) = 2"
| "system_required SysAdvanceNonceAccount = 3"
| "system_required (SysWithdrawNonceAccount _) = 5"
| "system_required (SysInitializeNonceAccount _) = 3"
| "system_required (SysAuthorizeNonceAccount _) = 2"
| "system_required SysUpgradeNonceAccount = 1"
| "system_required (SysAllocate _) = 1"
| "system_required (SysAllocateWithSeed _ _ _ _) = 2"
| "system_required (SysAssignWithSeed _ _ _) = 2"
| "system_required (SysTransferWithSeed _ _ _) = 3"

interpretation system: instruction_parser System "parse_system_instruction E" system_required
  for E :: "('pk, 'h, 'v, 'm) show_env_scheme"
proof
  fix accounts and keys :: "'pk list" and i
  assume ok: "accounts \<noteq> []" "indexes_ok accounts keys"
  then have "0 < length accounts" by simp
  then show "arm_result System (system_required i) accounts (parse_system_instruction E keys accounts i)"
    unfolding parse_system_instruction_def Let_def
    by (cases i) (auto intro!: panic_intro simp: panic_free ok(2))
qed

end
