(* ===== verification/Parse_Stake.thy ===== *)
theory Parse_Stake
  imports Parse_Instruction
begin

section \<open>Stake instructions\<close>

text \<open>
  \<open>parse_stake\<close> (\<open>src/transaction-status/src/parse_stake.rs\<close>).  The kind of a stake authority is a value
  of a third-party type that is only serialized.
\<close>

record 'pk stake_authorized =
  staker :: 'pk
  withdrawer :: 'pk

record 'pk stake_lockup =
  lockup_unix_timestamp :: int
  lockup_epoch :: u64
  lockup_custodian :: 'pk

record 'pk lockup_args =
  la_unix_timestamp :: "int option"
  la_epoch :: "u64 option"
  la_custodian :: "'pk option"

record lockup_checked_args =
  lca_unix_timestamp :: "int option"
  lca_epoch :: "u64 option"

record ('pk, 'v) authorize_with_seed_args =
  aws_new_authorized_pubkey :: 'pk
  aws_stake_authorize :: 'v
  aws_authority_seed :: string
  aws_authority_owner :: 'pk

record ('pk, 'v) authorize_checked_with_seed_args =
  acs_stake_authorize :: 'v
  acs_authority_seed :: string
  acs_authority_owner :: 'pk

datatype ('pk, 'v) stake_instruction =
    StkInitialize "'pk stake_authorized" "'pk stake_lockup"
  | StkAuthorize 'pk 'v
  | StkDelegateStake
  | StkSplit u64
  | StkWithdraw u64
  | StkDeactivate
  | StkSetLockup "'pk lockup_args"
  | StkMerge
  | StkAuthorizeWithSeed "('pk, 'v) authorize_with_seed_args"
  | StkInitializeChecked
  | StkAuthorizeChecked 'v
  | StkAuthorizeCheckedWithSeed "('pk, 'v) authorize_checked_with_seed_args"
  | StkSetLockupChecked lockup_checked_args
  | StkGetMinimumDelegation
  | StkDeactivateDelinquent
  | StkRedelegate
  | StkMoveStake u64
  | StkMoveLamports u64

definition parse_stake_instruction ::
  "('pk, 'h, 'v, 'm) show_env_scheme \<Rightarrow> 'pk list \<Rightarrow> bytes \<Rightarrow> ('pk, 'v) stake_instruction \<Rightarrow> parsed_instruction_enum parsed" where
  "parse_stake_instruction E keys accounts i =
     (let A = account E keys accounts; arm = parse_arm Stake accounts;
          K = (\<lambda>k. jstr (pubkey_string E k)); V = (\<lambda>v. Some (to_value E v)); opt = optional_account E keys accounts
      in case i of
       StkInitialize authorized lockup \<Rightarrow>
       arm 2 ''initialize'' (json_object
         [(''stakeAccount'', A 0), (''rentSysvar'', A 1),
          (''authorized'', json_object
             [(''staker'', K (staker authorized)), (''withdrawer'', K (withdrawer authorized))]),
          (''lockup'', json_object
             [(''unixTimestamp'', jint (lockup_unix_timestamp lockup)), (''epoch'', jnat (unat (lockup_epoch lockup))),
              (''custodian'', K (lockup_custodian lockup))])])
     | StkAuthorize new_authorized authority_type \<Rightarrow>
       arm 3 ''authorize'' (opt 4 3 ''custodian'' (json_object
           [(''stakeAccount'', A 0), (''clockSysvar'', A 1), (''authority'', A 2),
            (''newAuthority'', K new_authorized), (''authorityType'', V authority_type)]))
     | StkDelegateStake \<Rightarrow>
       arm 6 ''delegate'' (json_object
         [(''stakeAccount'', A 0), (''voteAccount'', A 1), (''clockSysvar'', A 2), (''stakeHistorySysvar'', A 3),
          (''stakeConfigAccount'', A 4), (''stakeAuthority'', A 5)])
     | StkSplit lamports \<Rightarrow>
       arm 3 ''split'' (json_object
         [(''stakeAccount'', A 0), (''newSplitAccount'', A 1), (''stakeAuthority'', A 2),
          (''lamports'', jnat (unat lamports))])
     | StkWithdraw lamports \<Rightarrow>
       arm 5 ''withdraw'' (opt 6 5 ''custodian'' (json_object
           [(''stakeAccount'', A 0), (''destination'', A 1), (''clockSysvar'', A 2), (''stakeHistorySysvar'', A 3),
            (''withdrawAuthority'', A 4), (''lamports'', jnat (unat lamports))]))
     | StkDeactivate \<Rightarrow>
       arm 3 ''deactivate'' (json_object
         [(''stakeAccount'', A 0), (''clockSysvar'', A 1), (''stakeAuthority'', A 2)])
     | StkSetLockup lockup_args \<Rightarrow>
       arm 2 ''setLockup'' (json_object
         [(''stakeAccount'', A 0), (''custodian'', A 1),
          (''lockup'', insert_some ''custodian'' K (la_custodian lockup_args)
             (insert_some ''epoch'' (\<lambda>e. jnat (unat e)) (la_epoch lockup_args)
             (insert_some ''unixTimestamp'' jint (la_unix_timestamp lockup_args) (json_object []))))])
     | StkMerge \<Rightarrow>
       arm 5 ''merge'' (json_object
         [(''destination'', A 0), (''source'', A 1), (''clockSysvar'', A 2), (''stakeHistorySysvar'', A 3),
          (''stakeAuthority'', A 4)])
     | StkAuthorizeWithSeed args \<Rightarrow>
       arm 2 ''authorizeWithSeed'' (opt 4 3 ''custodian'' (opt 3 2 ''clockSysvar'' (json_object
           [(''stakeAccount'', A 0), (''authorityBase'', A 1),
            (''newAuthorized'', K (aws_new_authorized_pubkey args)),
            (''authorityType'', V (aws_stake_authorize args)), (''authoritySeed'', jstr (aws_authority_seed args)),
            (''authorityOwner'', K (aws_authority_owner args))])))
     | StkInitializeChecked \<Rightarrow>
       arm 4 ''initializeChecked'' (json_object
         [(''stakeAccount'', A 0), (''rentSysvar'', A 1), (''staker'', A 2), (''withdrawer'', A 3)])
     | StkAuthorizeChecked authority_type \<Rightarrow>
       arm 4 ''authorizeChecked'' (opt 5 4 ''custodian'' (json_object
           [(''stakeAccount'', A 0), (''clockSysvar'', A 1), (''authority'', A 2), (''newAuthority'', A 3),
            (''authorityType'', V authority_type)]))
     | StkAuthorizeCheckedWithSeed args \<Rightarrow>
       arm 4 ''authorizeCheckedWithSeed'' (opt 5 4 ''custodian'' (json_object
           [(''stakeAccount'', A 0), (''authorityBase'', A 1), (''clockSysvar'', A 2), (''newAuthorized'', A 3),
            (''authorityType'', V (acs_stake_authorize args)), (''authoritySeed'', jstr (acs_authority_seed args)),
            (''authorityOwner'', K (acs_authority_owner args))]))
     | StkSetLockupChecked lockup_args \<Rightarrow>
       arm 2 ''setLockupChecked'' (json_object
         [(''stakeAccount'', A 0), (''custodian'', A 1),
          (''lockup'', opt 3 2 ''custodian''
             (insert_some ''epoch'' (\<lambda>e. jnat (unat e)) (lca_epoch lockup_args)
             (insert_some ''unixTimestamp'' jint (lca_unix_timestamp lockup_args) (json_object []))))])
     | StkGetMinimumDelegation \<Rightarrow>
       Some (Inr \<lparr>instruction_type = ''getMinimumDelegation'', info = JNull\<rparr>)
     | StkDeactivateDelinquent \<Rightarrow>
       arm 3 ''deactivateDelinquent'' (json_object
         [(''stakeAccount'', A 0), (''voteAccount'', A 1), (''referenceVoteAccount'', A 2)])
     | StkRedelegate \<Rightarrow>
       arm 5 ''redelegate'' (json_object
         [(''stakeAccount'', A 0), (''newStakeAccount'', A 1), (''voteAccount'', A 2), (''stakeConfigAccount'', A 3),
          (''stakeAuthority'', A 4)])
     | StkMoveStake lamports \<Rightarrow>
       arm 3 ''moveStake'' (json_object
         [(''source'', A 0), (''destination'', A 1), (''stakeAuthority'', A 2), (''lamports'', jnat (unat lamports))])
     | StkMoveLamports lamports \<Rightarrow>
       arm 3 ''moveLamports'' (json_object
         [(''source'', A 0), (''destination'', A 1), (''stakeAuthority'', A 2), (''lamports'', jnat (unat lamports))]))"

definition parse_stake ::
  "('pk, 'h, 'v, 'm) show_env_scheme \<Rightarrow> (bytes \<Rightarrow> ('pk, 'v) stake_instruction option) \<Rightarrow> compiled_instruction \<Rightarrow> 'pk list \<Rightarrow> parsed_instruction_enum parsed" where
  "parse_stake E deserialize instruction keys =
     parse_with Stake (deserialize (ci_data instruction)) (ci_accounts instruction) keys
       (parse_stake_instruction E keys (ci_accounts instruction))"

primrec stake_required :: "('pk, 'v) stake_instruction \<Rightarrow> nat" where
  "stake_required (StkInitialize _ _) = 2"
| "stake_required (StkAuthorize _ _) = 3"
| "stake_required StkDelegateStake = 6"
| "stake_required (StkSplit _) = 3"
| "stake_required (StkWithdraw _) = 5"
| "stake_required StkDeactivate = 3"
| "stake_required (StkSetLockup _) = 2"
| "stake_required StkMerge = 5"
| "stake_required (StkAuthorizeWithSeed _) = 2"
| "stake_required StkInitializeChecked = 4"
| "stake_required (StkAuthorizeChecked _) = 4"
| "stake_required (StkAuthorizeCheckedWithSeed _) = 4"
| "stake_required (StkSetLockupChecked _) = 2"
| "stake_required StkGetMinimumDelegation = 0"
| "stake_required StkDeactivateDelinquent = 3"
| "stake_required StkRedelegate = 5"
| "stake_required (StkMoveStake _) = 3"
| "stake_required (StkMoveLamports _) = 3"

lemma arm_result_no_check [panic_intro]: "arm_result program 0 accounts (Some (Inr v))"
  by (simp add: arm_result_def)

interpretation stake: instruction_parser Stake "parse_stake_instruction E" stake_required
  for E :: "('pk, 'h, 'v, 'm) show_env_scheme"
proof
  fix accounts and keys :: "'pk list" and i
  assume ok: "accounts \<noteq> []" "indexes_ok accounts keys"
  then have "0 < length accounts" by simp
  then show "arm_result Stake (stake_required i) accounts (parse_stake_instruction E keys accounts i)"
    unfolding parse_stake_instruction_def Let_def
    by (cases i) (auto intro!: panic_intro simp: panic_free ok(2))
qed

end
