(* ===== verification/Parse_Vote.thy ===== *)
theory Parse_Vote
  imports Parse_Instruction
begin

section \<open>Vote instructions\<close>

text \<open>
  \<open>parse_vote\<close> (\<open>src/transaction-status/src/parse_vote.rs\<close>).  The records hold the fields the parser
  reads.  Lockouts and the kind of an authority are values of third-party types that are only
  serialized.
\<close>

record 'pk vote_init =
  vi_authorized_voter :: 'pk
  vi_authorized_withdrawer :: 'pk
  vi_commission :: u8

record ('pk, 'v) vote_authorize_args =
  va_authorization_type :: 'v
  va_owner :: 'pk
  va_seed :: string
  va_new_authority :: 'pk

record ('pk, 'v) vote_authorize_checked_args =
  vc_authorization_type :: 'v
  vc_owner :: 'pk
  vc_seed :: string

record 'h vote_data =
  vote_slots :: "u64 list"
  vote_hash :: 'h
  vote_timestamp :: "int option"

record ('h, 'v) vote_state_update =
  vsu_lockouts :: 'v
  vsu_root :: "u64 option"
  vsu_hash :: 'h
  vsu_timestamp :: "int option"

record ('h, 'v) tower_sync =
  ts_lockouts :: 'v
  ts_root :: "u64 option"
  ts_hash :: 'h
  ts_timestamp :: "int option"
  ts_block_id :: 'h

datatype ('pk, 'h, 'v) vote_instruction =
    VotInitializeAccount "'pk vote_init"
  | VotAuthorize 'pk 'v
  | VotAuthorizeWithSeed "('pk, 'v) vote_authorize_args"
  | VotAuthorizeCheckedWithSeed "('pk, 'v) vote_authorize_checked_args"
  | VotVote "'h vote_data"
  | VotUpdateVoteState "('h, 'v) vote_state_update"
  | VotUpdateVoteStateSwitch "('h, 'v) vote_state_update" 'h
  | VotCompactUpdateVoteState "('h, 'v) vote_state_update"
  | VotCompactUpdateVoteStateSwitch "('h, 'v) vote_state_update" 'h
  | VotTowerSync "('h, 'v) tower_sync"
  | VotTowerSyncSwitch "('h, 'v) tower_sync" 'h
  | VotWithdraw u64
  | VotUpdateValidatorIdentity
  | VotUpdateCommission u8
  | VotVoteSwitch "'h vote_data" 'h
  | VotAuthorizeChecked 'v

definition vote_value :: "('pk, 'h, 'v, 'm) show_env_scheme \<Rightarrow> 'h vote_data \<Rightarrow> json option" where
  "vote_value E vote = json_object
     [(''slots'', jarr (map (\<lambda>s. JInt (uint s)) (vote_slots vote))), (''hash'', jstr (hash_string E (vote_hash vote))),
      (''timestamp'', jopt jint (vote_timestamp vote))]"

definition vote_state_update_value :: "('pk, 'h, 'v, 'm) show_env_scheme \<Rightarrow> ('h, 'v) vote_state_update \<Rightarrow> json option" where
  "vote_state_update_value E u = json_object
     [(''lockouts'', Some (to_value E (vsu_lockouts u))), (''root'', jopt (\<lambda>s. jnat (unat s)) (vsu_root u)),
      (''hash'', jstr (hash_string E (vsu_hash u))), (''timestamp'', jopt jint (vsu_timestamp u))]"

definition tower_sync_value :: "('pk, 'h, 'v, 'm) show_env_scheme \<Rightarrow> ('h, 'v) tower_sync \<Rightarrow> json option" where
  "tower_sync_value E u = json_object
     [(''lockouts'', Some (to_value E (ts_lockouts u))), (''root'', jopt (\<lambda>s. jnat (unat s)) (ts_root u)),
      (''hash'', jstr (hash_string E (ts_hash u))), (''timestamp'', jopt jint (ts_timestamp u)),
      (''blockId'', jstr (hash_string E (ts_block_id u)))]"

definition parse_vote_instruction ::
  "('pk, 'h, 'v, 'm) show_env_scheme \<Rightarrow> 'pk list \<Rightarrow> bytes \<Rightarrow> ('pk, 'h, 'v) vote_instruction \<Rightarrow> parsed_instruction_enum parsed" where
  "parse_vote_instruction E keys accounts i =
     (let A = account E keys accounts; arm = parse_arm Vote accounts;
          K = (\<lambda>k. jstr (pubkey_string E k)); V = (\<lambda>v. Some (to_value E v)); H = (\<lambda>h. jstr (hash_string E h))
      in case i of
       VotInitializeAccount vote_init \<Rightarrow>
       arm 4 ''initialize'' (json_object
         [(''voteAccount'', A 0), (''rentSysvar'', A 1), (''clockSysvar'', A 2), (''node'', A 3),
          (''authorizedVoter'', K (vi_authorized_voter vote_init)),
          (''authorizedWithdrawer'', K (vi_authorized_withdrawer vote_init)),
          (''commission'', jnat (unat (vi_commission vote_init)))])
     | VotAuthorize new_authorized authority_type \<Rightarrow>
       arm 3 ''authorize'' (json_object
         [(''voteAccount'', A 0), (''clockSysvar'', A 1), (''authority'', A 2), (''newAuthority'', K new_authorized),
          (''authorityType'', V authority_type)])
     | VotAuthorizeWithSeed args \<Rightarrow>
       arm 3 ''authorizeWithSeed'' (json_object
         [(''voteAccount'', A 0), (''clockSysvar'', A 1), (''authorityBaseKey'', A 2),
          (''authorityOwner'', K (va_owner args)), (''authoritySeed'', jstr (va_seed args)),
          (''newAuthority'', K (va_new_authority args)), (''authorityType'', V (va_authorization_type args))])
     | VotAuthorizeCheckedWithSeed args \<Rightarrow>
       arm 4 ''authorizeCheckedWithSeed'' (json_object
         [(''voteAccount'', A 0), (''clockSysvar'', A 1), (''authorityBaseKey'', A 2),
          (''authorityOwner'', K (vc_owner args)), (''authoritySeed'', jstr (vc_seed args)), (''newAuthority'', A 3),
          (''authorityType'', V (vc_authorization_type args))])
     | VotVote vote \<Rightarrow>
       arm 4 ''vote'' (json_object
         [(''voteAccount'', A 0), (''slotHashesSysvar'', A 1), (''clockSysvar'', A 2), (''voteAuthority'', A 3),
          (''vote'', vote_value E vote)])
     | VotUpdateVoteState vote_state_update \<Rightarrow>
       arm 2 ''updatevotestate'' (json_object
         [(''voteAccount'', A 0), (''voteAuthority'', A 1),
          (''voteStateUpdate'', vote_state_update_value E vote_state_update)])
     | VotUpdateVoteStateSwitch vote_state_update h \<Rightarrow>
       arm 2 ''updatevotestateswitch'' (json_object
         [(''voteAccount'', A 0), (''voteAuthority'', A 1),
          (''voteStateUpdate'', vote_state_update_value E vote_state_update), (''hash'', H h)])
     | VotCompactUpdateVoteState vote_state_update \<Rightarrow>
       arm 2 ''compactupdatevotestate'' (json_object
         [(''voteAccount'', A 0), (''voteAuthority'', A 1),
          (''voteStateUpdate'', vote_state_update_value E vote_state_update)])
     | VotCompactUpdateVoteStateSwitch vote_state_update h \<Rightarrow>
       arm 2 ''compactupdatevotestateswitch'' (json_object
         [(''voteAccount'', A 0), (''voteAuthority'', A 1),
          (''voteStateUpdate'', vote_state_update_value E vote_state_update), (''hash'', H h)])
     | VotTowerSync tower_sync \<Rightarrow>
       arm 2 ''towersync'' (json_object
         [(''voteAccount'', A 0), (''voteAuthority'', A 1), (''towerSync'', tower_sync_value E tower_sync)])
     | VotTowerSyncSwitch tower_sync h \<Rightarrow>
       arm 2 ''towersyncswitch'' (json_object
         [(''voteAccount'', A 0), (''voteAuthority'', A 1), (''towerSync'', tower_sync_value E tower_sync),
          (''hash'', H h)])
     | VotWithdraw lamports \<Rightarrow>
       arm 3 ''withdraw'' (json_object
         [(''voteAccount'', A 0), (''destination'', A 1), (''withdrawAuthority'', A 2),
          (''lamports'', jnat (unat lamports))])
     | VotUpdateValidatorIdentity \<Rightarrow>
       arm 3 ''updateValidatorIdentity'' (json_object
         [(''voteAccount'', A 0), (''newValidatorIdentity'', A 1), (''withdrawAuthority'', A 2)])
     | VotUpdateCommission commission \<Rightarrow>
       arm 2 ''updateCommission'' (json_object
         [(''voteAccount'', A 0), (''withdrawAuthority'', A 1), (''commission'', jnat (unat commission))])
     | VotVoteSwitch vote h \<Rightarrow>
       arm 4 ''voteSwitch'' (json_object
         [(''voteAccount'', A 0), (''slotHashesSysvar'', A 1), (''clockSysvar'', A 2), (''voteAuthority'', A 3),
          (''vote'', vote_value E vote), (''hash'', H h)])
     | VotAuthorizeChecked authority_type \<Rightarrow>
       arm 4 ''authorizeChecked'' (json_object
         [(''voteAccount'', A 0), (''clockSysvar'', A 1), (''authority'', A 2), (''newAuthority'', A 3),
          (''authorityType'', V authority_type)]))"

definition parse_vote ::
  "('pk, 'h, 'v, 'm) show_env_scheme \<Rightarrow> (bytes \<Rightarrow> ('pk, 'h, 'v) vote_instruction option) \<Rightarrow> compiled_instruction \<Rightarrow> 'pk list \<Rightarrow> parsed_instruction_enum parsed" where
  "parse_vote E deserialize instruction keys =
     parse_with Vote (deserialize (ci_data instruction)) (ci_accounts instruction) keys
       (parse_vote_instruction E keys (ci_accounts instruction))"

primrec vote_required :: "('pk, 'h, 'v) vote_instruction \<Rightarrow> nat" where
  "vote_required (VotInitializeAccount _) = 4"
| "vote_required (VotAuthorize _ _) = 3"
| "vote_required (VotAuthorizeWithSeed _) = 3"
| "vote_required (VotAuthorizeCheckedWithSeed _) = 4"
| "vote_required (VotVote _) = 4"
| "vote_required (VotUpdateVoteState _) = 2"
| "vote_required (VotUpdateVoteStateSwitch _ _) = 2"
| "vote_required (VotCompactUpdateVoteState _) = 2"
| "vote_required (VotCompactUpdateVoteStateSwitch _ _) = 2"
| "vote_required (VotTowerSync _) = 2"
| "vote_required (VotTowerSyncSwitch _ _) = 2"
| "vote_required (VotWithdraw _) = 3"
| "vote_required VotUpdateValidatorIdentity = 3"
| "vote_required (VotUpdateCommission _) = 2"
| "vote_required (VotVoteSwitch _ _) = 4"
| "vote_required (VotAuthorizeChecked _) = 4"

interpretation vote: instruction_parser Vote "parse_vote_instruction E" vote_required
  for E :: "('pk, 'h, 'v, 'm) show_env_scheme"
proof
  fix accounts and keys :: "'pk list" and i
  assume ok: "accounts \<noteq> []" "indexes_ok accounts keys"
  then have "0 < length accounts" by simp
  then show "arm_result Vote (vote_required i) accounts (parse_vote_instruction E keys accounts i)"
    unfolding parse_vote_instruction_def vote_value_def vote_state_update_value_def tower_sync_value_def Let_def
    by (cases i) (auto intro!: panic_intro simp: panic_free ok(2))
qed

end
