(* ===== verification/Parse_Loader.thy ===== *)
theory Parse_Loader
  imports Parse_Instruction
begin

section \<open>Loader instructions\<close>

text \<open>
  \<open>parse_bpf_loader\<close> and \<open>parse_bpf_upgradeable_loader\<close>
  (\<open>src/transaction-status/src/parse_bpf_loader.rs\<close>).  The first checks only the first account, which is
  the only one it shows.
\<close>

datatype loader_instruction = LdrWrite u32 bytes | LdrFinalize

definition parse_bpf_loader ::
  "('pk, 'h, 'v, 'm) show_env_scheme \<Rightarrow> (bytes \<Rightarrow> loader_instruction option) \<Rightarrow> compiled_instruction \<Rightarrow> 'pk list \<Rightarrow> parsed_instruction_enum parsed" where
  "parse_bpf_loader E deserialize instruction keys =
     (let accounts = ci_accounts instruction; A = account E keys accounts; arm = parse_arm BpfLoader accounts
      in bind_step (Some (ok_or (deserialize (ci_data instruction)) (InstructionNotParsable BpfLoader))) (\<lambda>i.
         if accounts = [] then Some (Inl (InstructionKeyMismatch BpfLoader))
         else case slice_get accounts 0 of
                None \<Rightarrow> None
              | Some first \<Rightarrow>
                  if length keys \<le> unat first then Some (Inl (InstructionKeyMismatch BpfLoader))
                  else (case i of
                          LdrWrite offset bytes \<Rightarrow>
                            arm 1 ''write'' (json_object
                              [(''offset'', jnat (unat offset)), (''bytes'', jstr (base64_encode E bytes)), (''account'', A 0)])
                        | LdrFinalize \<Rightarrow> arm 2 ''finalize'' (json_object [(''account'', A 0)]))))"

datatype upgradeable_loader_instruction =
    UpgInitializeBuffer
  | UpgWrite u32 bytes
  | UpgDeployWithMaxDataLen nat
  | UpgUpgrade
  | UpgSetAuthority
  | UpgSetAuthorityChecked
  | UpgClose
  | UpgExtendProgram u32
  | UpgMigrate
  | UpgExtendProgramChecked u32

definition parse_bpf_upgradeable_loader_instruction ::
  "('pk, 'h, 'v, 'm) show_env_scheme \<Rightarrow> 'pk list \<Rightarrow> bytes \<Rightarrow> upgradeable_loader_instruction \<Rightarrow> parsed_instruction_enum parsed" where
  "parse_bpf_upgradeable_loader_instruction E keys accounts i =
     (let A = account E keys accounts; arm = parse_arm BpfUpgradeableLoader accounts;
          N = account_or_null E keys accounts
      in case i of
       UpgInitializeBuffer \<Rightarrow>
       arm 1 ''initializeBuffer'' (optional_account E keys accounts 2 1 ''authority'' (json_object [(''account'', A 0)]))
     | UpgWrite offset bytes \<Rightarrow>
       arm 2 ''write'' (json_object
         [(''offset'', jnat (unat offset)), (''bytes'', jstr (base64_encode E bytes)), (''account'', A 0),
          (''authority'', A 1)])
     | UpgDeployWithMaxDataLen max_data_len \<Rightarrow>
       arm 8 ''deployWithMaxDataLen'' (json_object
         [(''maxDataLen'', jnat max_data_len), (''payerAccount'', A 0), (''programDataAccount'', A 1),
          (''programAccount'', A 2), (''bufferAccount'', A 3), (''rentSysvar'', A 4), (''clockSysvar'', A 5),
          (''systemProgram'', A 6), (''authority'', A 7)])
     | UpgUpgrade \<Rightarrow>
       arm 7 ''upgrade'' (json_object
         [(''programDataAccount'', A 0), (''programAccount'', A 1), (''bufferAccount'', A 2), (''spillAccount'', A 3),
          (''rentSysvar'', A 4), (''clockSysvar'', A 5), (''authority'', A 6)])
     | UpgSetAuthority \<Rightarrow>
       arm 2 ''setAuthority'' (json_object
         [(''account'', A 0), (''authority'', A 1), (''newAuthority'', N 2)])
     | UpgSetAuthorityChecked \<Rightarrow>
       arm 3 ''setAuthorityChecked'' (json_object
         [(''account'', A 0), (''authority'', A 1), (''newAuthority'', A 2)])
     | UpgClose \<Rightarrow>
       arm 3 ''close'' (json_object
         [(''account'', A 0), (''recipient'', A 1), (''authority'', A 2), (''programAccount'', N 3)])
     | UpgExtendProgram additional_bytes \<Rightarrow>
       arm 2 ''extendProgram'' (json_object
         [(''additionalBytes'', jnat (unat additional_bytes)), (''programDataAccount'', A 0),
          (''programAccount'', A 1), (''systemProgram'', N 2), (''payerAccount'', N 3)])
     | UpgMigrate \<Rightarrow>
       arm 3 ''migrate'' (json_object
         [(''programDataAccount'', A 0), (''programAccount'', A 1), (''authority'', A 2)])
     | UpgExtendProgramChecked additional_bytes \<Rightarrow>
       arm 3 ''extendProgramChecked'' (json_object
         [(''additionalBytes'', jnat (unat additional_bytes)), (''programDataAccount'', A 0),
          (''programAccount'', A 1), (''authority'', A 2), (''systemProgram'', N 3), (''payerAccount'', N 4)]))"

definition parse_bpf_upgradeable_loader ::
  "('pk, 'h, 'v, 'm) show_env_scheme \<Rightarrow> (bytes \<Rightarrow> upgradeable_loader_instruction option) \<Rightarrow> compiled_instruction \<Rightarrow> 'pk list \<Rightarrow> parsed_instruction_enum parsed" where
  "parse_bpf_upgradeable_loader E deserialize instruction keys =
     parse_with BpfUpgradeableLoader (deserialize (ci_data instruction)) (ci_accounts instruction) keys
       (parse_bpf_upgradeable_loader_instruction E keys (ci_accounts instruction))"

primrec loader_required :: "loader_instruction \<Rightarrow> nat" where
  "loader_required (LdrWrite _ _) = 1"
| "loader_required LdrFinalize = 2"

primrec upgradeable_loader_required :: "upgradeable_loader_instruction \<Rightarrow> nat" where
  "upgradeable_loader_required UpgInitializeBuffer = 1"
| "upgradeable_loader_required (UpgWrite _ _) = 2"
| "upgradeable_loader_required (UpgDeployWithMaxDataLen _) = 8"
| "upgradeable_loader_required UpgUpgrade = 7"
| "upgradeable_loader_required UpgSetAuthority = 2"
| "upgradeable_loader_required UpgSetAuthorityChecked = 3"
| "upgradeable_loader_required UpgClose = 3"
| "upgradeable_loader_required (UpgExtendProgram _) = 2"
| "upgradeable_loader_required UpgMigrate = 3"
| "upgradeable_loader_required (UpgExtendProgramChecked _) = 3"

interpretation upgradeable: instruction_parser BpfUpgradeableLoader "parse_bpf_upgradeable_loader_instruction E" upgradeable_loader_required
  for E :: "('pk, 'h, 'v, 'm) show_env_scheme"
proof
  fix accounts and keys :: "'pk list" and i
  assume ok: "accounts \<noteq> []" "indexes_ok accounts keys"
  then have "0 < length accounts" by simp
  then show "arm_result BpfUpgradeableLoader (upgradeable_loader_required i) accounts (parse_bpf_upgradeable_loader_instruction E keys accounts i)"
    unfolding parse_bpf_upgradeable_loader_instruction_def Let_def
    by (cases i) (auto intro!: panic_intro simp: panic_free ok(2))
qed

lemma parse_bpf_loader_result:
  "(case parse_bpf_loader E deserialize instruction keys of
      None \<Rightarrow> False
    | Some (Inr v) \<Rightarrow> (\<exists>i. deserialize (ci_data instruction) = Some i \<and> loader_required i \<le> length (ci_accounts instruction))
        \<and> ci_accounts instruction \<noteq> [] \<and> unat (hd (ci_accounts instruction)) < length keys
    | Some (Inl e) \<Rightarrow> (deserialize (ci_data instruction) = None \<and> e = InstructionNotParsable BpfLoader)
        \<or> (\<exists>i. deserialize (ci_data instruction) = Some i \<and> e = InstructionKeyMismatch BpfLoader
              \<and> (ci_accounts instruction = [] \<or> length keys \<le> unat (hd (ci_accounts instruction))
                  \<or> length (ci_accounts instruction) < loader_required i)))"
proof (cases "deserialize (ci_data instruction)")
  case None
  then show ?thesis by (simp add: parse_bpf_loader_def Let_def)
next
  case (Some i)
  show ?thesis
  proof (cases "ci_accounts instruction = [] \<or> length keys \<le> unat (hd (ci_accounts instruction))")
    case True
    then show ?thesis using Some by (cases "ci_accounts instruction") (auto simp: parse_bpf_loader_def Let_def)
  next
    case False
    then have A: "account E keys (ci_accounts instruction) 0 \<noteq> None"
      by (cases "ci_accounts instruction") (simp_all add: account_def key_string_def)
    then show ?thesis using Some False
      by (cases i; cases "ci_accounts instruction")
        (auto simp: parse_bpf_loader_def Let_def parse_arm_def check_num_accounts_def json_object_def jnat_def jstr_def Suc_le_eq)
  qed
qed

end
