(* ===== verification/Parse_Tables.thy ===== *)
theory Parse_Tables
  imports Parse_Instruction
begin

section \<open>Lookup table and associated token instructions\<close>

text \<open>
  \<open>parse_address_lookup_table\<close> (\<open>src/transaction-status/src/parse_address_lookup_table.rs\<close>) and
  \<open>parse_associated_token\<close> (\<open>src/transaction-status/src/parse_associated_token.rs\<close>).  The second checks
  the indexes before it decodes, takes empty data as the instruction to create, and reports data it
  cannot decode under the name of the token program.
\<close>

datatype 'pk lookup_table_instruction =
    LkpCreateLookupTable u64 u8
  | LkpFreezeLookupTable
  | LkpExtendLookupTable "'pk list"
  | LkpDeactivateLookupTable
  | LkpCloseLookupTable

definition parse_address_lookup_table_instruction ::
  "('pk, 'h, 'v, 'm) show_env_scheme \<Rightarrow> 'pk list \<Rightarrow> bytes \<Rightarrow> 'pk lookup_table_instruction \<Rightarrow> parsed_instruction_enum parsed" where
  "parse_address_lookup_table_instruction E keys accounts i =
     (let A = account E keys accounts; arm = parse_arm AddressLookupTable accounts
      in case i of
       LkpCreateLookupTable recent_slot bump_seed \<Rightarrow>
       arm 4 ''createLookupTable'' (json_object
         [(''lookupTableAccount'', A 0), (''lookupTableAuthority'', A 1), (''payerAccount'', A 2),
          (''systemProgram'', A 3), (''recentSlot'', jnat (unat recent_slot)), (''bumpSeed'', jnat (unat bump_seed))])
     | LkpFreezeLookupTable \<Rightarrow>
       arm 2 ''freezeLookupTable'' (json_object
         [(''lookupTableAccount'', A 0), (''lookupTableAuthority'', A 1)])
     | LkpExtendLookupTable new_addresses \<Rightarrow>
       arm 2 ''extendLookupTable''
         (let value = json_object
            [(''lookupTableAccount'', A 0), (''lookupTableAuthority'', A 1),
             (''newAddresses'', jarr (map (\<lambda>a. JStr (pubkey_string E a)) new_addresses))]
          in if 4 \<le> length accounts
             then map_insert ''systemProgram'' (A 3) (map_insert ''payerAccount'' (A 2) value)
             else value)
     | LkpDeactivateLookupTable \<Rightarrow>
       arm 2 ''deactivateLookupTable'' (json_object
         [(''lookupTableAccount'', A 0), (''lookupTableAuthority'', A 1)])
     | LkpCloseLookupTable \<Rightarrow>
       arm 3 ''closeLookupTable'' (json_object
         [(''lookupTableAccount'', A 0), (''lookupTableAuthority'', A 1), (''recipient'', A 2)]))"

definition parse_address_lookup_table ::
  "('pk, 'h, 'v, 'm) show_env_scheme \<Rightarrow> (bytes \<Rightarrow> 'pk lookup_table_instruction option) \<Rightarrow> compiled_instruction \<Rightarrow> 'pk list \<Rightarrow> parsed_instruction_enum parsed" where
  "parse_address_lookup_table E deserialize instruction keys =
     parse_with AddressLookupTable (deserialize (ci_data instruction)) (ci_accounts instruction) keys
       (parse_address_lookup_table_instruction E keys (ci_accounts instruction))"

primrec lookup_table_required :: "'pk lookup_table_instruction \<Rightarrow> nat" where
  "lookup_table_required (LkpCreateLookupTable _ _) = 4"
| "lookup_table_required LkpFreezeLookupTable = 2"
| "lookup_table_required (LkpExtendLookupTable _) = 2"
| "lookup_table_required LkpDeactivateLookupTable = 2"
| "lookup_table_required LkpCloseLookupTable = 3"

interpretation lookup_table: instruction_parser AddressLookupTable "parse_address_lookup_table_instruction E" lookup_table_required
  for E :: "('pk, 'h, 'v, 'm) show_env_scheme"
proof
  fix accounts and keys :: "'pk list" and i
  assume ok: "accounts \<noteq> []" "indexes_ok accounts keys"
  then have "0 < length accounts" by simp
  then show "arm_result AddressLookupTable (lookup_table_required i) accounts (parse_address_lookup_table_instruction E keys accounts i)"
    unfolding parse_address_lookup_table_instruction_def Let_def
    by (cases i) (auto intro!: panic_intro simp: panic_free ok(2))
qed

datatype associated_token_instruction =
    AtaCreate
  | AtaCreateIdempotent
  | AtaRecoverNested

definition parse_associated_token_instruction ::
  "('pk, 'h, 'v, 'm) show_env_scheme \<Rightarrow> 'pk list \<Rightarrow> bytes \<Rightarrow> associated_token_instruction \<Rightarrow> parsed_instruction_enum parsed" where
  "parse_associated_token_instruction E keys accounts i =
     (let A = account E keys accounts; arm = parse_arm SplAssociatedTokenAccount accounts
      in case i of
       AtaCreate \<Rightarrow>
       arm 6 ''create'' (json_object
         [(''source'', A 0), (''account'', A 1), (''wallet'', A 2), (''mint'', A 3), (''systemProgram'', A 4),
          (''tokenProgram'', A 5)])
     | AtaCreateIdempotent \<Rightarrow>
       arm 6 ''createIdempotent'' (json_object
         [(''source'', A 0), (''account'', A 1), (''wallet'', A 2), (''mint'', A 3), (''systemProgram'', A 4),
          (''tokenProgram'', A 5)])
     | AtaRecoverNested \<Rightarrow>
       arm 7 ''recoverNested'' (json_object
         [(''nestedSource'', A 0), (''nestedMint'', A 1), (''destination'', A 2), (''nestedOwner'', A 3),
          (''ownerMint'', A 4), (''wallet'', A 5), (''tokenProgram'', A 6)]))"

definition parse_associated_token ::
  "('pk, 'h, 'v, 'm) show_env_scheme \<Rightarrow> (bytes \<Rightarrow> associated_token_instruction option) \<Rightarrow> compiled_instruction \<Rightarrow> 'pk list \<Rightarrow> parsed_instruction_enum parsed" where
  "parse_associated_token E try_from_slice instruction keys =
     bind_step (Some (check_account_indexes (ci_accounts instruction) keys SplAssociatedTokenAccount)) (\<lambda>_.
     bind_step (Some (if ci_data instruction = [] then Inr AtaCreate
                      else ok_or (try_from_slice (ci_data instruction)) (InstructionNotParsable SplToken))) (\<lambda>i.
     parse_associated_token_instruction E keys (ci_accounts instruction) i))"

primrec associated_token_required :: "associated_token_instruction \<Rightarrow> nat" where
  "associated_token_required AtaCreate = 6"
| "associated_token_required AtaCreateIdempotent = 6"
| "associated_token_required AtaRecoverNested = 7"

interpretation associated_token: instruction_parser SplAssociatedTokenAccount "parse_associated_token_instruction E" associated_token_required
  for E :: "('pk, 'h, 'v, 'm) show_env_scheme"
proof
  fix accounts and keys :: "'pk list" and i
  assume ok: "accounts \<noteq> []" "indexes_ok accounts keys"
  then have "0 < length accounts" by simp
  then show "arm_result SplAssociatedTokenAccount (associated_token_required i) accounts (parse_associated_token_instruction E keys accounts i)"
    unfolding parse_associated_token_instruction_def Let_def
    by (cases i) (auto intro!: panic_intro simp: panic_free ok(2))
qed

lemma parse_associated_token_result:
  "(case parse_associated_token E try_from_slice instruction keys of
      None \<Rightarrow> False
    | Some (Inr v) \<Rightarrow> ci_accounts instruction \<noteq> [] \<and> indexes_ok (ci_accounts instruction) keys
        \<and> (ci_data instruction = [] \<or> try_from_slice (ci_data instruction) \<noteq> None)
        \<and> 6 \<le> length (ci_accounts instruction)
    | Some (Inl e) \<Rightarrow> e = InstructionKeyMismatch SplAssociatedTokenAccount
        \<or> e = InstructionNotParsable SplToken \<and> ci_data instruction \<noteq> [] \<and> try_from_slice (ci_data instruction) = None)"
proof (cases "ci_accounts instruction \<noteq> [] \<and> indexes_ok (ci_accounts instruction) keys")
  case False
  then have "check_account_indexes (ci_accounts instruction) keys SplAssociatedTokenAccount
      = Inl (InstructionKeyMismatch SplAssociatedTokenAccount)"
    by (auto simp: check_account_indexes_cases)
  then show ?thesis by (simp add: parse_associated_token_def)
next
  case True
  let ?d = "if ci_data instruction = [] then Inr AtaCreate
      else ok_or (try_from_slice (ci_data instruction)) (InstructionNotParsable SplToken)"
  have eq: "parse_associated_token E try_from_slice instruction keys =
      bind_step (Some ?d) (parse_associated_token_instruction E keys (ci_accounts instruction))"
    using True by (simp add: parse_associated_token_def check_account_indexes_cases)
  show ?thesis
  proof (cases ?d)
    case (Inl e)
    then show ?thesis by (auto simp: eq result_simps split: if_splits)
  next
    case (Inr i)
    have "6 \<le> associated_token_required i" by (cases i) simp_all
    moreover have "arm_result SplAssociatedTokenAccount (associated_token_required i) (ci_accounts instruction)
        (parse_associated_token_instruction E keys (ci_accounts instruction) i)"
      using True by (blast intro: associated_token.body_result)
    ultimately show ?thesis
      using Inr True by (auto simp: eq arm_result_def result_simps split: option.splits sum.splits if_splits)
  qed
qed

end
