(* ===== verification/Parse_Token_Ext.thy ===== *)
theory Parse_Token_Ext
  imports Parse_Instruction
begin

section \<open>Token instructions: the extensions\<close>

text \<open>
  The parsers of the token extensions, \<open>src/transaction-status/src/parse_token/extension\<close>: one
  definition for each file.  They are given the accounts of an instruction whose indexes are all in
  range, decode the rest of the data and name the accounts; a proof may be in an account of the
  instruction, so that the position of the owner depends on the number of accounts and on the
  offsets of the proofs.

  The decoders are third-party code, the fields \<open>decode_*\<close> of \<open>token_env\<close>.  One gives the kind of an
  instruction (\<open>decode_instruction_type\<close>) and, for a kind with data, whether they decode and to what
  (\<open>decode_instruction_data\<close>).  Keys and ciphertexts of the encryption are of the type \<open>'c\<close>.
\<close>

subsection \<open>Instructions of the extensions\<close>

datatype account_state = Uninitialized | Initialized | Frozen

datatype extension_switch = ExtEnable | ExtDisable

datatype 'pk pointer_message =
  \<comment> \<open>group pointer, group member pointer, metadata pointer, transfer hook: authority and address\<close>
    PtrInitialize "('pk option \<times> 'pk option) option"
  | PtrUpdate "'pk option option"

datatype default_account_state_instruction = DasInitialize | DasUpdate

datatype 'pk interest_bearing_mint_instruction =
    IbInitialize "('pk option \<times> int) option"
  | IbUpdateRate "int option"

datatype 'pk scaled_ui_amount_instruction =
    SuInitialize "('pk option \<times> f64) option"
  | SuUpdateMultiplier "(f64 \<times> int) option"

datatype 'pk pausable_instruction = PaInitialize "'pk option option" | PaPause | PaResume

datatype 'pk transfer_fee_instruction =
    TfInitializeTransferFeeConfig "'pk option" "'pk option" u16 u64
  | TfTransferCheckedWithFee u64 u8 u64
  | TfWithdrawWithheldTokensFromMint
  | TfWithdrawWithheldTokensFromAccounts u8
  | TfHarvestWithheldTokensToMint
  | TfSetTransferFee u16 u64

datatype (plugins only: code) ('pk, 'c) confidential_transfer_instruction =
    CtInitializeMint "(bool \<times> 'c option \<times> 'pk option) option"
  | CtUpdateMint "(bool \<times> 'c option) option"
  | CtConfigureAccount "('c \<times> u64 \<times> int) option"
  | CtApproveAccount
  | CtEmptyAccount "int option"
  | CtDeposit "(u64 \<times> u8) option"
  | CtWithdraw "(u64 \<times> u8 \<times> 'c \<times> int \<times> int) option"
  | CtTransfer "('c \<times> int \<times> int \<times> int) option"
  | CtTransferWithFee "('c \<times> int \<times> int \<times> int \<times> int \<times> int) option"
  | CtApplyPendingBalance "('c \<times> u64) option"
  | CtEnableConfidentialCredits
  | CtDisableConfidentialCredits
  | CtEnableNonConfidentialCredits
  | CtDisableNonConfidentialCredits
  | CtConfigureAccountWithRegistry

datatype ('pk, 'c) confidential_transfer_fee_instruction =
    CfInitializeConfidentialTransferFeeConfig "('c option \<times> 'pk option) option"
  | CfWithdrawWithheldTokensFromMint "(int \<times> 'c) option"
  | CfWithdrawWithheldTokensFromAccounts "(u8 \<times> int \<times> 'c) option"
  | CfHarvestWithheldTokensToMint
  | CfEnableHarvestToMint
  | CfDisableHarvestToMint

datatype 'c confidential_mint_burn_instruction =
    CmInitializeMint "('c \<times> 'c) option"
  | CmUpdateDecryptableSupply "'c option"
  | CmRotateSupplyElGamalPubkey "('c \<times> int) option"
  | CmMint "('c \<times> int \<times> int \<times> int) option"
  | CmBurn "('c \<times> int \<times> int \<times> int) option"
  | CmApplyPendingBurn

datatype 'pk token_group_instruction =
    GrpInitializeGroup u64 "'pk option"
  | GrpUpdateGroupMaxSize u64
  | GrpUpdateGroupAuthority "'pk option"
  | GrpInitializeMember

datatype metadata_field = FieldName | FieldSymbol | FieldUri | FieldKey string

datatype 'pk token_metadata_instruction =
    MdInitialize string string string
  | MdUpdateField metadata_field string
  | MdRemoveKey string bool
  | MdUpdateAuthority "'pk option"
  | MdEmit "u64 option" "u64 option"

record ('pk, 'h, 'v, 'c) token_env = "('pk, 'h, 'v) show_env" +
  pod_string :: "'c \<Rightarrow> string"
  f64_string :: "f64 \<Rightarrow> string"
  decode_cpi_guard :: "bytes \<Rightarrow> extension_switch option"
  decode_memo_transfer :: "bytes \<Rightarrow> extension_switch option"
  decode_default_account_state :: "bytes \<Rightarrow> (default_account_state_instruction \<times> account_state) option"
  decode_group_pointer :: "bytes \<Rightarrow> 'pk pointer_message option"
  decode_group_member_pointer :: "bytes \<Rightarrow> 'pk pointer_message option"
  decode_metadata_pointer :: "bytes \<Rightarrow> 'pk pointer_message option"
  decode_transfer_hook :: "bytes \<Rightarrow> 'pk pointer_message option"
  decode_interest_bearing_mint :: "bytes \<Rightarrow> 'pk interest_bearing_mint_instruction option"
  decode_scaled_ui_amount :: "bytes \<Rightarrow> 'pk scaled_ui_amount_instruction option"
  decode_pausable :: "bytes \<Rightarrow> 'pk pausable_instruction option"
  decode_transfer_fee :: "bytes \<Rightarrow> 'pk transfer_fee_instruction option"
  decode_confidential_transfer :: "bytes \<Rightarrow> ('pk, 'c) confidential_transfer_instruction option"
  decode_confidential_transfer_fee :: "bytes \<Rightarrow> ('pk, 'c) confidential_transfer_fee_instruction option"
  decode_confidential_mint_burn :: "bytes \<Rightarrow> 'c confidential_mint_burn_instruction option"
  decode_token_group :: "bytes \<Rightarrow> 'pk token_group_instruction option"
  decode_token_metadata :: "bytes \<Rightarrow> 'pk token_metadata_instruction option"

subsection \<open>Frames of the arms\<close>

abbreviation token_not_parsable :: parse_error where
  "token_not_parsable \<equiv> InstructionNotParsable SplToken"

abbreviation token_key_mismatch :: parse_error where
  "token_key_mismatch \<equiv> InstructionKeyMismatch SplToken"

definition decoded :: "'i option \<Rightarrow> ('i \<Rightarrow> parsed_instruction_enum parsed) \<Rightarrow> parsed_instruction_enum parsed" where
  \<comment> \<open>\<open>decode(..).map_err(|_| InstructionNotParsable(SplToken))?\<close>\<close>
  "decoded d f = bind_step (Some (ok_or d token_not_parsable)) f"

definition token_arm :: "bytes \<Rightarrow> nat \<Rightarrow> string \<Rightarrow> json option \<Rightarrow> parsed_instruction_enum parsed" where
  \<comment> \<open>\<open>check_num_token_accounts\<close>, then the type and the information\<close>
  "token_arm = parse_arm SplToken"

definition parsed_info :: "string \<Rightarrow> json option \<Rightarrow> parsed_instruction_enum parsed" where
  \<comment> \<open>\<open>Ok(ParsedInstructionEnum { instruction_type, info })\<close>\<close>
  "parsed_info ty value = expect (map_option (\<lambda>v. \<lparr>instruction_type = ty, info = v\<rparr>) value)"

definition token_data_arm ::
  "bytes \<Rightarrow> nat \<Rightarrow> string \<Rightarrow> 'd option \<Rightarrow> ('d \<Rightarrow> json option) \<Rightarrow> parsed_instruction_enum parsed" where
  \<comment> \<open>the number of accounts is checked before the data are decoded\<close>
  "token_data_arm accounts num ty d f =
     bind_step (Some (check_num_accounts accounts num SplToken)) (\<lambda>_.
     decoded d (\<lambda>x. parsed_info ty (f x)))"

definition pubkey_value :: "('pk, 'h, 'v, 'm) show_env_scheme \<Rightarrow> 'pk \<Rightarrow> json option" where
  "pubkey_value E k = jstr (pubkey_string E k)"

definition pod_value :: "('pk, 'h, 'v, 'c, 'm) token_env_scheme \<Rightarrow> 'c \<Rightarrow> json option" where
  "pod_value E c = jstr (pod_string E c)"

definition token_amount_value :: "u64 \<Rightarrow> u8 \<Rightarrow> json option" where
  \<comment> \<open>\<open>token_amount_to_ui_amount_v3(amount, &SplTokenAdditionalDataV2::with_decimals(decimals))\<close>\<close>
  "token_amount_value a dec = Some (ui_token_amount_value (plain_ui_amount a dec))"

definition skipped_keys :: "('pk, 'h, 'v, 'm) show_env_scheme \<Rightarrow> 'pk list \<Rightarrow> bytes \<Rightarrow> nat \<Rightarrow> json option" where
  \<comment> \<open>\<open>for i in account_indexes.iter().skip(n)\<close>\<close>
  "skipped_keys E keys accounts n =
     map_option (\<lambda>ss. JArr (map JStr ss)) (collect_somes (map (key_string E keys) (drop n accounts)))"

subsection \<open>Accounts of proofs\<close>

type_synonym proof_state = "nat \<times> json option"
  \<comment> \<open>the running \<open>offset\<close> and the information so far\<close>

definition proof_account ::
  "('pk, 'h, 'v, 'm) show_env_scheme \<Rightarrow> 'pk list \<Rightarrow> bytes \<Rightarrow> bool \<Rightarrow> string \<Rightarrow> proof_state \<Rightarrow> proof_state" where
  \<comment> \<open>\<open>if offset < account_indexes.len() - 1 && cond { map.insert(label, account offset); offset += 1 }\<close>\<close>
  "proof_account E keys accounts cond label = (\<lambda>(offset, value).
     if offset < length accounts - 1 \<and> cond
     then (offset + 1, map_insert label (account E keys accounts offset) value) else (offset, value))"

definition proof_label :: "string \<Rightarrow> int \<Rightarrow> string" where
  "proof_label name proof_offset = name @ (if proof_offset = 0 then ''ContextStateAccount'' else ''RecordAccount'')"

definition labelled_proof ::
  "('pk, 'h, 'v, 'm) show_env_scheme \<Rightarrow> 'pk list \<Rightarrow> bytes \<Rightarrow> string \<Rightarrow> int \<Rightarrow> proof_state \<Rightarrow> proof_state" where
  "labelled_proof E keys accounts name proof_offset =
     proof_account E keys accounts True (proof_label name proof_offset)"

definition sysvar_or_context ::
  "('pk, 'h, 'v, 'm) show_env_scheme \<Rightarrow> 'pk list \<Rightarrow> bytes \<Rightarrow> nat \<Rightarrow> nat \<Rightarrow> int \<Rightarrow> string \<Rightarrow> json option \<Rightarrow> proof_state" where
  \<comment> \<open>an instruction with one proof: the account at \<open>i\<close> is the context state or the sysvar, and with more
      than \<open>i + 2\<close> of \<open>n\<close> accounts the next one is taken as the record\<close>
  "sysvar_or_context E keys accounts n i proof_offset label value =
     (if proof_offset = 0 then (i + 1, map_insert ''proofContextStateAccount'' (account E keys accounts i) value)
      else let v = map_insert ''instructionsSysvar'' (account E keys accounts i) value
           in if i + 2 < n then (i + 2, map_insert label (account E keys accounts (i + 1)) v) else (i + 1, v))"

definition signers_at ::
  "('pk, 'h, 'v, 'm) show_env_scheme \<Rightarrow> 'pk list \<Rightarrow> bytes \<Rightarrow> string \<Rightarrow> string \<Rightarrow> proof_state \<Rightarrow> json option" where
  "signers_at E keys accounts owner multisig = (\<lambda>(offset, value). parse_signers E offset keys accounts owner multisig value)"

subsection \<open>Switches and pointers\<close>

definition switch_instruction ::
  "('pk, 'h, 'v, 'c, 'm) token_env_scheme \<Rightarrow> extension_switch option \<Rightarrow> string \<Rightarrow> bytes \<Rightarrow> 'pk list \<Rightarrow> parsed_instruction_enum parsed" where
  \<comment> \<open>the body that the parsers of the two switches share: the type is \<open>enable\<close> or \<open>disable\<close> and the name\<close>
  "switch_instruction E d name accounts keys =
     bind_step (Some (check_num_accounts accounts 2 SplToken)) (\<lambda>_.
     decoded d (\<lambda>i.
       parsed_info ((case i of ExtEnable \<Rightarrow> ''enable'' | ExtDisable \<Rightarrow> ''disable'') @ name)
         (parse_signers E 1 keys accounts ''owner'' ''multisigOwner''
           (json_object [(''account'', account E keys accounts 0)]))))"

definition parse_cpi_guard_instruction ::
  "('pk, 'h, 'v, 'c, 'm) token_env_scheme \<Rightarrow> bytes \<Rightarrow> bytes \<Rightarrow> 'pk list \<Rightarrow> parsed_instruction_enum parsed" where
  "parse_cpi_guard_instruction E d = switch_instruction E (decode_cpi_guard E d) ''CpiGuard''"

definition parse_memo_transfer_instruction ::
  "('pk, 'h, 'v, 'c, 'm) token_env_scheme \<Rightarrow> bytes \<Rightarrow> bytes \<Rightarrow> 'pk list \<Rightarrow> parsed_instruction_enum parsed" where
  "parse_memo_transfer_instruction E d = switch_instruction E (decode_memo_transfer E d) ''RequiredMemoTransfers''"

definition pointer_instruction ::
  "('pk, 'h, 'v, 'c, 'm) token_env_scheme \<Rightarrow> 'pk pointer_message option \<Rightarrow> string \<Rightarrow> string \<Rightarrow> bytes \<Rightarrow> 'pk list \<Rightarrow>
     parsed_instruction_enum parsed" where
  \<comment> \<open>the body that the parsers of the three pointers and of the transfer hook share\<close>
  "pointer_instruction E d name field accounts keys =
     (let A = account E keys accounts; P = pubkey_value E
      in decoded d (\<lambda>i. case i of
       PtrInitialize data \<Rightarrow>
         token_data_arm accounts 1 (''initialize'' @ name) data (\<lambda>(authority, address).
           insert_some field P address (insert_some ''authority'' P authority (json_object [(''mint'', A 0)])))
     | PtrUpdate data \<Rightarrow>
         token_data_arm accounts 2 (''update'' @ name) data (\<lambda>address.
           parse_signers E 1 keys accounts ''authority'' ''multisigAuthority''
             (insert_some field P address (json_object [(''mint'', A 0)])))))"

definition parse_group_pointer_instruction ::
  "('pk, 'h, 'v, 'c, 'm) token_env_scheme \<Rightarrow> bytes \<Rightarrow> bytes \<Rightarrow> 'pk list \<Rightarrow> parsed_instruction_enum parsed" where
  "parse_group_pointer_instruction E d = pointer_instruction E (decode_group_pointer E d) ''GroupPointer'' ''groupAddress''"

definition parse_group_member_pointer_instruction ::
  "('pk, 'h, 'v, 'c, 'm) token_env_scheme \<Rightarrow> bytes \<Rightarrow> bytes \<Rightarrow> 'pk list \<Rightarrow> parsed_instruction_enum parsed" where
  "parse_group_member_pointer_instruction E d =
     pointer_instruction E (decode_group_member_pointer E d) ''GroupMemberPointer'' ''memberAddress''"

definition parse_metadata_pointer_instruction ::
  "('pk, 'h, 'v, 'c, 'm) token_env_scheme \<Rightarrow> bytes \<Rightarrow> bytes \<Rightarrow> 'pk list \<Rightarrow> parsed_instruction_enum parsed" where
  "parse_metadata_pointer_instruction E d =
     pointer_instruction E (decode_metadata_pointer E d) ''MetadataPointer'' ''metadataAddress''"

definition parse_transfer_hook_instruction ::
  "('pk, 'h, 'v, 'c, 'm) token_env_scheme \<Rightarrow> bytes \<Rightarrow> bytes \<Rightarrow> 'pk list \<Rightarrow> parsed_instruction_enum parsed" where
  "parse_transfer_hook_instruction E d =
     pointer_instruction E (decode_transfer_hook E d) ''TransferHook'' ''programId''"

subsection \<open>Configuration of mints\<close>

primrec convert_account_state :: "account_state \<Rightarrow> string" where
  \<comment> \<open>the value that \<open>UiAccountState\<close> is serialized as\<close>
  "convert_account_state Uninitialized = ''uninitialized''"
| "convert_account_state Initialized = ''initialized''"
| "convert_account_state Frozen = ''frozen''"

definition parse_default_account_state_instruction ::
  "('pk, 'h, 'v, 'c, 'm) token_env_scheme \<Rightarrow> bytes \<Rightarrow> bytes \<Rightarrow> 'pk list \<Rightarrow> parsed_instruction_enum parsed" where
  "parse_default_account_state_instruction E d accounts keys =
     (let A = account E keys accounts
      in decoded (decode_default_account_state E d) (\<lambda>(i, state). case i of
       DasInitialize \<Rightarrow>
         token_arm accounts 1 ''initializeDefaultAccountState''
           (json_object [(''mint'', A 0), (''accountState'', jstr (convert_account_state state))])
     | DasUpdate \<Rightarrow>
         token_arm accounts 2 ''updateDefaultAccountState''
           (parse_signers E 1 keys accounts ''freezeAuthority'' ''multisigFreezeAuthority''
             (json_object [(''mint'', A 0), (''accountState'', jstr (convert_account_state state))]))))"

definition parse_interest_bearing_mint_instruction ::
  "('pk, 'h, 'v, 'c, 'm) token_env_scheme \<Rightarrow> bytes \<Rightarrow> bytes \<Rightarrow> 'pk list \<Rightarrow> parsed_instruction_enum parsed" where
  "parse_interest_bearing_mint_instruction E d accounts keys =
     (let A = account E keys accounts
      in decoded (decode_interest_bearing_mint E d) (\<lambda>i. case i of
       IbInitialize data \<Rightarrow>
         token_data_arm accounts 1 ''initializeInterestBearingConfig'' data (\<lambda>(rate_authority, rate).
           json_object [(''mint'', A 0), (''rateAuthority'', jopt (pubkey_value E) rate_authority), (''rate'', jint rate)])
     | IbUpdateRate data \<Rightarrow>
         token_data_arm accounts 2 ''updateInterestBearingConfigRate'' data (\<lambda>new_rate.
           parse_signers E 1 keys accounts ''rateAuthority'' ''multisigRateAuthority''
             (json_object [(''mint'', A 0), (''newRate'', jint new_rate)]))))"

definition parse_scaled_ui_amount_instruction ::
  "('pk, 'h, 'v, 'c, 'm) token_env_scheme \<Rightarrow> bytes \<Rightarrow> bytes \<Rightarrow> 'pk list \<Rightarrow> parsed_instruction_enum parsed" where
  "parse_scaled_ui_amount_instruction E d accounts keys =
     (let A = account E keys accounts
      in decoded (decode_scaled_ui_amount E d) (\<lambda>i. case i of
       SuInitialize data \<Rightarrow>
         token_data_arm accounts 1 ''initializeScaledUiAmountConfig'' data (\<lambda>(authority, multiplier).
           json_object [(''mint'', A 0), (''authority'', jopt (pubkey_value E) authority),
                        (''multiplier'', jstr (f64_string E multiplier))])
     | SuUpdateMultiplier data \<Rightarrow>
         token_data_arm accounts 2 ''updateMultiplier'' data (\<lambda>(multiplier, effective_timestamp).
           parse_signers E 1 keys accounts ''authority'' ''multisigAuthority''
             (json_object [(''mint'', A 0), (''newMultiplier'', jstr (f64_string E multiplier)),
                           (''newMultiplierTimestamp'', jint effective_timestamp)]))))"

definition parse_pausable_instruction ::
  "('pk, 'h, 'v, 'c, 'm) token_env_scheme \<Rightarrow> bytes \<Rightarrow> bytes \<Rightarrow> 'pk list \<Rightarrow> parsed_instruction_enum parsed" where
  "parse_pausable_instruction E d accounts keys =
     (let A = account E keys accounts
      in decoded (decode_pausable E d) (\<lambda>i. case i of
       PaInitialize data \<Rightarrow>
         token_data_arm accounts 1 ''initializePausableConfig'' data (\<lambda>authority.
           json_object [(''mint'', A 0), (''authority'', jopt (pubkey_value E) authority)])
     | PaPause \<Rightarrow>
         token_arm accounts 2 ''pause''
           (parse_signers E 1 keys accounts ''authority'' ''multisigAuthority'' (json_object [(''mint'', A 0)]))
     | PaResume \<Rightarrow>
         token_arm accounts 2 ''resume''
           (parse_signers E 1 keys accounts ''authority'' ''multisigAuthority'' (json_object [(''mint'', A 0)]))))"

definition parse_initialize_mint_close_authority_instruction ::
  "('pk, 'h, 'v, 'm) show_env_scheme \<Rightarrow> 'pk option \<Rightarrow> bytes \<Rightarrow> 'pk list \<Rightarrow> parsed_instruction_enum parsed" where
  "parse_initialize_mint_close_authority_instruction E close_authority accounts keys =
     token_arm accounts 1 ''initializeMintCloseAuthority''
       (json_object [(''mint'', account E keys accounts 0), (''newAuthority'', jopt (pubkey_value E) close_authority)])"

definition parse_initialize_permanent_delegate_instruction ::
  "('pk, 'h, 'v, 'm) show_env_scheme \<Rightarrow> 'pk \<Rightarrow> bytes \<Rightarrow> 'pk list \<Rightarrow> parsed_instruction_enum parsed" where
  "parse_initialize_permanent_delegate_instruction E delegate accounts keys =
     token_arm accounts 1 ''initializePermanentDelegate''
       (json_object [(''mint'', account E keys accounts 0), (''delegate'', pubkey_value E delegate)])"

subsection \<open>Transfer fees\<close>

definition parse_transfer_fee_instruction ::
  "('pk, 'h, 'v, 'c, 'm) token_env_scheme \<Rightarrow> bytes \<Rightarrow> bytes \<Rightarrow> 'pk list \<Rightarrow> parsed_instruction_enum parsed" where
  "parse_transfer_fee_instruction E d accounts keys =
     (let A = account E keys accounts; P = pubkey_value E; S = parse_signers E
      in decoded (decode_transfer_fee E d) (\<lambda>i. case i of
       TfInitializeTransferFeeConfig config_authority withdraw_authority basis_points maximum_fee \<Rightarrow>
         token_arm accounts 1 ''initializeTransferFeeConfig''
           (insert_some ''withdrawWithheldAuthority'' P withdraw_authority
             (insert_some ''transferFeeConfigAuthority'' P config_authority
               (json_object [(''mint'', A 0), (''transferFeeBasisPoints'', jnat (unat basis_points)),
                             (''maximumFee'', jnat (unat maximum_fee))])))
     | TfTransferCheckedWithFee amt dec fee \<Rightarrow>
         token_arm accounts 4 ''transferCheckedWithFee''
           (S 3 keys accounts ''authority'' ''multisigAuthority''
             (json_object [(''source'', A 0), (''mint'', A 1), (''destination'', A 2),
                           (''tokenAmount'', token_amount_value amt dec),
                           (''feeAmount'', token_amount_value fee dec)]))
     | TfWithdrawWithheldTokensFromMint \<Rightarrow>
         token_arm accounts 3 ''withdrawWithheldTokensFromMint''
           (S 2 keys accounts ''withdrawWithheldAuthority'' ''multisigWithdrawWithheldAuthority''
             (json_object [(''mint'', A 0), (''feeRecipient'', A 1)]))
     | TfWithdrawWithheldTokensFromAccounts num_token_accounts \<Rightarrow>
         (let first_source = length accounts - unat num_token_accounts
          in token_arm accounts (3 + unat num_token_accounts) ''withdrawWithheldTokensFromAccounts''
           (S 2 keys (take first_source accounts) ''withdrawWithheldAuthority'' ''multisigWithdrawWithheldAuthority''
             (map_insert ''sourceAccounts'' (signer_strings E keys accounts first_source)
               (json_object [(''mint'', A 0), (''feeRecipient'', A 1)]))))
     | TfHarvestWithheldTokensToMint \<Rightarrow>
         token_arm accounts 1 ''harvestWithheldTokensToMint''
           (map_insert ''sourceAccounts'' (skipped_keys E keys accounts 1) (json_object [(''mint'', A 0)]))
     | TfSetTransferFee basis_points maximum_fee \<Rightarrow>
         token_arm accounts 2 ''setTransferFee''
           (S 1 keys accounts ''transferFeeConfigAuthority'' ''multisigtransferFeeConfigAuthority''
             (json_object [(''mint'', A 0), (''transferFeeBasisPoints'', jnat (unat basis_points)),
                           (''maximumFee'', jnat (unat maximum_fee))]))))"

subsection \<open>Confidential transfers\<close>

definition parse_confidential_transfer_instruction ::
  "('pk, 'h, 'v, 'c, 'm) token_env_scheme \<Rightarrow> bytes \<Rightarrow> bytes \<Rightarrow> 'pk list \<Rightarrow> parsed_instruction_enum parsed" where
  "parse_confidential_transfer_instruction E d accounts keys =
     (let A = account E keys accounts; P = pubkey_value E; C = pod_value E; arm = token_arm accounts;
          owner = signers_at E keys accounts ''owner'' ''multisigOwner'';
          sysvar = (\<lambda>offsets. proof_account E keys accounts (\<exists>x \<in> set offsets. x \<noteq> 0) ''instructionsSysvar'');
          proof_of = labelled_proof E keys accounts
      in decoded (decode_confidential_transfer E d) (\<lambda>i. case i of
       CtInitializeMint data \<Rightarrow>
         token_data_arm accounts 1 ''initializeConfidentialTransferMint'' data (\<lambda>(auto_approve, auditor, authority).
           insert_some ''authority'' P authority
             (json_object [(''mint'', A 0), (''autoApproveNewAccounts'', jbool auto_approve),
                           (''auditorElGamalPubkey'', jopt C auditor)]))
     | CtUpdateMint data \<Rightarrow>
         token_data_arm accounts 2 ''updateConfidentialTransferMint'' data (\<lambda>(auto_approve, auditor).
           json_object [(''mint'', A 0), (''confidentialTransferMintAuthority'', A 1),
                        (''autoApproveNewAccounts'', jbool auto_approve), (''auditorElGamalPubkey'', jopt C auditor)])
     | CtConfigureAccount data \<Rightarrow>
         token_data_arm accounts 4 ''configureConfidentialTransferAccount'' data (\<lambda>(zero_balance, maximum, off).
           owner (sysvar_or_context E keys accounts (length accounts) 2 off ''recordAccount''
             (json_object [(''account'', A 0), (''mint'', A 1), (''decryptableZeroBalance'', C zero_balance),
                           (''maximumPendingBalanceCreditCounter'', jnat (unat maximum)),
                           (''proofInstructionOffset'', jint off)])))
     | CtApproveAccount \<Rightarrow>
         arm 3 ''approveConfidentialTransferAccount''
           (json_object [(''account'', A 0), (''mint'', A 1), (''confidentialTransferAuditorAuthority'', A 2)])
     | CtEmptyAccount data \<Rightarrow>
         token_data_arm accounts 3 ''emptyConfidentialTransferAccount'' data (\<lambda>off.
           owner (sysvar_or_context E keys accounts (length accounts) 1 off ''recordAccount''
             (json_object [(''account'', A 0), (''proofInstructionOffset'', jint off)])))
     | CtDeposit data \<Rightarrow>
         token_data_arm accounts 4 ''depositConfidentialTransfer'' data (\<lambda>(amt, dec).
           owner (3, json_object [(''source'', A 0), (''destination'', A 1), (''mint'', A 2),
                                  (''amount'', jnat (unat amt)), (''decimals'', jnat (unat dec))]))
     | CtWithdraw data \<Rightarrow>
         token_data_arm accounts 5 ''withdrawConfidentialTransfer'' data (\<lambda>(amt, dec, balance, equality_off, range_off).
           owner (proof_of ''rangeProof'' range_off (proof_of ''equalityProof'' equality_off (sysvar [equality_off, range_off]
             (3, json_object [(''source'', A 0), (''destination'', A 1), (''mint'', A 2),
                   (''amount'', jnat (unat amt)), (''decimals'', jnat (unat dec)),
                   (''newDecryptableAvailableBalance'', C balance),
                   (''equalityProofInstructionOffset'', jint equality_off),
                   (''rangeProofInstructionOffset'', jint range_off)])))))
     | CtTransfer data \<Rightarrow>
         token_data_arm accounts 4 ''confidentialTransfer'' data (\<lambda>(balance, equality_off, validity_off, range_off).
           owner (proof_of ''rangeProof'' range_off (proof_of ''ciphertextValidityProof'' validity_off
             (proof_of ''equalityProof'' equality_off (sysvar [equality_off, validity_off, range_off]
               (3, json_object [(''source'', A 0), (''mint'', A 1), (''destination'', A 2),
                     (''newSourceDecryptableAvailableBalance'', C balance),
                     (''equalityProofInstructionOffset'', jint equality_off),
                     (''ciphertextValidityProofInstructionOffset'', jint validity_off),
                     (''rangeProofInstructionOffset'', jint range_off)]))))))
     | CtTransferWithFee data \<Rightarrow>
         token_data_arm accounts 4 ''confidentialTransferWithFee'' data
           (\<lambda>(balance, equality_off, amount_validity, fee_sigma, fee_validity, range_off).
           owner (proof_of ''rangeProof'' range_off (proof_of ''feeSigmaProof'' fee_sigma
             (proof_of ''feeCiphertextValidityProof'' fee_validity
             (proof_of ''transferAmountCiphertextValidityProof'' amount_validity
             (proof_of ''equalityProof'' equality_off (sysvar [equality_off, amount_validity, fee_validity, fee_sigma, range_off]
               (3, json_object [(''source'', A 0), (''mint'', A 1), (''destination'', A 2),
                     (''newSourceDecryptableAvailableBalance'', C balance),
                     (''equalityProofInstructionOffset'', jint equality_off),
                     (''transferAmountCiphertextValidityProofInstructionOffset'', jint amount_validity),
                     (''feeCiphertextValidityProofInstructionOffset'', jint fee_validity),
                     (''feeSigmaProofInstructionOffset'', jint fee_sigma),
                     (''rangeProofInstructionOffset'', jint range_off)]))))))))
     | CtApplyPendingBalance data \<Rightarrow>
         token_data_arm accounts 2 ''applyPendingConfidentialTransferBalance'' data (\<lambda>(balance, counter).
           owner (1, json_object [(''account'', A 0), (''newDecryptableAvailableBalance'', C balance),
                                  (''expectedPendingBalanceCreditCounter'', jnat (unat counter))]))
     | CtEnableConfidentialCredits \<Rightarrow>
         arm 2 ''enableConfidentialTransferConfidentialCredits'' (owner (1, json_object [(''account'', A 0)]))
     | CtDisableConfidentialCredits \<Rightarrow>
         arm 2 ''disableConfidentialTransferConfidentialCredits'' (owner (1, json_object [(''account'', A 0)]))
     | CtEnableNonConfidentialCredits \<Rightarrow>
         arm 2 ''enableConfidentialTransferNonConfidentialCredits'' (owner (1, json_object [(''account'', A 0)]))
     | CtDisableNonConfidentialCredits \<Rightarrow>
         arm 2 ''disableConfidentialTransferNonConfidentialCredits'' (owner (1, json_object [(''account'', A 0)]))
     | CtConfigureAccountWithRegistry \<Rightarrow>
         arm 3 ''configureConfidentialAccountWithRegistry''
           (json_object [(''account'', A 0), (''mint'', A 1), (''registry'', A 2)])))"

definition parse_confidential_transfer_fee_instruction ::
  "('pk, 'h, 'v, 'c, 'm) token_env_scheme \<Rightarrow> bytes \<Rightarrow> bytes \<Rightarrow> 'pk list \<Rightarrow> parsed_instruction_enum parsed" where
  "parse_confidential_transfer_fee_instruction E d accounts keys =
     (let A = account E keys accounts; arm = token_arm accounts;
          authority = (\<lambda>as. signers_at E keys as ''withdrawWithheldAuthority'' ''multisigWithdrawWithheldAuthority'');
          owner = signers_at E keys accounts ''owner'' ''multisigOwner''
      in decoded (decode_confidential_transfer_fee E d) (\<lambda>i. case i of
       CfInitializeConfidentialTransferFeeConfig data \<Rightarrow>
         token_data_arm accounts 1 ''initializeConfidentialTransferFeeConfig'' data (\<lambda>(elgamal, auth).
           insert_some ''authority'' (pubkey_value E) auth
             (json_object [(''mint'', A 0), (''withdrawWithheldAuthorityElGamalPubkey'', jopt (pod_value E) elgamal)]))
     | CfWithdrawWithheldTokensFromMint data \<Rightarrow>
         token_data_arm accounts 4 ''withdrawWithheldConfidentialTransferTokensFromMint'' data (\<lambda>(off, balance).
           authority accounts (sysvar_or_context E keys accounts (length accounts) 2 off ''recordAccount''
             (json_object [(''mint'', A 0), (''feeRecipient'', A 1), (''proofInstructionOffset'', jint off),
                           (''newDecryptableAvailableBalance'', pod_value E balance)])))
     | CfWithdrawWithheldTokensFromAccounts data \<Rightarrow>
         decoded data (\<lambda>(num_token_accounts, off, balance).
           let first_source = length accounts - unat num_token_accounts
           in arm (4 + unat num_token_accounts) ''withdrawWithheldConfidentialTransferTokensFromAccounts''
             (let (offset, value) = sysvar_or_context E keys accounts first_source 2 off ''proofAccount''
                (json_object [(''mint'', A 0), (''feeRecipient'', A 1), (''proofInstructionOffset'', jint off),
                              (''newDecryptableAvailableBalance'', pod_value E balance)])
              in authority (take first_source accounts)
                   (offset, map_insert ''sourceAccounts'' (signer_strings E keys accounts first_source) value)))
     | CfHarvestWithheldTokensToMint \<Rightarrow>
         arm 1 ''harvestWithheldConfidentialTransferTokensToMint''
           (map_insert ''sourceAccounts'' (skipped_keys E keys accounts 1) (json_object [(''mint'', A 0)]))
     | CfEnableHarvestToMint \<Rightarrow>
         arm 2 ''enableConfidentialTransferFeeHarvestToMint'' (owner (1, json_object [(''account'', A 0)]))
     | CfDisableHarvestToMint \<Rightarrow>
         arm 2 ''disableConfidentialTransferFeeHarvestToMint'' (owner (1, json_object [(''account'', A 0)]))))"

definition mint_burn_proofs ::
  "('pk, 'h, 'v, 'm) show_env_scheme \<Rightarrow> 'pk list \<Rightarrow> bytes \<Rightarrow> int \<Rightarrow> int \<Rightarrow> int \<Rightarrow> json option \<Rightarrow> json option" where
  \<comment> \<open>the accounts of the proofs and the owner of a confidential mint or burn\<close>
  "mint_burn_proofs E keys accounts equality_off validity_off range_off value =
     signers_at E keys accounts ''owner'' ''multisigOwner''
       (labelled_proof E keys accounts ''rangeProof'' range_off
       (labelled_proof E keys accounts ''ciphertextValidityProof'' validity_off
       (labelled_proof E keys accounts ''equalityProof'' equality_off
       (proof_account E keys accounts (equality_off \<noteq> 0 \<or> validity_off \<noteq> 0 \<or> range_off \<noteq> 0) ''instructionsSysvar'' (2, value)))))"

definition parse_confidential_mint_burn_instruction ::
  "('pk, 'h, 'v, 'c, 'm) token_env_scheme \<Rightarrow> bytes \<Rightarrow> bytes \<Rightarrow> 'pk list \<Rightarrow> parsed_instruction_enum parsed" where
  "parse_confidential_mint_burn_instruction E d accounts keys =
     (let A = account E keys accounts; C = pod_value E; arm = token_arm accounts;
          owner = signers_at E keys accounts ''owner'' ''multisigOwner''
      in decoded (decode_confidential_mint_burn E d) (\<lambda>i. case i of
       CmInitializeMint data \<Rightarrow>
         token_data_arm accounts 1 ''initializeConfidentialMintBurnMint'' data (\<lambda>(elgamal, supply).
           json_object [(''mint'', A 0), (''supplyElGamalPubkey'', C elgamal), (''decryptableSupply'', C supply)])
     | CmUpdateDecryptableSupply data \<Rightarrow>
         token_data_arm accounts 2 ''updateConfidentialMintBurnDecryptableSupply'' data (\<lambda>supply.
           owner (1, json_object [(''mint'', A 0), (''newDecryptableSupply'', C supply)]))
     | CmRotateSupplyElGamalPubkey data \<Rightarrow>
         token_data_arm accounts 3 ''rotateConfidentialMintBurnSupplyElGamalPubkey'' data (\<lambda>(elgamal, off).
           owner (2, map_insert (if off = 0 then ''proofAccount'' else ''instructionsSysvar'') (A 1)
             (json_object [(''mint'', A 0), (''newSupplyElGamalPubkey'', C elgamal), (''proofInstructionOffset'', jint off)])))
     | CmMint data \<Rightarrow>
         token_data_arm accounts 3 ''confidentialMint'' data (\<lambda>(supply, equality_off, validity_off, range_off).
           mint_burn_proofs E keys accounts equality_off validity_off range_off
             (json_object [(''destination'', A 0), (''mint'', A 1), (''newDecryptableSupply'', C supply),
                           (''equalityProofInstructionOffset'', jint equality_off),
                           (''ciphertextValidityProofInstructionOffset'', jint validity_off),
                           (''rangeProofInstructionOffset'', jint range_off)]))
     | CmBurn data \<Rightarrow>
         token_data_arm accounts 3 ''confidentialBurn'' data (\<lambda>(balance, equality_off, validity_off, range_off).
           mint_burn_proofs E keys accounts equality_off validity_off range_off
             (json_object [(''destination'', A 0), (''mint'', A 1), (''newDecryptableAvailableBalance'', C balance),
                           (''equalityProofInstructionOffset'', jint equality_off),
                           (''ciphertextValidityProofInstructionOffset'', jint validity_off),
                           (''rangeProofInstructionOffset'', jint range_off)]))
     | CmApplyPendingBurn \<Rightarrow>
         arm 2 ''applyPendingBurn'' (owner (1, json_object [(''mint'', A 0)]))))"

subsection \<open>Groups and metadata\<close>

definition parse_token_group_instruction ::
  "('pk, 'h, 'v, 'm) show_env_scheme \<Rightarrow> 'pk token_group_instruction \<Rightarrow> bytes \<Rightarrow> 'pk list \<Rightarrow> parsed_instruction_enum parsed" where
  "parse_token_group_instruction E i accounts keys =
     (let A = account E keys accounts; P = pubkey_value E; arm = token_arm accounts
      in case i of
       GrpInitializeGroup max_size update_authority \<Rightarrow>
         arm 3 ''initializeTokenGroup'' (json_object
           [(''group'', A 0), (''maxSize'', jnat (unat max_size)), (''mint'', A 1), (''mintAuthority'', A 2),
            (''updateAuthority'', jopt P update_authority)])
     | GrpUpdateGroupMaxSize max_size \<Rightarrow>
         arm 2 ''updateTokenGroupMaxSize'' (json_object
           [(''group'', A 0), (''maxSize'', jnat (unat max_size)), (''updateAuthority'', A 1)])
     | GrpUpdateGroupAuthority new_authority \<Rightarrow>
         arm 2 ''updateTokenGroupAuthority'' (json_object
           [(''group'', A 0), (''updateAuthority'', A 1), (''newAuthority'', jopt P new_authority)])
     | GrpInitializeMember \<Rightarrow>
         arm 5 ''initializeTokenGroupMember'' (json_object
           [(''member'', A 0), (''memberMint'', A 1), (''memberMintAuthority'', A 2), (''group'', A 3),
            (''groupUpdateAuthority'', A 4)]))"

primrec token_metadata_field_to_string :: "metadata_field \<Rightarrow> string" where
  "token_metadata_field_to_string FieldName = ''name''"
| "token_metadata_field_to_string FieldSymbol = ''symbol''"
| "token_metadata_field_to_string FieldUri = ''uri''"
| "token_metadata_field_to_string (FieldKey key) = key"

definition parse_token_metadata_instruction ::
  "('pk, 'h, 'v, 'm) show_env_scheme \<Rightarrow> 'pk token_metadata_instruction \<Rightarrow> bytes \<Rightarrow> 'pk list \<Rightarrow> parsed_instruction_enum parsed" where
  "parse_token_metadata_instruction E i accounts keys =
     (let A = account E keys accounts; arm = token_arm accounts; U = (\<lambda>n :: u64. jnat (unat n))
      in case i of
       MdInitialize name symbol uri \<Rightarrow>
         arm 4 ''initializeTokenMetadata'' (json_object
           [(''metadata'', A 0), (''updateAuthority'', A 1), (''mint'', A 2), (''mintAuthority'', A 3),
            (''name'', jstr name), (''symbol'', jstr symbol), (''uri'', jstr uri)])
     | MdUpdateField field val \<Rightarrow>
         arm 2 ''updateTokenMetadataField'' (json_object
           [(''metadata'', A 0), (''updateAuthority'', A 1), (''field'', jstr (token_metadata_field_to_string field)),
            (''value'', jstr val)])
     | MdRemoveKey key idempotent \<Rightarrow>
         arm 2 ''removeTokenMetadataKey'' (json_object
           [(''metadata'', A 0), (''updateAuthority'', A 1), (''key'', jstr key), (''idempotent'', jbool idempotent)])
     | MdUpdateAuthority new_authority \<Rightarrow>
         arm 2 ''updateTokenMetadataAuthority'' (json_object
           [(''metadata'', A 0), (''updateAuthority'', A 1), (''newAuthority'', jopt (pubkey_value E) new_authority)])
     | MdEmit start end' \<Rightarrow>
         arm 1 ''emitTokenMetadata''
           (insert_some ''end'' U end' (insert_some ''start'' U start (json_object [(''metadata'', A 0)]))))"

subsection \<open>No panic, and only the errors of the token program\<close>

definition token_safe :: "parsed_instruction_enum parsed \<Rightarrow> bool" where
  "token_safe r \<longleftrightarrow>
     (case r of None \<Rightarrow> False
      | Some (Inl e) \<Rightarrow> e = token_not_parsable \<or> e = token_key_mismatch
      | Some (Inr _) \<Rightarrow> True)"

definition proof_ok :: "bytes \<Rightarrow> proof_state \<Rightarrow> bool" where
  "proof_ok accounts p \<longleftrightarrow> fst p < length accounts \<and> is_object (snd p)"

lemma token_safe_err [panic_intro]: "e = token_not_parsable \<or> e = token_key_mismatch \<Longrightarrow> token_safe (Some (Inl e))"
  by (simp add: token_safe_def)

lemma token_safe_arm [panic_intro]:
  assumes "num \<le> length accounts \<Longrightarrow> is_object value"
  shows "token_safe (token_arm accounts num ty value)"
  using assms by (auto simp: token_safe_def token_arm_def parse_arm_def check_num_accounts_def is_object_def)

lemma token_safe_info [panic_intro]: "is_object value \<Longrightarrow> token_safe (parsed_info ty value)"
  by (auto simp: token_safe_def parsed_info_def is_object_def)

lemma token_safe_decoded [panic_intro]:
  assumes "\<And>x. d = Some x \<Longrightarrow> token_safe (f x)"
  shows "token_safe (decoded d f)"
  using assms by (cases d) (auto simp: decoded_def token_safe_def)

lemma token_safe_data_arm [panic_intro]:
  assumes "\<And>x. num \<le> length accounts \<Longrightarrow> d = Some x \<Longrightarrow> is_object (f x)"
  shows "token_safe (token_data_arm accounts num ty d f)"
proof (cases "num \<le> length accounts")
  case True
  then have "token_data_arm accounts num ty d f = decoded d (\<lambda>x. parsed_info ty (f x))"
    by (simp add: token_data_arm_def check_num_accounts_def)
  then show ?thesis using assms True by (auto intro!: token_safe_decoded token_safe_info)
qed (simp add: token_data_arm_def check_num_accounts_def token_safe_def)

lemma present_token_values [panic_free]:
  "present (pubkey_value E k)" "present (pod_value E' c)" "present (token_amount_value a dec)"
  by (simp_all add: pubkey_value_def pod_value_def token_amount_value_def panic_free)

lemma present_skipped_keys [panic_free]:
  assumes "indexes_ok accounts keys"
  shows "present (skipped_keys E keys accounts n)"
proof -
  have "\<forall>x \<in> set (map (key_string E keys) (drop n accounts)). x \<noteq> None"
    using assms key_string_ok[of accounts keys _ E] by (auto dest!: in_set_dropD)
  from collect_options_not_None[OF this] show ?thesis by (auto simp: skipped_keys_def present_def)
qed

lemma indexes_ok_take [panic_free]: "indexes_ok accounts keys \<Longrightarrow> indexes_ok (take n accounts) keys"
  by (auto simp: indexes_ok_def dest: in_set_takeD)

lemma proof_ok_Pair [panic_free]: "proof_ok accounts (offset, value) \<longleftrightarrow> offset < length accounts \<and> is_object value"
  by (simp add: proof_ok_def)

lemma proof_ok_account [panic_intro]:
  "indexes_ok accounts keys \<Longrightarrow> proof_ok accounts p \<Longrightarrow> proof_ok accounts (proof_account E keys accounts cond label p)"
  by (cases p) (auto simp: proof_account_def proof_ok_def panic_free)

lemma proof_ok_labelled [panic_intro]:
  "indexes_ok accounts keys \<Longrightarrow> proof_ok accounts p \<Longrightarrow> proof_ok accounts (labelled_proof E keys accounts name off p)"
  by (simp add: labelled_proof_def proof_ok_account)

lemma proof_ok_sysvar [panic_intro]:
  assumes "indexes_ok accounts keys" "i + 1 < n" "n \<le> length accounts" "is_object value"
  shows "proof_ok (take n accounts) (sysvar_or_context E keys accounts n i off label value)"
  using assms by (auto simp: sysvar_or_context_def proof_ok_def panic_free Let_def)

lemma is_object_signers_at [panic_intro]:
  "indexes_ok accounts keys \<Longrightarrow> proof_ok accounts p \<Longrightarrow> is_object (signers_at E keys accounts owner multisig p)"
  by (cases p) (simp add: signers_at_def proof_ok_def panic_free)

lemma proof_ok_sysvar_all [panic_intro]:
  "indexes_ok accounts keys \<Longrightarrow> i + 1 < length accounts \<Longrightarrow> is_object value \<Longrightarrow>
     proof_ok accounts (sysvar_or_context E keys accounts (length accounts) i off label value)"
  using proof_ok_sysvar[of accounts keys i "length accounts" "value" E off label] by simp

lemma is_object_mint_burn_proofs [panic_intro]:
  "indexes_ok accounts keys \<Longrightarrow> 2 < length accounts \<Longrightarrow> is_object value \<Longrightarrow>
     is_object (mint_burn_proofs E keys accounts equality validity range_off value)"
  unfolding mint_burn_proofs_def by (auto intro!: panic_intro simp: panic_free)

lemma switch_instruction_safe: "accounts \<noteq> [] \<Longrightarrow> indexes_ok accounts keys \<Longrightarrow> token_safe (switch_instruction E d name accounts keys)"
  unfolding switch_instruction_def
  by (cases "length accounts < 2") (auto intro!: panic_intro simp: panic_free check_num_accounts_def)

lemma pointer_instruction_safe: "accounts \<noteq> [] \<Longrightarrow> indexes_ok accounts keys \<Longrightarrow> token_safe (pointer_instruction E d name field accounts keys)"
  unfolding pointer_instruction_def Let_def
  by (auto intro!: panic_intro simp: panic_free split: pointer_message.split)

lemma confidential_transfer_fee_accounts_safe:
  assumes "indexes_ok accounts keys" "4 + unat n \<le> length accounts" "is_object value"
  shows "is_object (case sysvar_or_context E keys accounts (length accounts - unat n) 2 off label value of
     (offset, v) \<Rightarrow> signers_at E keys (take (length accounts - unat n) accounts) owner multisig
       (offset, map_insert k (signer_strings E keys accounts (length accounts - unat n)) v))"
proof -
  let ?p = "sysvar_or_context E keys accounts (length accounts - unat n) 2 off label value"
  have "proof_ok (take (length accounts - unat n) accounts) ?p" using assms by (intro proof_ok_sysvar) auto
  then show ?thesis
    using assms by (cases ?p) (auto intro!: is_object_signers_at simp: panic_free)
qed

text \<open>Every parser of an extension is safe, for any data, on accounts whose indexes are in range_off.\<close>

lemma parse_default_account_state_instruction_safe: "accounts \<noteq> [] \<Longrightarrow> indexes_ok accounts keys \<Longrightarrow> token_safe (parse_default_account_state_instruction E d accounts keys)"
  unfolding parse_default_account_state_instruction_def Let_def
  by (auto intro!: panic_intro confidential_transfer_fee_accounts_safe simp: panic_free split: default_account_state_instruction.split)

lemma parse_interest_bearing_mint_instruction_safe: "accounts \<noteq> [] \<Longrightarrow> indexes_ok accounts keys \<Longrightarrow> token_safe (parse_interest_bearing_mint_instruction E d accounts keys)"
  unfolding parse_interest_bearing_mint_instruction_def Let_def
  by (auto intro!: panic_intro confidential_transfer_fee_accounts_safe simp: panic_free split: interest_bearing_mint_instruction.split)

lemma parse_scaled_ui_amount_instruction_safe: "accounts \<noteq> [] \<Longrightarrow> indexes_ok accounts keys \<Longrightarrow> token_safe (parse_scaled_ui_amount_instruction E d accounts keys)"
  unfolding parse_scaled_ui_amount_instruction_def Let_def
  by (auto intro!: panic_intro confidential_transfer_fee_accounts_safe simp: panic_free split: scaled_ui_amount_instruction.split)

lemma parse_pausable_instruction_safe: "accounts \<noteq> [] \<Longrightarrow> indexes_ok accounts keys \<Longrightarrow> token_safe (parse_pausable_instruction E d accounts keys)"
  unfolding parse_pausable_instruction_def Let_def
  by (auto intro!: panic_intro confidential_transfer_fee_accounts_safe simp: panic_free split: pausable_instruction.split)

lemma parse_transfer_fee_instruction_safe: "accounts \<noteq> [] \<Longrightarrow> indexes_ok accounts keys \<Longrightarrow> token_safe (parse_transfer_fee_instruction E d accounts keys)"
  unfolding parse_transfer_fee_instruction_def Let_def
  by (auto intro!: panic_intro confidential_transfer_fee_accounts_safe simp: panic_free split: transfer_fee_instruction.split)

lemma parse_confidential_transfer_instruction_safe: "accounts \<noteq> [] \<Longrightarrow> indexes_ok accounts keys \<Longrightarrow> token_safe (parse_confidential_transfer_instruction E d accounts keys)"
  unfolding parse_confidential_transfer_instruction_def Let_def
  by (auto intro!: panic_intro confidential_transfer_fee_accounts_safe simp: panic_free split: confidential_transfer_instruction.split)

lemma parse_confidential_transfer_fee_instruction_safe: "accounts \<noteq> [] \<Longrightarrow> indexes_ok accounts keys \<Longrightarrow> token_safe (parse_confidential_transfer_fee_instruction E d accounts keys)"
  unfolding parse_confidential_transfer_fee_instruction_def Let_def
  by (auto intro!: panic_intro confidential_transfer_fee_accounts_safe simp: panic_free split: confidential_transfer_fee_instruction.split)

lemma parse_confidential_mint_burn_instruction_safe: "accounts \<noteq> [] \<Longrightarrow> indexes_ok accounts keys \<Longrightarrow> token_safe (parse_confidential_mint_burn_instruction E d accounts keys)"
  unfolding parse_confidential_mint_burn_instruction_def Let_def
  by (auto intro!: panic_intro confidential_transfer_fee_accounts_safe simp: panic_free split: confidential_mint_burn_instruction.split)

lemma parse_token_group_instruction_safe: "accounts \<noteq> [] \<Longrightarrow> indexes_ok accounts keys \<Longrightarrow> token_safe (parse_token_group_instruction E i accounts keys)"
  unfolding parse_token_group_instruction_def Let_def
  by (cases i) (auto intro!: panic_intro simp: panic_free)

lemma parse_token_metadata_instruction_safe: "accounts \<noteq> [] \<Longrightarrow> indexes_ok accounts keys \<Longrightarrow> token_safe (parse_token_metadata_instruction E i accounts keys)"
  unfolding parse_token_metadata_instruction_def Let_def
  by (cases i) (auto intro!: panic_intro simp: panic_free)

end
