(* ===== verification/Parse_Token.thy ===== *)
theory Parse_Token
  imports Parse_Token_Ext
begin

section \<open>Token instructions\<close>

text \<open>
  \<open>parse_token\<close> of \<open>src/transaction-status/src/parse_token.rs\<close>.  The indexes of the accounts are checked
  first.  The data are tried as an instruction of the token program, then of the token group
  interface, then of the metadata interface.  For the extensions of the token program the first byte
  is cut off and the rest goes to the parser of the extension (theory \<open>Parse_Token_Ext\<close>); some
  of these calls first check that the data have a second byte.

  \<open>TokenInstruction::unpack\<close> is a parameter.  The slice \<open>data[1..]\<close> panics on empty data, so the parser
  relies on \<open>unpack\<close> to refuse them: the law \<open>token_laws\<close>.
\<close>

subsection \<open>Authorities and extensions\<close>

datatype (plugins only: code) authority_type =
    AuthMintTokens | AuthFreezeAccount | AuthAccountOwner | AuthCloseAccount | AuthTransferFeeConfig
    | AuthWithheldWithdraw | AuthCloseMint | AuthInterestRate | AuthPermanentDelegate
    | AuthConfidentialTransferMint | AuthTransferHookProgramId | AuthConfidentialTransferFeeConfig
    | AuthMetadataPointer | AuthGroupPointer | AuthGroupMemberPointer | AuthScaledUiAmount | AuthPause

datatype (plugins only: code) extension_type =
    ExtUninitialized | ExtTransferFeeConfig | ExtTransferFeeAmount | ExtMintCloseAuthority
    | ExtConfidentialTransferMint | ExtConfidentialTransferAccount | ExtDefaultAccountState
    | ExtImmutableOwner | ExtMemoTransfer | ExtNonTransferable | ExtInterestBearingConfig | ExtCpiGuard
    | ExtPermanentDelegate | ExtNonTransferableAccount | ExtTransferHook | ExtTransferHookAccount
    | ExtConfidentialTransferFeeConfig | ExtConfidentialTransferFeeAmount | ExtMetadataPointer
    | ExtTokenMetadata | ExtGroupPointer | ExtGroupMemberPointer | ExtTokenGroup | ExtTokenGroupMember
    | ExtConfidentialMintBurn | ExtScaledUiAmount | ExtPausable | ExtPausableAccount

primrec ui_authority_type :: "authority_type \<Rightarrow> string" where
  \<comment> \<open>the value that \<open>UiAuthorityType::from\<close> is serialized as\<close>
  "ui_authority_type AuthMintTokens = ''mintTokens''"
| "ui_authority_type AuthFreezeAccount = ''freezeAccount''"
| "ui_authority_type AuthAccountOwner = ''accountOwner''"
| "ui_authority_type AuthCloseAccount = ''closeAccount''"
| "ui_authority_type AuthTransferFeeConfig = ''transferFeeConfig''"
| "ui_authority_type AuthWithheldWithdraw = ''withheldWithdraw''"
| "ui_authority_type AuthCloseMint = ''closeMint''"
| "ui_authority_type AuthInterestRate = ''interestRate''"
| "ui_authority_type AuthPermanentDelegate = ''permanentDelegate''"
| "ui_authority_type AuthConfidentialTransferMint = ''confidentialTransferMint''"
| "ui_authority_type AuthTransferHookProgramId = ''transferHookProgramId''"
| "ui_authority_type AuthConfidentialTransferFeeConfig = ''confidentialTransferFeeConfig''"
| "ui_authority_type AuthMetadataPointer = ''metadataPointer''"
| "ui_authority_type AuthGroupPointer = ''groupPointer''"
| "ui_authority_type AuthGroupMemberPointer = ''groupMemberPointer''"
| "ui_authority_type AuthScaledUiAmount = ''scaledUiAmount''"
| "ui_authority_type AuthPause = ''pause''"

primrec ui_extension_type :: "extension_type \<Rightarrow> string" where
  \<comment> \<open>the value that \<open>UiExtensionType::from\<close> is serialized as\<close>
  "ui_extension_type ExtUninitialized = ''uninitialized''"
| "ui_extension_type ExtTransferFeeConfig = ''transferFeeConfig''"
| "ui_extension_type ExtTransferFeeAmount = ''transferFeeAmount''"
| "ui_extension_type ExtMintCloseAuthority = ''mintCloseAuthority''"
| "ui_extension_type ExtConfidentialTransferMint = ''confidentialTransferMint''"
| "ui_extension_type ExtConfidentialTransferAccount = ''confidentialTransferAccount''"
| "ui_extension_type ExtDefaultAccountState = ''defaultAccountState''"
| "ui_extension_type ExtImmutableOwner = ''immutableOwner''"
| "ui_extension_type ExtMemoTransfer = ''memoTransfer''"
| "ui_extension_type ExtNonTransferable = ''nonTransferable''"
| "ui_extension_type ExtInterestBearingConfig = ''interestBearingConfig''"
| "ui_extension_type ExtCpiGuard = ''cpiGuard''"
| "ui_extension_type ExtPermanentDelegate = ''permanentDelegate''"
| "ui_extension_type ExtNonTransferableAccount = ''nonTransferableAccount''"
| "ui_extension_type ExtTransferHook = ''transferHook''"
| "ui_extension_type ExtTransferHookAccount = ''transferHookAccount''"
| "ui_extension_type ExtConfidentialTransferFeeConfig = ''confidentialTransferFeeConfig''"
| "ui_extension_type ExtConfidentialTransferFeeAmount = ''confidentialTransferFeeAmount''"
| "ui_extension_type ExtMetadataPointer = ''metadataPointer''"
| "ui_extension_type ExtTokenMetadata = ''tokenMetadata''"
| "ui_extension_type ExtGroupPointer = ''groupPointer''"
| "ui_extension_type ExtGroupMemberPointer = ''groupMemberPointer''"
| "ui_extension_type ExtTokenGroup = ''tokenGroup''"
| "ui_extension_type ExtTokenGroupMember = ''tokenGroupMember''"
| "ui_extension_type ExtConfidentialMintBurn = ''confidentialMintBurn''"
| "ui_extension_type ExtScaledUiAmount = ''scaledUiAmount''"
| "ui_extension_type ExtPausable = ''pausable''"
| "ui_extension_type ExtPausableAccount = ''pausableAccount''"

definition owned_by :: "authority_type \<Rightarrow> string" where
  \<comment> \<open>the name of the account that an authority is set for\<close>
  "owned_by t = (if t = AuthAccountOwner \<or> t = AuthCloseAccount then ''account'' else ''mint'')"

definition extension_values :: "extension_type list \<Rightarrow> json option" where
  "extension_values ts = jarr (map (\<lambda>t. JStr (ui_extension_type t)) ts)"

definition parse_reallocate_instruction ::
  "('pk, 'h, 'v, 'm) show_env_scheme \<Rightarrow> extension_type list \<Rightarrow> bytes \<Rightarrow> 'pk list \<Rightarrow> parsed_instruction_enum parsed" where
  "parse_reallocate_instruction E extension_types accounts keys =
     (let A = account E keys accounts
      in token_arm accounts 4 ''reallocate''
        (parse_signers E 3 keys accounts ''owner'' ''multisigOwner''
          (json_object [(''account'', A 0), (''payer'', A 1), (''systemProgram'', A 2),
                        (''extensionTypes'', extension_values extension_types)])))"

subsection \<open>The token program\<close>

datatype (plugins only: code) 'pk token_instruction =
    TokInitializeMint u8 'pk "'pk option"
  | TokInitializeMint2 u8 'pk "'pk option"
  | TokInitializeAccount
  | TokInitializeAccount2 'pk
  | TokInitializeAccount3 'pk
  | TokInitializeMultisig u8
  | TokInitializeMultisig2 u8
  | TokTransfer u64
  | TokApprove u64
  | TokRevoke
  | TokSetAuthority authority_type "'pk option"
  | TokMintTo u64
  | TokBurn u64
  | TokCloseAccount
  | TokFreezeAccount
  | TokThawAccount
  | TokTransferChecked u64 u8
  | TokApproveChecked u64 u8
  | TokMintToChecked u64 u8
  | TokBurnChecked u64 u8
  | TokSyncNative
  | TokGetAccountDataSize "extension_type list"
  | TokInitializeImmutableOwner
  | TokAmountToUiAmount u64
  | TokUiAmountToAmount string
  | TokInitializeMintCloseAuthority "'pk option"
  | TokTransferFeeExtension
  | TokConfidentialTransferExtension
  | TokDefaultAccountStateExtension
  | TokReallocate "extension_type list"
  | TokMemoTransferExtension
  | TokCreateNativeMint
  | TokInitializeNonTransferableMint
  | TokInterestBearingMintExtension
  | TokCpiGuardExtension
  | TokInitializePermanentDelegate 'pk
  | TokTransferHookExtension
  | TokConfidentialTransferFeeExtension
  | TokWithdrawExcessLamports
  | TokMetadataPointerExtension
  | TokGroupPointerExtension
  | TokGroupMemberPointerExtension
  | TokConfidentialMintBurnExtension
  | TokScaledUiAmountExtension
  | TokPausableExtension

definition parse_token_program_instruction ::
  "('pk, 'h, 'v, 'c, 'm) token_env_scheme \<Rightarrow> bytes \<Rightarrow> bytes \<Rightarrow> 'pk list \<Rightarrow> 'pk token_instruction \<Rightarrow> parsed_instruction_enum parsed" where
  "parse_token_program_instruction E data accounts keys i =
     (let A = account E keys accounts; P = pubkey_value E; S = parse_signers E; arm = token_arm accounts;
          rest = (\<lambda>f. Option.bind (slice_from data 1) f)
      in case i of
       TokInitializeMint dec mint_authority freeze_authority \<Rightarrow>
         arm 2 ''initializeMint'' (insert_some ''freezeAuthority'' P freeze_authority (json_object
           [(''mint'', A 0), (''decimals'', jnat (unat dec)), (''mintAuthority'', P mint_authority),
              (''rentSysvar'', A 1)]))
     | TokInitializeMint2 dec mint_authority freeze_authority \<Rightarrow>
         arm 1 ''initializeMint2'' (insert_some ''freezeAuthority'' P freeze_authority (json_object
           [(''mint'', A 0), (''decimals'', jnat (unat dec)), (''mintAuthority'', P mint_authority)]))
     | TokInitializeAccount \<Rightarrow>
         arm 4 ''initializeAccount'' (json_object
           [(''account'', A 0), (''mint'', A 1), (''owner'', A 2), (''rentSysvar'', A 3)])
     | TokInitializeAccount2 owner \<Rightarrow>
         arm 3 ''initializeAccount2'' (json_object
           [(''account'', A 0), (''mint'', A 1), (''owner'', P owner), (''rentSysvar'', A 2)])
     | TokInitializeAccount3 owner \<Rightarrow>
         arm 2 ''initializeAccount3'' (json_object
           [(''account'', A 0), (''mint'', A 1), (''owner'', P owner)])
     | TokInitializeMultisig m \<Rightarrow>
         arm 3 ''initializeMultisig'' (json_object
           [(''multisig'', A 0), (''rentSysvar'', A 1), (''signers'', signer_strings E keys accounts 2),
              (''m'', jnat (unat m))])
     | TokInitializeMultisig2 m \<Rightarrow>
         arm 2 ''initializeMultisig2'' (json_object
           [(''multisig'', A 0), (''signers'', signer_strings E keys accounts 1), (''m'', jnat (unat m))])
     | TokTransfer amt \<Rightarrow>
         arm 3 ''transfer'' (S 2 keys accounts ''authority'' ''multisigAuthority'' (json_object
           [(''source'', A 0), (''destination'', A 1), (''amount'', jstr (show_nat (unat amt)))]))
     | TokApprove amt \<Rightarrow>
         arm 3 ''approve'' (S 2 keys accounts ''owner'' ''multisigOwner'' (json_object
           [(''source'', A 0), (''delegate'', A 1), (''amount'', jstr (show_nat (unat amt)))]))
     | TokRevoke \<Rightarrow>
         arm 2 ''revoke'' (S 1 keys accounts ''owner'' ''multisigOwner'' (json_object
           [(''source'', A 0)]))
     | TokSetAuthority authority_type new_authority \<Rightarrow>
         arm 2 ''setAuthority'' (S 1 keys accounts ''authority'' ''multisigAuthority'' (json_object
           [(owned_by authority_type, A 0), (''authorityType'', jstr (ui_authority_type authority_type)),
              (''newAuthority'', jopt P new_authority)]))
     | TokMintTo amt \<Rightarrow>
         arm 3 ''mintTo'' (S 2 keys accounts ''mintAuthority'' ''multisigMintAuthority'' (json_object
           [(''mint'', A 0), (''account'', A 1), (''amount'', jstr (show_nat (unat amt)))]))
     | TokBurn amt \<Rightarrow>
         arm 3 ''burn'' (S 2 keys accounts ''authority'' ''multisigAuthority'' (json_object
           [(''account'', A 0), (''mint'', A 1), (''amount'', jstr (show_nat (unat amt)))]))
     | TokCloseAccount \<Rightarrow>
         arm 3 ''closeAccount'' (S 2 keys accounts ''owner'' ''multisigOwner'' (json_object
           [(''account'', A 0), (''destination'', A 1)]))
     | TokFreezeAccount \<Rightarrow>
         arm 3 ''freezeAccount'' (S 2 keys accounts ''freezeAuthority'' ''multisigFreezeAuthority'' (json_object
           [(''account'', A 0), (''mint'', A 1)]))
     | TokThawAccount \<Rightarrow>
         arm 3 ''thawAccount'' (S 2 keys accounts ''freezeAuthority'' ''multisigFreezeAuthority'' (json_object
           [(''account'', A 0), (''mint'', A 1)]))
     | TokTransferChecked amt dec \<Rightarrow>
         arm 4 ''transferChecked'' (S 3 keys accounts ''authority'' ''multisigAuthority'' (json_object
           [(''source'', A 0), (''mint'', A 1), (''destination'', A 2),
              (''tokenAmount'', token_amount_value amt dec)]))
     | TokApproveChecked amt dec \<Rightarrow>
         arm 4 ''approveChecked'' (S 3 keys accounts ''owner'' ''multisigOwner'' (json_object
           [(''source'', A 0), (''mint'', A 1), (''delegate'', A 2), (''tokenAmount'', token_amount_value amt dec)]))
     | TokMintToChecked amt dec \<Rightarrow>
         arm 3 ''mintToChecked'' (S 2 keys accounts ''mintAuthority'' ''multisigMintAuthority'' (json_object
           [(''mint'', A 0), (''account'', A 1), (''tokenAmount'', token_amount_value amt dec)]))
     | TokBurnChecked amt dec \<Rightarrow>
         arm 3 ''burnChecked'' (S 2 keys accounts ''authority'' ''multisigAuthority'' (json_object
           [(''account'', A 0), (''mint'', A 1), (''tokenAmount'', token_amount_value amt dec)]))
     | TokSyncNative \<Rightarrow>
         arm 1 ''syncNative'' (json_object
           [(''account'', A 0)])
     | TokGetAccountDataSize extension_types \<Rightarrow>
         arm 1 ''getAccountDataSize'' (let value = json_object
           [(''mint'', A 0)]
          in if extension_types = [] then value
             else map_insert ''extensionTypes'' (extension_values extension_types) value)
     | TokInitializeImmutableOwner \<Rightarrow>
         arm 1 ''initializeImmutableOwner'' (json_object
           [(''account'', A 0)])
     | TokAmountToUiAmount amt \<Rightarrow>
         arm 1 ''amountToUiAmount'' (json_object
           [(''mint'', A 0), (''amount'', jstr (show_nat (unat amt)))])
     | TokUiAmountToAmount ui \<Rightarrow>
         arm 1 ''uiAmountToAmount'' (json_object
           [(''mint'', A 0), (''uiAmount'', jstr ui)])
     | TokInitializeMintCloseAuthority close_authority \<Rightarrow> parse_initialize_mint_close_authority_instruction E close_authority accounts keys
     | TokTransferFeeExtension \<Rightarrow> rest (\<lambda>d. parse_transfer_fee_instruction E d accounts keys)
     | TokConfidentialTransferExtension \<Rightarrow> rest (\<lambda>d. parse_confidential_transfer_instruction E d accounts keys)
     | TokDefaultAccountStateExtension \<Rightarrow> if length data \<le> 2 then Some (Inl token_not_parsable) else rest (\<lambda>d. parse_default_account_state_instruction E d accounts keys)
     | TokReallocate extension_types \<Rightarrow> parse_reallocate_instruction E extension_types accounts keys
     | TokMemoTransferExtension \<Rightarrow> if length data < 2 then Some (Inl token_not_parsable) else rest (\<lambda>d. parse_memo_transfer_instruction E d accounts keys)
     | TokCreateNativeMint \<Rightarrow>
         arm 3 ''createNativeMint'' (json_object
           [(''payer'', A 0), (''nativeMint'', A 1), (''systemProgram'', A 2)])
     | TokInitializeNonTransferableMint \<Rightarrow>
         arm 1 ''initializeNonTransferableMint'' (json_object
           [(''mint'', A 0)])
     | TokInterestBearingMintExtension \<Rightarrow> if length data < 2 then Some (Inl token_not_parsable) else rest (\<lambda>d. parse_interest_bearing_mint_instruction E d accounts keys)
     | TokCpiGuardExtension \<Rightarrow> if length data < 2 then Some (Inl token_not_parsable) else rest (\<lambda>d. parse_cpi_guard_instruction E d accounts keys)
     | TokInitializePermanentDelegate delegate \<Rightarrow> parse_initialize_permanent_delegate_instruction E delegate accounts keys
     | TokTransferHookExtension \<Rightarrow> if length data < 2 then Some (Inl token_not_parsable) else rest (\<lambda>d. parse_transfer_hook_instruction E d accounts keys)
     | TokConfidentialTransferFeeExtension \<Rightarrow> if length data < 2 then Some (Inl token_not_parsable) else rest (\<lambda>d. parse_confidential_transfer_fee_instruction E d accounts keys)
     | TokWithdrawExcessLamports \<Rightarrow>
         arm 3 ''withdrawExcessLamports'' (S 2 keys accounts ''authority'' ''multisigAuthority'' (json_object
           [(''source'', A 0), (''destination'', A 1)]))
     | TokMetadataPointerExtension \<Rightarrow> if length data < 2 then Some (Inl token_not_parsable) else rest (\<lambda>d. parse_metadata_pointer_instruction E d accounts keys)
     | TokGroupPointerExtension \<Rightarrow> if length data < 2 then Some (Inl token_not_parsable) else rest (\<lambda>d. parse_group_pointer_instruction E d accounts keys)
     | TokGroupMemberPointerExtension \<Rightarrow> if length data < 2 then Some (Inl token_not_parsable) else rest (\<lambda>d. parse_group_member_pointer_instruction E d accounts keys)
     | TokConfidentialMintBurnExtension \<Rightarrow> rest (\<lambda>d. parse_confidential_mint_burn_instruction E d accounts keys)
     | TokScaledUiAmountExtension \<Rightarrow> rest (\<lambda>d. parse_scaled_ui_amount_instruction E d accounts keys)
     | TokPausableExtension \<Rightarrow> rest (\<lambda>d. parse_pausable_instruction E d accounts keys))"

definition parse_token ::
  "('pk, 'h, 'v, 'c, 'm) token_env_scheme \<Rightarrow> (bytes \<Rightarrow> 'pk token_instruction option) \<Rightarrow> compiled_instruction \<Rightarrow> 'pk list \<Rightarrow>
     parsed_instruction_enum parsed" where
  "parse_token E unpack instruction keys =
     (let accounts = ci_accounts instruction; data = ci_data instruction
      in bind_step (Some (check_account_indexes accounts keys SplToken)) (\<lambda>_.
        case unpack data of
          Some i \<Rightarrow> parse_token_program_instruction E data accounts keys i
        | None \<Rightarrow>
            (case decode_token_group E data of
               Some i \<Rightarrow> parse_token_group_instruction E i accounts keys
             | None \<Rightarrow>
                 (case decode_token_metadata E data of
                    Some i \<Rightarrow> parse_token_metadata_instruction E i accounts keys
                  | None \<Rightarrow> Some (Inl token_not_parsable)))))"

subsection \<open>No panic\<close>

definition token_laws :: "(bytes \<Rightarrow> 'pk token_instruction option) \<Rightarrow> bool" where
  "token_laws unpack \<longleftrightarrow> unpack [] = None"

lemma present_extension_values [panic_free]: "present (extension_values ts)"
  by (simp add: extension_values_def panic_free)

lemma token_safe_rest [panic_intro]:
  "data \<noteq> [] \<Longrightarrow> (\<And>d. token_safe (f d)) \<Longrightarrow> token_safe (Option.bind (slice_from data (Suc 0)) f)"
  by (cases data) (simp_all add: slice_from_def)

lemmas extension_parsers_safe =
  parse_default_account_state_instruction_safe parse_interest_bearing_mint_instruction_safe
  parse_scaled_ui_amount_instruction_safe parse_pausable_instruction_safe parse_transfer_fee_instruction_safe
  parse_confidential_transfer_instruction_safe parse_confidential_transfer_fee_instruction_safe
  parse_confidential_mint_burn_instruction_safe

lemmas switch_or_pointer_defs =
  parse_cpi_guard_instruction_def parse_memo_transfer_instruction_def parse_group_pointer_instruction_def
  parse_group_member_pointer_instruction_def parse_metadata_pointer_instruction_def parse_transfer_hook_instruction_def

lemma mint_account_safe:
  assumes "accounts \<noteq> []" "indexes_ok accounts keys"
  shows "token_safe (parse_initialize_mint_close_authority_instruction E close accounts keys)"
    and "token_safe (parse_initialize_permanent_delegate_instruction E delegate accounts keys)"
    and "token_safe (parse_reallocate_instruction E ts accounts keys)"
  using assms
  unfolding parse_initialize_mint_close_authority_instruction_def parse_initialize_permanent_delegate_instruction_def
    parse_reallocate_instruction_def Let_def
  by (auto intro!: panic_intro simp: panic_free)

lemma parse_token_program_safe:
  assumes ok: "data \<noteq> []" "accounts \<noteq> []" "indexes_ok accounts keys"
  shows "token_safe (parse_token_program_instruction E data accounts keys i)"
  unfolding parse_token_program_instruction_def Let_def
  by (cases i)
     (auto intro!: panic_intro extension_parsers_safe switch_instruction_safe pointer_instruction_safe mint_account_safe
           simp: panic_free switch_or_pointer_defs ok)

lemma parse_token_safe: "token_safe (parse_token E unpack instruction keys)" if "token_laws unpack"
proof (cases "ci_accounts instruction \<noteq> [] \<and> indexes_ok (ci_accounts instruction) keys")
  case True
  have "ci_data instruction \<noteq> []" if "unpack (ci_data instruction) = Some i" for i
    using that \<open>token_laws unpack\<close> by (auto simp: token_laws_def)
  with True show ?thesis
    by (auto simp: parse_token_def check_account_indexes_cases Let_def token_safe_err split: option.split
             intro!: parse_token_program_safe parse_token_group_instruction_safe parse_token_metadata_instruction_safe)
next
  case False
  then have "parse_token E unpack instruction keys = Some (Inl token_key_mismatch)"
    by (auto simp: parse_token_def check_account_indexes_cases Let_def)
  then show ?thesis by (simp add: token_safe_err)
qed

end
