(* ===== verification/Parse_Dispatch.thy ===== *)
theory Parse_Dispatch
  imports Memo Parse_System Parse_Stake Parse_Vote Parse_Loader Parse_Tables Parse_Token
begin

section \<open>Parsing an instruction of any program\<close>

text \<open>
  \<open>parse\<close> of \<open>src/transaction-status/src/parse_instruction.rs\<close>: the table of the programs that can be
  parsed, the call of the program's parser and the serialized result.  The program identifiers and
  the decoders of their instructions are third-party code, the fields of \<open>program_env\<close>; so is the
  conversion of a name to kebab case.
\<close>

record ('pk, 'h, 'v, 'c) program_env = "('pk, 'h, 'v, 'c) token_env" +
  address_lookup_table_id :: 'pk
  associated_token_id :: 'pk
  memo_ids :: "'pk \<times> 'pk"
  bpf_loader_id :: 'pk
  bpf_loader_upgradeable_id :: 'pk
  stake_id :: 'pk
  system_program_id :: 'pk
  vote_id :: 'pk
  spl_token_ids :: "'pk list"
  decode_lookup_table :: "bytes \<Rightarrow> 'pk lookup_table_instruction option"
  decode_associated_token :: "bytes \<Rightarrow> associated_token_instruction option"
  decode_loader :: "bytes \<Rightarrow> loader_instruction option"
  decode_upgradeable_loader :: "bytes \<Rightarrow> upgradeable_loader_instruction option"
  decode_stake :: "bytes \<Rightarrow> ('pk, 'v) stake_instruction option"
  decode_system :: "bytes \<Rightarrow> 'pk system_instruction option"
  decode_vote :: "bytes \<Rightarrow> ('pk, 'h, 'v) vote_instruction option"
  unpack_token :: "bytes \<Rightarrow> 'pk token_instruction option"
  to_kebab_case :: "string \<Rightarrow> string"

definition parsable_program_ids :: "('pk, 'h, 'v, 'c, 'm) program_env_scheme \<Rightarrow> 'pk \<rightharpoonup> parsable_program" where
  \<comment> \<open>\<open>PARSABLE_PROGRAM_IDS\<close>: collected into a map, so of equal keys the last counts\<close>
  "parsable_program_ids E =
     map_of (rev ([(address_lookup_table_id E, AddressLookupTable),
                   (associated_token_id E, SplAssociatedTokenAccount),
                   (fst (memo_ids E), SplMemo), (snd (memo_ids E), SplMemo),
                   (bpf_loader_id E, BpfLoader),
                   (bpf_loader_upgradeable_id E, BpfUpgradeableLoader),
                   (stake_id E, Stake), (system_program_id E, System), (vote_id E, Vote)]
                  @ map (\<lambda>i. (i, SplToken)) (spl_token_ids E)))"

primrec program_debug :: "parsable_program \<Rightarrow> string" where
  \<comment> \<open>the derived \<open>Debug\<close>\<close>
  "program_debug AddressLookupTable = ''AddressLookupTable''"
| "program_debug SplAssociatedTokenAccount = ''SplAssociatedTokenAccount''"
| "program_debug SplMemo = ''SplMemo''"
| "program_debug SplToken = ''SplToken''"
| "program_debug BpfLoader = ''BpfLoader''"
| "program_debug BpfUpgradeableLoader = ''BpfUpgradeableLoader''"
| "program_debug Stake = ''Stake''"
| "program_debug System = ''System''"
| "program_debug Vote = ''Vote''"

record parsed_instruction =
  pi_program :: string
  pi_program_id :: string
  pi_parsed :: json
  pi_stack_height :: "u32 option"

definition parsed_enum_value :: "parsed_instruction_enum \<Rightarrow> json" where
  \<comment> \<open>\<open>serde_json::to_value(ParsedInstructionEnum)\<close>: the information is left out when it is \<open>null\<close>\<close>
  "parsed_enum_value p =
     JObj ((''type'', JStr (instruction_type p)) # (if info p = JNull then [] else [(''info'', info p)]))"

definition program_parser ::
  "('pk, 'h, 'v, 'c, 'm) program_env_scheme \<Rightarrow> parsable_program \<Rightarrow> compiled_instruction \<Rightarrow> 'pk list \<Rightarrow> json parsed" where
  \<comment> \<open>the \<open>match program_name\<close>\<close>
  "program_parser E program instruction keys =
     (let value = (\<lambda>r. bind_step r (\<lambda>p. Some (Inr (parsed_enum_value p))))
      in case program of
       AddressLookupTable \<Rightarrow> value (parse_address_lookup_table E (decode_lookup_table E) instruction keys)
     | SplAssociatedTokenAccount \<Rightarrow> value (parse_associated_token E (decode_associated_token E) instruction keys)
     | SplMemo \<Rightarrow> Some (parse_memo instruction)
     | SplToken \<Rightarrow> value (parse_token E (unpack_token E) instruction keys)
     | BpfLoader \<Rightarrow> value (parse_bpf_loader E (decode_loader E) instruction keys)
     | BpfUpgradeableLoader \<Rightarrow> value (parse_bpf_upgradeable_loader E (decode_upgradeable_loader E) instruction keys)
     | Stake \<Rightarrow> value (parse_stake E (decode_stake E) instruction keys)
     | System \<Rightarrow> value (parse_system E (decode_system E) instruction keys)
     | Vote \<Rightarrow> value (parse_vote E (decode_vote E) instruction keys))"

definition parse ::
  "('pk, 'h, 'v, 'c, 'm) program_env_scheme \<Rightarrow> 'pk \<Rightarrow> compiled_instruction \<Rightarrow> 'pk list \<Rightarrow> u32 option \<Rightarrow> parsed_instruction parsed" where
  "parse E program_id instruction keys stack_height =
     bind_step (Some (ok_or (parsable_program_ids E program_id) ProgramNotParsable)) (\<lambda>program.
     bind_step (program_parser E program instruction keys) (\<lambda>parsed_json.
     Some (Inr \<lparr>pi_program = to_kebab_case E (program_debug program),
                pi_program_id = pubkey_string E program_id,
                pi_parsed = parsed_json, pi_stack_height = stack_height\<rparr>)))"

subsection \<open>What the parsers of the programs return\<close>

definition result_safe :: "parse_error set \<Rightarrow> 'a parsed \<Rightarrow> bool" where
  "result_safe errors r \<longleftrightarrow> (case r of None \<Rightarrow> False | Some (Inl e) \<Rightarrow> e \<in> errors | Some (Inr _) \<Rightarrow> True)"

definition program_errors :: "parsable_program \<Rightarrow> parse_error set" where
  \<comment> \<open>the errors a program's parser may give: those of the program, except that associated token data
      that cannot be decoded are reported for the token program\<close>
  "program_errors p =
     {InstructionKeyMismatch p, InstructionNotParsable (if p = SplAssociatedTokenAccount then SplToken else p)}"

lemma result_safe_value: "result_safe A (bind_step r (\<lambda>p. Some (Inr (f p)))) \<longleftrightarrow> result_safe A r"
  by (cases r rule: option.exhaust; cases "the r") (auto simp: result_safe_def)

lemma contract_safe:
  assumes "case r of None \<Rightarrow> False | Some (Inr v) \<Rightarrow> P v | Some (Inl e) \<Rightarrow> (D \<and> e = InstructionNotParsable p) \<or> (\<exists>i. Q i \<and> e = InstructionKeyMismatch p \<and> R i)"
    and "p \<noteq> SplAssociatedTokenAccount"
  shows "result_safe (program_errors p) r"
  using assms by (auto simp: result_safe_def program_errors_def split: option.splits sum.splits)

lemma program_parser_safe:
  assumes "token_laws (unpack_token E)"
  shows "result_safe (program_errors program) (program_parser E program instruction keys)"
proof (cases program)
  case SplAssociatedTokenAccount
  then show ?thesis
    using parse_associated_token_result[where E = E and try_from_slice = "decode_associated_token E" and instruction = instruction and keys = keys]
    by (auto simp: program_parser_def Let_def result_safe_value)
       (auto simp: result_safe_def program_errors_def split: option.splits sum.splits)
next
  case SplToken
  then show ?thesis
    using parse_token_safe[OF assms, where E = E and instruction = instruction and keys = keys]
    by (auto simp: program_parser_def Let_def result_safe_value)
       (auto simp: result_safe_def program_errors_def token_safe_def split: option.splits sum.splits)
next
  case SplMemo
  then show ?thesis by (auto simp: program_parser_def parse_memo_def result_safe_def program_errors_def split: option.split)
next
  case BpfLoader
  then show ?thesis
    using contract_safe[OF parse_bpf_loader_result[where E = E and deserialize = "decode_loader E" and instruction = instruction and keys = keys]]
    by (simp add: program_parser_def Let_def result_safe_value)
next
  case AddressLookupTable
  then show ?thesis
    using contract_safe[OF lookup_table.parse_result]
    by (simp add: program_parser_def Let_def result_safe_value parse_address_lookup_table_def)
next
  case BpfUpgradeableLoader
  then show ?thesis
    using contract_safe[OF upgradeable.parse_result]
    by (simp add: program_parser_def Let_def result_safe_value parse_bpf_upgradeable_loader_def)
next
  case Stake
  then show ?thesis
    using contract_safe[OF stake.parse_result]
    by (simp add: program_parser_def Let_def result_safe_value parse_stake_def)
next
  case System
  then show ?thesis
    using contract_safe[OF system.parse_result]
    by (simp add: program_parser_def Let_def result_safe_value parse_system_def)
next
  case Vote
  then show ?thesis
    using contract_safe[OF vote.parse_result]
    by (simp add: program_parser_def Let_def result_safe_value parse_vote_def)
qed

subsection \<open>The contract of \<open>parse\<close>\<close>

definition plain_programs :: "(nat, nat, nat, nat) program_env" where
  \<comment> \<open>identifiers 1 to 11; data \<open>[2, n]\<close> are a transfer of \<open>n\<close>, nothing else decodes\<close>
  "plain_programs =
     \<lparr>pubkey_string = show_nat, hash_string = show_nat, to_value = (\<lambda>_. JNull), base64_encode = (\<lambda>_. ''''),
      pod_string = show_nat, f64_string = (\<lambda>_. ''''),
      decode_cpi_guard = (\<lambda>_. None), decode_memo_transfer = (\<lambda>_. None), decode_default_account_state = (\<lambda>_. None),
      decode_group_pointer = (\<lambda>_. None), decode_group_member_pointer = (\<lambda>_. None),
      decode_metadata_pointer = (\<lambda>_. None), decode_transfer_hook = (\<lambda>_. None),
      decode_interest_bearing_mint = (\<lambda>_. None), decode_scaled_ui_amount = (\<lambda>_. None), decode_pausable = (\<lambda>_. None),
      decode_transfer_fee = (\<lambda>_. None), decode_confidential_transfer = (\<lambda>_. None),
      decode_confidential_transfer_fee = (\<lambda>_. None), decode_confidential_mint_burn = (\<lambda>_. None),
      decode_token_group = (\<lambda>_. None), decode_token_metadata = (\<lambda>_. None),
      address_lookup_table_id = 1, associated_token_id = 2, memo_ids = (3, 4), bpf_loader_id = 5,
      bpf_loader_upgradeable_id = 6, stake_id = 7, system_program_id = 8, vote_id = 9, spl_token_ids = [10, 11],
      decode_lookup_table = (\<lambda>_. None), decode_associated_token = (\<lambda>_. None), decode_loader = (\<lambda>_. None),
      decode_upgradeable_loader = (\<lambda>_. None), decode_stake = (\<lambda>_. None),
      decode_system = (\<lambda>d. case d of [k, n] \<Rightarrow> if k = 2 then Some (SysTransfer (ucast n)) else None | _ \<Rightarrow> None),
      decode_vote = (\<lambda>_. None),
      unpack_token = (\<lambda>d. if d = [17] then Some TokSyncNative else None),
      to_kebab_case = id\<rparr>"

definition plain_transfer :: compiled_instruction where
  "plain_transfer = \<lparr>ci_program_id_index = 2, ci_accounts = [0, 1], ci_data = [2, 5]\<rparr>"

text \<open>C13: Parsing an instruction never panics, whatever the program, the data, the accounts and the
  keys: it gives an error or a parsed instruction.  A program that is not in the table is reported as
  not parsable.  Otherwise an error is one of the program's parser and names the program, except
  that undecodable associated token data name the token program; a result carries the name of the
  program, its identifier and the given stack height.  The only assumption is that empty data do not
  unpack as a token instruction.\<close>

theorem parse_never_panics:
  assumes "token_laws (unpack_token E)"
  shows "case parse E program_id instruction keys stack_height of
      None \<Rightarrow> False
    | Some (Inl e) \<Rightarrow>
        (case parsable_program_ids E program_id of None \<Rightarrow> e = ProgramNotParsable | Some p \<Rightarrow> e \<in> program_errors p)
    | Some (Inr r) \<Rightarrow>
        (\<exists>p. parsable_program_ids E program_id = Some p \<and> pi_program r = to_kebab_case E (program_debug p))
        \<and> pi_program_id r = pubkey_string E program_id \<and> pi_stack_height r = stack_height"
proof (cases "parsable_program_ids E program_id")
  case None
  then show ?thesis by (simp add: parse_def)
next
  case (Some p)
  then show ?thesis
    using program_parser_safe[OF assms, where program = p and instruction = instruction and keys = keys]
    by (auto simp: parse_def result_safe_def split: option.splits sum.splits)
qed

theorem parse_never_panics_witness:
  "token_laws (unpack_token plain_programs)
   \<and> (case parse plain_programs 8 plain_transfer [20, 21, 8] (Some 1) of
        None \<Rightarrow> False
      | Some (Inl e) \<Rightarrow>
          (case parsable_program_ids plain_programs 8 of None \<Rightarrow> e = ProgramNotParsable | Some p \<Rightarrow> e \<in> program_errors p)
      | Some (Inr r) \<Rightarrow>
          (\<exists>p. parsable_program_ids plain_programs 8 = Some p \<and> pi_program r = to_kebab_case plain_programs (program_debug p))
          \<and> pi_program_id r = pubkey_string plain_programs 8 \<and> pi_stack_height r = Some 1)"
proof -
  have law: "token_laws (unpack_token plain_programs)" by (simp add: token_laws_def plain_programs_def)
  show ?thesis by (intro conjI law parse_never_panics[OF law])
qed

fun program_required :: "('pk, 'h, 'v, 'c, 'm) program_env_scheme \<Rightarrow> parsable_program \<Rightarrow> bytes \<Rightarrow> nat option" where
  \<comment> \<open>the number of accounts of the instruction the data decode to, for the programs whose parser checks
      nothing but the accounts\<close>
  "program_required E AddressLookupTable d = map_option lookup_table_required (decode_lookup_table E d)"
| "program_required E BpfUpgradeableLoader d = map_option upgradeable_loader_required (decode_upgradeable_loader E d)"
| "program_required E Stake d = map_option stake_required (decode_stake E d)"
| "program_required E System d = map_option system_required (decode_system E d)"
| "program_required E Vote d = map_option vote_required (decode_vote E d)"
| "program_required E _ d = None"

lemma contract_success:
  assumes "case r of None \<Rightarrow> False
      | Some (Inr v) \<Rightarrow> accounts \<noteq> [] \<and> indexes_ok accounts keys
          \<and> (\<exists>i. dec = Some i \<and> required i \<le> length accounts \<and> body i = Some (Inr v))
      | Some (Inl e) \<Rightarrow> (dec = None \<and> e = InstructionNotParsable p)
          \<or> (\<exists>i. dec = Some i \<and> e = InstructionKeyMismatch p
                \<and> (accounts = [] \<or> \<not> indexes_ok accounts keys \<or> length accounts < required i))"
  shows "(\<exists>v. bind_step r (\<lambda>x. Some (Inr (f x))) = Some (Inr v)) \<longleftrightarrow>
    accounts \<noteq> [] \<and> indexes_ok accounts keys \<and> (\<exists>n. map_option required dec = Some n \<and> n \<le> length accounts)"
  using assms by (auto split: option.splits sum.splits)

lemma program_parser_success:
  assumes "program \<in> {AddressLookupTable, BpfUpgradeableLoader, Stake, System, Vote}"
  shows "(\<exists>v. program_parser E program instruction keys = Some (Inr v)) \<longleftrightarrow>
    ci_accounts instruction \<noteq> [] \<and> indexes_ok (ci_accounts instruction) keys
    \<and> (\<exists>n. program_required E program (ci_data instruction) = Some n \<and> n \<le> length (ci_accounts instruction))"
proof -
  consider "program = AddressLookupTable" | "program = BpfUpgradeableLoader" | "program = Stake" | "program = System" | "program = Vote"
    using assms by auto
  then show ?thesis
  proof cases
    case 1 then show ?thesis using contract_success[OF lookup_table.parse_result]
      by (simp add: program_parser_def Let_def parse_address_lookup_table_def)
  next
    case 2 then show ?thesis using contract_success[OF upgradeable.parse_result]
      by (simp add: program_parser_def Let_def parse_bpf_upgradeable_loader_def)
  next
    case 3 then show ?thesis using contract_success[OF stake.parse_result]
      by (simp add: program_parser_def Let_def parse_stake_def)
  next
    case 4 then show ?thesis using contract_success[OF system.parse_result]
      by (simp add: program_parser_def Let_def parse_system_def)
  next
    case 5 then show ?thesis using contract_success[OF vote.parse_result]
      by (simp add: program_parser_def Let_def parse_vote_def)
  qed
qed

text \<open>C36: An instruction of the lookup table, upgradeable loader, stake, system or vote program is parsed
  successfully exactly when its data decode, it has at least one account and as many as its variant
  needs, and every account index refers to a key of the transaction.\<close>

theorem parse_success_iff:
  assumes "parsable_program_ids E program_id = Some program"
    and "program \<in> {AddressLookupTable, BpfUpgradeableLoader, Stake, System, Vote}"
  shows "(\<exists>r. parse E program_id instruction keys stack_height = Some (Inr r)) \<longleftrightarrow>
    ci_accounts instruction \<noteq> []
    \<and> (\<forall>i < length (ci_accounts instruction). unat (ci_accounts instruction ! i) < length keys)
    \<and> (\<exists>n. program_required E program (ci_data instruction) = Some n \<and> n \<le> length (ci_accounts instruction))"
proof -
  have "(\<exists>r. parse E program_id instruction keys stack_height = Some (Inr r)) \<longleftrightarrow>
      (\<exists>v. program_parser E program instruction keys = Some (Inr v))"
    using assms(1) by (cases "program_parser E program instruction keys"; cases "the (program_parser E program instruction keys)")
      (auto simp: parse_def)
  then show ?thesis
    using program_parser_success[OF assms(2)] by (simp add: indexes_ok_def all_set_conv_all_nth)
qed

lemma plain_transfer_required: "program_required plain_programs System (ci_data plain_transfer) = Some 2"
  by (simp add: plain_programs_def plain_transfer_def)

theorem parse_success_iff_witness:
  "parsable_program_ids plain_programs 8 = Some System
   \<and> (\<exists>r. parse plain_programs 8 plain_transfer [20, 21, 8] None = Some (Inr r))
   \<and> \<not> (\<exists>r. parse plain_programs 8 plain_transfer [8] None = Some (Inr r))"
proof -
  have id: "parsable_program_ids plain_programs 8 = Some System"
    by (simp add: parsable_program_ids_def plain_programs_def)
  have mem: "System \<in> {AddressLookupTable, BpfUpgradeableLoader, Stake, System, Vote}" by simp
  note eq = parse_success_iff[OF id mem, where instruction = plain_transfer and stack_height = None]
  have "\<exists>r. parse plain_programs 8 plain_transfer [20, 21, 8] None = Some (Inr r)"
    unfolding eq plain_transfer_required by (simp add: plain_transfer_def less_Suc_eq nth_Cons')
  moreover have "\<not> (\<exists>r. parse plain_programs 8 plain_transfer [8] None = Some (Inr r))"
    unfolding eq by (auto simp: plain_transfer_def)
  ultimately show ?thesis using id by blast
qed

subsection \<open>Two surprises\<close>

lemma get_minimum_delegation_not_parsable:
  \<comment> \<open>the instruction takes no accounts, and without accounts it is always refused\<close>
  assumes "decode_stake E (ci_data instruction) = Some StkGetMinimumDelegation" "ci_accounts instruction = []"
  shows "parse_stake E (decode_stake E) instruction keys = Some (Inl (InstructionKeyMismatch Stake))"
  using assms by (simp add: parse_stake_def parse_with_def check_account_indexes_def)

lemma associated_token_error_names_token:
  assumes "ci_data instruction \<noteq> []" "try_from_slice (ci_data instruction) = None"
    and "ci_accounts instruction \<noteq> []" "indexes_ok (ci_accounts instruction) keys"
  shows "parse_associated_token E try_from_slice instruction keys = Some (Inl (InstructionNotParsable SplToken))"
  using assms by (simp add: parse_associated_token_def check_account_indexes_cases)

end
