(* ===== verification/Ui_Types.thy ===== *)
theory Ui_Types
  imports Parse_Dispatch
begin

section \<open>Client types of transaction statuses\<close>

text \<open>
  The types that transactions and their status are encoded into, and the conversions and queries of
  \<open>src/transaction-status-client-types/src/lib.rs\<close> and \<open>option_serializer.rs\<close>: the three-valued option
  of the serialized fields, the conversions of status metadata, the confirmation status of a
  transaction, and decoding of an encoded transaction.

  The string forms of signatures, base58, base64, bincode and \<open>sanitize\<close> are parameters, as are the
  questions whether an account is a signer or writable, which the message types answer: the record
  \<open>encode_env\<close>.
\<close>

subsection \<open>OptionSerializer\<close>

datatype 'a option_serializer = OSome 'a | ONone | OSkip

primrec should_skip :: "'a option_serializer \<Rightarrow> bool" where
  "should_skip (OSome _) = False"
| "should_skip ONone = False"
| "should_skip OSkip = True"

primrec or_skip :: "'a option \<Rightarrow> 'a option_serializer" where
  "or_skip (Some x) = OSome x"
| "or_skip None = OSkip"

primrec from_option :: "'a option \<Rightarrow> 'a option_serializer" where
  "from_option (Some x) = OSome x"
| "from_option None = ONone"

primrec into_option :: "'a option_serializer \<Rightarrow> 'a option" where
  "into_option (OSome x) = Some x"
| "into_option ONone = None"
| "into_option OSkip = None"

primrec os_unwrap :: "'a option_serializer \<Rightarrow> 'a option" where
  \<comment> \<open>\<open>unwrap\<close> and \<open>expect\<close>: \<open>None\<close> is the panic\<close>
  "os_unwrap (OSome x) = Some x"
| "os_unwrap ONone = None"
| "os_unwrap OSkip = None"

definition os_unwrap_or :: "'a option_serializer \<Rightarrow> 'a \<Rightarrow> 'a" where
  "os_unwrap_or x d = (case x of OSome v \<Rightarrow> v | _ \<Rightarrow> d)"

definition os_map :: "('a \<Rightarrow> 'b) \<Rightarrow> 'a option_serializer \<Rightarrow> 'b option" where
  "os_map f x = (case x of OSome v \<Rightarrow> Some (f v) | _ \<Rightarrow> None)"

definition os_map_or :: "'b \<Rightarrow> ('a \<Rightarrow> 'b) \<Rightarrow> 'a option_serializer \<Rightarrow> 'b" where
  "os_map_or d f x = (case x of OSome v \<Rightarrow> f v | _ \<Rightarrow> d)"

definition os_filter :: "('a \<Rightarrow> bool) \<Rightarrow> 'a option_serializer \<Rightarrow> 'a option_serializer" where
  "os_filter p x = (case x of OSome v \<Rightarrow> if p v then OSome v else ONone | _ \<Rightarrow> ONone)"

definition os_ok_or :: "'a option_serializer \<Rightarrow> 'e \<Rightarrow> 'e + 'a" where
  "os_ok_or x e = (case x of OSome v \<Rightarrow> Inr v | _ \<Rightarrow> Inl e)"

definition os_serialize :: "('a \<Rightarrow> json) \<Rightarrow> 'a option_serializer \<Rightarrow> json option" where
  \<comment> \<open>\<open>None\<close> is the error of a \<open>Skip\<close> that is serialized\<close>
  "os_serialize f x = (case x of OSome v \<Rightarrow> Some (f v) | ONone \<Rightarrow> Some JNull | OSkip \<Rightarrow> None)"

definition os_deserialize :: "(json \<Rightarrow> 'a option) \<Rightarrow> json \<Rightarrow> 'a option_serializer option" where
  \<comment> \<open>\<open>Option::deserialize\<close>: \<open>null\<close> is \<open>None\<close>\<close>
  "os_deserialize g v = (if v = JNull then Some ONone else map_option OSome (g v))"

definition os_field :: "('a \<Rightarrow> json) \<Rightarrow> 'a option_serializer \<Rightarrow> json option option" where
  \<comment> \<open>a field with \<open>skip_serializing_if = "OptionSerializer::should_skip"\<close>: absent, or its serialization\<close>
  "os_field f x = (if should_skip x then None else Some (os_serialize f x))"

definition os_field_read :: "(json \<Rightarrow> 'a option) \<Rightarrow> 'a option_serializer \<Rightarrow> json option \<Rightarrow> 'a option_serializer option" where
  \<comment> \<open>reading such a field, with its default when it is absent\<close>
  "os_field_read g d v = (case v of None \<Rightarrow> Some d | Some j \<Rightarrow> os_deserialize g j)"

lemma os_field_roundtrip:
  \<comment> \<open>a field whose default is \<open>Skip\<close> is read back exactly; a skipped field is never serialized, so the
      error of \<open>os_serialize\<close> does not occur\<close>
  assumes "\<And>x. g (f x) = Some x" "\<And>x. f x \<noteq> JNull"
  shows "case os_field f x of
           None \<Rightarrow> os_field_read g OSkip None = Some x
         | Some v \<Rightarrow> \<exists>j. v = Some j \<and> os_field_read g OSkip (Some j) = Some x"
  using assms by (cases x) (simp_all add: os_field_def os_serialize_def os_field_read_def os_deserialize_def)

lemma option_serializer_conversions [simp]:
  "into_option (from_option x) = x" "into_option (or_skip x) = x" "os_map id y = into_option y"
  "os_unwrap y = into_option y"
  by (cases x; simp)+ (cases y; simp add: os_map_def)+

subsection \<open>Status of a transaction\<close>

datatype confirmation = Processed | Confirmed | Finalized

record transaction_status =
  ts_slot :: u64
  ts_confirmations :: "nat option"
  ts_status :: "transaction_error + unit"
  ts_err :: "transaction_error option"
  ts_confirmation_status :: "confirmation option"

definition satisfies_commitment :: "transaction_status \<Rightarrow> confirmation \<Rightarrow> bool" where
  \<comment> \<open>the commitment is one of the three levels, as \<open>is_finalized\<close> and \<open>is_confirmed\<close> tell\<close>
  "satisfies_commitment s commitment =
     (if commitment = Finalized then ts_confirmations s = None
      else if commitment = Confirmed then
        (case ts_confirmation_status s of
           Some status \<Rightarrow> status \<noteq> Processed
         | None \<Rightarrow> (case ts_confirmations s of Some n \<Rightarrow> 1 < n | None \<Rightarrow> True))
      else True)"

definition confirmation_status :: "transaction_status \<Rightarrow> confirmation" where
  "confirmation_status s =
     (case ts_confirmation_status s of
        Some status \<Rightarrow> status
      | None \<Rightarrow> (case ts_confirmations s of None \<Rightarrow> Finalized | Some n \<Rightarrow> if 0 < n then Confirmed else Processed))"

definition status_consistent :: "transaction_status \<Rightarrow> bool" where
  \<comment> \<open>a node that reports both fields reports rooted transactions as finalized\<close>
  "status_consistent s \<longleftrightarrow>
     (\<forall>c. ts_confirmation_status s = Some c \<longrightarrow> (c = Finalized) = (ts_confirmations s = None))"

primrec level :: "confirmation \<Rightarrow> nat" where
  "level Processed = 0"
| "level Confirmed = 1"
| "level Finalized = 2"

text \<open>For a status whose two fields agree, a commitment is satisfied exactly when it is at most
  the confirmation status that the same status reports; the one exception are statuses of old
  nodes, without a confirmation status, with exactly one confirmation: they are reported as
  confirmed and do not satisfy the commitment confirmed.\<close>

theorem satisfies_commitment_iff:
  assumes "status_consistent s"
  shows "satisfies_commitment s c \<longleftrightarrow>
    level c \<le> level (confirmation_status s)
    \<and> \<not> (c = Confirmed \<and> ts_confirmation_status s = None \<and> ts_confirmations s = Some 1)"
proof (cases "ts_confirmation_status s")
  case None
  then show ?thesis
    by (cases c) (auto simp: satisfies_commitment_def confirmation_status_def split: option.split)
next
  case (Some status)
  then show ?thesis
    using assms
    by (cases c; cases status) (auto simp: satisfies_commitment_def confirmation_status_def status_consistent_def)
qed

definition old_status :: "nat option \<Rightarrow> transaction_status" where
  "old_status n = \<lparr>ts_slot = 7, ts_confirmations = n, ts_status = Inr (), ts_err = None, ts_confirmation_status = None\<rparr>"

theorem satisfies_commitment_iff_witness:
  "status_consistent (old_status (Some 1))
   \<and> \<not> satisfies_commitment (old_status (Some 1)) Confirmed \<and> confirmation_status (old_status (Some 1)) = Confirmed
   \<and> satisfies_commitment (old_status (Some 2)) Confirmed \<and> satisfies_commitment (old_status None) Finalized"
proof -
  have ok: "status_consistent (old_status n)" for n by (simp add: status_consistent_def old_status_def)
  show ?thesis
    using ok[of "Some 1"] satisfies_commitment_iff[OF ok[of "Some 1"], of Confirmed]
      satisfies_commitment_iff[OF ok[of "Some 2"], of Confirmed] satisfies_commitment_iff[OF ok[of None], of Finalized]
    by (simp add: old_status_def confirmation_status_def)
qed

subsection \<open>Encodings\<close>

datatype binary_encoding = BinBase58 | BinBase64

datatype tx_encoding = EncBinary | EncBase64 | EncBase58 | EncJson | EncJsonParsed

definition into_binary_encoding :: "tx_encoding \<Rightarrow> binary_encoding option" where
  "into_binary_encoding e =
     (case e of EncBinary \<Rightarrow> Some BinBase58 | EncBase58 \<Rightarrow> Some BinBase58 | EncBase64 \<Rightarrow> Some BinBase64 | _ \<Rightarrow> None)"

datatype details = DetailsFull | DetailsSignatures | DetailsNone | DetailsAccounts

datatype encode_error = UnsupportedTransactionVersion u8

datatype tx_version = VersionLegacy | VersionNumber u8

record ('sig, 'pk, 'h, 'v, 'c) encode_env = "('pk, 'h, 'v, 'c) program_env" +
  signature_string :: "'sig \<Rightarrow> string"
  bs58_encode :: "bytes \<Rightarrow> string"
  bs58_decode :: "string \<Rightarrow> bytes option"
  base64_decode :: "string \<Rightarrow> bytes option"
  serialize_versioned :: "('sig, 'pk, 'h) versioned_transaction \<Rightarrow> bytes option"
  serialize_legacy :: "('sig, 'pk, 'h) legacy_transaction \<Rightarrow> bytes option"
  deserialize_versioned :: "bytes \<Rightarrow> ('sig, 'pk, 'h) versioned_transaction option"
  sanitize_ok :: "('sig, 'pk, 'h) versioned_transaction \<Rightarrow> bool"
  legacy_is_signer :: "('pk, 'h) legacy_message \<Rightarrow> nat \<Rightarrow> bool"
  legacy_is_maybe_writable :: "('pk, 'h) legacy_message \<Rightarrow> nat \<Rightarrow> bool"
  loaded_is_signer :: "('pk, 'h) v0_message \<Rightarrow> 'pk loaded_addresses \<Rightarrow> nat \<Rightarrow> bool"
  loaded_is_writable :: "bool \<Rightarrow> ('pk, 'h) v0_message \<Rightarrow> 'pk loaded_addresses \<Rightarrow> nat \<Rightarrow> bool"
    \<comment> \<open>with all reserved keys active, or none\<close>

subsection \<open>Messages and instructions\<close>

datatype account_source = FromTransaction | FromLookupTable

record parsed_account =
  pa_pubkey :: string
  pa_writable :: bool
  pa_signer :: bool
  pa_source :: "account_source option"

record ui_lookup =
  ul_account_key :: string
  ul_writable_indexes :: bytes
  ul_readonly_indexes :: bytes

definition ui_lookup_from :: "('pk, 'h, 'v, 'm) show_env_scheme \<Rightarrow> 'pk address_table_lookup \<Rightarrow> ui_lookup" where
  "ui_lookup_from E l =
     \<lparr>ul_account_key = pubkey_string E (atl_account_key l), ul_writable_indexes = atl_writable_indexes l,
      ul_readonly_indexes = atl_readonly_indexes l\<rparr>"

record ui_compiled_instruction =
  uci_program_id_index :: u8
  uci_accounts :: bytes
  uci_data :: string
  uci_stack_height :: "u32 option"

definition ui_compiled_instruction_from ::
  "('sig, 'pk, 'h, 'v, 'c) encode_env \<Rightarrow> compiled_instruction \<Rightarrow> u32 option \<Rightarrow> ui_compiled_instruction" where
  "ui_compiled_instruction_from E i stack_height =
     \<lparr>uci_program_id_index = ci_program_id_index i, uci_accounts = ci_accounts i,
      uci_data = bs58_encode E (ci_data i), uci_stack_height = stack_height\<rparr>"

record partially_decoded =
  pd_program_id :: string
  pd_accounts :: "string list"
  pd_data :: string
  pd_stack_height :: "u32 option"

datatype ui_instruction = UiCompiled ui_compiled_instruction | UiParsed parsed_instruction | UiPartiallyDecoded partially_decoded

record ui_inner_instructions =
  uii_index :: u8
  uii_instructions :: "ui_instruction list"

definition ui_inner_instructions_from :: "('sig, 'pk, 'h, 'v, 'c) encode_env \<Rightarrow> inner_instructions \<Rightarrow> ui_inner_instructions" where
  "ui_inner_instructions_from E is =
     \<lparr>uii_index = iis_index is,
      uii_instructions =
        map (\<lambda>i. UiCompiled (ui_compiled_instruction_from E (ii_instruction i) (ii_stack_height i))) (iis_instructions is)\<rparr>"

record ui_raw_message =
  urm_header :: message_header
  urm_account_keys :: "string list"
  urm_recent_blockhash :: string
  urm_instructions :: "ui_compiled_instruction list"
  urm_address_table_lookups :: "ui_lookup list option"

record ui_parsed_message =
  upm_account_keys :: "parsed_account list"
  upm_recent_blockhash :: string
  upm_instructions :: "ui_instruction list"
  upm_address_table_lookups :: "ui_lookup list option"

datatype ui_message = UiParsedMessage ui_parsed_message | UiRawMessage ui_raw_message

record ui_transaction =
  ut_signatures :: "string list"
  ut_message :: ui_message

record ui_accounts_list =
  ual_signatures :: "string list"
  ual_account_keys :: "parsed_account list"

datatype encoded_transaction =
  EncodedLegacyBinary string | EncodedBinary string binary_encoding | EncodedJson ui_transaction
  | EncodedAccounts ui_accounts_list

fun encoded_transaction_decode ::
  "('sig, 'pk, 'h, 'v, 'c) encode_env \<Rightarrow> encoded_transaction \<Rightarrow> ('sig, 'pk, 'h) versioned_transaction option" where
  "encoded_transaction_decode E t =
     (let blob = (case t of EncodedJson _ \<Rightarrow> None | EncodedAccounts _ \<Rightarrow> None
                  | EncodedLegacyBinary b \<Rightarrow> Some (b, BinBase58) | EncodedBinary b e \<Rightarrow> Some (b, e))
      in Option.bind blob (\<lambda>(b, e).
           Option.bind (case e of
               BinBase58 \<Rightarrow> Option.bind (bs58_decode E b) (deserialize_versioned E)
             | BinBase64 \<Rightarrow> Option.bind (base64_decode E b) (deserialize_versioned E)) (\<lambda>tx.
           if sanitize_ok E tx then Some tx else None)))"

subsection \<open>Status metadata\<close>

record ui_token_balance =
  utb_account_index :: u8
  utb_mint :: string
  utb_ui_token_amount :: ui_token_amount
  utb_owner :: "string option_serializer"
  utb_program_id :: "string option_serializer"

definition ui_token_balance_from :: "token_balance \<Rightarrow> ui_token_balance" where
  "ui_token_balance_from b =
     \<lparr>utb_account_index = tb_account_index b, utb_mint = tb_mint b, utb_ui_token_amount = tb_ui_token_amount b,
      utb_owner = (if tb_owner b \<noteq> '''' then OSome (tb_owner b) else OSkip),
      utb_program_id = (if tb_program_id b \<noteq> '''' then OSome (tb_program_id b) else OSkip)\<rparr>"

record ui_loaded_addresses =
  ula_writable :: "string list"
  ula_readonly :: "string list"

definition ui_loaded_addresses_from :: "('pk, 'h, 'v, 'm) show_env_scheme \<Rightarrow> 'pk loaded_addresses \<Rightarrow> ui_loaded_addresses" where
  "ui_loaded_addresses_from E l =
     \<lparr>ula_writable = map (pubkey_string E) (la_writable l), ula_readonly = map (pubkey_string E) (la_readonly l)\<rparr>"

record ui_return_data =
  urd_program_id :: string
  urd_data :: string \<comment> \<open>always tagged as base64\<close>

definition ui_return_data_from :: "('pk, 'h, 'v, 'm) show_env_scheme \<Rightarrow> 'pk tx_return_data \<Rightarrow> ui_return_data" where
  "ui_return_data_from E r = \<lparr>urd_program_id = pubkey_string E (rd_program_id r), urd_data = base64_encode E (rd_data r)\<rparr>"

record ui_status_meta =
  um_err :: "transaction_error option"
  um_status :: "transaction_error + unit"
  um_fee :: u64
  um_pre_balances :: "u64 list"
  um_post_balances :: "u64 list"
  um_inner_instructions :: "ui_inner_instructions list option_serializer"
  um_log_messages :: "string list option_serializer"
  um_pre_token_balances :: "ui_token_balance list option_serializer"
  um_post_token_balances :: "ui_token_balance list option_serializer"
  um_rewards :: "reward list option_serializer"
  um_loaded_addresses :: "ui_loaded_addresses option_serializer"
  um_return_data :: "ui_return_data option_serializer"
  um_compute_units_consumed :: "u64 option_serializer"
  um_cost_units :: "u64 option_serializer"

definition result_err :: "'e + 'a \<Rightarrow> 'e option" where
  "result_err r = (case r of Inl e \<Rightarrow> Some e | Inr _ \<Rightarrow> None)"

definition ui_status_meta_from :: "('sig, 'pk, 'h, 'v, 'c) encode_env \<Rightarrow> 'pk status_meta \<Rightarrow> ui_status_meta" where
  "ui_status_meta_from E m =
     \<lparr>um_err = result_err (sm_status m), um_status = sm_status m, um_fee = sm_fee m,
      um_pre_balances = sm_pre_balances m, um_post_balances = sm_post_balances m,
      um_inner_instructions = from_option (map_option (map (ui_inner_instructions_from E)) (sm_inner_instructions m)),
      um_log_messages = from_option (sm_log_messages m),
      um_pre_token_balances = from_option (map_option (map ui_token_balance_from) (sm_pre_token_balances m)),
      um_post_token_balances = from_option (map_option (map ui_token_balance_from) (sm_post_token_balances m)),
      um_rewards = from_option (sm_rewards m),
      um_loaded_addresses = from_option (Some (ui_loaded_addresses_from E (sm_loaded_addresses m))),
      um_return_data = or_skip (map_option (ui_return_data_from E) (sm_return_data m)),
      um_compute_units_consumed = or_skip (sm_compute_units_consumed m),
      um_cost_units = or_skip (sm_cost_units m)\<rparr>"

record encoded_tx_with_meta =
  et_transaction :: encoded_transaction
  et_meta :: "ui_status_meta option"
  et_version :: "tx_version option"

record ui_confirmed_block =
  ub_previous_blockhash :: string
  ub_blockhash :: string
  ub_parent_slot :: u64
  ub_transactions :: "encoded_tx_with_meta list option"
  ub_signatures :: "string list option"
  ub_rewards :: "reward list option"
  ub_num_reward_partitions :: "u64 option"
  ub_block_time :: "int option"
  ub_block_height :: "u64 option"

definition encoded_confirmed_block_from :: "ui_confirmed_block \<Rightarrow> encoded_tx_with_meta confirmed_block" where
  "encoded_confirmed_block_from b =
     \<lparr>cb_previous_blockhash = ub_previous_blockhash b, cb_blockhash = ub_blockhash b, cb_parent_slot = ub_parent_slot b,
      cb_transactions = (case ub_transactions b of Some ts \<Rightarrow> ts | None \<Rightarrow> []),
      cb_rewards = (case ub_rewards b of Some rs \<Rightarrow> rs | None \<Rightarrow> []),
      cb_num_partitions = ub_num_reward_partitions b, cb_block_time = ub_block_time b, cb_block_height = ub_block_height b\<rparr>"

end
