(* ===== verification/Tx_Encode.thy ===== *)
theory Tx_Encode
  imports Ui_Types
begin

section \<open>Encoding transactions and blocks\<close>

text \<open>
  The encoders of \<open>src/transaction-status/src/lib.rs\<close> with \<open>parse_accounts.rs\<close>: an instruction is parsed or,
  when its program cannot be parsed, decoded partially; messages are encoded raw or parsed; a
  transaction with its metadata is checked for its version and encoded; a block is encoded with the
  details asked for.

  Indexing account keys panics when the index is out of range, and so does \<open>bincode::serialize(..).unwrap()\<close>
  when it fails: \<open>None\<close>.  \<open>AccountKeys\<close> are the static keys, then the loaded writable and then the loaded
  readonly ones.  The string of a recent blockhash is \<open>hash_string\<close>.
\<close>

definition account_keys_new :: "'pk list \<Rightarrow> 'pk loaded_addresses option \<Rightarrow> 'pk list" where
  "account_keys_new static loaded =
     static @ (case loaded of None \<Rightarrow> [] | Some l \<Rightarrow> la_writable l @ la_readonly l)"

definition transaction_level_stack_height :: u32 where
  "transaction_level_stack_height = 1"

subsection \<open>Instructions\<close>

definition make_ui_partially_decoded_instruction ::
  "('sig, 'pk, 'h, 'v, 'c) encode_env \<Rightarrow> compiled_instruction \<Rightarrow> 'pk list \<Rightarrow> u32 option \<Rightarrow> partially_decoded option" where
  "make_ui_partially_decoded_instruction E i keys stack_height =
     Option.bind (slice_get keys (unat (ci_program_id_index i))) (\<lambda>program_id.
     Option.bind (collect_somes (map (key_string E keys) (ci_accounts i))) (\<lambda>accounts.
     Some \<lparr>pd_program_id = pubkey_string E program_id, pd_accounts = accounts,
           pd_data = bs58_encode E (ci_data i), pd_stack_height = stack_height\<rparr>))"

definition parse_ui_instruction ::
  "('sig, 'pk, 'h, 'v, 'c) encode_env \<Rightarrow> compiled_instruction \<Rightarrow> 'pk list \<Rightarrow> u32 option \<Rightarrow> ui_instruction option" where
  "parse_ui_instruction E i keys stack_height =
     Option.bind (slice_get keys (unat (ci_program_id_index i))) (\<lambda>program_id.
     case parse E program_id i keys stack_height of
       None \<Rightarrow> None
     | Some (Inr p) \<Rightarrow> Some (UiParsed p)
     | Some (Inl _) \<Rightarrow> map_option UiPartiallyDecoded (make_ui_partially_decoded_instruction E i keys stack_height))"

definition map_inner_instructions :: "(u8 \<times> compiled_instruction) list list \<Rightarrow> inner_instructions list" where
  \<comment> \<open>an inner instruction comes with its stack height, a \<open>u8\<close>\<close>
  "map_inner_instructions inner =
     filter (\<lambda>i. iis_instructions i \<noteq> [])
       (map (\<lambda>(index, is). \<lparr>iis_index = word_of_nat index,
              iis_instructions = map (\<lambda>(h, i). \<lparr>ii_instruction = i, ii_stack_height = Some (ucast h)\<rparr>) is\<rparr>)
         (enumerate 0 inner))"

definition parse_ui_inner_instructions ::
  "('sig, 'pk, 'h, 'v, 'c) encode_env \<Rightarrow> inner_instructions \<Rightarrow> 'pk list \<Rightarrow> ui_inner_instructions option" where
  "parse_ui_inner_instructions E is keys =
     map_option (\<lambda>us. \<lparr>uii_index = iis_index is, uii_instructions = us\<rparr>)
       (collect_somes (map (\<lambda>i. parse_ui_instruction E (ii_instruction i) keys (ii_stack_height i)) (iis_instructions is)))"

subsection \<open>Status metadata\<close>

definition build_simple_ui_transaction_status_meta :: "'pk status_meta \<Rightarrow> bool \<Rightarrow> ui_status_meta" where
  "build_simple_ui_transaction_status_meta m show_rewards =
     \<lparr>um_err = result_err (sm_status m), um_status = sm_status m, um_fee = sm_fee m,
      um_pre_balances = sm_pre_balances m, um_post_balances = sm_post_balances m,
      um_inner_instructions = OSkip, um_log_messages = OSkip,
      um_pre_token_balances = from_option (map_option (map ui_token_balance_from) (sm_pre_token_balances m)),
      um_post_token_balances = from_option (map_option (map ui_token_balance_from) (sm_post_token_balances m)),
      um_rewards = (if show_rewards then from_option (sm_rewards m) else OSkip),
      um_loaded_addresses = OSkip, um_return_data = OSkip, um_compute_units_consumed = OSkip, um_cost_units = OSkip\<rparr>"

definition parse_ui_transaction_status_meta ::
  "('sig, 'pk, 'h, 'v, 'c) encode_env \<Rightarrow> 'pk status_meta \<Rightarrow> 'pk list \<Rightarrow> bool \<Rightarrow> ui_status_meta option" where
  "parse_ui_transaction_status_meta E m static_keys show_rewards =
     (let keys = account_keys_new static_keys (Some (sm_loaded_addresses m))
      in Option.bind (case sm_inner_instructions m of
             None \<Rightarrow> Some None
           | Some ixs \<Rightarrow> map_option Some (collect_somes (map (\<lambda>ix. parse_ui_inner_instructions E ix keys) ixs))) (\<lambda>inner.
         Some
          \<lparr>um_err = result_err (sm_status m), um_status = sm_status m, um_fee = sm_fee m,
           um_pre_balances = sm_pre_balances m, um_post_balances = sm_post_balances m,
           um_inner_instructions = from_option inner,
           um_log_messages = from_option (sm_log_messages m),
           um_pre_token_balances = from_option (map_option (map ui_token_balance_from) (sm_pre_token_balances m)),
           um_post_token_balances = from_option (map_option (map ui_token_balance_from) (sm_post_token_balances m)),
           um_rewards = from_option (if show_rewards then sm_rewards m else None),
           um_loaded_addresses = OSkip,
           um_return_data = or_skip (map_option (ui_return_data_from E) (sm_return_data m)),
           um_compute_units_consumed = or_skip (sm_compute_units_consumed m),
           um_cost_units = or_skip (sm_cost_units m)\<rparr>))"

subsection \<open>Accounts of a message\<close>

definition parse_legacy_message_accounts :: "('sig, 'pk, 'h, 'v, 'c) encode_env \<Rightarrow> ('pk, 'h) legacy_message \<Rightarrow> parsed_account list" where
  "parse_legacy_message_accounts E m =
     map (\<lambda>(i, k). \<lparr>pa_pubkey = pubkey_string E k, pa_writable = legacy_is_maybe_writable E m i,
                    pa_signer = legacy_is_signer E m i, pa_source = Some FromTransaction\<rparr>)
       (enumerate 0 (lm_account_keys m))"

definition parse_v0_message_accounts ::
  "('sig, 'pk, 'h, 'v, 'c) encode_env \<Rightarrow> bool \<Rightarrow> ('pk, 'h) v0_message \<Rightarrow> 'pk loaded_addresses \<Rightarrow> parsed_account list" where
  \<comment> \<open>for a \<open>LoadedMessage\<close>: the message, its loaded addresses and whether the reserved keys are active\<close>
  "parse_v0_message_accounts E reserved m loaded =
     map (\<lambda>(i, k). \<lparr>pa_pubkey = pubkey_string E k, pa_writable = loaded_is_writable E reserved m loaded i,
                    pa_signer = loaded_is_signer E m loaded i,
                    pa_source = Some (if i < length (v0_account_keys m) then FromTransaction else FromLookupTable)\<rparr>)
       (enumerate 0 (account_keys_new (v0_account_keys m) (Some loaded)))"

subsection \<open>Messages\<close>

definition parsed_instructions ::
  "('sig, 'pk, 'h, 'v, 'c) encode_env \<Rightarrow> compiled_instruction list \<Rightarrow> 'pk list \<Rightarrow> ui_instruction list option" where
  "parsed_instructions E is keys =
     collect_somes (map (\<lambda>i. parse_ui_instruction E i keys (Some transaction_level_stack_height)) is)"

definition raw_instructions :: "('sig, 'pk, 'h, 'v, 'c) encode_env \<Rightarrow> compiled_instruction list \<Rightarrow> ui_compiled_instruction list" where
  "raw_instructions E is = map (\<lambda>i. ui_compiled_instruction_from E i (Some transaction_level_stack_height)) is"

definition legacy_message_encode ::
  "('sig, 'pk, 'h, 'v, 'c) encode_env \<Rightarrow> tx_encoding \<Rightarrow> ('pk, 'h) legacy_message \<Rightarrow> ui_message option" where
  "legacy_message_encode E encoding m =
     (if encoding = EncJsonParsed
      then map_option (\<lambda>is. UiParsedMessage
             \<lparr>upm_account_keys = parse_legacy_message_accounts E m,
              upm_recent_blockhash = hash_string E (lm_recent_blockhash m),
              upm_instructions = is, upm_address_table_lookups = None\<rparr>)
             (parsed_instructions E (lm_instructions m) (account_keys_new (lm_account_keys m) None))
      else Some (UiRawMessage
             \<lparr>urm_header = lm_header m, urm_account_keys = map (pubkey_string E) (lm_account_keys m),
              urm_recent_blockhash = hash_string E (lm_recent_blockhash m),
              urm_instructions = raw_instructions E (lm_instructions m), urm_address_table_lookups = None\<rparr>))"

definition v0_message_encode ::
  "('sig, 'pk, 'h, 'v, 'c) encode_env \<Rightarrow> tx_encoding \<Rightarrow> ('pk, 'h) v0_message \<Rightarrow> ui_message option" where
  \<comment> \<open>without metadata: no loaded addresses, no reserved keys and no lookups\<close>
  "v0_message_encode E encoding m =
     (if encoding = EncJsonParsed
      then map_option (\<lambda>is. UiParsedMessage
             \<lparr>upm_account_keys = parse_v0_message_accounts E False m \<lparr>la_writable = [], la_readonly = []\<rparr>,
              upm_recent_blockhash = hash_string E (v0_recent_blockhash m),
              upm_instructions = is, upm_address_table_lookups = None\<rparr>)
             (parsed_instructions E (v0_instructions m) (account_keys_new (v0_account_keys m) None))
      else Some (UiRawMessage
             \<lparr>urm_header = v0_header m, urm_account_keys = map (pubkey_string E) (v0_account_keys m),
              urm_recent_blockhash = hash_string E (v0_recent_blockhash m),
              urm_instructions = raw_instructions E (v0_instructions m), urm_address_table_lookups = None\<rparr>))"

definition v0_message_json_encode :: "('sig, 'pk, 'h, 'v, 'c) encode_env \<Rightarrow> ('pk, 'h) v0_message \<Rightarrow> ui_message" where
  "v0_message_json_encode E m =
     UiRawMessage
       \<lparr>urm_header = v0_header m, urm_account_keys = map (pubkey_string E) (v0_account_keys m),
        urm_recent_blockhash = hash_string E (v0_recent_blockhash m),
        urm_instructions = raw_instructions E (v0_instructions m),
        urm_address_table_lookups = Some (map (ui_lookup_from E) (v0_address_table_lookups m))\<rparr>"

definition v0_message_encode_with_meta ::
  "('sig, 'pk, 'h, 'v, 'c) encode_env \<Rightarrow> tx_encoding \<Rightarrow> 'pk status_meta \<Rightarrow> ('pk, 'h) v0_message \<Rightarrow> ui_message option" where
  "v0_message_encode_with_meta E encoding meta m =
     (if encoding = EncJsonParsed
      then map_option (\<lambda>is. UiParsedMessage
             \<lparr>upm_account_keys = parse_v0_message_accounts E True m (sm_loaded_addresses meta),
              upm_recent_blockhash = hash_string E (v0_recent_blockhash m),
              upm_instructions = is,
              upm_address_table_lookups = Some (map (ui_lookup_from E) (v0_address_table_lookups m))\<rparr>)
             (parsed_instructions E (v0_instructions m)
               (account_keys_new (v0_account_keys m) (Some (sm_loaded_addresses meta))))
      else Some (v0_message_json_encode E m))"

subsection \<open>Transactions\<close>

definition binary_transaction :: "('sig, 'pk, 'h, 'v, 'c) encode_env \<Rightarrow> bytes option \<Rightarrow> tx_encoding \<Rightarrow> encoded_transaction option" where
  \<comment> \<open>the three binary encodings of the serialized transaction; the \<open>unwrap\<close> may panic\<close>
  "binary_transaction E serialized encoding =
     map_option (\<lambda>b. case encoding of
         EncBinary \<Rightarrow> EncodedLegacyBinary (bs58_encode E b)
       | EncBase58 \<Rightarrow> EncodedBinary (bs58_encode E b) BinBase58
       | _ \<Rightarrow> EncodedBinary (base64_encode E b) BinBase64) serialized"

definition json_transaction :: "('sig, 'pk, 'h, 'v, 'c) encode_env \<Rightarrow> 'sig list \<Rightarrow> ui_message option \<Rightarrow> encoded_transaction option" where
  "json_transaction E signatures message =
     map_option (\<lambda>m. EncodedJson \<lparr>ut_signatures = map (signature_string E) signatures, ut_message = m\<rparr>) message"

definition transaction_json_encode :: "('sig, 'pk, 'h, 'v, 'c) encode_env \<Rightarrow> ('sig, 'pk, 'h) versioned_transaction \<Rightarrow> encoded_transaction option" where
  "transaction_json_encode E t =
     json_transaction E (vt_signatures t)
       (case vt_message t of Legacy m \<Rightarrow> legacy_message_encode E EncJson m | V0 m \<Rightarrow> Some (v0_message_json_encode E m))"

definition transaction_encode_with_meta ::
  "('sig, 'pk, 'h, 'v, 'c) encode_env \<Rightarrow> tx_encoding \<Rightarrow> 'pk status_meta \<Rightarrow> ('sig, 'pk, 'h) versioned_transaction \<Rightarrow> encoded_transaction option" where
  "transaction_encode_with_meta E encoding meta t =
     (case encoding of
        EncJson \<Rightarrow> transaction_json_encode E t
      | EncJsonParsed \<Rightarrow>
          json_transaction E (vt_signatures t)
            (case vt_message t of
               Legacy m \<Rightarrow> legacy_message_encode E EncJsonParsed m
             | V0 m \<Rightarrow> v0_message_encode_with_meta E EncJsonParsed meta m)
      | _ \<Rightarrow> binary_transaction E (serialize_versioned E t) encoding)"

definition versioned_transaction_encode ::
  "('sig, 'pk, 'h, 'v, 'c) encode_env \<Rightarrow> tx_encoding \<Rightarrow> ('sig, 'pk, 'h) versioned_transaction \<Rightarrow> encoded_transaction option" where
  "versioned_transaction_encode E encoding t =
     (if encoding = EncJson \<or> encoding = EncJsonParsed
      then json_transaction E (vt_signatures t)
             (case vt_message t of
                Legacy m \<Rightarrow> legacy_message_encode E EncJsonParsed m
              | V0 m \<Rightarrow> v0_message_encode E EncJsonParsed m)
      else binary_transaction E (serialize_versioned E t) encoding)"

definition legacy_transaction_encode ::
  "('sig, 'pk, 'h, 'v, 'c) encode_env \<Rightarrow> tx_encoding \<Rightarrow> ('sig, 'pk, 'h) legacy_transaction \<Rightarrow> encoded_transaction option" where
  "legacy_transaction_encode E encoding t =
     (if encoding = EncJson \<or> encoding = EncJsonParsed
      then json_transaction E (lt_signatures t) (legacy_message_encode E encoding (lt_message t))
      else binary_transaction E (serialize_legacy E t) encoding)"

definition legacy_build_json_accounts :: "('sig, 'pk, 'h, 'v, 'c) encode_env \<Rightarrow> ('sig, 'pk, 'h) legacy_transaction \<Rightarrow> encoded_transaction" where
  "legacy_build_json_accounts E t =
     EncodedAccounts \<lparr>ual_signatures = map (signature_string E) (lt_signatures t),
                      ual_account_keys = parse_legacy_message_accounts E (lt_message t)\<rparr>"

subsection \<open>Transactions with metadata\<close>

definition message_static_keys :: "('pk, 'h) versioned_message \<Rightarrow> 'pk list" where
  "message_static_keys m = (case m of Legacy l \<Rightarrow> lm_account_keys l | V0 v \<Rightarrow> v0_account_keys v)"

definition message_instructions :: "('pk, 'h) versioned_message \<Rightarrow> compiled_instruction list" where
  "message_instructions m = (case m of Legacy l \<Rightarrow> lm_instructions l | V0 v \<Rightarrow> v0_instructions v)"

definition transaction_version :: "('sig, 'pk, 'h) versioned_transaction \<Rightarrow> tx_version" where
  "transaction_version t = (case vt_message t of Legacy _ \<Rightarrow> VersionLegacy | V0 _ \<Rightarrow> VersionNumber 0)"

definition validate_version ::
  "('sig, 'pk, 'h) versioned_tx_with_meta \<Rightarrow> u8 option \<Rightarrow> encode_error + tx_version option" where
  "validate_version v max_supported =
     (case (max_supported, transaction_version (vm_transaction v)) of
        (None, VersionLegacy) \<Rightarrow> Inr None
      | (None, VersionNumber version) \<Rightarrow> Inl (UnsupportedTransactionVersion version)
      | (Some _, VersionLegacy) \<Rightarrow> Inr (Some VersionLegacy)
      | (Some max_version, VersionNumber version) \<Rightarrow>
          if version \<le> max_version then Inr (Some (VersionNumber version))
          else Inl (UnsupportedTransactionVersion version))"

definition vm_account_keys :: "('sig, 'pk, 'h) versioned_tx_with_meta \<Rightarrow> 'pk list" where
  "vm_account_keys v = account_keys_new (message_static_keys (vt_message (vm_transaction v))) (Some (sm_loaded_addresses (vm_meta v)))"

definition versioned_encode ::
  "('sig, 'pk, 'h, 'v, 'c) encode_env \<Rightarrow> tx_encoding \<Rightarrow> u8 option \<Rightarrow> bool \<Rightarrow> ('sig, 'pk, 'h) versioned_tx_with_meta \<Rightarrow>
     (encode_error + encoded_tx_with_meta) option" where
  "versioned_encode E encoding max_supported show_rewards v =
     bind_step (Some (validate_version v max_supported)) (\<lambda>version.
     bind_step (expect (transaction_encode_with_meta E encoding (vm_meta v) (vm_transaction v))) (\<lambda>transaction.
     bind_step (expect
        (if encoding = EncJsonParsed
         then parse_ui_transaction_status_meta E (vm_meta v) (message_static_keys (vt_message (vm_transaction v))) show_rewards
         else let meta = ui_status_meta_from E (vm_meta v)
              in Some (if \<not> show_rewards then meta\<lparr>um_rewards := ONone\<rparr> else meta))) (\<lambda>meta.
     Some (Inr \<lparr>et_transaction = transaction, et_meta = Some meta, et_version = version\<rparr>))))"

definition versioned_build_json_accounts ::
  "('sig, 'pk, 'h, 'v, 'c) encode_env \<Rightarrow> u8 option \<Rightarrow> bool \<Rightarrow> ('sig, 'pk, 'h) versioned_tx_with_meta \<Rightarrow> encode_error + encoded_tx_with_meta" where
  "versioned_build_json_accounts E max_supported show_rewards v =
     and_then (validate_version v max_supported) (\<lambda>version.
       let keys = (case vt_message (vm_transaction v) of
                     Legacy m \<Rightarrow> parse_legacy_message_accounts E m
                   | V0 m \<Rightarrow> parse_v0_message_accounts E True m (sm_loaded_addresses (vm_meta v)))
       in Inr \<lparr>et_transaction = EncodedAccounts
                 \<lparr>ual_signatures = map (signature_string E) (vt_signatures (vm_transaction v)), ual_account_keys = keys\<rparr>,
               et_meta = Some (build_simple_ui_transaction_status_meta (vm_meta v) show_rewards),
               et_version = version\<rparr>)"

fun get_status_meta :: "('sig, 'pk, 'h) tx_with_meta \<Rightarrow> 'pk status_meta option" where
  "get_status_meta (MissingMetadata _) = None"
| "get_status_meta (Complete v) = Some (vm_meta v)"

fun get_transaction :: "('sig, 'pk, 'h) tx_with_meta \<Rightarrow> ('sig, 'pk, 'h) versioned_transaction" where
  "get_transaction (MissingMetadata t) = \<lparr>vt_signatures = lt_signatures t, vt_message = Legacy (lt_message t)\<rparr>"
| "get_transaction (Complete v) = vm_transaction v"

fun transaction_signature :: "('sig, 'pk, 'h) tx_with_meta \<Rightarrow> 'sig option" where
  \<comment> \<open>\<open>signatures[0]\<close>: \<open>None\<close> is the panic\<close>
  "transaction_signature (MissingMetadata t) = slice_get (lt_signatures t) 0"
| "transaction_signature (Complete v) = slice_get (vt_signatures (vm_transaction v)) 0"

fun tx_account_keys :: "('sig, 'pk, 'h) tx_with_meta \<Rightarrow> 'pk list" where
  "tx_account_keys (MissingMetadata t) = account_keys_new (lm_account_keys (lt_message t)) None"
| "tx_account_keys (Complete v) = vm_account_keys v"

fun tx_encode ::
  "('sig, 'pk, 'h, 'v, 'c) encode_env \<Rightarrow> tx_encoding \<Rightarrow> u8 option \<Rightarrow> bool \<Rightarrow> ('sig, 'pk, 'h) tx_with_meta \<Rightarrow>
     (encode_error + encoded_tx_with_meta) option" where
  "tx_encode E encoding max_supported show_rewards (MissingMetadata t) =
     bind_step (expect (legacy_transaction_encode E encoding t)) (\<lambda>transaction.
     Some (Inr \<lparr>et_transaction = transaction, et_meta = None, et_version = None\<rparr>))"
| "tx_encode E encoding max_supported show_rewards (Complete v) = versioned_encode E encoding max_supported show_rewards v"

fun tx_build_json_accounts ::
  "('sig, 'pk, 'h, 'v, 'c) encode_env \<Rightarrow> u8 option \<Rightarrow> bool \<Rightarrow> ('sig, 'pk, 'h) tx_with_meta \<Rightarrow> encode_error + encoded_tx_with_meta" where
  "tx_build_json_accounts E max_supported show_rewards (MissingMetadata t) =
     Inr \<lparr>et_transaction = legacy_build_json_accounts E t, et_meta = None, et_version = None\<rparr>"
| "tx_build_json_accounts E max_supported show_rewards (Complete v) = versioned_build_json_accounts E max_supported show_rewards v"

record ('sig, 'pk, 'h) confirmed_tx =
  ct_slot :: u64
  ct_tx_with_meta :: "('sig, 'pk, 'h) tx_with_meta"
  ct_block_time :: "int option"

definition confirmed_tx_encode ::
  "('sig, 'pk, 'h, 'v, 'c) encode_env \<Rightarrow> tx_encoding \<Rightarrow> u8 option \<Rightarrow> ('sig, 'pk, 'h) confirmed_tx \<Rightarrow>
     (encode_error + (u64 \<times> encoded_tx_with_meta \<times> int option)) option" where
  "confirmed_tx_encode E encoding max_supported c =
     bind_step (tx_encode E encoding max_supported True (ct_tx_with_meta c)) (\<lambda>t.
     Some (Inr (ct_slot c, t, ct_block_time c)))"

subsection \<open>Blocks\<close>

definition block_from_versioned ::
  "('sig, 'pk, 'h) versioned_tx_with_meta confirmed_block \<Rightarrow> ('sig, 'pk, 'h) tx_with_meta confirmed_block" where
  "block_from_versioned b =
     \<lparr>cb_previous_blockhash = cb_previous_blockhash b, cb_blockhash = cb_blockhash b, cb_parent_slot = cb_parent_slot b,
      cb_transactions = map Complete (cb_transactions b), cb_rewards = cb_rewards b,
      cb_num_partitions = cb_num_partitions b, cb_block_time = cb_block_time b, cb_block_height = cb_block_height b\<rparr>"

datatype convert_block_error = TransactionsMissing nat nat

definition complete_tx :: "('sig, 'pk, 'h) tx_with_meta \<Rightarrow> ('sig, 'pk, 'h) versioned_tx_with_meta option" where
  "complete_tx t = (case t of MissingMetadata _ \<Rightarrow> None | Complete v \<Rightarrow> Some v)"

definition versioned_block_try_from ::
  "('sig, 'pk, 'h) tx_with_meta confirmed_block \<Rightarrow> convert_block_error + ('sig, 'pk, 'h) versioned_tx_with_meta confirmed_block" where
  "versioned_block_try_from b =
     (let expected = length (cb_transactions b);
          txs = List.map_filter complete_tx (cb_transactions b)
      in if length txs \<noteq> expected then Inl (TransactionsMissing expected (length txs))
         else Inr \<lparr>cb_previous_blockhash = cb_previous_blockhash b, cb_blockhash = cb_blockhash b,
                   cb_parent_slot = cb_parent_slot b, cb_transactions = txs, cb_rewards = cb_rewards b,
                   cb_num_partitions = cb_num_partitions b, cb_block_time = cb_block_time b,
                   cb_block_height = cb_block_height b\<rparr>)"

record encoding_options =
  eo_transaction_details :: details
  eo_show_rewards :: bool
  eo_max_supported_transaction_version :: "u8 option"

definition encode_with_options ::
  "('sig, 'pk, 'h, 'v, 'c) encode_env \<Rightarrow> tx_encoding \<Rightarrow> encoding_options \<Rightarrow> ('sig, 'pk, 'h) tx_with_meta confirmed_block \<Rightarrow>
     (encode_error + ui_confirmed_block) option" where
  "encode_with_options E encoding options b =
     (let max_supported = eo_max_supported_transaction_version options; show_rewards = eo_show_rewards options
      in bind_step
        (case eo_transaction_details options of
           DetailsFull \<Rightarrow>
             bind_step (collect_steps (map (tx_encode E encoding max_supported show_rewards) (cb_transactions b)))
               (\<lambda>ts. Some (Inr (Some ts, None)))
         | DetailsSignatures \<Rightarrow>
             bind_step (expect (collect_somes (map transaction_signature (cb_transactions b))))
               (\<lambda>ss. Some (Inr (None, Some (map (signature_string E) ss))))
         | DetailsNone \<Rightarrow> Some (Inr (None, None))
         | DetailsAccounts \<Rightarrow>
             bind_step (Some (collect_results (map (tx_build_json_accounts E max_supported show_rewards) (cb_transactions b))))
               (\<lambda>ts. Some (Inr (Some ts, None)))) (\<lambda>(transactions, signatures).
        Some (Inr \<lparr>ub_previous_blockhash = cb_previous_blockhash b, ub_blockhash = cb_blockhash b,
                   ub_parent_slot = cb_parent_slot b, ub_transactions = transactions, ub_signatures = signatures,
                   ub_rewards = (if show_rewards then Some (cb_rewards b) else None),
                   ub_num_reward_partitions = cb_num_partitions b, ub_block_time = cb_block_time b,
                   ub_block_height = cb_block_height b\<rparr>)))"

end
