(* ===== verification/Tx_Encode_Props.thy ===== *)
theory Tx_Encode_Props
  imports Tx_Encode
begin

section \<open>Properties of the encoders\<close>

text \<open>
  When encoding panics and when it fails (theory \<open>Tx_Encode\<close>), that a transaction in a binary encoding
  decodes to itself, the conversion between blocks whose transactions all have metadata and blocks
  where it may be missing, and the indexes of inner instructions.
\<close>

subsection \<open>Instructions\<close>

definition instruction_ok :: "'pk list \<Rightarrow> compiled_instruction \<Rightarrow> bool" where
  "instruction_ok keys i \<longleftrightarrow> unat (ci_program_id_index i) < length keys \<and> indexes_ok (ci_accounts i) keys"

lemma collect_options_eq_None: "collect_somes xs = None \<longleftrightarrow> None \<in> set xs"
  by (induction xs) (auto split: option.split)

lemma collect_options_map_total: "(\<And>x. x \<in> set xs \<Longrightarrow> f x \<noteq> None) \<Longrightarrow> \<exists>ys. collect_somes (map f xs) = Some ys"
  using collect_options_not_None[of "map f xs"] by auto

lemma key_string_None: "key_string E keys i = None \<longleftrightarrow> length keys \<le> unat i"
  by (simp add: key_string_def slice_get_eq_None)

lemma partially_decoded_None:
  "make_ui_partially_decoded_instruction E i keys h = None \<longleftrightarrow> \<not> instruction_ok keys i"
proof (cases "unat (ci_program_id_index i) < length keys")
  case True
  have "collect_somes (map (key_string E keys) (ci_accounts i)) = None \<longleftrightarrow> \<not> indexes_ok (ci_accounts i) keys"
    by (simp add: collect_options_eq_None image_iff indexes_ok_def) (metis key_string_None not_less)
  with True show ?thesis
    by (cases "collect_somes (map (key_string E keys) (ci_accounts i))")
       (auto simp: make_ui_partially_decoded_instruction_def instruction_ok_def)
qed (simp add: make_ui_partially_decoded_instruction_def instruction_ok_def slice_get_def)

lemma parse_not_None: "token_laws (unpack_token E) \<Longrightarrow> parse E program_id i keys h \<noteq> None"
proof (cases "parsable_program_ids E program_id")
  case (Some p)
  assume "token_laws (unpack_token E)"
  from program_parser_safe[OF this, where program = p and instruction = i and keys = keys] Some show ?thesis
    by (auto simp: parse_def result_safe_def split: option.splits sum.splits)
qed (simp add: parse_def)

lemma parse_ui_instruction_total:
  assumes "token_laws (unpack_token E)" "instruction_ok keys i"
  shows "\<exists>u. parse_ui_instruction E i keys h = Some u"
proof -
  let ?id = "keys ! unat (ci_program_id_index i)"
  obtain r where r: "parse E ?id i keys h = Some r" using parse_not_None[OF assms(1), of ?id i keys h] by auto
  obtain d where d: "make_ui_partially_decoded_instruction E i keys h = Some d"
    using assms(2) partially_decoded_None[of E i keys h] by auto
  show ?thesis
    using assms(2) r d by (cases r) (auto simp: parse_ui_instruction_def instruction_ok_def)
qed

lemma parse_ui_instruction_panics:
  assumes "unat (ci_program_id_index i) < length keys" "parse E (keys ! unat (ci_program_id_index i)) i keys h = Some (Inl e)"
    and "\<not> indexes_ok (ci_accounts i) keys"
  shows "parse_ui_instruction E i keys h = None"
  using assms partially_decoded_None[of E i keys h]
  by (simp add: parse_ui_instruction_def instruction_ok_def)

lemma parsed_instructions_total:
  assumes "token_laws (unpack_token E)" "\<forall>i \<in> set is. instruction_ok keys i"
  shows "\<exists>us. parsed_instructions E is keys = Some us"
  unfolding parsed_instructions_def
  using assms parse_ui_instruction_total by (intro collect_options_map_total) fastforce

subsection \<open>A transaction with its metadata\<close>

definition message_keys :: "('sig, 'pk, 'h) versioned_tx_with_meta \<Rightarrow> 'pk list" where
  \<comment> \<open>the keys that the instructions of the message refer to\<close>
  "message_keys v = (case vt_message (vm_transaction v) of Legacy m \<Rightarrow> lm_account_keys m | V0 _ \<Rightarrow> vm_account_keys v)"

definition well_indexed :: "('sig, 'pk, 'h) versioned_tx_with_meta \<Rightarrow> bool" where
  "well_indexed v \<longleftrightarrow>
     (\<forall>i \<in> set (message_instructions (vt_message (vm_transaction v))). instruction_ok (message_keys v) i)
     \<and> (\<forall>is \<in> set (case sm_inner_instructions (vm_meta v) of None \<Rightarrow> [] | Some l \<Rightarrow> l).
          \<forall>i \<in> set (iis_instructions is). instruction_ok (vm_account_keys v) (ii_instruction i))"

lemma transaction_encode_total:
  assumes "token_laws (unpack_token E)" "well_indexed v" "serialize_versioned E (vm_transaction v) \<noteq> None"
  shows "\<exists>t. transaction_encode_with_meta E encoding (vm_meta v) (vm_transaction v) = Some t"
proof -
  have ok: "\<forall>i \<in> set (message_instructions (vt_message (vm_transaction v))). instruction_ok (message_keys v) i"
    using assms(2) by (simp add: well_indexed_def)
  note total = parsed_instructions_total[OF assms(1) ok]
  show ?thesis
  proof (cases encoding)
    case EncJsonParsed
    show ?thesis
      using EncJsonParsed total
      by (cases "vt_message (vm_transaction v)")
         (auto simp: transaction_encode_with_meta_def json_transaction_def legacy_message_encode_def message_static_keys_def
               v0_message_encode_with_meta_def message_keys_def message_instructions_def vm_account_keys_def account_keys_new_def)
  next
    case EncJson
    then show ?thesis
      by (cases "vt_message (vm_transaction v)")
         (auto simp: transaction_encode_with_meta_def transaction_json_encode_def json_transaction_def legacy_message_encode_def)
  qed (use assms(3) in \<open>auto simp: transaction_encode_with_meta_def binary_transaction_def\<close>)
qed

lemma parsed_meta_total:
  assumes "token_laws (unpack_token E)" "well_indexed v"
  shows "\<exists>m. parse_ui_transaction_status_meta E (vm_meta v) (message_static_keys (vt_message (vm_transaction v))) rewards = Some m
    \<and> um_status m = sm_status (vm_meta v) \<and> um_fee m = sm_fee (vm_meta v)
    \<and> um_rewards m = from_option (if rewards then sm_rewards (vm_meta v) else None)"
proof -
  have inner: "\<exists>u. parse_ui_inner_instructions E is (vm_account_keys v) = Some u"
    if "\<forall>i \<in> set (iis_instructions is). instruction_ok (vm_account_keys v) (ii_instruction i)" for "is"
    unfolding parse_ui_inner_instructions_def
    using collect_options_map_total[of "iis_instructions is"
        "\<lambda>i. parse_ui_instruction E (ii_instruction i) (vm_account_keys v) (ii_stack_height i)"]
      parse_ui_instruction_total[OF assms(1)] that by fastforce
  have "\<exists>us. collect_somes (map (\<lambda>ix. parse_ui_inner_instructions E ix (vm_account_keys v)) ixs) = Some us"
    if "sm_inner_instructions (vm_meta v) = Some ixs" for ixs
    using that inner assms(2) by (intro collect_options_map_total) (fastforce simp: well_indexed_def)
  then show ?thesis
    by (cases "sm_inner_instructions (vm_meta v)")
       (auto simp: parse_ui_transaction_status_meta_def Let_def vm_account_keys_def)
qed

definition meta_encoded :: "bool \<Rightarrow> 'pk status_meta \<Rightarrow> ui_status_meta \<Rightarrow> bool" where
  "meta_encoded rewards m u \<longleftrightarrow>
     um_status u = sm_status m \<and> um_fee u = sm_fee m
     \<and> into_option (um_rewards u) = (if rewards then sm_rewards m else None)"

lemma versioned_encode_cases:
  assumes "token_laws (unpack_token E)" "well_indexed v" "serialize_versioned E (vm_transaction v) \<noteq> None"
  shows "case validate_version v max_supported of
      Inl e \<Rightarrow> versioned_encode E encoding max_supported rewards v = Some (Inl e)
    | Inr version \<Rightarrow> \<exists>t m. versioned_encode E encoding max_supported rewards v =
          Some (Inr \<lparr>et_transaction = t, et_meta = Some m, et_version = version\<rparr>) \<and> meta_encoded rewards (vm_meta v) m"
proof (cases "validate_version v max_supported")
  case (Inr version)
  obtain t where t: "transaction_encode_with_meta E encoding (vm_meta v) (vm_transaction v) = Some t"
    using transaction_encode_total[OF assms] by blast
  show ?thesis
    using Inr t parsed_meta_total[OF assms(1,2), of rewards]
    by (auto simp: versioned_encode_def ui_status_meta_from_def Let_def meta_encoded_def)
qed (simp add: versioned_encode_def)

lemma validate_version_cases:
  "validate_version v max_supported =
     (case vt_message (vm_transaction v) of
        Legacy _ \<Rightarrow> Inr (map_option (\<lambda>_. VersionLegacy) max_supported)
      | V0 _ \<Rightarrow> (case max_supported of None \<Rightarrow> Inl (UnsupportedTransactionVersion 0) | Some _ \<Rightarrow> Inr (Some (VersionNumber 0))))"
  by (simp add: validate_version_def transaction_version_def split: option.split versioned_message.split)

definition plain_encode :: "(nat, nat, nat, nat, nat) encode_env" where
  \<comment> \<open>serialization of a fixed kind of transactions: the number of its signatures and of its keys\<close>
  "plain_encode = program_env.extend plain_programs
     \<lparr>signature_string = show_nat, bs58_encode = bytes_string,
      bs58_decode = (\<lambda>s. Some (string_bytes s)), base64_decode = (\<lambda>_. None),
      serialize_versioned = (\<lambda>t. Some (map word_of_nat (vt_signatures t))),
      serialize_legacy = (\<lambda>t. Some (map word_of_nat (lt_signatures t))),
      deserialize_versioned = (\<lambda>_. None), sanitize_ok = (\<lambda>_. True),
      legacy_is_signer = (\<lambda>_ i. i = 0), legacy_is_maybe_writable = (\<lambda>_ i. i = 0),
      loaded_is_signer = (\<lambda>_ _ i. i = 0), loaded_is_writable = (\<lambda>_ _ _ i. i = 0)\<rparr>"

definition plain_tx_meta :: "nat list \<Rightarrow> nat status_meta" where
  "plain_tx_meta writable =
     \<lparr>sm_status = Inr (), sm_fee = 5000, sm_pre_balances = [], sm_post_balances = [], sm_inner_instructions = None,
      sm_log_messages = None, sm_pre_token_balances = None, sm_post_token_balances = None, sm_rewards = None,
      sm_loaded_addresses = \<lparr>la_writable = writable, la_readonly = []\<rparr>, sm_return_data = None,
      sm_compute_units_consumed = None, sm_cost_units = None\<rparr>"

definition plain_v0_message :: "(nat, nat) v0_message" where
  \<comment> \<open>two static keys and one from a lookup table, which the instruction refers to\<close>
  "plain_v0_message =
     \<lparr>v0_header = \<lparr>num_required_signatures = 1, num_readonly_signed_accounts = 0, num_readonly_unsigned_accounts = 1\<rparr>,
      v0_account_keys = [20, 99], v0_recent_blockhash = 3,
      v0_instructions = [\<lparr>ci_program_id_index = 1, ci_accounts = [0, 2], ci_data = [9]\<rparr>],
      v0_address_table_lookups = [\<lparr>atl_account_key = 50, atl_writable_indexes = [4], atl_readonly_indexes = []\<rparr>]\<rparr>"

definition plain_v0 :: "(nat, nat, nat) versioned_tx_with_meta" where
  "plain_v0 =
     \<lparr>vm_transaction = \<lparr>vt_signatures = [77], vt_message = V0 plain_v0_message\<rparr>, vm_meta = plain_tx_meta [51]\<rparr>"

lemma plain_laws: "token_laws (unpack_token plain_encode)"
  by (simp add: token_laws_def plain_encode_def plain_programs_def program_env.defs)

lemma plain_v0_well_indexed: "well_indexed plain_v0"
  by (simp add: well_indexed_def plain_v0_def plain_v0_message_def plain_tx_meta_def message_instructions_def message_keys_def vm_account_keys_def
      message_static_keys_def account_keys_new_def instruction_ok_def indexes_ok_def)

text \<open>C17: Encoding a transaction with its metadata never panics in any encoding, provided its
  instructions and inner instructions refer to accounts it has and it can be serialized: it fails
  only for a version 0 transaction when the caller supports no versions, and otherwise keeps the
  status, the fee and, when asked for, the rewards, and gives the version exactly when the caller
  supports versions.\<close>

theorem encode_with_meta_total:
  assumes "token_laws (unpack_token E)" "well_indexed v" "serialize_versioned E (vm_transaction v) \<noteq> None"
  shows "case versioned_encode E encoding max_supported rewards v of
      None \<Rightarrow> False
    | Some (Inl e) \<Rightarrow> max_supported = None \<and> transaction_version (vm_transaction v) = VersionNumber 0
        \<and> e = UnsupportedTransactionVersion 0
    | Some (Inr r) \<Rightarrow> (max_supported = None \<longleftrightarrow> et_version r = None)
        \<and> et_version r \<in> {None, Some (transaction_version (vm_transaction v))}
        \<and> (\<exists>m. et_meta r = Some m \<and> meta_encoded rewards (vm_meta v) m)"
  using versioned_encode_cases[OF assms, where max_supported = max_supported and encoding = encoding and rewards = rewards]
  by (cases "vt_message (vm_transaction v)"; cases max_supported)
     (auto simp: validate_version_cases transaction_version_def)

theorem encode_with_meta_total_witness:
  "token_laws (unpack_token plain_encode) \<and> well_indexed plain_v0
   \<and> (case versioned_encode plain_encode EncJsonParsed (Some 0) True plain_v0 of
        None \<Rightarrow> False
      | Some (Inl e) \<Rightarrow> Some 0 = (None :: u8 option) \<and> transaction_version (vm_transaction plain_v0) = VersionNumber 0
          \<and> e = UnsupportedTransactionVersion 0
      | Some (Inr r) \<Rightarrow> (Some 0 = (None :: u8 option) \<longleftrightarrow> et_version r = None)
          \<and> et_version r \<in> {None, Some (transaction_version (vm_transaction plain_v0))}
          \<and> (\<exists>m. et_meta r = Some m \<and> meta_encoded True (vm_meta plain_v0) m))"
proof -
  have s: "serialize_versioned plain_encode (vm_transaction plain_v0) \<noteq> None"
    by (simp add: plain_encode_def program_env.defs)
  show ?thesis by (intro conjI plain_laws plain_v0_well_indexed encode_with_meta_total[OF plain_laws plain_v0_well_indexed s])
qed

subsection \<open>Without metadata\<close>

text \<open>C38: Encoding a version 0 transaction without its metadata, as JSON, panics when an instruction of a
  program that cannot be parsed refers to an account of a lookup table: the loaded addresses are
  unknown and the account keys are indexed beyond the static ones.  So it does for the encoding
  \<open>Json\<close>, which is not meant to parse: without metadata both encodings give the parsed message.\<close>

theorem encode_v0_without_meta_panics:
  assumes "vt_message t = V0 m" "i \<in> set (v0_instructions m)"
    and "unat (ci_program_id_index i) < length (v0_account_keys m)"
    and "parsable_program_ids E (v0_account_keys m ! unat (ci_program_id_index i)) = None"
    and "a \<in> set (ci_accounts i)" "length (v0_account_keys m) \<le> unat a"
  shows "versioned_transaction_encode E EncJsonParsed t = None \<and> versioned_transaction_encode E EncJson t = None"
proof -
  have "parse_ui_instruction E i (v0_account_keys m) h = None" for h
    using assms by (intro parse_ui_instruction_panics[where e = ProgramNotParsable])
      (auto simp: parse_def indexes_ok_def not_less)
  then have "parsed_instructions E (v0_instructions m) (v0_account_keys m) = None"
    using assms(2) by (auto simp: parsed_instructions_def collect_options_eq_None image_iff intro!: bexI[of _ i])
  then show ?thesis
    using assms(1) by (simp add: versioned_transaction_encode_def v0_message_encode_def json_transaction_def account_keys_new_def)
qed

theorem encode_v0_without_meta_panics_witness:
  "versioned_transaction_encode plain_encode EncJsonParsed (vm_transaction plain_v0) = None
   \<and> versioned_transaction_encode plain_encode EncJson (vm_transaction plain_v0) = None"
  by (rule encode_v0_without_meta_panics[where m = plain_v0_message and a = 2
        and i = "\<lparr>ci_program_id_index = 1, ci_accounts = [0, 2], ci_data = [9]\<rparr>"])
     (simp_all add: plain_v0_def plain_v0_message_def plain_encode_def plain_programs_def program_env.defs parsable_program_ids_def)

subsection \<open>Binary encodings\<close>

text \<open>The first byte of a serialized message with the high bit set is a version.  A legacy message starts
  with its number of required signatures, so one with 128 or more is not read as a legacy message.\<close>

definition prefix_clash :: "('sig, 'pk, 'h) versioned_transaction \<Rightarrow> bool" where
  "prefix_clash t \<longleftrightarrow>
     (case vt_message t of Legacy m \<Rightarrow> 128 \<le> num_required_signatures (lm_header m) | V0 _ \<Rightarrow> False)"

definition encode_laws :: "('sig, 'pk, 'h, 'v, 'c) encode_env \<Rightarrow> bool" where
  "encode_laws E \<longleftrightarrow>
     (\<forall>b. bs58_decode E (bs58_encode E b) = Some b) \<and> (\<forall>b. base64_decode E (base64_encode E b) = Some b)
     \<and> (\<forall>t b. serialize_versioned E t = Some b \<and> \<not> prefix_clash t \<longrightarrow> deserialize_versioned E b = Some t)"

text \<open>C39: A transaction in one of the three binary encodings decodes, with or without metadata, to what its
  serialization deserializes to, if that is sane, and to nothing otherwise.  This is the transaction
  itself, unless it is a legacy transaction whose number of required signatures reads as a version;
  the JSON encodings do not decode.\<close>

theorem binary_encoding_roundtrip:
  assumes "encode_laws E" "serialize_versioned E t = Some b"
  shows "case into_binary_encoding encoding of
      Some _ \<Rightarrow> (\<exists>e. versioned_transaction_encode E encoding t = Some e
        \<and> transaction_encode_with_meta E encoding meta t = Some e
        \<and> encoded_transaction_decode E e =
            Option.bind (deserialize_versioned E b) (\<lambda>u. if sanitize_ok E u then Some u else None)
        \<and> (\<not> prefix_clash t \<longrightarrow> encoded_transaction_decode E e = (if sanitize_ok E t then Some t else None)))
    | None \<Rightarrow> Option.bind (transaction_encode_with_meta E encoding meta t) (encoded_transaction_decode E) = None"
  using assms
  by (cases encoding; cases "vt_message t")
     (auto simp: encode_laws_def into_binary_encoding_def versioned_transaction_encode_def json_transaction_def
           transaction_encode_with_meta_def transaction_json_encode_def binary_transaction_def bind_eq_None_conv
           split: option.split)

definition plain_legacy :: "u8 \<Rightarrow> (nat, nat, nat) versioned_transaction" where
  "plain_legacy n =
     \<lparr>vt_signatures = [77],
      vt_message = Legacy \<lparr>lm_header = \<lparr>num_required_signatures = n, num_readonly_signed_accounts = 0, num_readonly_unsigned_accounts = 1\<rparr>,
        lm_account_keys = [20, 99], lm_recent_blockhash = 3,
        lm_instructions = [\<lparr>ci_program_id_index = 1, ci_accounts = [0], ci_data = [9]\<rparr>]\<rparr>\<rparr>"

definition plain_codec :: "(nat, nat, nat, nat, nat) encode_env" where
  \<comment> \<open>the legacy transactions with any number of required signatures and one of version 0 can be serialized;
      the former are read back when the first byte is not a version\<close>
  "plain_codec = plain_encode
     \<lparr>base64_encode := bytes_string, base64_decode := (\<lambda>s. Some (string_bytes s)),
      serialize_versioned := (\<lambda>t. if t = vm_transaction plain_v0 then Some [128]
        else case vt_message t of
               Legacy m \<Rightarrow> let n = num_required_signatures (lm_header m) in if t = plain_legacy n then Some [n] else None
             | V0 _ \<Rightarrow> None),
      deserialize_versioned := (\<lambda>b. case b of
          [n] \<Rightarrow> if n < 128 then Some (plain_legacy n) else if n = 128 then Some (vm_transaction plain_v0) else None
        | _ \<Rightarrow> None)\<rparr>"

lemma plain_codec_laws: "encode_laws plain_codec"
proof -
  have "deserialize_versioned plain_codec b = Some t"
    if "serialize_versioned plain_codec t = Some b" "\<not> prefix_clash t" for t b
    using that
    by (cases "vt_message t") (auto simp: plain_codec_def prefix_clash_def Let_def not_le split: if_splits)
  then show ?thesis by (simp add: encode_laws_def) (simp add: plain_codec_def plain_encode_def program_env.defs)
qed

theorem binary_encoding_roundtrip_witness:
  "encode_laws plain_codec
   \<and> (\<exists>e. versioned_transaction_encode plain_codec EncBase64 (plain_legacy 1) = Some e
        \<and> transaction_encode_with_meta plain_codec EncBase64 (vm_meta plain_v0) (plain_legacy 1) = Some e
        \<and> encoded_transaction_decode plain_codec e =
            (if sanitize_ok plain_codec (plain_legacy 1) then Some (plain_legacy 1) else None))
   \<and> (\<exists>e. versioned_transaction_encode plain_codec EncBase64 (plain_legacy 200) = Some e
        \<and> encoded_transaction_decode plain_codec e = None)"
proof -
  have s: "serialize_versioned plain_codec (plain_legacy n) = Some [n]" for n
    by (simp add: plain_codec_def plain_legacy_def plain_v0_def)
  have p: "\<not> prefix_clash (plain_legacy 1)" by (simp add: prefix_clash_def plain_legacy_def word_le_nat_alt)
  have d: "deserialize_versioned plain_codec [200] = None" by (simp add: plain_codec_def)
  show ?thesis
    using plain_codec_laws binary_encoding_roundtrip[OF plain_codec_laws s, of EncBase64 "vm_meta plain_v0" 1]
      binary_encoding_roundtrip[OF plain_codec_laws s, of EncBase64 "vm_meta plain_v0" 200] p d
    by (auto simp: into_binary_encoding_def simp del: encoded_transaction_decode.simps)
qed

subsection \<open>Blocks\<close>

lemma complete_tx_simps [simp]: "complete_tx (MissingMetadata x) = None" "complete_tx (Complete v) = Some v"
  by (simp_all add: complete_tx_def)

lemma map_filter_complete_length: "length (List.map_filter complete_tx ts) \<le> length ts"
  by (induction ts) (auto simp: List.map_filter_simps split: option.split)

lemma map_filter_complete_all:
  "length (List.map_filter complete_tx ts) = length ts \<Longrightarrow> map Complete (List.map_filter complete_tx ts) = ts"
proof (induction ts)
  case (Cons t ts)
  show ?case
  proof (cases t)
    case (MissingMetadata x)
    then show ?thesis
      using Cons.prems map_filter_complete_length[of ts] by (simp add: List.map_filter_simps)
  next
    case (Complete v)
    then show ?thesis using Cons by (simp add: List.map_filter_simps)
  qed
qed (simp add: List.map_filter_simps)

lemma map_filter_complete_map [simp]: "List.map_filter complete_tx (map Complete vs) = vs"
  by (induction vs) (simp_all add: List.map_filter_simps)

text \<open>A block whose transactions all have metadata converts to a general block and back unchanged;
  a general block converts exactly when no transaction misses its metadata, and then converts back
  to itself; otherwise the error counts the transactions before and after.\<close>

theorem block_conversion:
  "versioned_block_try_from (block_from_versioned b) = Inr b
   \<and> (case versioned_block_try_from c of
        Inr d \<Rightarrow> block_from_versioned d = c
      | Inl (TransactionsMissing before after) \<Rightarrow>
          before = length (cb_transactions c) \<and> after = length (filter (\<lambda>t. complete_tx t \<noteq> None) (cb_transactions c))
          \<and> after < before)"
proof
  show "versioned_block_try_from (block_from_versioned b) = Inr b"
    by (simp add: versioned_block_try_from_def block_from_versioned_def)
  have count: "length (List.map_filter complete_tx ts) = length (filter (\<lambda>t. complete_tx t \<noteq> None) ts)" for ts
    by (induction ts) (auto simp: List.map_filter_simps)
  show "case versioned_block_try_from c of
        Inr d \<Rightarrow> block_from_versioned d = c
      | Inl (TransactionsMissing before after) \<Rightarrow>
          before = length (cb_transactions c) \<and> after = length (filter (\<lambda>t. complete_tx t \<noteq> None) (cb_transactions c))
          \<and> after < before"
    using map_filter_complete_all[of "cb_transactions c"] length_filter_le[of "\<lambda>t. complete_tx t \<noteq> None" "cb_transactions c"]
    by (cases c) (auto simp: versioned_block_try_from_def block_from_versioned_def Let_def count le_neq_implies_less)
qed

lemma collect_steps_total:
  "(\<And>x. x \<in> set xs \<Longrightarrow> \<exists>y. f x = Some (Inr y) \<and> P x y) \<Longrightarrow> \<exists>ys. collect_steps (map f xs) = Some (Inr ys) \<and> list_all2 P xs ys"
proof (induction xs)
  case (Cons x xs)
  then obtain y ys where "f x = Some (Inr y)" "P x y" "collect_steps (map f xs) = Some (Inr ys)" "list_all2 P xs ys"
    by (metis list.set_intros)
  then show ?case by (intro exI[of _ "y # ys"]) simp
qed simp

text \<open>C40: A block of transactions with metadata, all well indexed and serializable, is encoded in full
  without a panic or an error for a caller that supports versions: there is one encoded transaction
  for each, in order, with its version and its status, no signatures, and the rewards as asked for.\<close>

theorem encode_block_full:
  assumes "token_laws (unpack_token E)"
    and "\<forall>v \<in> set (cb_transactions b). well_indexed v \<and> serialize_versioned E (vm_transaction v) \<noteq> None"
    and "eo_transaction_details options = DetailsFull" "eo_max_supported_transaction_version options \<noteq> None"
  shows "\<exists>u ts. encode_with_options E encoding options (block_from_versioned b) = Some (Inr u)
    \<and> ub_transactions u = Some ts \<and> ub_signatures u = None
    \<and> list_all2 (\<lambda>v r. et_version r = Some (transaction_version (vm_transaction v))
          \<and> (\<exists>m. et_meta r = Some m \<and> meta_encoded (eo_show_rewards options) (vm_meta v) m)) (cb_transactions b) ts
    \<and> ub_rewards u = (if eo_show_rewards options then Some (cb_rewards b) else None)"
proof -
  let ?max = "eo_max_supported_transaction_version options" and ?rw = "eo_show_rewards options"
  let ?P = "\<lambda>v r. et_version r = Some (transaction_version (vm_transaction v))
          \<and> (\<exists>m. et_meta r = Some m \<and> meta_encoded ?rw (vm_meta v) m)"
  have "\<exists>r. versioned_encode E encoding ?max ?rw v = Some (Inr r) \<and> ?P v r" if "v \<in> set (cb_transactions b)" for v
    using versioned_encode_cases[OF assms(1), where v = v and max_supported = ?max and encoding = encoding and rewards = ?rw]
      assms(2,4) that
    by (cases "vt_message (vm_transaction v)") (fastforce simp: validate_version_cases transaction_version_def)+
  from collect_steps_total[of "cb_transactions b" "versioned_encode E encoding ?max ?rw" ?P, OF this]
  obtain ts where "collect_steps (map (versioned_encode E encoding ?max ?rw) (cb_transactions b)) = Some (Inr ts)"
    "list_all2 ?P (cb_transactions b) ts" by blast
  then show ?thesis
    using assms(3) by (simp add: encode_with_options_def block_from_versioned_def Let_def comp_def)
qed

definition plain_block :: "(nat, nat, nat) versioned_tx_with_meta confirmed_block" where
  "plain_block = \<lparr>cb_previous_blockhash = ''a'', cb_blockhash = ''b'', cb_parent_slot = 3, cb_transactions = [plain_v0],
     cb_rewards = [], cb_num_partitions = None, cb_block_time = None, cb_block_height = None\<rparr>"

definition plain_encoding_options :: encoding_options where
  "plain_encoding_options = \<lparr>eo_transaction_details = DetailsFull, eo_show_rewards = False, eo_max_supported_transaction_version = Some 0\<rparr>"

theorem encode_block_full_witness:
  "\<exists>u ts. encode_with_options plain_encode EncJsonParsed plain_encoding_options (block_from_versioned plain_block) = Some (Inr u)
    \<and> ub_transactions u = Some ts \<and> ub_signatures u = None
    \<and> list_all2 (\<lambda>v r. et_version r = Some (transaction_version (vm_transaction v))
          \<and> (\<exists>m. et_meta r = Some m \<and> meta_encoded (eo_show_rewards plain_encoding_options) (vm_meta v) m)) (cb_transactions plain_block) ts
    \<and> ub_rewards u = (if eo_show_rewards plain_encoding_options then Some (cb_rewards plain_block) else None)"
proof (rule encode_block_full[OF plain_laws])
  show "\<forall>v \<in> set (cb_transactions plain_block). well_indexed v \<and> serialize_versioned plain_encode (vm_transaction v) \<noteq> None"
    using plain_v0_well_indexed by (simp add: plain_block_def plain_encode_def program_env.defs)
qed (simp_all add: plain_encoding_options_def)

subsection \<open>Inner instructions\<close>

text \<open>The inner instructions of a transaction with at most 256 instructions keep their position: each
  list that is not empty is kept, in order, with the index of its instruction and the stack heights.\<close>

theorem map_inner_instructions_positions:
  assumes "length inner \<le> 256"
  shows "map (\<lambda>i. (unat (iis_index i), map (\<lambda>x. (ii_stack_height x, ii_instruction x)) (iis_instructions i)))
           (map_inner_instructions inner) =
         map (\<lambda>(n, is). (n, map (\<lambda>(h, i). (Some (ucast h), i)) is)) (filter (\<lambda>(n, is). is \<noteq> []) (enumerate 0 inner))"
proof -
  have "unat (word_of_nat n :: u8) = n" if "(n, is) \<in> set (enumerate 0 inner)" for n "is"
    using that assms by (auto simp: in_set_enumerate_eq unat_of_nat take_bit_nat_eq_self)
  then show ?thesis
    by (auto simp: map_inner_instructions_def filter_map comp_def case_prod_beta split: prod.split intro!: map_cong filter_cong)
qed

theorem map_inner_instructions_positions_witness:
  "map (\<lambda>i. (unat (iis_index i), map (\<lambda>x. (ii_stack_height x, ii_instruction x)) (iis_instructions i)))
     (map_inner_instructions [[], [(2, plain_transfer)]]) = [(1, [(Some 2, plain_transfer)])]"
  using map_inner_instructions_positions[of "[[], [(2, plain_transfer)]]"] by (simp add: enumerate_simps)

end
