(* ===== verification/Account_Data.thy ===== *)
theory Account_Data
  imports Parse_Token
begin

section \<open>Parsing the data of accounts\<close>

text \<open>
  The account parsers of \<open>src/account-decoder/src\<close>: nonce, stake, upgradeable loader, address lookup
  table, sysvar, vote, config and token accounts, and \<open>parse_account_data_v3\<close>, which chooses by the
  owner.  A parser deserializes the data with third-party code, a field of \<open>account_env\<close>, and converts
  the state for display: keys, hashes and large numbers become strings.  The state types are given
  with the fields that are read; values that are kept as they are have the type \<open>'v\<close>, keys and
  ciphertexts of the encryption the type \<open>'c\<close>.

  Slicing and reading bits may panic: \<open>None\<close>, as in the parsers of instructions.
\<close>

datatype parsable_account =
  AccAddressLookupTable | AccBpfUpgradeableLoader | AccConfig | AccNonce | AccSplToken | AccSplToken2022 | AccStake
  | AccSysvar | AccVote

datatype parse_account_error =
    AccountNotParsable parsable_account
  | AccountProgramNotParsable
  | AdditionalDataMissing string
  | AccountInstructionError tx_instruction_error
  | AccountSerdeJsonError \<comment> \<open>serializing a parsed value; no parser gives it\<close>

type_synonym 'a parsed_data = "(parse_account_error + 'a) option"

subsection \<open>States of accounts\<close>

record ('pk, 'h) nonce_data =
  nd_authority :: 'pk
  nd_blockhash :: 'h
  nd_lamports_per_signature :: u64

record 'pk stake_meta =
  sk_rent_exempt_reserve :: u64
  sk_staker :: 'pk
  sk_withdrawer :: 'pk
  sk_lockup_timestamp :: int
  sk_lockup_epoch :: u64
  sk_custodian :: 'pk

record 'pk stake_delegation =
  sd_voter :: 'pk
  sd_stake :: u64
  sd_activation_epoch :: u64
  sd_deactivation_epoch :: u64
  sd_warmup_cooldown_rate :: f64
  sd_credits_observed :: u64

datatype 'pk stake_state =
  StakeUninitialized | StakeInitialized "'pk stake_meta" | StakeDelegated "'pk stake_meta" "'pk stake_delegation" | StakeRewardsPool

datatype 'pk loader_state =
  LoaderUninitialized | LoaderBuffer "'pk option" | LoaderProgram 'pk | LoaderProgramData u64 "'pk option"

record 'pk lookup_table =
  lt_deactivation_slot :: u64
  lt_last_extended_slot :: u64
  lt_last_extended_slot_start_index :: u8
  lt_authority :: "'pk option"
  lt_addresses :: "'pk list"

record clock =
  clk_slot :: u64
  clk_epoch :: u64
  clk_epoch_start_timestamp :: int
  clk_leader_schedule_epoch :: u64
  clk_unix_timestamp :: int

record 'h epoch_rewards =
  er_distribution_starting_block_height :: u64
  er_num_partitions :: u64
  er_parent_blockhash :: 'h
  er_total_points :: nat
  er_total_rewards :: u64
  er_distributed_rewards :: u64
  er_active :: bool

record ('pk, 'v) vote_account =
  va_node_pubkey :: 'pk
  va_authorized_withdrawer :: 'pk
  va_commission :: u8
  va_votes :: "(u64 \<times> u32) list"
  va_root_slot :: "u64 option"
  va_authorized_voters :: "(u64 \<times> 'pk) list"
  va_prior_voters :: "('pk \<times> u64 \<times> u64) list"
  va_epoch_credits :: "(u64 \<times> u64 \<times> u64) list"
  va_last_timestamp :: 'v

record ('pk, 'h, 'v) sysvar_ids = "('pk, 'h, 'v) show_env" +
  clock_id :: 'pk
  epoch_schedule_id :: 'pk
  fees_id :: 'pk
  recent_blockhashes_id :: 'pk
  rent_id :: 'pk
  rewards_id :: 'pk
  slot_hashes_id :: 'pk
  slot_history_id :: 'pk
  stake_history_id :: 'pk
  last_restart_slot_id :: 'pk
  epoch_rewards_id :: 'pk

record ('pk, 'h, 'v) sysvar_env = "('pk, 'h, 'v) sysvar_ids" +
  clock_deserialize :: "bytes \<Rightarrow> clock option"
  epoch_schedule_deserialize :: "bytes \<Rightarrow> 'v option"
  fees_deserialize :: "bytes \<Rightarrow> u64 option"
  recent_blockhashes_deserialize :: "bytes \<Rightarrow> ('h \<times> u64) list option"
  rent_deserialize :: "bytes \<Rightarrow> (u64 \<times> f64 \<times> u8) option"
  rewards_deserialize :: "bytes \<Rightarrow> f64 option"
  slot_hashes_deserialize :: "bytes \<Rightarrow> (u64 \<times> 'h) list option"
  slot_history_deserialize :: "bytes \<Rightarrow> (u64 \<times> bool list) option"
  slot_history_max_entries :: nat
  stake_history_deserialize :: "bytes \<Rightarrow> (u64 \<times> 'v) list option"
  last_restart_slot_deserialize :: "bytes \<Rightarrow> u64 option"
  epoch_rewards_deserialize :: "bytes \<Rightarrow> 'h epoch_rewards option"

record ('pk, 'h, 'v, 'c) account_env = "('pk, 'h, 'v) sysvar_env" +
  default_pubkey :: 'pk
  acc_f64_string :: "f64 \<Rightarrow> string"
  acc_pod_string :: "'c \<Rightarrow> string"
  nonce_deserialize :: "bytes \<Rightarrow> ('pk, 'h) nonce_data option option"
    \<comment> \<open>the state inside: \<open>None\<close> when it is uninitialized\<close>
  stake_deserialize :: "bytes \<Rightarrow> 'pk stake_state option"
  loader_deserialize :: "bytes \<Rightarrow> 'pk loader_state option"
  size_of_buffer_metadata :: nat
  size_of_programdata_metadata :: nat
  size_of_pubkey :: nat
  lookup_table_deserialize :: "bytes \<Rightarrow> tx_instruction_error + 'pk lookup_table"
  vote_deserialize :: "bytes \<Rightarrow> tx_instruction_error + ('pk, 'v) vote_account"
  stake_config_id :: 'pk
  validator_info_id :: 'pk
  get_config_data :: "bytes \<Rightarrow> bytes option"
  stake_config_deserialize :: "bytes \<Rightarrow> (f64 \<times> u8) option"
  config_keys_deserialize :: "bytes \<Rightarrow> ('pk \<times> bool) list option"
  string_deserialize :: "bytes \<Rightarrow> string option"
  json_from_str :: "string \<Rightarrow> json option"

subsection \<open>Nonce\<close>

definition ui_fee_calculator :: "u64 \<Rightarrow> string" where
  \<comment> \<open>\<open>UiFeeCalculator::from\<close>: the lamports per signature as a string\<close>
  "ui_fee_calculator lamports = show_nat (unat lamports)"

record ui_nonce_data =
  un_authority :: string
  un_blockhash :: string
  un_fee_calculator :: string

definition parse_nonce :: "('pk, 'h, 'v, 'c, 'm) account_env_scheme \<Rightarrow> bytes \<Rightarrow> parse_account_error + ui_nonce_data" where
  "parse_nonce E d =
     (case nonce_deserialize E d of
        None \<Rightarrow> Inl (AccountInstructionError IE_InvalidAccountData)
      | Some None \<Rightarrow> Inl (AccountInstructionError IE_InvalidAccountData)
      | Some (Some n) \<Rightarrow> Inr
          \<lparr>un_authority = pubkey_string E (nd_authority n), un_blockhash = hash_string E (nd_blockhash n),
           un_fee_calculator = ui_fee_calculator (nd_lamports_per_signature n)\<rparr>)"

subsection \<open>Stake\<close>

record ui_stake_meta =
  us_rent_exempt_reserve :: string
  us_staker :: string
  us_withdrawer :: string
  us_lockup_timestamp :: int
  us_lockup_epoch :: u64
  us_custodian :: string

definition ui_stake_meta_from :: "('pk, 'h, 'v, 'c, 'm) account_env_scheme \<Rightarrow> 'pk stake_meta \<Rightarrow> ui_stake_meta" where
  \<comment> \<open>\<open>UiMeta\<close> with \<open>UiAuthorized\<close> and \<open>UiLockup\<close>\<close>
  "ui_stake_meta_from E m =
     \<lparr>us_rent_exempt_reserve = show_nat (unat (sk_rent_exempt_reserve m)),
      us_staker = pubkey_string E (sk_staker m), us_withdrawer = pubkey_string E (sk_withdrawer m),
      us_lockup_timestamp = sk_lockup_timestamp m, us_lockup_epoch = sk_lockup_epoch m,
      us_custodian = pubkey_string E (sk_custodian m)\<rparr>"

record ui_stake =
  us_voter :: string
  us_stake :: string
  us_activation_epoch :: string
  us_deactivation_epoch :: string
  us_warmup_cooldown_rate :: f64
  us_credits_observed :: u64

definition ui_stake_from :: "('pk, 'h, 'v, 'c, 'm) account_env_scheme \<Rightarrow> 'pk stake_delegation \<Rightarrow> ui_stake" where
  \<comment> \<open>\<open>UiStake\<close> with \<open>UiDelegation\<close>\<close>
  "ui_stake_from E s =
     \<lparr>us_voter = pubkey_string E (sd_voter s), us_stake = show_nat (unat (sd_stake s)),
      us_activation_epoch = show_nat (unat (sd_activation_epoch s)),
      us_deactivation_epoch = show_nat (unat (sd_deactivation_epoch s)),
      us_warmup_cooldown_rate = sd_warmup_cooldown_rate s, us_credits_observed = sd_credits_observed s\<rparr>"

datatype stake_account_type =
  StakeAccUninitialized | StakeAccInitialized ui_stake_meta "ui_stake option" | StakeAccDelegated ui_stake_meta "ui_stake option"
  | StakeAccRewardsPool

definition parse_stake_account ::
  "('pk, 'h, 'v, 'c, 'm) account_env_scheme \<Rightarrow> bytes \<Rightarrow> parse_account_error + stake_account_type" where
  "parse_stake_account E d =
     and_then (ok_or (stake_deserialize E d) (AccountNotParsable AccStake)) (\<lambda>s. Inr
       (case s of
          StakeUninitialized \<Rightarrow> StakeAccUninitialized
        | StakeInitialized m \<Rightarrow> StakeAccInitialized (ui_stake_meta_from E m) None
        | StakeDelegated m s \<Rightarrow> StakeAccDelegated (ui_stake_meta_from E m) (Some (ui_stake_from E s))
        | StakeRewardsPool \<Rightarrow> StakeAccRewardsPool))"

subsection \<open>Upgradeable loader\<close>

datatype loader_account_type =
    LoaderAccUninitialized
  | LoaderAccBuffer "string option" string \<comment> \<open>the data in base64\<close>
  | LoaderAccProgram string
  | LoaderAccProgramData u64 "string option" string

definition metadata_offset :: "('pk, 'h, 'v, 'c, 'm) account_env_scheme \<Rightarrow> nat \<Rightarrow> 'pk option \<Rightarrow> nat option" where
  \<comment> \<open>the size of the metadata, less a key when there is no authority; the subtraction panics when it
      underflows\<close>
  "metadata_offset E full authority =
     (if authority \<noteq> None then Some full
      else if size_of_pubkey E \<le> full then Some (full - size_of_pubkey E) else None)"

definition parse_bpf_upgradeable_loader_account ::
  "('pk, 'h, 'v, 'c, 'm) account_env_scheme \<Rightarrow> bytes \<Rightarrow> loader_account_type parsed_data" where
  "parse_bpf_upgradeable_loader_account E d =
     bind_step (Some (ok_or (loader_deserialize E d) (AccountNotParsable AccBpfUpgradeableLoader))) (\<lambda>s.
     expect (case s of
        LoaderUninitialized \<Rightarrow> Some LoaderAccUninitialized
      | LoaderBuffer authority \<Rightarrow>
          Option.bind (metadata_offset E (size_of_buffer_metadata E) authority) (\<lambda>offset.
            map_option (\<lambda>rest. LoaderAccBuffer (map_option (pubkey_string E) authority) (base64_encode E rest))
              (slice_from d offset))
      | LoaderProgram programdata \<Rightarrow> Some (LoaderAccProgram (pubkey_string E programdata))
      | LoaderProgramData slot authority \<Rightarrow>
          Option.bind (metadata_offset E (size_of_programdata_metadata E) authority) (\<lambda>offset.
            map_option (\<lambda>rest. LoaderAccProgramData slot (map_option (pubkey_string E) authority) (base64_encode E rest))
              (slice_from d offset))))"

subsection \<open>Address lookup table\<close>

record ui_lookup_table =
  ult_deactivation_slot :: string
  ult_last_extended_slot :: string
  ult_last_extended_slot_start_index :: u8
  ult_authority :: "string option"
  ult_addresses :: "string list"

definition ui_lookup_table_from :: "('pk, 'h, 'v, 'c, 'm) account_env_scheme \<Rightarrow> 'pk lookup_table \<Rightarrow> ui_lookup_table" where
  "ui_lookup_table_from E t =
     \<lparr>ult_deactivation_slot = show_nat (unat (lt_deactivation_slot t)),
      ult_last_extended_slot = show_nat (unat (lt_last_extended_slot t)),
      ult_last_extended_slot_start_index = lt_last_extended_slot_start_index t,
      ult_authority = map_option (pubkey_string E) (lt_authority t),
      ult_addresses = map (pubkey_string E) (lt_addresses t)\<rparr>"

datatype lookup_table_account_type = TableUninitialized | TableLookupTable ui_lookup_table

definition parse_address_lookup_table_account ::
  "('pk, 'h, 'v, 'c, 'm) account_env_scheme \<Rightarrow> bytes \<Rightarrow> parse_account_error + lookup_table_account_type" where
  "parse_address_lookup_table_account E d =
     (case lookup_table_deserialize E d of
        Inr t \<Rightarrow> Inr (TableLookupTable (ui_lookup_table_from E t))
      | Inl e \<Rightarrow> if e = IE_UninitializedAccount then Inr TableUninitialized
                 else Inl (AccountNotParsable AccAddressLookupTable))"

subsection \<open>Sysvars\<close>

record ui_epoch_rewards =
  uer_distribution_starting_block_height :: u64
  uer_num_partitions :: u64
  uer_parent_blockhash :: string
  uer_total_points :: string
  uer_total_rewards :: string
  uer_distributed_rewards :: string
  uer_active :: bool

definition ui_epoch_rewards_from :: "('pk, 'h, 'v, 'c, 'm) account_env_scheme \<Rightarrow> 'h epoch_rewards \<Rightarrow> ui_epoch_rewards" where
  "ui_epoch_rewards_from E r =
     \<lparr>uer_distribution_starting_block_height = er_distribution_starting_block_height r,
      uer_num_partitions = er_num_partitions r, uer_parent_blockhash = hash_string E (er_parent_blockhash r),
      uer_total_points = show_nat (er_total_points r), uer_total_rewards = show_nat (unat (er_total_rewards r)),
      uer_distributed_rewards = show_nat (unat (er_distributed_rewards r)), uer_active = er_active r\<rparr>"

datatype 'v sysvar_account_type =
    SysvarClock clock
  | SysvarEpochSchedule 'v
  | SysvarFees string
  | SysvarRecentBlockhashes "(string \<times> string) list"
  | SysvarRent string f64 u8
  | SysvarRewards f64
  | SysvarSlotHashes "(u64 \<times> string) list"
  | SysvarSlotHistory u64 string
  | SysvarStakeHistory "(u64 \<times> 'v) list"
  | SysvarLastRestartSlot u64
  | SysvarEpochRewards ui_epoch_rewards

definition slot_history_bits :: "nat \<Rightarrow> bool list \<Rightarrow> string option" where
  \<comment> \<open>the \<open>Debug\<close> of \<open>SlotHistoryBits\<close>: \<open>BitVec::get\<close> panics beyond the end\<close>
  "slot_history_bits max_entries bits =
     collect_somes (map (\<lambda>i. map_option (\<lambda>b. if b then CHR ''1'' else CHR ''0'') (slice_get bits i)) [0..<max_entries])"

definition parse_sysvar ::
  "('pk, 'h, 'v, 'c, 'm) account_env_scheme \<Rightarrow> bytes \<Rightarrow> 'pk \<Rightarrow> 'v sysvar_account_type parsed_data" where
  "parse_sysvar E d pubkey =
     (let some = map_option (\<lambda>x. Some (Inr x)); missing = Some (Inl (AccountNotParsable AccSysvar));
          fee = ui_fee_calculator; hash = hash_string E
      in case
        (if pubkey = clock_id E then some (map_option SysvarClock (clock_deserialize E d))
         else if pubkey = epoch_schedule_id E then some (map_option SysvarEpochSchedule (epoch_schedule_deserialize E d))
         else if pubkey = fees_id E then some (map_option (\<lambda>f. SysvarFees (fee f)) (fees_deserialize E d))
         else if pubkey = recent_blockhashes_id E then
           some (map_option (\<lambda>rs. SysvarRecentBlockhashes (map (\<lambda>(h, f). (hash h, fee f)) rs)) (recent_blockhashes_deserialize E d))
         else if pubkey = rent_id E then
           some (map_option (\<lambda>(l, t, b). SysvarRent (show_nat (unat l)) t b) (rent_deserialize E d))
         else if pubkey = rewards_id E then some (map_option SysvarRewards (rewards_deserialize E d))
         else if pubkey = slot_hashes_id E then
           some (map_option (\<lambda>hs. SysvarSlotHashes (map (\<lambda>(s, h). (s, hash h)) hs)) (slot_hashes_deserialize E d))
         else if pubkey = slot_history_id E then
           map_option (\<lambda>(next_slot, bits).
               map_option (\<lambda>s. Inr (SysvarSlotHistory next_slot s)) (slot_history_bits (slot_history_max_entries E) bits))
             (slot_history_deserialize E d)
         else if pubkey = stake_history_id E then some (map_option SysvarStakeHistory (stake_history_deserialize E d))
         else if pubkey = last_restart_slot_id E then some (map_option SysvarLastRestartSlot (last_restart_slot_deserialize E d))
         else if pubkey = epoch_rewards_id E then
           some (map_option (\<lambda>r. SysvarEpochRewards (ui_epoch_rewards_from E r)) (epoch_rewards_deserialize E d))
         else None) of
        Some r \<Rightarrow> r
      | None \<Rightarrow> missing)"

subsection \<open>Vote\<close>

record 'v ui_vote_state =
  uv_node_pubkey :: string
  uv_authorized_withdrawer :: string
  uv_commission :: u8
  uv_votes :: "(u64 \<times> u32) list"
  uv_root_slot :: "u64 option"
  uv_authorized_voters :: "(u64 \<times> string) list"
  uv_prior_voters :: "(string \<times> u64 \<times> u64) list"
  uv_epoch_credits :: "(u64 \<times> string \<times> string) list"
  uv_last_timestamp :: 'v

definition parse_vote_account ::
  "('pk, 'h, 'v, 'c, 'm) account_env_scheme \<Rightarrow> bytes \<Rightarrow> parse_account_error + 'v ui_vote_state" where
  "parse_vote_account E d =
     (case vote_deserialize E d of
        Inl e \<Rightarrow> Inl (AccountInstructionError e)
      | Inr v \<Rightarrow> Inr
          \<lparr>uv_node_pubkey = pubkey_string E (va_node_pubkey v),
           uv_authorized_withdrawer = pubkey_string E (va_authorized_withdrawer v),
           uv_commission = va_commission v, uv_votes = va_votes v, uv_root_slot = va_root_slot v,
           uv_authorized_voters = map (\<lambda>(e, k). (e, pubkey_string E k)) (va_authorized_voters v),
           uv_prior_voters = map (\<lambda>(k, s, t). (pubkey_string E k, s, t))
             (filter (\<lambda>(k, _, _). k \<noteq> default_pubkey E) (va_prior_voters v)),
           uv_epoch_credits = map (\<lambda>(e, c, p). (e, show_nat (unat c), show_nat (unat p))) (va_epoch_credits v),
           uv_last_timestamp = va_last_timestamp v\<rparr>)"

subsection \<open>Config\<close>

datatype config_account_type =
  ConfigStake f64 u8 | ConfigValidatorInfo "(string \<times> bool) list" json

definition parse_config_data ::
  "('pk, 'h, 'v, 'c, 'm) account_env_scheme \<Rightarrow> (bytes \<Rightarrow> 'a option) \<Rightarrow> bytes \<Rightarrow> ('pk \<times> bool) list \<Rightarrow> ((string \<times> bool) list \<times> 'a) option" where
  "parse_config_data E deserialize d keys =
     Option.bind (Option.bind (get_config_data E d) deserialize) (\<lambda>config_data.
     Some (map (\<lambda>(k, signer). (pubkey_string E k, signer)) keys, config_data))"

definition parse_config ::
  "('pk, 'h, 'v, 'c, 'm) account_env_scheme \<Rightarrow> bytes \<Rightarrow> 'pk \<Rightarrow> parse_account_error + config_account_type" where
  "parse_config E d pubkey =
     ok_or
       (if pubkey = stake_config_id E
        then map_option (\<lambda>(rate, penalty). ConfigStake rate penalty)
               (Option.bind (get_config_data E d) (stake_config_deserialize E))
        else Option.bind (config_keys_deserialize E d) (\<lambda>keys.
          if keys \<noteq> [] \<and> fst (keys ! 0) = validator_info_id E
          then Option.bind (parse_config_data E (string_deserialize E) d keys) (\<lambda>(ks, s).
                 map_option (ConfigValidatorInfo ks) (json_from_str E s))
          else None))
       (AccountNotParsable AccConfig)"

end
