(* ===== verification/Account_Token.thy ===== *)
theory Account_Token
  imports Account_Data
begin

section \<open>Token accounts\<close>

text \<open>
  \<open>parse_token_v3\<close> (\<open>src/account-decoder/src/parse_token.rs\<close>) and \<open>parse_extension\<close>
  (\<open>parse_token_extension.rs\<close>) with the types of \<open>src/account-decoder-client-types/src/token.rs\<close>.  Unpacking
  an account, a mint or a multisig is third-party code; an unpacked account or mint gives the list of its
  extension types and, for a type, the state of that extension.
\<close>

subsection \<open>Extensions\<close>

type_synonym transfer_fee = "u64 \<times> u64 \<times> u16" \<comment> \<open>epoch, maximum fee, basis points\<close>

datatype (plugins only: code) ('pk, 'c) extension_state =
    StTransferFeeConfig "'pk option" "'pk option" u64 transfer_fee transfer_fee
  | StTransferFeeAmount u64
  | StMintCloseAuthority "'pk option"
  | StConfidentialTransferMint "'pk option" bool "'c option"
  | StConfidentialTransferFeeConfig "'pk option" "'c option" bool 'c
  | StConfidentialTransferAccount bool 'c 'c 'c 'c 'c bool bool u64 u64 u64 u64
  | StConfidentialTransferFeeAmount 'c
  | StDefaultAccountState "account_state option" \<comment> \<open>\<open>None\<close>: a byte that is no state\<close>
  | StMemoTransfer bool
  | StInterestBearingConfig "'pk option" int int int int
  | StCpiGuard bool
  | StPermanentDelegate "'pk option"
  | StMetadataPointer "'pk option" "'pk option"
  | StTokenMetadata "'pk option" 'pk string string string "(string \<times> string) list"
  | StTransferHook "'pk option" "'pk option"
  | StTransferHookAccount bool
  | StGroupPointer "'pk option" "'pk option"
  | StGroupMemberPointer "'pk option" "'pk option"
  | StTokenGroup "'pk option" 'pk u64 u64
  | StTokenGroupMember 'pk 'pk u64
  | StConfidentialMintBurn 'c 'c 'c 'c
  | StScaledUiAmount "'pk option" f64 int f64
  | StPausable "'pk option" bool

datatype (plugins only: code) ui_extension =
    UxUninitialized
  | UxTransferFeeConfig "string option" "string option" u64 transfer_fee transfer_fee
  | UxTransferFeeAmount u64
  | UxMintCloseAuthority "string option"
  | UxConfidentialTransferMint "string option" bool "string option"
  | UxConfidentialTransferFeeConfig "string option" "string option" bool string
  | UxConfidentialTransferAccount bool string string string string string bool bool u64 u64 u64 u64
  | UxConfidentialTransferFeeAmount string
  | UxDefaultAccountState account_state
  | UxImmutableOwner
  | UxMemoTransfer bool
  | UxNonTransferable
  | UxInterestBearingConfig "string option" int int int int
  | UxCpiGuard bool
  | UxPermanentDelegate "string option"
  | UxNonTransferableAccount
  | UxMetadataPointer "string option" "string option"
  | UxTokenMetadata "string option" string string string string "(string \<times> string) list"
  | UxTransferHook "string option" "string option"
  | UxTransferHookAccount bool
  | UxGroupPointer "string option" "string option"
  | UxGroupMemberPointer "string option" "string option"
  | UxTokenGroup "string option" string u64 u64
  | UxTokenGroupMember string string u64
  | UxConfidentialMintBurn string string string string
  | UxUnparseableExtension
  | UxScaledUiAmountConfig "string option" string int string
  | UxPausableConfig "string option" bool
  | UxPausableAccount

primrec convert_extension :: "('pk, 'h, 'v, 'c, 'm) account_env_scheme \<Rightarrow> ('pk, 'c) extension_state \<Rightarrow> ui_extension" where
  \<comment> \<open>the functions \<open>convert_*\<close>, one equation for each\<close>
  "convert_extension E (StTransferFeeConfig config withdraw withheld older newer) =
     UxTransferFeeConfig (map_option (pubkey_string E) config) (map_option (pubkey_string E) withdraw) withheld older newer"
| "convert_extension E (StTransferFeeAmount withheld) = UxTransferFeeAmount withheld"
| "convert_extension E (StMintCloseAuthority authority) = UxMintCloseAuthority (map_option (pubkey_string E) authority)"
| "convert_extension E (StConfidentialTransferMint authority auto_approve auditor) =
     UxConfidentialTransferMint (map_option (pubkey_string E) authority) auto_approve (map_option (acc_pod_string E) auditor)"
| "convert_extension E (StConfidentialTransferFeeConfig authority elgamal harvest withheld) =
     UxConfidentialTransferFeeConfig (map_option (pubkey_string E) authority) (map_option (acc_pod_string E) elgamal) harvest
       (acc_pod_string E withheld)"
| "convert_extension E (StConfidentialTransferAccount approved elgamal lo hi available decryptable confidential
       non_confidential pending maximum expected actual) =
     UxConfidentialTransferAccount approved (acc_pod_string E elgamal) (acc_pod_string E lo) (acc_pod_string E hi)
       (acc_pod_string E available) (acc_pod_string E decryptable) confidential non_confidential pending maximum expected actual"
| "convert_extension E (StConfidentialTransferFeeAmount withheld) = UxConfidentialTransferFeeAmount (acc_pod_string E withheld)"
| "convert_extension E (StDefaultAccountState state) =
     UxDefaultAccountState (case state of Some s \<Rightarrow> s | None \<Rightarrow> Uninitialized)"
| "convert_extension E (StMemoTransfer required) = UxMemoTransfer required"
| "convert_extension E (StInterestBearingConfig authority initialization average last_update current) =
     UxInterestBearingConfig (map_option (pubkey_string E) authority) initialization average last_update current"
| "convert_extension E (StCpiGuard lock) = UxCpiGuard lock"
| "convert_extension E (StPermanentDelegate delegate) = UxPermanentDelegate (map_option (pubkey_string E) delegate)"
| "convert_extension E (StMetadataPointer authority address) =
     UxMetadataPointer (map_option (pubkey_string E) authority) (map_option (pubkey_string E) address)"
| "convert_extension E (StTokenMetadata authority mint name symbol uri additional) =
     UxTokenMetadata (map_option (pubkey_string E) authority) (pubkey_string E mint) name symbol uri additional"
| "convert_extension E (StTransferHook authority program) =
     UxTransferHook (map_option (pubkey_string E) authority) (map_option (pubkey_string E) program)"
| "convert_extension E (StTransferHookAccount transferring) = UxTransferHookAccount transferring"
| "convert_extension E (StGroupPointer authority address) =
     UxGroupPointer (map_option (pubkey_string E) authority) (map_option (pubkey_string E) address)"
| "convert_extension E (StGroupMemberPointer authority address) =
     UxGroupMemberPointer (map_option (pubkey_string E) authority) (map_option (pubkey_string E) address)"
| "convert_extension E (StTokenGroup authority mint group_size max_size) =
     UxTokenGroup (map_option (pubkey_string E) authority) (pubkey_string E mint) group_size max_size"
| "convert_extension E (StTokenGroupMember mint group_key number) =
     UxTokenGroupMember (pubkey_string E mint) (pubkey_string E group_key) number"
| "convert_extension E (StConfidentialMintBurn supply decryptable elgamal pending) =
     UxConfidentialMintBurn (acc_pod_string E supply) (acc_pod_string E decryptable) (acc_pod_string E elgamal)
       (acc_pod_string E pending)"
| "convert_extension E (StScaledUiAmount authority multiplier effective new_multiplier) =
     UxScaledUiAmountConfig (map_option (pubkey_string E) authority) (acc_f64_string E multiplier) effective
       (acc_f64_string E new_multiplier)"
| "convert_extension E (StPausable authority paused) = UxPausableConfig (map_option (pubkey_string E) authority) paused"

definition parse_extension ::
  "('pk, 'h, 'v, 'c, 'm) account_env_scheme \<Rightarrow> (extension_type \<Rightarrow> ('pk, 'c) extension_state option) \<Rightarrow> extension_type \<Rightarrow> ui_extension" where
  \<comment> \<open>\<open>get t\<close> is \<open>get_extension\<close> or \<open>get_variable_len_extension\<close> at the state type of \<open>t\<close>\<close>
  "parse_extension E get t =
     (case t of
        ExtUninitialized \<Rightarrow> UxUninitialized
      | ExtImmutableOwner \<Rightarrow> UxImmutableOwner
      | ExtNonTransferable \<Rightarrow> UxNonTransferable
      | ExtNonTransferableAccount \<Rightarrow> UxNonTransferableAccount
      | ExtPausableAccount \<Rightarrow> UxPausableAccount
      | _ \<Rightarrow> (case get t of Some s \<Rightarrow> convert_extension E s | None \<Rightarrow> UxUnparseableExtension))"

subsection \<open>Accounts, mints and multisigs\<close>

record ('pk, 'c) token_account =
  ta_mint :: 'pk
  ta_owner :: 'pk
  ta_amount :: u64
  ta_delegate :: "'pk option"
  ta_state :: account_state
  ta_is_native :: "u64 option"
  ta_delegated_amount :: u64
  ta_close_authority :: "'pk option"
  ta_extension_types :: "extension_type list option"
  ta_get_extension :: "extension_type \<Rightarrow> ('pk, 'c) extension_state option"

record ('pk, 'c) token_mint =
  tm_mint_authority :: "'pk option"
  tm_supply :: u64
  tm_decimals :: u8
  tm_is_initialized :: bool
  tm_freeze_authority :: "'pk option"
  tm_extension_types :: "extension_type list option"
  tm_get_extension :: "extension_type \<Rightarrow> ('pk, 'c) extension_state option"

record 'pk token_multisig =
  tg_m :: u8
  tg_n :: u8
  tg_is_initialized :: bool
  tg_signers :: "'pk list"

record ('pk, 'h, 'v, 'c, 'ib, 'su) account_token_env = "('pk, 'h, 'v, 'c) account_env" +
  token_extension :: "('ib, 'su) token_extension_env"
  unpack_token_account :: "bytes \<Rightarrow> ('pk, 'c) token_account option"
  unpack_mint :: "bytes \<Rightarrow> ('pk, 'c) token_mint option"
  unpack_multisig :: "bytes \<Rightarrow> 'pk token_multisig option"
  multisig_packed_len :: nat
  valid_account_data :: "bytes \<Rightarrow> bool"
  pubkey_from_bytes :: "bytes \<Rightarrow> 'pk option"

record ui_token_account =
  uta_mint :: string
  uta_owner :: string
  uta_token_amount :: ui_token_amount
  uta_delegate :: "string option"
  uta_state :: account_state
  uta_is_native :: bool
  uta_rent_exempt_reserve :: "ui_token_amount option"
  uta_delegated_amount :: "ui_token_amount option"
  uta_close_authority :: "string option"
  uta_extensions :: "ui_extension list"

record ui_mint =
  utm_mint_authority :: "string option"
  utm_supply :: string
  utm_decimals :: u8
  utm_is_initialized :: bool
  utm_freeze_authority :: "string option"
  utm_extensions :: "ui_extension list"

record ui_multisig =
  utg_num_required_signers :: u8
  utg_num_valid_signers :: u8
  utg_is_initialized :: bool
  utg_signers :: "string list"

datatype token_account_type = TokenAccount ui_token_account | TokenMint ui_mint | TokenMultisig ui_multisig

definition ui_extensions ::
  "('pk, 'h, 'v, 'c, 'm) account_env_scheme \<Rightarrow> extension_type list option \<Rightarrow> (extension_type \<Rightarrow> ('pk, 'c) extension_state option) \<Rightarrow> ui_extension list" where
  \<comment> \<open>\<open>get_extension_types().unwrap_or_default()\<close>, each parsed\<close>
  "ui_extensions E types get = map (parse_extension E get) (case types of Some ts \<Rightarrow> ts | None \<Rightarrow> [])"

definition parse_token_v3 ::
  "('pk, 'h, 'v, 'c, 'ib, 'su) account_token_env \<Rightarrow> bytes \<Rightarrow> ('ib, 'su) spl_token_additional_data option \<Rightarrow>
     parse_account_error + token_account_type" where
  "parse_token_v3 E d additional_data =
     (case unpack_token_account E d of
        Some a \<Rightarrow>
          and_then (ok_or additional_data (AdditionalDataMissing ''no mint_decimals provided to parse spl-token account'')) (\<lambda>add.
          Inr (TokenAccount
            \<lparr>uta_mint = pubkey_string E (ta_mint a), uta_owner = pubkey_string E (ta_owner a),
             uta_token_amount = token_amount_to_ui_amount_v3 (token_extension E) (ta_amount a) add,
             uta_delegate = map_option (pubkey_string E) (ta_delegate a),
             uta_state = ta_state a, uta_is_native = (ta_is_native a \<noteq> None),
             uta_rent_exempt_reserve =
               map_option (\<lambda>r. token_amount_to_ui_amount_v3 (token_extension E) r add) (ta_is_native a),
             uta_delegated_amount =
               (if ta_delegate a = None then None
                else Some (token_amount_to_ui_amount_v3 (token_extension E) (ta_delegated_amount a) add)),
             uta_close_authority = map_option (pubkey_string E) (ta_close_authority a),
             uta_extensions = ui_extensions E (ta_extension_types a) (ta_get_extension a)\<rparr>))
      | None \<Rightarrow>
        (case unpack_mint E d of
           Some m \<Rightarrow> Inr (TokenMint
             \<lparr>utm_mint_authority = map_option (pubkey_string E) (tm_mint_authority m),
              utm_supply = show_nat (unat (tm_supply m)), utm_decimals = tm_decimals m,
              utm_is_initialized = tm_is_initialized m,
              utm_freeze_authority = map_option (pubkey_string E) (tm_freeze_authority m),
              utm_extensions = ui_extensions E (tm_extension_types m) (tm_get_extension m)\<rparr>)
         | None \<Rightarrow>
             if length d = multisig_packed_len E
             then and_then (ok_or (unpack_multisig E d) (AccountNotParsable AccSplToken)) (\<lambda>g.
                  Inr (TokenMultisig
                    \<lparr>utg_num_required_signers = tg_m g, utg_num_valid_signers = tg_n g,
                     utg_is_initialized = tg_is_initialized g,
                     utg_signers = map (pubkey_string E) (filter (\<lambda>k. k \<noteq> default_pubkey E) (tg_signers g))\<rparr>))
             else Inl (AccountNotParsable AccSplToken)))"

definition get_token_account_mint :: "('pk, 'h, 'v, 'c, 'ib, 'su) account_token_env \<Rightarrow> bytes \<Rightarrow> 'pk option" where
  "get_token_account_mint E d =
     (if valid_account_data E d
      then Option.bind (if 32 \<le> length d then Some (take 32 d) else None) (pubkey_from_bytes E)
      else None)"

end
