(* ===== verification/Ui_Account.thy ===== *)
theory Ui_Account
  imports Account_Token
begin

section \<open>Encoding accounts\<close>

text \<open>
  \<open>parse_account_data_v3\<close> (\<open>src/account-decoder/src/parse_account_data.rs\<close>), \<open>encode_ui_account\<close> and
  \<open>slice_data\<close> (\<open>src/account-decoder/src/lib.rs\<close>), and the decoders of
  \<open>src/account-decoder-client-types/src/lib.rs\<close>.  The parsed data of an account are kept as the value
  that the derived serialization turns into JSON.  Base58, base64 and zstd are parameters.
\<close>

subsection \<open>Parsed account data\<close>

datatype 'v account_json =
    ValueLookupTable lookup_table_account_type
  | ValueLoader loader_account_type
  | ValueConfig config_account_type
  | ValueNonce ui_nonce_data
  | ValueToken token_account_type
  | ValueStake stake_account_type
  | ValueSysvar "'v sysvar_account_type"
  | ValueVote "'v ui_vote_state"

record 'v parsed_account_data =
  pad_program :: string
  pad_parsed :: "'v account_json"
  pad_space :: u64

record ('pk, 'h, 'v, 'c, 'ib, 'su) ui_account_env = "('pk, 'h, 'v, 'c, 'ib, 'su) account_token_env" +
  lookup_table_owner :: 'pk
  loader_owner :: 'pk
  config_owner :: 'pk
  system_owner :: 'pk
  token_2022_owner :: 'pk
  token_owner :: 'pk
  stake_owner :: 'pk
  sysvar_owner :: 'pk
  vote_owner :: 'pk
  kebab_case :: "string \<Rightarrow> string"
  account_bs58_encode :: "bytes \<Rightarrow> string"
  account_bs58_decode :: "string \<Rightarrow> bytes option"
  account_base64_decode :: "string \<Rightarrow> bytes option"
  zstd_encode :: "bytes \<Rightarrow> bytes option"
  zstd_decode :: "bytes \<Rightarrow> bytes option"
  pubkey_from_str :: "string \<Rightarrow> 'pk option"

definition account_program_ids :: "('pk, 'h, 'v, 'c, 'ib, 'su) ui_account_env \<Rightarrow> 'pk \<rightharpoonup> parsable_account" where
  \<comment> \<open>\<open>PARSABLE_PROGRAM_IDS\<close>: the insertions in their order\<close>
  "account_program_ids E =
     Map.empty(lookup_table_owner E \<mapsto> AccAddressLookupTable, loader_owner E \<mapsto> AccBpfUpgradeableLoader,
       config_owner E \<mapsto> AccConfig, system_owner E \<mapsto> AccNonce, token_2022_owner E \<mapsto> AccSplToken2022,
       token_owner E \<mapsto> AccSplToken, stake_owner E \<mapsto> AccStake, sysvar_owner E \<mapsto> AccSysvar, vote_owner E \<mapsto> AccVote)"

primrec account_debug :: "parsable_account \<Rightarrow> string" where
  "account_debug AccAddressLookupTable = ''AddressLookupTable''"
| "account_debug AccBpfUpgradeableLoader = ''BpfUpgradeableLoader''"
| "account_debug AccConfig = ''Config''"
| "account_debug AccNonce = ''Nonce''"
| "account_debug AccSplToken = ''SplToken''"
| "account_debug AccSplToken2022 = ''SplToken2022''"
| "account_debug AccStake = ''Stake''"
| "account_debug AccSysvar = ''Sysvar''"
| "account_debug AccVote = ''Vote''"

definition account_value ::
  "('pk, 'h, 'v, 'c, 'ib, 'su) account_token_env \<Rightarrow> parsable_account \<Rightarrow> 'pk \<Rightarrow> bytes \<Rightarrow> ('ib, 'su) spl_token_additional_data option \<Rightarrow>
     'v account_json parsed_data" where
  \<comment> \<open>the \<open>match program_name\<close>\<close>
  "account_value E program pubkey d additional =
     (case program of
        AccAddressLookupTable \<Rightarrow> Some (and_then (parse_address_lookup_table_account E d) (\<lambda>x. Inr (ValueLookupTable x)))
      | AccBpfUpgradeableLoader \<Rightarrow> bind_step (parse_bpf_upgradeable_loader_account E d) (\<lambda>x. Some (Inr (ValueLoader x)))
      | AccConfig \<Rightarrow> Some (and_then (parse_config E d pubkey) (\<lambda>x. Inr (ValueConfig x)))
      | AccNonce \<Rightarrow> Some (and_then (parse_nonce E d) (\<lambda>x. Inr (ValueNonce x)))
      | AccSplToken \<Rightarrow> Some (and_then (parse_token_v3 E d additional) (\<lambda>x. Inr (ValueToken x)))
      | AccSplToken2022 \<Rightarrow> Some (and_then (parse_token_v3 E d additional) (\<lambda>x. Inr (ValueToken x)))
      | AccStake \<Rightarrow> Some (and_then (parse_stake_account E d) (\<lambda>x. Inr (ValueStake x)))
      | AccSysvar \<Rightarrow> bind_step (parse_sysvar E d pubkey) (\<lambda>x. Some (Inr (ValueSysvar x)))
      | AccVote \<Rightarrow> Some (and_then (parse_vote_account E d) (\<lambda>x. Inr (ValueVote x))))"

definition parse_account_data_v3 ::
  "('pk, 'h, 'v, 'c, 'ib, 'su) ui_account_env \<Rightarrow> 'pk \<Rightarrow> 'pk \<Rightarrow> bytes \<Rightarrow> ('ib, 'su) spl_token_additional_data option \<Rightarrow>
     'v parsed_account_data parsed_data" where
  "parse_account_data_v3 E pubkey program_id d additional =
     bind_step (Some (ok_or (account_program_ids E program_id) AccountProgramNotParsable)) (\<lambda>program.
     bind_step (account_value (account_token_env.truncate E) program pubkey d additional) (\<lambda>v.
     Some (Inr \<lparr>pad_program = kebab_case E (account_debug program), pad_parsed = v, pad_space = word_of_nat (length d)\<rparr>)))"

subsection \<open>Accounts and their encodings\<close>

record 'pk account_record =
  ar_lamports :: u64
  ar_data :: bytes
  ar_owner :: 'pk
  ar_executable :: bool
  ar_rent_epoch :: u64

datatype account_encoding = AccBinary | AccBase58 | AccBase64 | AccJsonParsed | AccBase64Zstd

datatype 'v ui_account_data =
  DataLegacyBinary string | DataJson "'v parsed_account_data" | DataBinary string account_encoding

record 'v ui_account =
  ua_lamports :: u64
  ua_data :: "'v ui_account_data"
  ua_owner :: string
  ua_executable :: bool
  ua_rent_epoch :: u64
  ua_space :: "u64 option"

definition max_base58_bytes :: nat where
  "max_base58_bytes = 128"

definition slice_data :: "bytes \<Rightarrow> (nat \<times> nat) option \<Rightarrow> bytes option" where
  \<comment> \<open>a configuration is an offset and a length; a slice out of range panics\<close>
  "slice_data d config =
     (case config of
        Some (offset, len) \<Rightarrow>
          if length d \<le> offset then Some []
          else if length d - offset < len then slice_from d offset
          else if offset + len \<le> length d then Some (take len (drop offset d)) else None
      | None \<Rightarrow> Some d)"

definition encode_bs58 ::
  "('pk, 'h, 'v, 'c, 'ib, 'su) ui_account_env \<Rightarrow> 'pk account_record \<Rightarrow> (nat \<times> nat) option \<Rightarrow> string option" where
  "encode_bs58 E a config =
     map_option (\<lambda>s. if length s \<le> max_base58_bytes then account_bs58_encode E s
                     else ''error: data too large for bs58 encoding'')
       (slice_data (ar_data a) config)"

definition encode_ui_account ::
  "('pk, 'h, 'v, 'c, 'ib, 'su) ui_account_env \<Rightarrow> 'pk \<Rightarrow> 'pk account_record \<Rightarrow> account_encoding \<Rightarrow>
     ('ib, 'su) spl_token_additional_data option \<Rightarrow> (nat \<times> nat) option \<Rightarrow> 'v ui_account option" where
  "encode_ui_account E pubkey a encoding additional config =
     (let base64 = map_option (\<lambda>s. DataBinary (base64_encode E s) AccBase64) (slice_data (ar_data a) config)
      in map_option (\<lambda>data. \<lparr>ua_lamports = ar_lamports a, ua_data = data, ua_owner = pubkey_string E (ar_owner a),
            ua_executable = ar_executable a, ua_rent_epoch = ar_rent_epoch a,
            ua_space = Some (word_of_nat (length (ar_data a)))\<rparr>)
         (case encoding of
            AccBinary \<Rightarrow> map_option DataLegacyBinary (encode_bs58 E a config)
          | AccBase58 \<Rightarrow> map_option (\<lambda>s. DataBinary s AccBase58) (encode_bs58 E a config)
          | AccBase64 \<Rightarrow> base64
          | AccBase64Zstd \<Rightarrow>
              Option.bind (slice_data (ar_data a) config) (\<lambda>s.
                case zstd_encode E s of
                  Some z \<Rightarrow> Some (DataBinary (base64_encode E z) AccBase64Zstd)
                | None \<Rightarrow> base64)
          | AccJsonParsed \<Rightarrow>
              (case parse_account_data_v3 E pubkey (ar_owner a) (ar_data a) additional of
                 None \<Rightarrow> None
               | Some (Inr p) \<Rightarrow> Some (DataJson p)
               | Some (Inl _) \<Rightarrow> base64)))"

definition ui_account_data_decode ::
  "('pk, 'h, 'v, 'c, 'ib, 'su) ui_account_env \<Rightarrow> 'v ui_account_data \<Rightarrow> bytes option" where
  "ui_account_data_decode E data =
     (case data of
        DataJson _ \<Rightarrow> None
      | DataLegacyBinary blob \<Rightarrow> account_bs58_decode E blob
      | DataBinary blob encoding \<Rightarrow>
          (case encoding of
             AccBase58 \<Rightarrow> account_bs58_decode E blob
           | AccBase64 \<Rightarrow> account_base64_decode E blob
           | AccBase64Zstd \<Rightarrow> Option.bind (account_base64_decode E blob) (zstd_decode E)
           | AccBinary \<Rightarrow> None
           | AccJsonParsed \<Rightarrow> None))"

definition ui_account_decode ::
  "('pk, 'h, 'v, 'c, 'ib, 'su) ui_account_env \<Rightarrow> 'v ui_account \<Rightarrow> 'pk account_record option" where
  "ui_account_decode E u =
     Option.bind (ui_account_data_decode E (ua_data u)) (\<lambda>d.
     Option.bind (pubkey_from_str E (ua_owner u)) (\<lambda>owner.
     Some \<lparr>ar_lamports = ua_lamports u, ar_data = d, ar_owner = owner, ar_executable = ua_executable u,
           ar_rent_epoch = ua_rent_epoch u\<rparr>))"

subsection \<open>Slices\<close>

definition data_slice :: "(nat \<times> nat) option \<Rightarrow> bytes \<Rightarrow> bytes" where
  \<comment> \<open>the specification: the part of the data that is asked for, as far as it exists\<close>
  "data_slice config d = (case config of Some (offset, len) \<Rightarrow> take len (drop offset d) | None \<Rightarrow> d)"

lemma slice_data_eq: "slice_data d config = Some (data_slice config d)"
  by (auto simp: slice_data_def data_slice_def slice_from_def split: option.split)

subsection \<open>No panic\<close>

definition parser_laws :: "('pk, 'h, 'v, 'c, 'm) account_env_scheme \<Rightarrow> bool" where
  \<comment> \<open>what the deserializers guarantee: a loader state is read from at least as many bytes as its metadata
      take, which are larger than a key\<close>
  "parser_laws E \<longleftrightarrow>
     size_of_pubkey E \<le> size_of_buffer_metadata E \<and> size_of_pubkey E \<le> size_of_programdata_metadata E
     \<and> (\<forall>d a. loader_deserialize E d = Some (LoaderBuffer a) \<longrightarrow>
          size_of_buffer_metadata E - (if a = None then size_of_pubkey E else 0) \<le> length d)
     \<and> (\<forall>d s a. loader_deserialize E d = Some (LoaderProgramData s a) \<longrightarrow>
          size_of_programdata_metadata E - (if a = None then size_of_pubkey E else 0) \<le> length d)"

definition short_history :: "('pk, 'h, 'v, 'c, 'm) account_env_scheme \<Rightarrow> 'pk \<Rightarrow> bytes \<Rightarrow> bool" where
  \<comment> \<open>the slot history account, when its data decode to fewer bits than the parser prints\<close>
  "short_history E pubkey d \<longleftrightarrow> pubkey = slot_history_id E
     \<and> (case slot_history_deserialize E d of
          Some (n, bits) \<Rightarrow> length bits < slot_history_max_entries E
        | None \<Rightarrow> False)"

lemma loader_account_total:
  assumes "parser_laws E"
  shows "parse_bpf_upgradeable_loader_account E d \<noteq> None"
proof (cases "loader_deserialize E d")
  case (Some s)
  show ?thesis
  proof (cases s)
    case (LoaderBuffer a)
    have "size_of_pubkey E \<le> size_of_buffer_metadata E"
      and "size_of_buffer_metadata E - (if a = None then size_of_pubkey E else 0) \<le> length d"
      using assms Some LoaderBuffer unfolding parser_laws_def by blast+
    then show ?thesis
      using Some LoaderBuffer
      by (cases a) (simp_all add: parse_bpf_upgradeable_loader_account_def metadata_offset_def slice_from_def)
  next
    case (LoaderProgramData slot a)
    have "size_of_pubkey E \<le> size_of_programdata_metadata E"
      and "size_of_programdata_metadata E - (if a = None then size_of_pubkey E else 0) \<le> length d"
      using assms Some LoaderProgramData unfolding parser_laws_def by blast+
    then show ?thesis
      using Some LoaderProgramData
      by (cases a) (simp_all add: parse_bpf_upgradeable_loader_account_def metadata_offset_def slice_from_def)
  qed (use Some in \<open>simp_all add: parse_bpf_upgradeable_loader_account_def\<close>)
qed (simp add: parse_bpf_upgradeable_loader_account_def)

lemma slot_history_bits_eq:
  "n \<le> length bits \<Longrightarrow> slot_history_bits n bits = Some (map (\<lambda>b. if b then CHR ''1'' else CHR ''0'') (take n bits))"
proof -
  assume n: "n \<le> length bits"
  then have "map (\<lambda>i. map_option (\<lambda>b. if b then CHR ''1'' else CHR ''0'') (slice_get bits i)) [0..<n]
      = map Some (map (\<lambda>b. if b then CHR ''1'' else CHR ''0'') (take n bits))"
    by (auto intro!: nth_equalityI)
  then show ?thesis unfolding slot_history_bits_def by (simp only: collect_options_Some)
qed

definition settled :: "'a option option \<Rightarrow> bool" where
  "settled x \<longleftrightarrow> x \<noteq> Some None"

lemma settled_if: "(c \<Longrightarrow> settled x) \<Longrightarrow> (\<not> c \<Longrightarrow> settled y) \<Longrightarrow> settled (if c then x else y)"
  by simp

lemma settled_map: "settled (map_option (\<lambda>x. Some (f x)) z)" "settled None"
  by (cases z) (simp_all add: settled_def)

lemma settled_case: "settled x \<Longrightarrow> (case x of Some r \<Rightarrow> r | None \<Rightarrow> Some m) \<noteq> None"
  by (auto simp: settled_def split: option.split)

lemma settled_slot_history:
  assumes "\<not> short_history E pubkey d" "pubkey = slot_history_id E"
  shows "settled (map_option (\<lambda>(next_slot, bits).
      map_option (\<lambda>s. Inr (SysvarSlotHistory next_slot s)) (slot_history_bits (slot_history_max_entries E) bits))
    (slot_history_deserialize E d))"
  using assms
  by (cases "slot_history_deserialize E d") (auto simp: short_history_def settled_def slot_history_bits_eq not_less)

lemma sysvar_total: "\<not> short_history E pubkey d \<Longrightarrow> parse_sysvar E d pubkey \<noteq> None"
  unfolding parse_sysvar_def Let_def
  by (intro settled_case settled_if settled_map settled_slot_history)

lemma account_value_total:
  "parser_laws E \<Longrightarrow> \<not> (program = AccSysvar \<and> short_history E pubkey d) \<Longrightarrow> account_value E program pubkey d additional \<noteq> None"
  using loader_account_total[of E d] sysvar_total[of E pubkey d]
  by (cases program) (auto simp: account_value_def bind_step_eq_None)

subsection \<open>Encoding and decoding\<close>

definition ui_account_laws :: "('pk, 'h, 'v, 'c, 'ib, 'su) ui_account_env \<Rightarrow> bool" where
  \<comment> \<open>the codecs are lossless\<close>
  "ui_account_laws E \<longleftrightarrow>
     (\<forall>b. account_bs58_decode E (account_bs58_encode E b) = Some b)
     \<and> (\<forall>b. account_base64_decode E (base64_encode E b) = Some b)
     \<and> (\<forall>b z. zstd_encode E b = Some z \<longrightarrow> zstd_decode E z = Some b)
     \<and> (\<forall>k. pubkey_from_str E (pubkey_string E k) = Some k)"

definition prints_short_history :: "('pk, 'h, 'v, 'c, 'ib, 'su) ui_account_env \<Rightarrow> 'pk \<Rightarrow> 'pk account_record \<Rightarrow> bool" where
  "prints_short_history E pubkey a \<longleftrightarrow>
     account_program_ids E (ar_owner a) = Some AccSysvar \<and> short_history (account_token_env.truncate E) pubkey (ar_data a)"

lemma parse_account_data_total:
  assumes "parser_laws (account_token_env.truncate E)" "\<not> prints_short_history E pubkey a"
  shows "parse_account_data_v3 E pubkey (ar_owner a) (ar_data a) additional \<noteq> None"
  using account_value_total[OF assms(1), where d = "ar_data a" and pubkey = pubkey] assms(2)
  by (cases "account_program_ids E (ar_owner a)")
     (auto simp: parse_account_data_v3_def bind_step_eq_None prints_short_history_def)

definition decodes_to :: "('pk, 'h, 'v, 'c, 'ib, 'su) ui_account_env \<Rightarrow> 'v ui_account_data \<Rightarrow> bytes \<Rightarrow> bool" where
  "decodes_to E data s \<longleftrightarrow> ui_account_data_decode E data = Some s"

lemma base64_decodes: "ui_account_laws E \<Longrightarrow> decodes_to E (DataBinary (base64_encode E s) AccBase64) s"
  by (simp add: decodes_to_def ui_account_laws_def ui_account_data_decode_def)

lemma encode_ui_account_data:
  assumes "ui_account_laws E" "parser_laws (account_token_env.truncate E)"
    and s_def: "s = data_slice config (ar_data a)"
  shows "case encode_ui_account E pubkey a encoding additional config of
      None \<Rightarrow> encoding = AccJsonParsed \<and> prints_short_history E pubkey a
    | Some u \<Rightarrow> \<exists>data. u = \<lparr>ua_lamports = ar_lamports a, ua_data = data, ua_owner = pubkey_string E (ar_owner a),
            ua_executable = ar_executable a, ua_rent_epoch = ar_rent_epoch a, ua_space = Some (word_of_nat (length (ar_data a)))\<rparr>
        \<and> (case data of
             DataJson _ \<Rightarrow> encoding = AccJsonParsed
           | _ \<Rightarrow> encoding \<in> {AccBinary, AccBase58} \<and> max_base58_bytes < length s \<or> decodes_to E data s)"
proof (cases encoding)
  case AccJsonParsed
  show ?thesis
  proof (cases "parse_account_data_v3 E pubkey (ar_owner a) (ar_data a) additional")
    case None
    then show ?thesis
      using parse_account_data_total[OF assms(2), of pubkey a additional] AccJsonParsed
      by (auto simp: encode_ui_account_def Let_def)
  next
    case (Some r)
    then show ?thesis
      using AccJsonParsed base64_decodes[OF assms(1), of s]
      by (cases r) (simp_all add: encode_ui_account_def slice_data_eq s_def Let_def)
  qed
next
  case AccBase64Zstd
  then show ?thesis
    using assms(1) base64_decodes[OF assms(1), of s]
    by (cases "zstd_encode E s")
       (auto simp: encode_ui_account_def slice_data_eq s_def Let_def decodes_to_def ui_account_laws_def ui_account_data_decode_def)
qed (use assms(1) in \<open>auto simp: encode_ui_account_def encode_bs58_def slice_data_eq s_def Let_def decodes_to_def
       ui_account_laws_def ui_account_data_decode_def\<close>)

text \<open>C18: Encoding an account panics, whatever its data, the encoding and the slice that is asked for, only
  in one case: the slot history account, whose data decode to a history with fewer bits than the
  parser prints, in the parsed encoding.  Otherwise, unless the data were parsed, decoding gives
  the account back with exactly the slice of its data, cut at the end of the data; the exception
  are the two base58 encodings of more than 128 bytes.  Parsed accounts do not decode.  The space is
  always that of the whole data.\<close>

theorem ui_account_roundtrip:
  assumes "ui_account_laws E" "parser_laws (account_token_env.truncate E)"
  shows "case encode_ui_account E pubkey a encoding additional config of
      None \<Rightarrow> encoding = AccJsonParsed \<and> prints_short_history E pubkey a
    | Some u \<Rightarrow> ua_space u = Some (word_of_nat (length (ar_data a)))
        \<and> (case ua_data u of
             DataJson _ \<Rightarrow> encoding = AccJsonParsed \<and> ui_account_decode E u = None
           | _ \<Rightarrow> encoding \<in> {AccBinary, AccBase58} \<and> 128 < length (data_slice config (ar_data a))
                 \<or> ui_account_decode E u = Some (a\<lparr>ar_data := data_slice config (ar_data a)\<rparr>))"
proof (cases "encode_ui_account E pubkey a encoding additional config")
  case (Some u)
  obtain data where u: "u = \<lparr>ua_lamports = ar_lamports a, ua_data = data, ua_owner = pubkey_string E (ar_owner a),
            ua_executable = ar_executable a, ua_rent_epoch = ar_rent_epoch a, ua_space = Some (word_of_nat (length (ar_data a)))\<rparr>"
    and d: "case data of
         DataJson _ \<Rightarrow> encoding = AccJsonParsed
       | _ \<Rightarrow> encoding \<in> {AccBinary, AccBase58} \<and> max_base58_bytes < length (data_slice config (ar_data a))
           \<or> decodes_to E data (data_slice config (ar_data a))"
    using encode_ui_account_data[OF assms refl, where pubkey = pubkey and a = a and encoding = encoding
        and additional = additional and config = config] Some by auto
  have owner: "pubkey_from_str E (pubkey_string E (ar_owner a)) = Some (ar_owner a)"
    using assms(1) by (simp add: ui_account_laws_def)
  show ?thesis
    unfolding Some u using d owner
    by (cases data)
       (auto simp: ui_account_decode_def decodes_to_def max_base58_bytes_def ui_account_data_decode_def[of E "DataJson _"])
qed (use encode_ui_account_data[OF assms refl, where pubkey = pubkey and a = a and encoding = encoding
        and additional = additional and config = config] in simp)

definition plain_account_env :: "(nat, nat, nat, nat, nat, nat) ui_account_env" where
  \<comment> \<open>a codec that keeps the bytes, keys written as one byte, and simple nonce, loader and slot history accounts\<close>
  "plain_account_env =
     \<lparr>pubkey_string = (\<lambda>n. replicate n CHR ''k''), hash_string = show_nat, to_value = (\<lambda>_. JNull),
      base64_encode = (\<lambda>b. map (\<lambda>w. char_of (unat w)) b),
      clock_id = 1, epoch_schedule_id = 2, fees_id = 3, recent_blockhashes_id = 4, rent_id = 5, rewards_id = 6,
      slot_hashes_id = 7, slot_history_id = 8, stake_history_id = 9, last_restart_slot_id = 10, epoch_rewards_id = 11,
      clock_deserialize = (\<lambda>_. None), epoch_schedule_deserialize = (\<lambda>_. None), fees_deserialize = (\<lambda>_. None),
      recent_blockhashes_deserialize = (\<lambda>_. None), rent_deserialize = (\<lambda>_. None), rewards_deserialize = (\<lambda>_. None),
      slot_hashes_deserialize = (\<lambda>_. None), slot_history_deserialize = (\<lambda>d. if d = [] then None else Some (1, map (\<lambda>w. w \<noteq> 0) d)), slot_history_max_entries = 4,
      stake_history_deserialize = (\<lambda>_. None), last_restart_slot_deserialize = (\<lambda>_. None), epoch_rewards_deserialize = (\<lambda>_. None),
      default_pubkey = 0, acc_f64_string = (\<lambda>_. []), acc_pod_string = show_nat,
      nonce_deserialize =
        (\<lambda>d. if d = [1] then Some (Some \<lparr>nd_authority = 3, nd_blockhash = 4, nd_lamports_per_signature = 5\<rparr>) else None),
      stake_deserialize = (\<lambda>_. None), loader_deserialize =
        (\<lambda>d. if 37 \<le> length d \<and> hd d = 1 then Some (LoaderBuffer (Some 6))
              else if 13 \<le> length d \<and> hd d = 3 then Some (LoaderProgramData 7 None) else None),
      size_of_buffer_metadata = 37, size_of_programdata_metadata = 45, size_of_pubkey = 32,
      lookup_table_deserialize = (\<lambda>_. Inl IE_InvalidAccountData), vote_deserialize = (\<lambda>_. Inl IE_InvalidAccountData),
      stake_config_id = 12, validator_info_id = 13, get_config_data = (\<lambda>_. None), stake_config_deserialize = (\<lambda>_. None),
      config_keys_deserialize = (\<lambda>_. None), string_deserialize = (\<lambda>_. None), json_from_str = (\<lambda>_. None),
      token_extension = \<lparr>interest_amount_to_ui_amount = (\<lambda>_ _ _ _. None), scaled_amount_to_ui_amount = (\<lambda>_ _ _ _. None),
        f64_from_str = (\<lambda>_. None)\<rparr>,
      unpack_token_account = (\<lambda>_. None), unpack_mint = (\<lambda>_. None), unpack_multisig = (\<lambda>_. None), multisig_packed_len = 355,
      valid_account_data = (\<lambda>_. False), pubkey_from_bytes = (\<lambda>_. None),
      lookup_table_owner = 20, loader_owner = 21, config_owner = 22, system_owner = 23, token_2022_owner = 24,
      token_owner = 25, stake_owner = 26, sysvar_owner = 27, vote_owner = 28,
      kebab_case = id, account_bs58_encode = (\<lambda>b. map (\<lambda>w. char_of (unat w)) b),
      account_bs58_decode = (\<lambda>s. Some (map (\<lambda>c. word_of_nat (of_char c)) s)),
      account_base64_decode = (\<lambda>s. Some (map (\<lambda>c. word_of_nat (of_char c)) s)),
      zstd_encode = (\<lambda>b. Some b), zstd_decode = (\<lambda>b. Some b), pubkey_from_str = (\<lambda>s. Some (length s))\<rparr>"

definition plain_stored_account :: "nat account_record" where
  "plain_stored_account = \<lparr>ar_lamports = 9, ar_data = [1, 2, 3], ar_owner = 50, ar_executable = False, ar_rent_epoch = 0\<rparr>"

lemma plain_accounts_laws: "ui_account_laws plain_account_env" "parser_laws (account_token_env.truncate plain_account_env)"
proof -
  have "word_of_nat (of_char (char_of (unat w) :: char)) = w" for w :: byte
    using unsigned_less[of w, where ?'a = nat] by simp
  then show "ui_account_laws plain_account_env" by (simp add: ui_account_laws_def plain_account_env_def comp_def)
  show "parser_laws (account_token_env.truncate plain_account_env)"
    by (auto simp: parser_laws_def plain_account_env_def account_token_env.defs)
qed

lemma plain_short_history:
  "encode_ui_account plain_account_env 8 (plain_stored_account\<lparr>ar_owner := 27\<rparr>) AccJsonParsed None None = None"
  by code_simp

theorem ui_account_roundtrip_witness:
  "(case encode_ui_account plain_account_env 40 plain_stored_account AccBase64Zstd None (Some (1, 9)) of
      None \<Rightarrow> False
    | Some u \<Rightarrow> ua_space u = Some 3 \<and> ui_account_decode plain_account_env u = Some (plain_stored_account\<lparr>ar_data := [2, 3]\<rparr>))
   \<and> prints_short_history plain_account_env 8 (plain_stored_account\<lparr>ar_owner := 27\<rparr>)"
proof -
  have s: "data_slice (Some (1, 9)) (ar_data plain_stored_account) = [2, 3]" by (simp add: data_slice_def plain_stored_account_def)
  have n: "word_of_nat (length (ar_data plain_stored_account)) = (3 :: u64)" by (simp add: plain_stored_account_def)
  have "prints_short_history plain_account_env 8 (plain_stored_account\<lparr>ar_owner := 27\<rparr>)"
    using ui_account_roundtrip[OF plain_accounts_laws, where pubkey = 8 and a = "plain_stored_account\<lparr>ar_owner := 27\<rparr>"
        and encoding = AccJsonParsed and additional = None and config = None]
    by (simp add: plain_short_history)
  then show ?thesis
    using ui_account_roundtrip[OF plain_accounts_laws, where pubkey = 40 and a = plain_stored_account and encoding = AccBase64Zstd
        and additional = None and config = "Some (1, 9)"]
    by (auto simp: s[simplified] n split: option.splits ui_account_data.splits)
qed

end
