(* ===== verification/Spec2Isabelle.thy ===== *)
theory Spec2Isabelle
  imports Prelude Merkle_Tree Poh Entry Tx_Runs Packet Sigverify Sigverify_Gpu Shrink_Batches Deduper Data_Budget Ledger_Db
    Blockstore Discard Recycler Unpack Storage_Stored Tx_Encode_Props Ui_Account
begin

text \<open>
  \<^bold>\<open>A verification of the blockchain workspace.\<close>

  The repository is a Rust workspace derived from a Solana validator.  This library models the
  crates that compute: the hash chain and its entries, the transaction context the virtual
  machine works on, the packet pipeline with its signature verification, the ledger, the unpacking
  of archives, the storage format of blocks, and the JSON interface to transactions and accounts.

  \<^bold>\<open>Conventions.\<close>  Integers keep their width: \<open>u8\<close> to \<open>u64\<close> are words, \<open>usize\<close> is \<^typ>\<open>nat\<close> with the
  checked and saturating operations of \<open>Prelude\<close> against \<^const>\<open>usize_max\<close>, signed integers are
  \<^typ>\<open>int\<close> with their bounds written out.  \<open>Result\<close> is a sum whose left side is the error, a panic is
  \<^const>\<open>None\<close>; a method on \<open>&mut self\<close> returns the new state, also beside an error, because the code
  keeps what it wrote before it failed.  Code that is not in the repository is a parameter: a
  record of functions (\<open>tx_env\<close>, \<open>packet_env\<close>, \<open>sigverify_env\<close>, \<open>gpu_api\<close>, \<open>cuda_api\<close>, \<open>rocks_env\<close>,
  \<open>os_env\<close>, \<open>storage_env\<close>, \<open>encode_env\<close>, \<open>ui_account_env\<close>) or a single function (\<open>hashv\<close> for SHA-256),
  with what the code relies on as a predicate (\<open>account_laws\<close>, \<open>packet_laws\<close>, \<open>sigverify_laws\<close>,
  \<open>kernel_spec\<close>, \<open>api_laws\<close>, \<open>rocks_laws\<close>, \<open>serde_laws\<close>, \<open>storage_laws\<close>, \<open>token_laws\<close>, \<open>encode_laws\<close>,
  \<open>parser_laws\<close>, \<open>ui_account_laws\<close>) that a concrete instance (\<open>plain_*\<close>) satisfies.  The decoders of
  instructions and accounts are such parameters; what the code does with the decoded value is not.

  \<^bold>\<open>Parts.\<close>

  \<^item> \<open>Merkle_Tree\<close> (\<open>merkle-tree/src/merkle_tree.rs\<close>): the tree in one vector, proofs and their
    verification.  The loops build the recursive reference tree; a proof of a leaf verifies, and
    an accepted proof of another value gives a collision of the hash function.
  \<^item> \<open>Poh\<close>, \<open>Entry\<close> (\<open>entry/src\<close>): the hash chain as a state machine of \<open>hash\<close>, \<open>record\<close> and \<open>tick\<close>,
    and the entries made with it.  Runs do not panic, entries chain, ticks are evenly spaced, and
    \<open>Entry::new\<close>, \<open>hash_transactions\<close> and \<open>create_ticks\<close> have closed forms over \<open>Poh\<close> and \<open>Merkle_Tree\<close>.
  \<^item> \<open>Tx_Accounts\<close>, \<open>Tx_Context\<close>, \<open>Tx_Borrowed\<close>, \<open>Tx_Machine\<close>, \<open>Tx_Runs\<close> (\<open>transaction-context/src/lib.rs\<close>):
    the account cells with their borrow flags, the instruction trace and stack, the operations on
    a borrowed account, and the machine whose steps are all of these in any order.  Every
    reachable state keeps the books of lamports and data growth, the exclusiveness of borrows and
    the stack discipline; every operation respects the permissions of its account.
  \<^item> \<open>Packet\<close>, \<open>Sigverify\<close>, \<open>Sigverify_Gpu\<close>, \<open>Shrink_Batches\<close>, \<open>Deduper\<close>, \<open>Data_Budget\<close> (\<open>perf/src\<close>): packets
    and batches; the packet parser, whose offsets are in bounds; the verification on the CPU
    and on the GPU, which discard the same packets; the compaction of batches; the duplicate
    filter, a refinement of a Bloom filter; the byte budget under interleaved atomic accesses.
  \<^item> \<open>Discard\<close>, \<open>Pinned_Vec\<close>, \<open>Recycler\<close> (\<open>perf/src/discard.rs\<close>, \<open>cuda_runtime.rs\<close>, \<open>recycler.rs\<close>): the random
    discarding of batches ends within its limit; in every run of vector and recycler operations, from a
    recycler that may be warmed, exactly the memory of the pinned vectors is registered with the
    driver and none is shared, up to an operation that pins a vector without memory.
  \<^item> \<open>Byte_Keys\<close>, \<open>Columns\<close>, \<open>Ledger_Db\<close> (\<open>ledger/src/blockstore/column.rs\<close>, \<open>blockstore_db.rs\<close>,
    \<open>blockstore_options.rs\<close>): big-endian keys, the key formats of all columns behind the interfaces
    \<open>column_codec\<close> and \<open>slot_first_codec\<close>, the typed columns over RocksDB and the compaction filter.
  \<^item> \<open>Blockstore\<close> (\<open>ledger/src/blockstore.rs\<close>): opening, cleaning up and creating a ledger over these columns.
    A new ledger is empty; the ticks of slot 0 only give the hash that is returned.
  \<^item> \<open>Unpack\<close> (\<open>accounts-db/src/hardened_unpack.rs\<close>): the unpacking of snapshot and genesis archives.
    Whatever an archive holds, files are created only at the known places, and the number of entries
    and their declared sizes stay within the limits.
  \<^item> \<open>Decimal\<close>, \<open>F64\<close>, \<open>Token_Amount\<close> (\<open>account-decoder-client-types/src/token.rs\<close>): decimal numerals, the
    rounding of floating point numbers, and the displayed token amounts, which are right.
  \<^item> \<open>Tx_Errors\<close>, \<open>Tx_By_Addr\<close>, \<open>Storage_Proto\<close>, \<open>Storage_Roundtrip\<close>, \<open>Storage_Stored\<close> (\<open>storage-proto/src\<close>): the
    conversions of errors, address indexes, transactions, metadata and blocks to the generated
    messages and the bincode structures and back; what is stored is read back in canonical form.
  \<^item> \<open>Option_Results\<close>, \<open>Parse_Instruction\<close>, \<open>Parse_System\<close>, \<open>Parse_Stake\<close>, \<open>Parse_Vote\<close>, \<open>Parse_Loader\<close>,
    \<open>Parse_Tables\<close>, \<open>Parse_Token_Ext\<close>, \<open>Parse_Token\<close>, \<open>Memo\<close>, \<open>Parse_Dispatch\<close> (\<open>transaction-status/src\<close>, the
    modules \<open>parse_*\<close> and \<open>extract_memos\<close>): the instruction parsers with all their variants.  None
    panics on any input; for five of the programs an instruction is parsed exactly when it is well
    formed.
  \<^item> \<open>Ui_Types\<close>, \<open>Tx_Encode\<close>, \<open>Tx_Encode_Props\<close> (\<open>transaction-status-client-types/src\<close>,
    \<open>transaction-status/src/lib.rs\<close>): the JSON types and the encodings of transactions and blocks.
    Well-indexed transactions are encoded without a panic; binary encodings decode to what the
    serialization deserializes to, which is the transaction but for some legacy ones.
  \<^item> \<open>Account_Data\<close>, \<open>Account_Token\<close>, \<open>Ui_Account\<close> (\<open>account-decoder/src\<close>): the account parsers and the
    encoding of accounts, which panics only on a slot history that is too short and decodes to the
    requested slice.

  \<^bold>\<open>Interfaces.\<close>  \<open>transition_invariant\<close> is the induction over runs that \<open>Poh\<close>, \<open>Tx_Runs\<close> and
  \<open>Data_Budget\<close> share; \<open>commitment\<close> is what a proof system promises, given by \<open>Merkle_Tree\<close>;
  \<open>column_codec\<close> and \<open>slot_first_codec\<close> are what the typed columns rely on, given by each key format;
  \<open>entry_policy\<close> is what the unpacking loop relies on, given by the checkers of the two kinds of
  archive; \<open>lossless_codec\<close> is a conversion with its inverse, given by each message; and
  \<open>instruction_parser\<close> is the contract of a program's parser, given by six of the programs.

  \<^bold>\<open>Bounds.\<close>  There is no fuel: every loop of the code is a function with a termination proof.  The
  concurrent parts are step relations, and their progress is stated for an undisturbed thread.

  \<^bold>\<open>Not modelled.\<close>  Input and output (sockets, files beyond the unpacking, threads, command lines,
  logging, metrics), the loading of shared libraries, the serialization derived by serde (a JSON
  type is kept as its structure, except where the code builds the JSON value itself), tables of
  feature and key identifiers, and the decoders of third-party crates, which are parameters.
\<close>

end
